(* ===== verification/Prelude.thy ===== *)
theory Prelude
  imports Complex_Main "HOL-Library.AList" "HOL-Library.Char_ord"
begin

text \<open>
  Shared vocabulary of the development: the exceptions the services raise, JSON values and
  Python dictionaries, SQL tables as lists of rows in insertion order, the transaction
  discipline every SQLite store uses, Python's string predicates, and the lemmas on them that
  the component theories share.
\<close>

named_theorems tbl \<open>rewriting of queries and updates on tables\<close>
named_theorems wp \<open>what a composed call yields\<close>
named_theorems txn \<open>rewriting and elimination of transactions\<close>

section \<open>Exceptions\<close>

text \<open>
  One constructor per exception class the modelled code raises or catches. The argument is
  the message (or the offending identifier). \<open>is_value_error\<close> is the subclass test
  behind \<open>except ValueError\<close>: the billing, run-service and reservation errors derive
  from \<open>ValueError\<close>, the quota and runtime errors do not.
\<close>

datatype exn =
    ValueError string
  | KeyError string
  | TypeError string
  | RuntimeError string
  | IntegrityError string
  | PermissionError string
  | RunNotFound string
  | TenantMismatch string
  | IdempotencyConflict string
  | InvalidTransition string
  | ReservationConflict string
  | InsufficientCredits string
  | QuotaExceeded string int
  | OrderConflict string
  | UnknownOrder string
  | UnknownProvider string
  | ProviderConfigurationError string
  | InvalidWebhook string
  | AuthorizationDenied string
  | AuthenticationRequired string
  | OAuthCallbackError string
  | AccountCollision string
  | ReasonRequired string
  | TenantScopeError string
  | InvalidApproval string
  | AgentProviderError string
  | WorkerInterrupted string
  | FileNotFound string
  | PromptInjection string

fun is_value_error :: "exn \<Rightarrow> bool" where
  "is_value_error (KeyError _) = False"
| "is_value_error (TypeError _) = False"
| "is_value_error (RuntimeError _) = False"
| "is_value_error (IntegrityError _) = False"
| "is_value_error (PermissionError _) = False"
| "is_value_error (QuotaExceeded _ _) = False"
| "is_value_error (AuthorizationDenied _) = False"
| "is_value_error (AuthenticationRequired _) = False"
| "is_value_error (TenantScopeError _) = False"
| "is_value_error (InvalidApproval _) = False"
| "is_value_error (AgentProviderError _) = False"
| "is_value_error (WorkerInterrupted _) = False"
| "is_value_error (FileNotFound _) = False"
| "is_value_error _ = True"

section \<open>JSON values and dictionaries\<close>

text \<open>
  A Python dictionary keeps insertion order; assigning to a present key keeps its position.
  \<open>AList.update\<close> does exactly that, so \<open>{**a, **b}\<close> is \<open>dict_merge a b\<close>.
\<close>

datatype json =
    JNull
  | JBool bool
  | JInt int
  | JNum rat
  | JStr string
  | JList "json list"
  | JObj "(string \<times> json) list"

type_synonym dict = "(string \<times> json) list"

definition dict_merge :: "('k \<times> 'v) list \<Rightarrow> ('k \<times> 'v) list \<Rightarrow> ('k \<times> 'v) list" where
  "dict_merge a b = foldl (\<lambda>d (k, v). AList.update k v d) a b"

lemma map_of_dict_merge: "distinct (map fst b) \<Longrightarrow> map_of (dict_merge a b) = map_of a ++ map_of b"
proof (induction b arbitrary: a)
  case Nil
  then show ?case by (simp add: dict_merge_def)
next
  case (Cons p b)
  obtain k v where p: "p = (k, v)" by force
  have k: "map_of b k = None"
    using Cons.prems p by (simp add: map_of_eq_None_iff)
  have "map_of (dict_merge a (p # b)) = map_of (AList.update k v a) ++ map_of b"
    using Cons p by (simp add: dict_merge_def)
  also have "\<dots> = map_of a ++ map_of (p # b)"
    using k p by (auto simp: update_conv' map_add_def fun_eq_iff split: option.split)
  finally show ?case .
qed

lemma dict_merge_Nil [simp]: "dict_merge a [] = a"
  by (simp add: dict_merge_def)

section \<open>Tables\<close>

text \<open>
  A table is the list of its rows in insertion order. \<open>SELECT ... fetchone()\<close> is
  \<open>find\<close>; \<open>UPDATE ... SET f WHERE P\<close> is \<open>update_where P f\<close> and its
  \<open>rowcount\<close> is \<open>row_count P\<close>; \<open>INSERT\<close> appends. A key constraint
  (PRIMARY KEY, UNIQUE) is checked by the operation that inserts and is the predicate
  \<open>unique_by\<close> of the invariants.
\<close>

definition update_where :: "('r \<Rightarrow> bool) \<Rightarrow> ('r \<Rightarrow> 'r) \<Rightarrow> 'r list \<Rightarrow> 'r list" where
  "update_where P f t = map (\<lambda>r. if P r then f r else r) t"

definition row_count :: "('r \<Rightarrow> bool) \<Rightarrow> 'r list \<Rightarrow> nat" where
  "row_count P t = length (filter P t)"

definition unique_by :: "('r \<Rightarrow> 'k) \<Rightarrow> 'r list \<Rightarrow> bool" where
  "unique_by key t \<longleftrightarrow> distinct (map key t)"

lemma update_where_Nil [simp]: "update_where P f [] = []"
  by (simp add: update_where_def)

lemma update_where_Cons [simp]:
  "update_where P f (r # t) = (if P r then f r else r) # update_where P f t"
  by (simp add: update_where_def)

lemma update_where_append [simp]:
  "update_where P f (t @ u) = update_where P f t @ update_where P f u"
  by (simp add: update_where_def)

lemma length_update_where [simp]: "length (update_where P f t) = length t"
  by (simp add: update_where_def)

lemma map_update_where [tbl]:
  "(\<And>r. P r \<Longrightarrow> key (f r) = key r) \<Longrightarrow> map key (update_where P f t) = map key t"
  by (induction t) auto

lemma unique_by_update_where [tbl]:
  "(\<And>r. P r \<Longrightarrow> key (f r) = key r) \<Longrightarrow> unique_by key (update_where P f t) = unique_by key t"
  by (simp add: unique_by_def map_update_where)

lemma unique_by_Cons:
  "unique_by key (r # t) \<longleftrightarrow> unique_by key t \<and> (\<forall>q\<in>set t. key q \<noteq> key r)"
  unfolding unique_by_def by (simp add: image_iff) metis

lemma unique_by_append [tbl]:
  "unique_by key (t @ [r]) \<longleftrightarrow> unique_by key t \<and> (\<forall>q\<in>set t. key q \<noteq> key r)"
  unfolding unique_by_def by (simp add: image_iff) metis

lemma unique_by_Nil [simp]: "unique_by key []"
  by (simp add: unique_by_def)

lemma update_where_none:
  "(\<And>r. r \<in> set t \<Longrightarrow> \<not> P r) \<Longrightarrow> update_where P f t = t"
  by (induction t) auto

lemma in_set_update_where:
  "r \<in> set (update_where P f t) \<longleftrightarrow> (\<exists>q\<in>set t. r = (if P q then f q else q))"
  by (auto simp: update_where_def)

lemma ball_update_where [tbl]:
  "(\<forall>r\<in>set (update_where P f t). Q r) \<longleftrightarrow> (\<forall>r\<in>set t. Q (if P r then f r else r))"
  by (induction t) auto

lemma bex_update_where [tbl]:
  "(\<exists>r\<in>set (update_where P f t). Q r) \<longleftrightarrow> (\<exists>r\<in>set t. Q (if P r then f r else r))"
  by (induction t) auto

lemma find_update_where_same [tbl]:
  "(\<And>r. Q (f r) = Q r) \<Longrightarrow>
   find Q (update_where P f t) = map_option (\<lambda>r. if P r then f r else r) (find Q t)"
  by (induction t) auto

lemma find_append: "find P (t @ u) = (case find P t of None \<Rightarrow> find P u | Some r \<Rightarrow> Some r)"
  by (induction t) auto

lemma find_None_iff_set: "find P t = None \<longleftrightarrow> (\<forall>r\<in>set t. \<not> P r)"
  by (induction t) auto

lemma find_SomeD: "find P t = Some r \<Longrightarrow> r \<in> set t \<and> P r"
  by (induction t) (auto split: if_splits)

lemma unique_by_inj:
  "unique_by key t \<Longrightarrow> r \<in> set t \<Longrightarrow> q \<in> set t \<Longrightarrow> key r = key q \<Longrightarrow> r = q"
  by (auto simp: unique_by_def distinct_map dest: inj_onD)

lemma find_key_unique:
  "unique_by key t \<Longrightarrow> r \<in> set t \<Longrightarrow> find (\<lambda>q. key q = key r) t = Some r"
proof -
  assume u: "unique_by key t" and r: "r \<in> set t"
  have "find (\<lambda>q. key q = key r) t \<noteq> None"
    using r by (auto simp: find_None_iff_set)
  then obtain q where q: "find (\<lambda>q. key q = key r) t = Some q" by blast
  then have "q \<in> set t" "key q = key r" by (auto dest: find_SomeD)
  then show ?thesis using unique_by_inj [OF u r] q by force
qed

lemma row_count_key_unique:
  "unique_by key t \<Longrightarrow> row_count (\<lambda>q. key q = k \<and> P q) t \<le> 1"
proof (induction t)
  case Nil
  then show ?case by (simp add: row_count_def)
next
  case (Cons r t)
  show ?case
  proof (cases "key r = k \<and> P r")
    case True
    with Cons.prems have "\<forall>q\<in>set t. key q \<noteq> k" by (auto simp: unique_by_Cons)
    then have "filter (\<lambda>q. key q = k \<and> P q) t = []" by (auto simp: filter_empty_conv)
    with True show ?thesis by (simp add: row_count_def)
  next
    case False
    then show ?thesis using Cons by (auto simp: row_count_def unique_by_Cons)
  qed
qed

lemma row_count_pos: "r \<in> set t \<Longrightarrow> P r \<Longrightarrow> 0 < row_count P t"
  by (auto simp: row_count_def filter_empty_conv)

lemma row_count_exists: "row_count P t \<noteq> 0 \<Longrightarrow> \<exists>r\<in>set t. P r"
  by (auto simp: row_count_def filter_empty_conv)

lemma update_where_cong:
  "(\<And>r. r \<in> set t \<Longrightarrow> P r = Q r) \<Longrightarrow> update_where P f t = update_where Q f t"
  by (induction t) auto

lemma update_where_guard:
  assumes "unique_by key t" and "r \<in> set t" and "key r = k" and "G r"
  shows "update_where (\<lambda>q. key q = k \<and> G q) f t = update_where (\<lambda>q. key q = k) f t"
  using assms by (intro update_where_cong) (auto dest: unique_by_inj)

text \<open>Updating the one row that carries a key changes a sum over the table by that row's change.\<close>

lemma sum_update_where:
  fixes g :: "'r \<Rightarrow> int"
  assumes "unique_by key t" and "r \<in> set t"
  shows "(\<Sum>q\<leftarrow>update_where (\<lambda>q. key q = key r) f t. g q) = (\<Sum>q\<leftarrow>t. g q) - g r + g (f r)"
  using assms
proof (induction t)
  case Nil
  then show ?case by simp
next
  case (Cons q t)
  show ?case
  proof (cases "q = r")
    case True
    with Cons.prems have "\<And>x. x \<in> set t \<Longrightarrow> key x \<noteq> key r"
      by (auto simp: unique_by_Cons)
    then have "update_where (\<lambda>q. key q = key r) f t = t"
      by (intro update_where_none) blast
    with True show ?thesis by simp
  next
    case False
    with Cons.prems have "r \<in> set t" "unique_by key t" "key q \<noteq> key r"
      by (auto simp: unique_by_Cons)
    with Cons.IH show ?thesis by simp
  qed
qed

section \<open>Transactions\<close>

text \<open>
  The \<open>_Transaction\<close> context manager of every store: \<open>BEGIN IMMEDIATE\<close> under the
  lock, \<open>ROLLBACK\<close> when the body raises, \<open>COMMIT\<close> otherwise. The body is a
  function to an exception or a result with a new database; \<open>atomically\<close> keeps the old
  database on an exception.
\<close>

definition atomically :: "('s \<Rightarrow> exn + ('a \<times> 's)) \<Rightarrow> 's \<Rightarrow> (exn + 'a) \<times> 's" where
  "atomically body s = (case body s of Inl e \<Rightarrow> (Inl e, s) | Inr (x, s') \<Rightarrow> (Inr x, s'))"

lemma atomically_Inl [txn]: "body s = Inl e \<Longrightarrow> atomically body s = (Inl e, s)"
  by (simp add: atomically_def)

lemma atomically_Inr [txn]: "body s = Inr (x, s') \<Longrightarrow> atomically body s = (Inr x, s')"
  by (simp add: atomically_def)

lemma atomically_InlD: "atomically body s = (Inl e, s') \<Longrightarrow> s' = s \<and> body s = Inl e"
  by (auto simp: atomically_def split: sum.splits)

lemma atomically_InrD: "atomically body s = (Inr x, s') \<Longrightarrow> body s = Inr (x, s')"
  by (auto simp: atomically_def split: sum.splits)

lemma atomically_preserves:
  assumes "\<And>x s'. body s = Inr (x, s') \<Longrightarrow> I s'" and "I s"
  shows "I (snd (atomically body s))"
  using assms by (auto simp: atomically_def split: sum.splits)

text \<open>Sequencing: an exception skips the rest.\<close>

definition and_then :: "(exn + 'a) \<times> 's \<Rightarrow> ('a \<Rightarrow> 's \<Rightarrow> (exn + 'b) \<times> 's) \<Rightarrow> (exn + 'b) \<times> 's" where
  "and_then m k = (case m of (Inl e, s) \<Rightarrow> (Inl e, s) | (Inr x, s) \<Rightarrow> k x s)"

lemma and_then_simps [simp]:
  "and_then (Inl e, s) k = (Inl e, s)" "and_then (Inr x, s) k = k x s"
  by (simp_all add: and_then_def)

lemma and_then_E:
  assumes "and_then m k = (r, s')"
  obtains (raised) e where "m = (Inl e, s')" "r = Inl e"
  | (went_on) x s1 where "m = (Inr x, s1)" "k x s1 = (r, s')"
  using assms by (auto simp: and_then_def split: prod.splits sum.splits)

text \<open>
  \<open>yields E Q m\<close>: if the call raises then \<open>E\<close> holds of the exception and the state, else
  \<open>Q\<close> of the result and the state. The collection \<open>wp\<close> computes it through the code.
\<close>

definition yields :: "(exn \<Rightarrow> 's \<Rightarrow> bool) \<Rightarrow> ('a \<Rightarrow> 's \<Rightarrow> bool) \<Rightarrow> (exn + 'a) \<times> 's \<Rightarrow> bool" where
  "yields E Q m \<longleftrightarrow> (case m of (Inl e, s) \<Rightarrow> E e s | (Inr x, s) \<Rightarrow> Q x s)"

lemma yields_simps [simp, wp]:
  "yields E Q (Inl e, s) = E e s" "yields E Q (Inr x, s) = Q x s"
  by (simp_all add: yields_def)

lemma yields_and_then [wp]: "yields E Q (and_then m k) = yields E (\<lambda>x s. yields E Q (k x s)) m"
  by (simp add: yields_def and_then_def split: prod.splits sum.splits)

lemma yields_mono:
  "yields E Q m \<Longrightarrow> (\<And>e s. E e s \<Longrightarrow> E' e s) \<Longrightarrow> (\<And>x s. Q x s \<Longrightarrow> Q' x s) \<Longrightarrow> yields E' Q' m"
  by (auto simp: yields_def split: prod.splits sum.splits)

lemma yields_snd: "yields (\<lambda>_. I) (\<lambda>_. I) m \<Longrightarrow> I (snd m)"
  by (auto simp: yields_def split: prod.splits sum.splits)

lemma yieldsD:
  "yields E Q m \<Longrightarrow> m = (Inr x, s) \<Longrightarrow> Q x s" "yields E Q m \<Longrightarrow> m = (Inl e, s) \<Longrightarrow> E e s"
  by simp_all

text \<open>To name the outcome of an evaluated call in a witness.\<close>

lemma run_obtain:
  assumes "case m of Inl e \<Rightarrow> False | Inr (c, s) \<Rightarrow> Q c s"
  obtains c s where "m = Inr (c, s)" "Q c s"
  using assms by (auto split: sum.splits prod.splits)

lemma call_obtain:
  assumes "case m of (Inl e, s) \<Rightarrow> False | (Inr x, s) \<Rightarrow> Q x s"
  obtains x s where "m = (Inr x, s)" "Q x s"
proof (cases m)
  case (Pair r s)
  with assms that show thesis by (cases r) auto
qed

lemma value_obtain:
  assumes "case m of Inl e \<Rightarrow> False | Inr x \<Rightarrow> Q x"
  obtains x where "m = Inr x" "Q x"
  using assms by (auto split: sum.splits)

section \<open>Text\<close>

text \<open>
  Python's \<open>str.isspace\<close> on code points below 256, \<open>str.strip\<close>,
  \<open>str.startswith\<close> and \<open>str.lower\<close> on ASCII letters.
\<close>

definition is_space :: "char \<Rightarrow> bool" where
  "is_space c \<longleftrightarrow> (let n = (of_char c :: nat) in
     n = 32 \<or> (9 \<le> n \<and> n \<le> 13) \<or> (28 \<le> n \<and> n \<le> 31) \<or> n = 133 \<or> n = 160)"

definition blank :: "string \<Rightarrow> bool" where
  "blank s \<longleftrightarrow> list_all is_space s"

definition strip :: "string \<Rightarrow> string" where
  "strip s = rev (dropWhile is_space (rev (dropWhile is_space s)))"

definition starts_with :: "string \<Rightarrow> string \<Rightarrow> bool" where
  "starts_with s p \<longleftrightarrow> take (length p) s = p"

definition lower_char :: "char \<Rightarrow> char" where
  "lower_char c = (let n = (of_char c :: nat) in if 65 \<le> n \<and> n \<le> 90 then char_of (n + 32) else c)"

definition lower :: "string \<Rightarrow> string" where
  "lower s = map lower_char s"

definition upper_char :: "char \<Rightarrow> char" where
  "upper_char c = (let n = (of_char c :: nat) in if 97 \<le> n \<and> n \<le> 122 then char_of (n - 32) else c)"

definition upper :: "string \<Rightarrow> string" where
  "upper s = map upper_char s"

lemma blank_Nil [simp]: "blank []"
  by (simp add: blank_def)

lemma blank_iff_strip: "blank s \<longleftrightarrow> strip s = []"
  by (auto simp: blank_def strip_def list_all_iff dropWhile_eq_Nil_conv dest: set_dropWhileD)
     (metis dropWhile_eq_Nil_conv hd_dropWhile hd_in_set list.set_sel(1) set_dropWhileD)

lemma not_blank_nonempty: "\<not> blank s \<Longrightarrow> s \<noteq> []"
  by auto

end
