(* ===== verification/Ports.thy ===== *)
theory Ports
  imports Prelude
begin

text \<open>
  The capability ports of \<open>services/metering_billing/ports.py\<close> and
  \<open>quota.py\<close>: what the run service and the agent worker may call, as records of
  functions (the injected objects), and what they rely on, as locales. The SQLite
  implementations are interpreted in \<open>Credit_Ledger\<close> and \<open>Quota\<close>.
\<close>

section \<open>Credit reservations\<close>

datatype reservation_status = Reserved | Committed | Released

record credit_reservation =
  cr_id :: string
  cr_tenant :: string
  cr_account :: string
  cr_run :: string
  cr_units :: int
  cr_key :: string
  cr_status :: reservation_status

record credit_commit =
  cc_reservation :: string
  cc_account :: string
  cc_used :: int
  cc_key :: string

text \<open>
  \<open>CreditReservationPort\<close>. The last arguments are the hex digits of a fresh uuid, the
  clock reading, and the port's own state.
\<close>

record 'd credit_port =
  p_reserve :: "string \<Rightarrow> string \<Rightarrow> string \<Rightarrow> int \<Rightarrow> string \<Rightarrow> string \<Rightarrow> string \<Rightarrow> 'd \<Rightarrow>
    exn + (credit_reservation \<times> 'd)"
  p_release :: "string \<Rightarrow> string \<Rightarrow> string \<Rightarrow> 'd \<Rightarrow> exn + (credit_reservation \<times> 'd)"
  p_commit :: "string \<Rightarrow> int \<Rightarrow> string \<Rightarrow> string \<Rightarrow> string \<Rightarrow> 'd \<Rightarrow> exn + (credit_commit \<times> 'd)"

locale credit_port_laws =
  fixes P :: "'d credit_port"
    and inv :: "'d \<Rightarrow> bool"
    and status :: "'d \<Rightarrow> string \<Rightarrow> reservation_status option"
    and fresh :: "'d \<Rightarrow> string \<Rightarrow> bool"
  assumes reserve_inv: "inv d \<Longrightarrow> p_reserve P t a r n k u w d = Inr (c, d') \<Longrightarrow> inv d'"
    and release_inv: "inv d \<Longrightarrow> p_release P rid k w d = Inr (c', d') \<Longrightarrow> inv d'"
    and commit_inv: "inv d \<Longrightarrow> p_commit P rid n k u w d = Inr (c'', d') \<Longrightarrow> inv d'"
    and reserve_status: "inv d \<Longrightarrow> p_reserve P t a r n k u w d = Inr (c, d') \<Longrightarrow>
      status d' = (status d)(cr_id c \<mapsto> cr_status c) \<and> cr_id c \<noteq> []"
    and release_total: "inv d \<Longrightarrow> status d rid \<noteq> None \<Longrightarrow> \<exists>c d'. p_release P rid k w d = Inr (c, d')"
    and release_status: "inv d \<Longrightarrow> p_release P rid k w d = Inr (c', d') \<Longrightarrow>
      status d' = (status d)(rid \<mapsto> (if status d rid = Some Committed then Committed else Released))"
    and commit_status: "inv d \<Longrightarrow> p_commit P rid n k u w d = Inr (c'', d') \<Longrightarrow>
      status d' = (status d)(rid \<mapsto> Committed)"
    and commit_errors: "inv d \<Longrightarrow> status d rid \<noteq> None \<Longrightarrow> fresh d u \<Longrightarrow>
      p_commit P rid n k u w d = Inl e \<Longrightarrow> is_value_error e"
    and commit_again: "inv d \<Longrightarrow> p_commit P rid n k u w d = Inr (c'', d') \<Longrightarrow>
      p_commit P rid n k u' w' d' = Inr (c'', d')"

section \<open>Quota counters\<close>

record quota_snapshot =
  qs_scope :: string
  qs_period :: int
  qs_runs :: int
  qs_units :: int
  qs_max_runs :: int
  qs_max_units :: int

text \<open>
  \<open>QuotaCounterPort\<close>. The counter reads the clock when it admits and again when it
  takes the snapshot it returns: the pair before the state.
\<close>

record 'q quota_port =
  q_reserve :: "string \<Rightarrow> string \<Rightarrow> int \<Rightarrow> int \<times> int \<Rightarrow> 'q \<Rightarrow> exn + (quota_snapshot \<times> 'q)"
  q_release :: "string \<Rightarrow> 'q \<Rightarrow> exn + (unit \<times> 'q)"

locale quota_port_laws =
  fixes Q :: "'q quota_port"
    and qinv :: "'q \<Rightarrow> bool"
    and admitted :: "'q \<Rightarrow> string \<Rightarrow> bool"
  assumes q_reserve_inv: "qinv q \<Longrightarrow> q_reserve Q s r n p q = Inr (x, q') \<Longrightarrow> qinv q'"
    and q_release_inv: "qinv q \<Longrightarrow> q_release Q r q = Inr (y, q') \<Longrightarrow> qinv q'"
    and q_reserve_admits: "qinv q \<Longrightarrow> q_reserve Q s r n p q = Inr (x, q') \<Longrightarrow>
      admitted q' = (admitted q)(r := True)"
    and q_release_total: "qinv q \<Longrightarrow> \<exists>q'. q_release Q r q = Inr ((), q')"
    and q_release_frees: "qinv q \<Longrightarrow> q_release Q r q = Inr (y, q') \<Longrightarrow>
      admitted q' = (admitted q)(r := False)"

end
