(* ===== verification/Credit_Ledger.thy ===== *)
theory Credit_Ledger
  imports Ports
begin

text \<open>
  The credit reservations of \<open>services/metering_billing/runtime.py\<close>
  (\<open>SQLiteCreditLedger\<close>): the tables \<open>credit_accounts\<close>,
  \<open>run_credit_reservations\<close>, \<open>run_credit_ledger\<close> and
  \<open>credit_adjustments\<close>, every method as a transaction body, the invariant of the
  tables, and the behaviour of each method. Clock readings and the hex digits of
  \<open>uuid4\<close> are arguments (\<open>now\<close>, \<open>uid\<close>).
\<close>

section \<open>State\<close>

record credit_account =
  acc_id :: string
  acc_balance :: int

record reservation_row =
  rsv_id :: string
  rsv_tenant :: string
  rsv_account :: string
  rsv_run :: string
  rsv_units :: int
  rsv_key :: string
  rsv_status :: reservation_status
  rsv_created_at :: string
  rsv_updated_at :: string

record ledger_row =
  led_id :: string
  led_reservation :: string
  led_account :: string
  led_amount :: int
  led_key :: string
  led_reason :: string
  led_created_at :: string

record adjustment_row =
  adj_id :: string
  adj_account :: string
  adj_amount :: int
  adj_key :: string
  adj_reason :: string
  adj_created_at :: string

record credit_db =
  accounts :: "credit_account list"
  reservations :: "reservation_row list"
  ledger :: "ledger_row list"
  adjustments :: "adjustment_row list"

definition empty_credit_db :: credit_db where
  "empty_credit_db = \<lparr>accounts = [], reservations = [], ledger = [], adjustments = []\<rparr>"

section \<open>Operations\<close>

definition to_reservation :: "reservation_row \<Rightarrow> credit_reservation" where
  "to_reservation r = \<lparr>cr_id = rsv_id r, cr_tenant = rsv_tenant r, cr_account = rsv_account r,
     cr_run = rsv_run r, cr_units = rsv_units r, cr_key = rsv_key r, cr_status = rsv_status r\<rparr>"

definition find_account :: "string \<Rightarrow> credit_account list \<Rightarrow> credit_account option" where
  "find_account a t = find (\<lambda>r. acc_id r = a) t"

text \<open>\<open>SELECT COALESCE(SUM(units), 0) ... WHERE account_id = ? AND status = 'reserved'\<close>\<close>

definition held_by :: "string \<Rightarrow> reservation_row \<Rightarrow> int" where
  "held_by a r = (if rsv_account r = a \<and> rsv_status r = Reserved then rsv_units r else 0)"

definition held :: "string \<Rightarrow> reservation_row list \<Rightarrow> int" where
  "held a t = (\<Sum>r\<leftarrow>t. held_by a r)"

definition available :: "string \<Rightarrow> credit_db \<Rightarrow> int" where
  "available a db = (case find_account a (accounts db) of
     None \<Rightarrow> 0
   | Some acc \<Rightarrow> acc_balance acc - held a (reservations db))"

text \<open>\<open>INSERT INTO credit_accounts ... ON CONFLICT(account_id) DO NOTHING\<close>\<close>

definition ensure_account :: "string \<Rightarrow> int \<Rightarrow> credit_account list \<Rightarrow> credit_account list" where
  "ensure_account a b t =
     (case find_account a t of Some _ \<Rightarrow> t | None \<Rightarrow> t @ [\<lparr>acc_id = a, acc_balance = b\<rparr>])"

text \<open>The loop over \<open>initial_balances\<close> in the constructor (autocommitted inserts).\<close>

fun init_balances :: "(string \<times> int) list \<Rightarrow> credit_db \<Rightarrow> (exn + unit) \<times> credit_db" where
  "init_balances [] db = (Inr (), db)"
| "init_balances ((a, b) # rest) db =
     (if b < 0 then (Inl (ValueError ''initial credit balances must be non-negative integers''), db)
      else init_balances rest (db\<lparr>accounts := ensure_account a b (accounts db)\<rparr>))"

definition reservation_name :: "string \<Rightarrow> string" where
  "reservation_name uid = ''reservation-'' @ uid"

lemma reservation_name_neq [simp]: "reservation_name uid \<noteq> []" "[] \<noteq> reservation_name uid"
  by (simp_all add: reservation_name_def)

definition reserve :: "string \<Rightarrow> string \<Rightarrow> string \<Rightarrow> int \<Rightarrow> string \<Rightarrow> string \<Rightarrow> string \<Rightarrow>
    credit_db \<Rightarrow> exn + (credit_reservation \<times> credit_db)" where
  "reserve tenant account run units key uid now db =
     (if blank tenant \<or> blank account \<or> blank run \<or> blank key
      then Inl (ValueError ''reservation identity fields must be non-empty'')
      else if units \<le> 0 then Inl (ValueError ''reservation units must be a positive integer'')
      else case find (\<lambda>r. rsv_key r = key) (reservations db) of
        Some r \<Rightarrow>
          (if (rsv_tenant r, rsv_account r, rsv_run r, rsv_units r) \<noteq> (tenant, account, run, units)
           then Inl (ReservationConflict ''reservation idempotency key is already used'')
           else Inr (to_reservation r, db))
      | None \<Rightarrow>
          (case find_account account (accounts db) of
             None \<Rightarrow> Inl (InsufficientCredits account)
           | Some acc \<Rightarrow>
               (if acc_balance acc - held account (reservations db) < units
                then Inl (InsufficientCredits account)
                else let rid = reservation_name uid;
                         row = \<lparr>rsv_id = rid, rsv_tenant = tenant, rsv_account = account,
                                rsv_run = run, rsv_units = units, rsv_key = key,
                                rsv_status = Reserved, rsv_created_at = now, rsv_updated_at = now\<rparr>
                     in if \<exists>r\<in>set (reservations db). rsv_id r = rid
                        then Inl (IntegrityError ''run_credit_reservations.reservation_id'')
                        else Inr (to_reservation row,
                                  db\<lparr>reservations := reservations db @ [row]\<rparr>))))"

definition set_status :: "string \<Rightarrow> reservation_status \<Rightarrow> string \<Rightarrow> credit_db \<Rightarrow> credit_db" where
  "set_status rid st now db = db\<lparr>reservations :=
     update_where (\<lambda>r. rsv_id r = rid) (\<lambda>r. r\<lparr>rsv_status := st, rsv_updated_at := now\<rparr>) (reservations db)\<rparr>"

definition release :: "string \<Rightarrow> string \<Rightarrow> string \<Rightarrow> credit_db \<Rightarrow>
    exn + (credit_reservation \<times> credit_db)" where
  "release rid key now db =
     (case find (\<lambda>r. rsv_id r = rid) (reservations db) of
        None \<Rightarrow> Inl (KeyError rid)
      | Some r \<Rightarrow>
          (if rsv_status r = Committed then Inr (to_reservation r, db)
           else if rsv_status r = Released then Inr (to_reservation r, db)
           else let db' = set_status rid Released now db
                in case find (\<lambda>r. rsv_id r = rid) (reservations db') of
                     None \<Rightarrow> Inl (TypeError ''row is None'')
                   | Some r' \<Rightarrow> Inr (to_reservation r', db')))"

text \<open>\<open>UPDATE credit_accounts SET balance = balance - ? WHERE account_id = ? AND balance >= ?\<close>\<close>

definition debit_matches :: "string \<Rightarrow> int \<Rightarrow> credit_account \<Rightarrow> bool" where
  "debit_matches a n acc \<longleftrightarrow> acc_id acc = a \<and> n \<le> acc_balance acc"

definition commit :: "string \<Rightarrow> int \<Rightarrow> string \<Rightarrow> string \<Rightarrow> string \<Rightarrow> credit_db \<Rightarrow>
    exn + (credit_commit \<times> credit_db)" where
  "commit rid used key uid now db =
     (if used < 0 then Inl (ValueError ''used units must be a non-negative integer'')
      else case find (\<lambda>r. rsv_id r = rid) (reservations db) of
        None \<Rightarrow> Inl (KeyError rid)
      | Some r \<Rightarrow>
          (case find (\<lambda>e. led_key e = key) (ledger db) of
             Some e \<Rightarrow>
               (if led_reservation e \<noteq> rid \<or> led_amount e \<noteq> - used
                then Inl (ReservationConflict ''commit idempotency key is already used'')
                else Inr (\<lparr>cc_reservation = rid, cc_account = led_account e, cc_used = used, cc_key = key\<rparr>, db))
           | None \<Rightarrow>
               (if rsv_status r = Released
                then Inl (ReservationConflict ''released reservation cannot be committed'')
                else if rsv_units r < used
                then Inl (ValueError ''actual usage exceeds the reserved units'')
                else if rsv_status r = Committed
                then Inl (ReservationConflict ''reservation was committed with another key'')
                else if row_count (debit_matches (rsv_account r) used) (accounts db) \<noteq> 1
                then Inl (InsufficientCredits (rsv_account r))
                else if \<exists>e\<in>set (ledger db). led_id e = uid
                then Inl (IntegrityError ''run_credit_ledger.entry_id'')
                else Inr (\<lparr>cc_reservation = rid, cc_account = rsv_account r, cc_used = used, cc_key = key\<rparr>,
                  set_status rid Committed now (db\<lparr>
                    accounts := update_where (debit_matches (rsv_account r) used)
                      (\<lambda>a. a\<lparr>acc_balance := acc_balance a - used\<rparr>) (accounts db),
                    ledger := ledger db @ [\<lparr>led_id = uid, led_reservation = rid, led_account = rsv_account r,
                      led_amount = - used, led_key = key, led_reason = ''run usage'', led_created_at = now\<rparr>]\<rparr>)))))"

text \<open>
  \<open>UPDATE credit_accounts SET balance = balance + ? WHERE account_id = ? AND balance + ? - ? >= 0\<close>
\<close>

definition credit_matches :: "string \<Rightarrow> int \<Rightarrow> int \<Rightarrow> credit_account \<Rightarrow> bool" where
  "credit_matches a amount h acc \<longleftrightarrow> acc_id acc = a \<and> 0 \<le> acc_balance acc + amount - h"

definition adjust :: "string \<Rightarrow> int \<Rightarrow> string \<Rightarrow> string \<Rightarrow> string \<Rightarrow> string \<Rightarrow> credit_db \<Rightarrow>
    exn + (int \<times> credit_db)" where
  "adjust account amount key reason uid now db =
     (if blank account then Inl (ValueError ''account id must be non-empty'')
      else if amount = 0 then Inl (ValueError ''credit adjustment must be a non-zero integer'')
      else if length key < 8
      then Inl (ValueError ''credit adjustment idempotency key must be at least 8 characters'')
      else if blank reason then Inl (ValueError ''credit adjustment reason must be non-empty'')
      else case find (\<lambda>j. adj_key j = key) (adjustments db) of
        Some j \<Rightarrow>
          (if adj_account j \<noteq> account \<or> adj_amount j \<noteq> amount
           then Inl (ReservationConflict ''credit adjustment idempotency key is already used'')
           else Inr (available account db, db))
      | None \<Rightarrow>
          (let accs = ensure_account account 0 (accounts db);
               h = held account (reservations db)
           in if row_count (credit_matches account amount h) accs \<noteq> 1
              then Inl (InsufficientCredits account)
              else if \<exists>j\<in>set (adjustments db). adj_id j = uid
              then Inl (IntegrityError ''credit_adjustments.adjustment_id'')
              else let db' = db\<lparr>
                     accounts := update_where (credit_matches account amount h)
                       (\<lambda>a. a\<lparr>acc_balance := acc_balance a + amount\<rparr>) accs,
                     adjustments := adjustments db @ [\<lparr>adj_id = uid, adj_account = account,
                       adj_amount = amount, adj_key = key, adj_reason = reason, adj_created_at = now\<rparr>]\<rparr>
                   in Inr (available account db', db')))"

text \<open>\<open>reservations()\<close> and \<open>commits()\<close>; rows are inserted in order of creation.\<close>

definition all_reservations :: "credit_db \<Rightarrow> credit_reservation list" where
  "all_reservations db = map to_reservation (reservations db)"

definition commits :: "credit_db \<Rightarrow> credit_commit list" where
  "commits db = map (\<lambda>e. \<lparr>cc_reservation = led_reservation e, cc_account = led_account e,
     cc_used = - led_amount e, cc_key = led_key e\<rparr>) (ledger db)"

section \<open>Characteristic cases of the operations\<close>

lemma find_account_Some: "find_account a t = Some acc \<Longrightarrow> acc \<in> set t \<and> acc_id acc = a"
  by (auto simp: find_account_def dest: find_SomeD)

lemma find_account_None: "find_account a t = None \<longleftrightarrow> (\<forall>acc\<in>set t. acc_id acc \<noteq> a)"
  by (auto simp: find_account_def find_None_iff_set)

lemma find_account_unique: "unique_by acc_id t \<Longrightarrow> acc \<in> set t \<Longrightarrow> find_account (acc_id acc) t = Some acc"
  unfolding find_account_def by (rule find_key_unique)

lemma reserve_InrE:
  assumes "reserve tenant account run units key uid now db = Inr (c, db')"
  obtains (replay) r where "find (\<lambda>r. rsv_key r = key) (reservations db) = Some r"
      and "rsv_tenant r = tenant" "rsv_account r = account" "rsv_run r = run" "rsv_units r = units"
      and "c = to_reservation r" "db' = db" "0 < units"
  | (fresh) acc row where "find (\<lambda>r. rsv_key r = key) (reservations db) = None"
      and "find_account account (accounts db) = Some acc"
      and "held account (reservations db) + units \<le> acc_balance acc" "0 < units"
      and "\<forall>r\<in>set (reservations db). rsv_id r \<noteq> reservation_name uid"
      and "row = \<lparr>rsv_id = reservation_name uid, rsv_tenant = tenant, rsv_account = account,
             rsv_run = run, rsv_units = units, rsv_key = key, rsv_status = Reserved,
             rsv_created_at = now, rsv_updated_at = now\<rparr>"
      and "c = to_reservation row" "db' = db\<lparr>reservations := reservations db @ [row]\<rparr>"
proof (cases "find (\<lambda>r. rsv_key r = key) (reservations db)")
  case (Some r)
  with assms show thesis
    by (auto simp: reserve_def split: if_splits intro: replay)
next
  case None
  with assms obtain acc where acc: "find_account account (accounts db) = Some acc"
    by (auto simp: reserve_def split: if_splits option.splits)
  from assms None acc show thesis
    by (intro fresh [OF None acc _ _ _ refl]) (auto simp: reserve_def Let_def split: if_splits)
qed

lemma release_InrE:
  assumes "release rid key now db = Inr (c, db')"
  obtains (final) r where "find (\<lambda>r. rsv_id r = rid) (reservations db) = Some r"
      and "rsv_status r \<noteq> Reserved" "c = to_reservation r" "db' = db"
  | (freed) r where "find (\<lambda>r. rsv_id r = rid) (reservations db) = Some r"
      and "rsv_status r = Reserved" "db' = set_status rid Released now db"
      and "c = to_reservation (r\<lparr>rsv_status := Released, rsv_updated_at := now\<rparr>)"
proof -
  from assms obtain r where r: "find (\<lambda>r. rsv_id r = rid) (reservations db) = Some r"
    by (auto simp: release_def split: option.splits)
  have id: "rsv_id r = rid" using find_SomeD [OF r] by simp
  have "find (\<lambda>r. rsv_id r = rid) (reservations (set_status rid Released now db)) =
      Some (r\<lparr>rsv_status := Released, rsv_updated_at := now\<rparr>)"
    using r id by (simp add: set_status_def find_update_where_same)
  with assms r show thesis
    by (cases "rsv_status r") (auto simp: release_def Let_def intro: final freed)
qed

lemma commit_InrE:
  assumes "commit rid used key uid now db = Inr (c, db')"
  obtains (replay) e r where "find (\<lambda>e. led_key e = key) (ledger db) = Some e"
      and "find (\<lambda>r. rsv_id r = rid) (reservations db) = Some r"
      and "led_reservation e = rid" "led_amount e = - used" "db' = db" "0 \<le> used"
      and "c = \<lparr>cc_reservation = rid, cc_account = led_account e, cc_used = used, cc_key = key\<rparr>"
  | (fresh) r e where "find (\<lambda>e. led_key e = key) (ledger db) = None"
      and "find (\<lambda>r. rsv_id r = rid) (reservations db) = Some r" "rsv_status r = Reserved"
      and "used \<le> rsv_units r" "0 \<le> used"
      and "row_count (debit_matches (rsv_account r) used) (accounts db) = 1"
      and "\<forall>e\<in>set (ledger db). led_id e \<noteq> uid"
      and "e = \<lparr>led_id = uid, led_reservation = rid, led_account = rsv_account r,
             led_amount = - used, led_key = key, led_reason = ''run usage'', led_created_at = now\<rparr>"
      and "c = \<lparr>cc_reservation = rid, cc_account = rsv_account r, cc_used = used, cc_key = key\<rparr>"
      and "db' = set_status rid Committed now (db\<lparr>
             accounts := update_where (debit_matches (rsv_account r) used)
               (\<lambda>a. a\<lparr>acc_balance := acc_balance a - used\<rparr>) (accounts db),
             ledger := ledger db @ [e]\<rparr>)"
proof -
  from assms obtain r where used: "0 \<le> used" and r: "find (\<lambda>r. rsv_id r = rid) (reservations db) = Some r"
    by (auto simp: commit_def split: if_splits option.splits)
  show thesis
  proof (cases "find (\<lambda>e. led_key e = key) (ledger db)")
    case (Some e)
    with assms used r show thesis
      by (auto simp: commit_def split: if_splits intro: replay)
  next
    case None
    from assms used r None show thesis
      by (intro fresh [OF None r _ _ _ _ _ refl]; cases "rsv_status r") (auto simp: commit_def split: if_splits)
  qed
qed

lemma adjust_InrE:
  assumes "adjust account amount key reason uid now db = Inr (b, db')"
  obtains (replay) j where "find (\<lambda>j. adj_key j = key) (adjustments db) = Some j"
      and "adj_account j = account" "adj_amount j = amount" "b = available account db" "db' = db"
  | (fresh) accs j where "find (\<lambda>j. adj_key j = key) (adjustments db) = None"
      and "accs = ensure_account account 0 (accounts db)"
      and "row_count (credit_matches account amount (held account (reservations db))) accs = 1"
      and "\<forall>j\<in>set (adjustments db). adj_id j \<noteq> uid" "amount \<noteq> 0"
      and "j = \<lparr>adj_id = uid, adj_account = account, adj_amount = amount, adj_key = key,
             adj_reason = reason, adj_created_at = now\<rparr>"
      and "db' = db\<lparr>accounts := update_where (credit_matches account amount (held account (reservations db)))
             (\<lambda>a. a\<lparr>acc_balance := acc_balance a + amount\<rparr>) accs,
             adjustments := adjustments db @ [j]\<rparr>"
      and "b = available account db'"
proof (cases "find (\<lambda>j. adj_key j = key) (adjustments db)")
  case (Some j)
  with assms show thesis
    by (auto simp: adjust_def split: if_splits intro: replay)
next
  case None
  from assms None show thesis
    by (intro fresh [OF None refl _ _ _ refl]) (auto simp: adjust_def Let_def split: if_splits)
qed

section \<open>Accounts\<close>

definition balance_of :: "string \<Rightarrow> credit_account list \<Rightarrow> int" where
  "balance_of a t = (case find_account a t of None \<Rightarrow> 0 | Some acc \<Rightarrow> acc_balance acc)"

definition add_balance :: "string \<Rightarrow> int \<Rightarrow> credit_account list \<Rightarrow> credit_account list" where
  "add_balance a d t = update_where (\<lambda>acc. acc_id acc = a) (\<lambda>acc. acc\<lparr>acc_balance := acc_balance acc + d\<rparr>) t"

lemma debit_matches_fun: "debit_matches a n = (\<lambda>acc. acc_id acc = a \<and> n \<le> acc_balance acc)"
  by (simp add: debit_matches_def fun_eq_iff)

lemma credit_matches_fun:
  "credit_matches a n h = (\<lambda>acc. acc_id acc = a \<and> 0 \<le> acc_balance acc + n - h)"
  by (simp add: credit_matches_def fun_eq_iff)

lemma debit_as_add:
  assumes "unique_by acc_id t" and "row_count (debit_matches a n) t = 1"
  obtains acc where "acc \<in> set t" "acc_id acc = a" "n \<le> acc_balance acc"
    "update_where (debit_matches a n) (\<lambda>x. x\<lparr>acc_balance := acc_balance x - n\<rparr>) t = add_balance a (- n) t"
proof -
  from assms(2) obtain acc where acc: "acc \<in> set t" "debit_matches a n acc"
    using row_count_exists [of "debit_matches a n" t] by auto
  have "update_where (debit_matches a n) (\<lambda>x. x\<lparr>acc_balance := acc_balance x - n\<rparr>) t = add_balance a (- n) t"
    using update_where_guard [OF assms(1) acc(1), where G = "\<lambda>x. n \<le> acc_balance x" and k = a] acc(2)
    by (simp add: add_balance_def debit_matches_fun)
  with acc that show thesis by (auto simp: debit_matches_def)
qed

lemma credit_as_add:
  assumes "unique_by acc_id t" and "row_count (credit_matches a n h) t = 1"
  obtains acc where "acc \<in> set t" "acc_id acc = a" "0 \<le> acc_balance acc + n - h"
    "update_where (credit_matches a n h) (\<lambda>x. x\<lparr>acc_balance := acc_balance x + n\<rparr>) t = add_balance a n t"
proof -
  from assms(2) obtain acc where acc: "acc \<in> set t" "credit_matches a n h acc"
    using row_count_exists [of "credit_matches a n h" t] by auto
  have "update_where (credit_matches a n h) (\<lambda>x. x\<lparr>acc_balance := acc_balance x + n\<rparr>) t = add_balance a n t"
    using update_where_guard [OF assms(1) acc(1), where G = "\<lambda>x. 0 \<le> acc_balance x + n - h" and k = a] acc(2)
    by (simp add: add_balance_def credit_matches_fun)
  with acc that show thesis by (auto simp: credit_matches_def)
qed

lemma map_acc_id_add_balance [tbl]: "map acc_id (add_balance a d t) = map acc_id t"
  by (simp add: add_balance_def map_update_where)

lemma acc_ids_add_balance [tbl]: "acc_id ` set (add_balance a d t) = acc_id ` set t"
  by (metis map_acc_id_add_balance set_map)

lemma unique_add_balance [tbl]: "unique_by acc_id (add_balance a d t) = unique_by acc_id t"
  by (simp add: add_balance_def unique_by_update_where)

lemma in_add_balance:
  "x \<in> set (add_balance a d t) \<longleftrightarrow>
   (\<exists>acc\<in>set t. x = (if acc_id acc = a then acc\<lparr>acc_balance := acc_balance acc + d\<rparr> else acc))"
  by (auto simp: add_balance_def in_set_update_where)

lemma in_add_balanceE:
  assumes "x \<in> set (add_balance a d t)"
  obtains y where "y \<in> set t" "acc_id x = acc_id y"
    "acc_balance x = acc_balance y + (if acc_id y = a then d else 0)"
proof -
  from assms obtain y where "y \<in> set t"
    and x: "x = (if acc_id y = a then y\<lparr>acc_balance := acc_balance y + d\<rparr> else y)"
    unfolding in_add_balance by blast
  then show thesis by (intro that [of y]) simp_all
qed

lemma balance_of_add_balance:
  "balance_of b (add_balance a d t) =
     (if b = a \<and> (\<exists>acc\<in>set t. acc_id acc = a) then balance_of b t + d else balance_of b t)"
  by (auto simp: balance_of_def add_balance_def find_account_def find_update_where_same
      find_None_iff_set dest: find_SomeD split: option.splits)

lemma balance_of_eq: "unique_by acc_id t \<Longrightarrow> acc \<in> set t \<Longrightarrow> balance_of (acc_id acc) t = acc_balance acc"
  by (simp add: balance_of_def find_account_unique)

lemma unique_ensure_account [tbl]: "unique_by acc_id (ensure_account a b t) = unique_by acc_id t"
  by (auto simp: ensure_account_def unique_by_append find_account_None split: option.splits)

lemma balance_of_ensure_account:
  "balance_of c (ensure_account a b t) =
     (if c = a \<and> find_account a t = None then b else balance_of c t)"
  by (auto simp: balance_of_def ensure_account_def find_account_def find_append split: option.splits)

lemma balance_of_ensure_zero: "balance_of c (ensure_account a 0 t) = balance_of c t"
  unfolding balance_of_ensure_account by (auto simp: balance_of_def)

lemma in_ensure_account:
  "x \<in> set (ensure_account a b t) \<Longrightarrow> x \<in> set t \<or> (find_account a t = None \<and> x = \<lparr>acc_id = a, acc_balance = b\<rparr>)"
  by (auto simp: ensure_account_def split: option.splits)

lemma ensure_account_subset: "set t \<subseteq> set (ensure_account a b t)"
  by (auto simp: ensure_account_def split: option.splits)

section \<open>Holds\<close>

lemma held_append [simp]: "held a (t @ u) = held a t + held a u"
  by (simp add: held_def)

lemma held_Nil [simp]: "held a [] = 0"
  by (simp add: held_def)

lemma held_Cons [simp]: "held a (r # t) = held_by a r + held a t"
  by (simp add: held_def)

lemma held_nonneg: "(\<And>r. r \<in> set t \<Longrightarrow> 0 < rsv_units r) \<Longrightarrow> 0 \<le> held a t"
  by (induction t) (force simp: held_by_def intro: add_nonneg_nonneg less_imp_le)+

lemma held_zero: "(\<And>r. r \<in> set t \<Longrightarrow> rsv_account r \<noteq> a) \<Longrightarrow> held a t = 0"
  by (induction t) (auto simp: held_by_def)

lemma held_set_status:
  assumes "unique_by rsv_id (reservations db)" and "r \<in> set (reservations db)"
  shows "held a (reservations (set_status (rsv_id r) st now db)) =
    held a (reservations db) - held_by a r + (if rsv_account r = a \<and> st = Reserved then rsv_units r else 0)"
  using sum_update_where [OF assms, of "held_by a" "\<lambda>r. r\<lparr>rsv_status := st, rsv_updated_at := now\<rparr>"]
  by (simp add: set_status_def held_def held_by_def)

lemma set_status_simps [simp]:
  "accounts (set_status rid st now db) = accounts db"
  "ledger (set_status rid st now db) = ledger db"
  "adjustments (set_status rid st now db) = adjustments db"
  by (simp_all add: set_status_def)

lemma in_set_status:
  "r \<in> set (reservations (set_status rid st now db)) \<longleftrightarrow>
   (\<exists>q\<in>set (reservations db). r = (if rsv_id q = rid then q\<lparr>rsv_status := st, rsv_updated_at := now\<rparr> else q))"
  by (auto simp: set_status_def in_set_update_where)

lemma unique_set_status [tbl]:
  "unique_by rsv_id (reservations (set_status rid st now db)) = unique_by rsv_id (reservations db)"
  "unique_by rsv_key (reservations (set_status rid st now db)) = unique_by rsv_key (reservations db)"
  by (simp_all add: set_status_def unique_by_update_where)

section \<open>The invariant of the tables\<close>

text \<open>
  \<open>keys_ok\<close>: the PRIMARY KEY, UNIQUE and CHECK constraints. \<open>solvent\<close>: the units
  held by open reservations never exceed the balance. \<open>settled\<close>: ledger entries and
  committed reservations correspond one to one, and no entry charges more than was reserved.
\<close>

definition keys_ok :: "credit_db \<Rightarrow> bool" where
  "keys_ok db \<longleftrightarrow> unique_by acc_id (accounts db) \<and> unique_by rsv_id (reservations db)
     \<and> unique_by rsv_key (reservations db) \<and> unique_by led_id (ledger db) \<and> unique_by led_key (ledger db)
     \<and> unique_by adj_id (adjustments db) \<and> unique_by adj_key (adjustments db)
     \<and> (\<forall>r\<in>set (reservations db). rsv_id r \<noteq> [] \<and> 0 < rsv_units r \<and> rsv_account r \<in> acc_id ` set (accounts db))"

definition solvent :: "credit_db \<Rightarrow> bool" where
  "solvent db \<longleftrightarrow> (\<forall>acc\<in>set (accounts db). held (acc_id acc) (reservations db) \<le> acc_balance acc)"

definition settled :: "credit_db \<Rightarrow> bool" where
  "settled db \<longleftrightarrow> unique_by led_reservation (ledger db)
     \<and> (\<forall>e\<in>set (ledger db). \<exists>r\<in>set (reservations db). rsv_id r = led_reservation e \<and>
          rsv_status r = Committed \<and> rsv_account r = led_account e \<and>
          - rsv_units r \<le> led_amount e \<and> led_amount e \<le> 0)
     \<and> (\<forall>r\<in>set (reservations db). rsv_status r = Committed \<longrightarrow>
          (\<exists>e\<in>set (ledger db). led_reservation e = rsv_id r))"

definition credit_inv :: "credit_db \<Rightarrow> bool" where
  "credit_inv db \<longleftrightarrow> keys_ok db \<and> solvent db \<and> settled db"

lemma credit_inv_empty: "credit_inv empty_credit_db"
  by (simp add: credit_inv_def keys_ok_def solvent_def settled_def empty_credit_db_def)

lemma find_rsv: "find (\<lambda>r. rsv_id r = rid) t = Some r \<Longrightarrow> r \<in> set t \<and> rsv_id r = rid"
  by (auto dest: find_SomeD)

lemma reserve_inv:
  assumes "credit_inv db" and "reserve tenant account run units key uid now db = Inr (c, db')"
  shows "credit_inv db'"
  using assms(2)
proof (cases rule: reserve_InrE)
  case (replay r)
  with assms(1) show ?thesis by simp
next
  case (fresh acc row)
  note acc = find_account_Some [OF fresh(2)]
  have u: "unique_by acc_id (accounts db)"
    using assms(1) by (simp add: credit_inv_def keys_ok_def)
  have keys: "keys_ok db'"
    using assms(1) fresh acc by (auto simp: credit_inv_def keys_ok_def unique_by_append find_None_iff_set)
  have solv: "solvent db'"
    unfolding solvent_def
  proof
    fix x assume "x \<in> set (accounts db')"
    with fresh have x: "x \<in> set (accounts db)" by simp
    show "held (acc_id x) (reservations db') \<le> acc_balance x"
    proof (cases "acc_id x = account")
      case True
      with x acc u have "x = acc" by (metis unique_by_inj)
      with fresh acc show ?thesis by (simp add: held_by_def)
    next
      case False
      with x fresh assms(1) show ?thesis by (auto simp: held_by_def credit_inv_def solvent_def)
    qed
  qed
  have "settled db'"
    using assms(1) fresh by (fastforce simp: credit_inv_def settled_def)
  with keys solv show ?thesis by (simp add: credit_inv_def)
qed

lemma reserve_row:
  assumes "reserve t a r n k u w db = Inr (c, db')"
  shows "\<exists>q\<in>set (reservations db'). c = to_reservation q \<and> rsv_tenant q = t \<and> rsv_account q = a
    \<and> rsv_run q = r \<and> rsv_units q = n \<and> rsv_key q = k"
  using assms
proof (cases rule: reserve_InrE)
  case (replay q)
  then show ?thesis using find_SomeD [OF replay(1)] by (intro bexI [of _ q]) simp_all
next
  case (fresh acc row)
  then show ?thesis by (intro bexI [of _ row]) simp_all
qed

lemma settled_set_Released:
  assumes "settled db" and "unique_by rsv_id (reservations db)"
    and "r \<in> set (reservations db)" and "rsv_status r = Reserved"
  shows "settled (set_status (rsv_id r) Released now db)"
proof -
  have "rsv_id q \<noteq> rsv_id r" if "q \<in> set (reservations db)" "rsv_status q = Committed" for q
    using that assms unique_by_inj by fastforce
  with assms(1) show ?thesis
    unfolding settled_def by (fastforce simp: in_set_status)
qed

lemma keys_ok_set_status: "keys_ok db \<Longrightarrow> keys_ok (set_status rid st now db)"
  by (auto simp: keys_ok_def unique_set_status in_set_status split: if_splits)

lemma release_inv:
  assumes "credit_inv db" and "release rid key now db = Inr (c, db')"
  shows "credit_inv db'"
  using assms(2)
proof (cases rule: release_InrE)
  case (final r)
  with assms(1) show ?thesis by simp
next
  case (freed r)
  note r = find_rsv [OF freed(1)]
  have k: "keys_ok db" "solvent db" "settled db" using assms(1) by (auto simp: credit_inv_def)
  then have u: "unique_by rsv_id (reservations db)" and pos: "0 < rsv_units r"
    using r by (auto simp: keys_ok_def)
  have "held a (reservations db') \<le> held a (reservations db)" for a
    using held_set_status [OF u, of r a Released now] r freed pos by (simp add: held_by_def)
  then have "solvent db'"
    using k freed unfolding solvent_def by (fastforce intro: order_trans)
  with k r u freed show ?thesis
    using settled_set_Released [OF k(3) u, of r now] by (simp add: credit_inv_def keys_ok_set_status)
qed

lemma commit_inv:
  assumes "credit_inv db" and "commit rid used key uid now db = Inr (c, db')"
  shows "credit_inv db'"
  using assms(2)
proof (cases rule: commit_InrE)
  case (replay e r)
  with assms(1) show ?thesis by simp
next
  case (fresh r e)
  note r = find_rsv [OF fresh(2)]
  have k: "keys_ok db" "solvent db" "settled db" using assms(1) by (auto simp: credit_inv_def)
  then have u: "unique_by rsv_id (reservations db)" "unique_by acc_id (accounts db)"
    by (auto simp: keys_ok_def)
  obtain acc where acc: "acc \<in> set (accounts db)" "acc_id acc = rsv_account r"
    and upd: "accounts db' = add_balance (rsv_account r) (- used) (accounts db)"
    using debit_as_add [OF u(2) fresh(6)] fresh(10) by auto
  have res: "reservations db' = reservations (set_status (rsv_id r) Committed now db)"
    using fresh r by (simp add: set_status_def)
  have led: "ledger db' = ledger db @ [e]" and adj: "adjustments db' = adjustments db"
    using fresh by simp_all
  have nol: "led_reservation e' \<noteq> rid" if "e' \<in> set (ledger db)" for e'
  proof
    assume "led_reservation e' = rid"
    with k(3) that obtain q where "q \<in> set (reservations db)" "rsv_id q = rid" "rsv_status q = Committed"
      unfolding settled_def by metis
    with u(1) r fresh(3) show False using unique_by_inj by fastforce
  qed
  have "keys_ok db'"
    using k(1) fresh(1,7,8) unfolding keys_ok_def res led adj upd
    by (auto simp: unique_set_status unique_add_balance in_set_status acc_ids_add_balance unique_by_append
        find_None_iff_set split: if_splits)
  moreover have "solvent db'"
    unfolding solvent_def
  proof
    fix x assume "x \<in> set (accounts db')"
    then obtain y where y: "y \<in> set (accounts db)" "acc_id x = acc_id y"
      "acc_balance x = acc_balance y + (if acc_id y = rsv_account r then - used else 0)"
      unfolding upd by (rule in_add_balanceE)
    have "held (acc_id y) (reservations db) \<le> acc_balance y"
      using k(2) y(1) by (simp add: solvent_def)
    then show "held (acc_id x) (reservations db') \<le> acc_balance x"
      using y fresh(3,4,5) r held_set_status [OF u(1), of r "acc_id x" Committed now]
      unfolding res by (auto simp: held_by_def split: if_splits)
  qed
  moreover have "settled db'"
  proof -
    have old: "q \<noteq> r \<Longrightarrow> q \<in> set (reservations db) \<Longrightarrow> rsv_id q \<noteq> rsv_id r" for q
      using u(1) r unique_by_inj by fastforce
    have "\<exists>q\<in>set (reservations db'). rsv_id q = led_reservation e' \<and> rsv_status q = Committed \<and>
        rsv_account q = led_account e' \<and> - rsv_units q \<le> led_amount e' \<and> led_amount e' \<le> 0"
      if "e' \<in> set (ledger db')" for e'
    proof (cases "e' = e")
      case True
      with fresh r show ?thesis unfolding res
        by (intro bexI [of _ "r\<lparr>rsv_status := Committed, rsv_updated_at := now\<rparr>"])
           (auto simp: in_set_status)
    next
      case False
      with that led have e': "e' \<in> set (ledger db)" by auto
      with k(3) obtain q where "q \<in> set (reservations db)" "rsv_id q = led_reservation e'"
        "rsv_status q = Committed" "rsv_account q = led_account e'"
        "- rsv_units q \<le> led_amount e'" "led_amount e' \<le> 0"
        unfolding settled_def by blast
      with nol [OF e'] r show ?thesis unfolding res
        by (intro bexI [of _ q]) (auto simp: in_set_status intro!: bexI [of _ q])
    qed
    moreover have "\<exists>e'\<in>set (ledger db'). led_reservation e' = rsv_id q"
      if q: "q \<in> set (reservations db')" "rsv_status q = Committed" for q
    proof (cases "rsv_id q = rid")
      case True
      with led fresh(8) show ?thesis by auto
    next
      case False
      with q r k(3) led show ?thesis
        unfolding res in_set_status settled_def by (auto split: if_splits)
    qed
    moreover have "unique_by led_reservation (ledger db')"
      using k(3) nol fresh(8) by (auto simp: led settled_def unique_by_append)
    ultimately show ?thesis unfolding settled_def by blast
  qed
  ultimately show ?thesis by (simp add: credit_inv_def)
qed

lemma adjust_inv:
  assumes "credit_inv db" and "adjust account amount key reason uid now db = Inr (b, db')"
  shows "credit_inv db'"
  using assms(2)
proof (cases rule: adjust_InrE)
  case (replay j)
  with assms(1) show ?thesis by simp
next
  case (fresh accs j)
  have k: "keys_ok db" "solvent db" "settled db" using assms(1) by (auto simp: credit_inv_def)
  then have u: "unique_by acc_id accs"
    by (simp add: fresh(2) unique_ensure_account keys_ok_def)
  obtain acc where acc: "acc \<in> set accs" "acc_id acc = account"
      "0 \<le> acc_balance acc + amount - held account (reservations db)"
    and upd: "accounts db' = add_balance account amount accs"
    using credit_as_add [OF u fresh(3)] fresh(7) by auto
  have rest: "reservations db' = reservations db" "ledger db' = ledger db"
      "adjustments db' = adjustments db @ [j]"
    using fresh by simp_all
  have "acc_id ` set (accounts db) \<subseteq> acc_id ` set accs"
    using fresh(2) ensure_account_subset by blast
  with k(1) fresh(1,4,6) have "keys_ok db'"
    unfolding keys_ok_def rest upd
    by (auto simp: unique_add_balance acc_ids_add_balance u unique_by_append find_None_iff_set)
  moreover have "solvent db'"
    unfolding solvent_def rest
  proof
    fix x assume "x \<in> set (accounts db')"
    then obtain y where y: "y \<in> set accs" "acc_id x = acc_id y"
      "acc_balance x = acc_balance y + (if acc_id y = account then amount else 0)"
      unfolding upd by (rule in_add_balanceE)
    show "held (acc_id x) (reservations db) \<le> acc_balance x"
    proof (cases "acc_id y = account")
      case True
      with y acc u have "y = acc" by (metis unique_by_inj)
      with y acc show ?thesis by simp
    next
      case False
      with y fresh(2) have "y \<in> set (accounts db)" by (auto dest!: in_ensure_account)
      with k(2) y False show ?thesis by (simp add: solvent_def)
    qed
  qed
  moreover have "settled db'"
    using k(3) by (simp add: settled_def rest)
  ultimately show ?thesis by (simp add: credit_inv_def)
qed

lemma init_balances_inv:
  assumes "credit_inv db" and "reservations db = []"
  shows "credit_inv (snd (init_balances bs db))"
  using assms
proof (induction bs db rule: init_balances.induct)
  case (1 db)
  then show ?case by simp
next
  case (2 a b rest db)
  show ?case
  proof (cases "b < 0")
    case True
    with 2 show ?thesis by simp
  next
    case False
    have "credit_inv (db\<lparr>accounts := ensure_account a b (accounts db)\<rparr>)"
      using "2.prems" False
      by (auto simp: credit_inv_def keys_ok_def solvent_def settled_def unique_ensure_account dest!: in_ensure_account)
    with 2 False show ?thesis by simp
  qed
qed

lemma init_balances_reservations: "reservations (snd (init_balances bs db)) = reservations db"
  by (induction bs db rule: init_balances.induct) auto

section \<open>Runs of the ledger\<close>

text \<open>One step is one method call that returned normally; a call that raised is rolled back.\<close>

inductive credit_step :: "credit_db \<Rightarrow> credit_db \<Rightarrow> bool" where
  step_reserve: "reserve t a r n k u w db = Inr (c, db') \<Longrightarrow> credit_step db db'"
| step_release: "release rid k w db = Inr (c, db') \<Longrightarrow> credit_step db db'"
| step_commit: "commit rid n k u w db = Inr (c', db') \<Longrightarrow> credit_step db db'"
| step_adjust: "adjust a n k why u w db = Inr (b, db') \<Longrightarrow> credit_step db db'"

lemma credit_step_inv: "credit_step db db' \<Longrightarrow> credit_inv db \<Longrightarrow> credit_inv db'"
  by (induction rule: credit_step.induct) (auto intro: reserve_inv release_inv commit_inv adjust_inv)

lemma credit_steps_inv: "credit_step\<^sup>*\<^sup>* db db' \<Longrightarrow> credit_inv db \<Longrightarrow> credit_inv db'"
  by (induction rule: rtranclp_induct) (auto intro: credit_step_inv)

text \<open>Rows are never deleted, identities never change, and a final status stays.\<close>

definition row_evolves :: "reservation_row \<Rightarrow> reservation_row \<Rightarrow> bool" where
  "row_evolves r q \<longleftrightarrow> rsv_id q = rsv_id r \<and> rsv_tenant q = rsv_tenant r \<and> rsv_account q = rsv_account r
     \<and> rsv_run q = rsv_run r \<and> rsv_units q = rsv_units r \<and> rsv_key q = rsv_key r
     \<and> (rsv_status r \<noteq> Reserved \<longrightarrow> rsv_status q = rsv_status r)"

lemma row_evolves_refl [simp]: "row_evolves r r"
  by (simp add: row_evolves_def)

lemma row_evolves_trans: "row_evolves r q \<Longrightarrow> row_evolves q p \<Longrightarrow> row_evolves r p"
  by (auto simp: row_evolves_def)

lemma set_status_evolves:
  assumes "unique_by rsv_id (reservations db)" and "q \<in> set (reservations db)" and "rsv_status q = Reserved"
    and "r \<in> set (reservations db)"
  shows "\<exists>r'\<in>set (reservations (set_status (rsv_id q) st now db)). row_evolves r r'"
proof (cases "r = q")
  case True
  with assms show ?thesis
    by (intro bexI [of _ "q\<lparr>rsv_status := st, rsv_updated_at := now\<rparr>"])
       (auto simp: row_evolves_def in_set_status)
next
  case False
  with assms have "rsv_id r \<noteq> rsv_id q" using unique_by_inj by metis
  with assms show ?thesis by (intro bexI [of _ r]) (auto simp: in_set_status)
qed

lemma credit_step_rows:
  assumes "credit_step db db'" and "credit_inv db" and "r \<in> set (reservations db)"
  shows "\<exists>r'\<in>set (reservations db'). row_evolves r r'"
  using assms
proof (induction rule: credit_step.induct)
  case (step_reserve t a rn n k u w db c db')
  have "r \<in> set (reservations db')"
    using step_reserve.hyps step_reserve.prems(2) by (cases rule: reserve_InrE) auto
  then show ?case by (blast intro: row_evolves_refl)
next
  case (step_release rid k w db c db')
  have u: "unique_by rsv_id (reservations db)"
    using step_release.prems by (simp add: credit_inv_def keys_ok_def)
  from step_release.hyps show ?case
  proof (cases rule: release_InrE)
    case (final q)
    with step_release.prems show ?thesis by (blast intro: row_evolves_refl)
  next
    case (freed q)
    with set_status_evolves [OF u _ _ step_release.prems(2), of q Released w] find_rsv [OF freed(1)]
    show ?thesis by auto
  qed
next
  case (step_commit rid n k u w db c db')
  have un: "unique_by rsv_id (reservations db)"
    using step_commit.prems by (simp add: credit_inv_def keys_ok_def)
  from step_commit.hyps show ?case
  proof (cases rule: commit_InrE)
    case (replay e q)
    with step_commit.prems show ?thesis by (blast intro: row_evolves_refl)
  next
    case (fresh q e)
    with set_status_evolves [OF un _ _ step_commit.prems(2), of q Committed w] find_rsv [OF fresh(2)]
    show ?thesis by (auto simp: set_status_def)
  qed
next
  case (step_adjust a n k why u w db b db')
  have "r \<in> set (reservations db')"
    using step_adjust.hyps step_adjust.prems(2) by (cases rule: adjust_InrE) auto
  then show ?case by (blast intro: row_evolves_refl)
qed

lemma credit_steps_rows:
  assumes "credit_step\<^sup>*\<^sup>* db db'" and "credit_inv db" and "r \<in> set (reservations db)"
  shows "\<exists>r'\<in>set (reservations db'). row_evolves r r'"
  using assms
proof (induction rule: rtranclp_induct)
  case base
  then show ?case by (blast intro: row_evolves_refl)
next
  case (step y z)
  then obtain r' where "r' \<in> set (reservations y)" "row_evolves r r'" by blast
  with step credit_step_rows [OF step.hyps(2) credit_steps_inv [OF step.hyps(1)]] show ?case
    by (meson row_evolves_trans)
qed

lemma credit_step_ledger: "credit_step db db' \<Longrightarrow> set (ledger db) \<subseteq> set (ledger db')"
  by (induction rule: credit_step.induct)
     (auto elim!: reserve_InrE release_InrE commit_InrE adjust_InrE)

lemma credit_steps_ledger: "credit_step\<^sup>*\<^sup>* db db' \<Longrightarrow> set (ledger db) \<subseteq> set (ledger db')"
  by (induction rule: rtranclp_induct) (auto dest: credit_step_ledger)

section \<open>Conservation\<close>

text \<open>What was adjusted on and charged to an account.\<close>

definition booked :: "string \<Rightarrow> credit_db \<Rightarrow> int" where
  "booked a db = (\<Sum>j\<leftarrow>adjustments db. if adj_account j = a then adj_amount j else 0)
     + (\<Sum>e\<leftarrow>ledger db. if led_account e = a then led_amount e else 0)"

lemma credit_step_conserves:
  assumes "credit_step db db'" and "credit_inv db"
  shows "balance_of a (accounts db') - booked a db' = balance_of a (accounts db) - booked a db"
  using assms
proof (induction rule: credit_step.induct)
  case (step_reserve t ac r n k u w db c db')
  from step_reserve.hyps show ?case
    by (cases rule: reserve_InrE) (simp_all add: booked_def)
next
  case (step_release rid k w db c db')
  from step_release.hyps show ?case
    by (cases rule: release_InrE) (simp_all add: booked_def)
next
  case (step_commit rid n k u w db c db')
  from step_commit.hyps show ?case
  proof (cases rule: commit_InrE)
    case (replay e r)
    then show ?thesis by simp
  next
    case (fresh r e)
    have uq: "unique_by acc_id (accounts db)"
      using step_commit.prems by (simp add: credit_inv_def keys_ok_def)
    obtain acc where "acc \<in> set (accounts db)" "acc_id acc = rsv_account r"
      and "accounts db' = add_balance (rsv_account r) (- n) (accounts db)"
      using debit_as_add [OF uq fresh(6)] fresh(10) by auto
    with fresh(8,10) show ?thesis by (auto simp: booked_def balance_of_add_balance)
  qed
next
  case (step_adjust ac n k why u w db b db')
  from step_adjust.hyps show ?case
  proof (cases rule: adjust_InrE)
    case (replay j)
    then show ?thesis by simp
  next
    case (fresh accs j)
    have uq: "unique_by acc_id accs"
      using step_adjust.prems fresh(2) by (simp add: credit_inv_def keys_ok_def unique_ensure_account)
    obtain acc where "acc \<in> set accs" "acc_id acc = ac"
      and "accounts db' = add_balance ac n accs"
      using credit_as_add [OF uq fresh(3)] fresh(7) by auto
    with fresh(2,6,7) show ?thesis
      by (auto simp: booked_def balance_of_add_balance balance_of_ensure_zero)
  qed
qed

section \<open>The ledger as a credit port\<close>

definition sqlite_credit_port :: "credit_db credit_port" where
  "sqlite_credit_port = \<lparr>p_reserve = reserve, p_release = release, p_commit = commit\<rparr>"

definition status_of :: "credit_db \<Rightarrow> string \<Rightarrow> reservation_status option" where
  "status_of db rid = map_option rsv_status (find (\<lambda>r. rsv_id r = rid) (reservations db))"

definition fresh_entry :: "credit_db \<Rightarrow> string \<Rightarrow> bool" where
  "fresh_entry db u \<longleftrightarrow> (\<forall>e\<in>set (ledger db). led_id e \<noteq> u)"

lemma status_of_None: "status_of db rid = None \<longleftrightarrow> (\<forall>r\<in>set (reservations db). rsv_id r \<noteq> rid)"
  by (simp add: status_of_def find_None_iff_set)

lemma status_of_set_status:
  assumes "status_of db rid \<noteq> None"
  shows "status_of (set_status rid st now db) = (status_of db)(rid \<mapsto> st)"
proof
  fix x
  have *: "find (\<lambda>r. rsv_id r = x) (reservations (set_status rid st now db)) =
      map_option (\<lambda>r. if rsv_id r = rid then r\<lparr>rsv_status := st, rsv_updated_at := now\<rparr> else r)
        (find (\<lambda>r. rsv_id r = x) (reservations db))"
    by (simp add: set_status_def find_update_where_same)
  show "status_of (set_status rid st now db) x = ((status_of db)(rid \<mapsto> st)) x"
    using assms by (cases "find (\<lambda>r. rsv_id r = x) (reservations db)")
      (auto simp: status_of_def * dest: find_SomeD)
qed

lemma status_of_frame:
  "reservations db' = reservations db \<Longrightarrow> status_of db' = status_of db"
  by (simp add: status_of_def fun_eq_iff)

lemma commit_again:
  assumes "commit rid used key uid now db = Inr (c, db')"
  shows "commit rid used key uid' now' db' = Inr (c, db')"
  using assms
proof (cases rule: commit_InrE)
  case (replay e r)
  then show ?thesis by (simp add: commit_def)
next
  case (fresh r e)
  have "find (\<lambda>e. led_key e = key) (ledger db') = Some e"
    using fresh by (simp add: find_append)
  moreover have "find (\<lambda>r. rsv_id r = rid) (reservations db') =
      Some (r\<lparr>rsv_status := Committed, rsv_updated_at := now\<rparr>)"
    using find_rsv [OF fresh(2)] by (simp add: fresh(10) set_status_def find_update_where_same fresh(2))
  ultimately show ?thesis
    using fresh(5,8,9) by (simp add: commit_def)
qed

lemma commit_row:
  assumes "commit rid n k u w db = Inr (c, db')"
  shows "\<exists>e\<in>set (ledger db'). \<exists>r\<in>set (reservations db'). led_key e = k \<and> led_reservation e = rid
    \<and> led_amount e = - n \<and> c = \<lparr>cc_reservation = rid, cc_account = led_account e, cc_used = n, cc_key = k\<rparr>
    \<and> rsv_id r = rid \<and> 0 \<le> n"
  using assms
proof (cases rule: commit_InrE)
  case (replay e r)
  with find_SomeD [OF replay(1)] find_rsv [OF replay(2)] show ?thesis by blast
next
  case (fresh r e)
  have "r\<lparr>rsv_status := Committed, rsv_updated_at := w\<rparr> \<in> set (reservations db')"
    using find_rsv [OF fresh(2)] by (auto simp: fresh(10) set_status_def in_set_update_where)
  moreover have "e \<in> set (ledger db')" by (simp add: fresh(10))
  ultimately show ?thesis
    using fresh(5,8,9) find_rsv [OF fresh(2)]
    by (intro bexI [of _ e] bexI [of _ "r\<lparr>rsv_status := Committed, rsv_updated_at := w\<rparr>"]) simp_all
qed

lemma commit_status_of:
  assumes "credit_inv db" and "commit rid used key uid now db = Inr (c, db')"
  shows "status_of db' = (status_of db)(rid \<mapsto> Committed)"
  using assms(2)
proof (cases rule: commit_InrE)
  case (replay e r)
  then obtain q where "q \<in> set (reservations db)" "rsv_id q = rid" "rsv_status q = Committed"
    using assms(1) unfolding credit_inv_def settled_def by (metis find_SomeD)
  moreover from this have "find (\<lambda>r. rsv_id r = rid) (reservations db) = Some q"
    using assms(1) find_key_unique [of rsv_id _ q] by (simp add: credit_inv_def keys_ok_def)
  ultimately have "status_of db rid = Some Committed"
    by (simp add: status_of_def)
  with replay show ?thesis by (simp add: fun_upd_idem)
next
  case (fresh r e)
  let ?d = "db\<lparr>accounts := update_where (debit_matches (rsv_account r) used)
     (\<lambda>a. a\<lparr>acc_balance := acc_balance a - used\<rparr>) (accounts db), ledger := ledger db @ [e]\<rparr>"
  have "status_of ?d = status_of db" by (rule status_of_frame) simp
  moreover have "status_of ?d rid \<noteq> None" using fresh(2) by (simp add: status_of_def)
  ultimately show ?thesis using fresh(10) by (simp add: status_of_set_status)
qed

lemma reserve_status_of:
  assumes "credit_inv db" and "reserve t a r n k u w db = Inr (c, db')"
  shows "status_of db' = (status_of db)(cr_id c \<mapsto> cr_status c) \<and> cr_id c \<noteq> []"
  using assms(2)
proof (cases rule: reserve_InrE)
  case (replay q)
  have q: "q \<in> set (reservations db)" using find_SomeD [OF replay(1)] by blast
  then have "find (\<lambda>r. rsv_id r = rsv_id q) (reservations db) = Some q"
    using assms(1) by (intro find_key_unique) (simp_all add: credit_inv_def keys_ok_def)
  then have "status_of db (rsv_id q) = Some (rsv_status q)" by (simp add: status_of_def)
  moreover have "rsv_id q \<noteq> []" using q assms(1) by (simp add: credit_inv_def keys_ok_def)
  ultimately show ?thesis using replay by (simp add: to_reservation_def fun_upd_idem)
next
  case (fresh acc row)
  then have "status_of db' = (status_of db)(rsv_id row \<mapsto> Reserved)"
    by (auto simp: status_of_def find_append fun_eq_iff dest!: find_SomeD split: option.split)
  with fresh show ?thesis by (simp add: to_reservation_def)
qed

interpretation sqlite_credits: credit_port_laws sqlite_credit_port credit_inv status_of fresh_entry
proof (unfold_locales, goal_cases)
  case (1 d t a r n k u w c d')
  then show ?case by (auto simp: sqlite_credit_port_def intro: reserve_inv)
next
  case (2 d rid k w c' d')
  then show ?case by (auto simp: sqlite_credit_port_def intro: release_inv)
next
  case (3 d rid n k u w c'' d')
  then show ?case by (auto simp: sqlite_credit_port_def intro: commit_inv)
next
  case (4 d t a r n k u w c d')
  then show ?case by (intro reserve_status_of) (simp_all add: sqlite_credit_port_def)
next
  case (5 d rid k w)
  then obtain r where "find (\<lambda>r. rsv_id r = rid) (reservations d) = Some r" "rsv_id r = rid"
    by (auto simp: status_of_def dest: find_SomeD)
  then show ?case
    by (auto simp: sqlite_credit_port_def release_def Let_def set_status_def find_update_where_same)
next
  case (6 d rid k w c' d')
  then have "release rid k w d = Inr (c', d')" by (simp add: sqlite_credit_port_def)
  then show ?case
  proof (cases rule: release_InrE)
    case (final r)
    then have "status_of d rid = Some (rsv_status r)" by (simp add: status_of_def)
    with final show ?thesis by (cases "rsv_status r") (auto simp: fun_upd_idem)
  next
    case (freed r)
    then have "status_of d rid = Some Reserved" by (simp add: status_of_def)
    with freed show ?thesis by (simp add: status_of_set_status)
  qed
next
  case (7 d rid n k u w c'' d')
  then show ?case by (auto simp: sqlite_credit_port_def intro: commit_status_of)
next
  case (8 d rid u n k w e)
  then show ?case
    by (auto simp: sqlite_credit_port_def commit_def status_of_def fresh_entry_def
        split: if_splits option.splits)
next
  case (9 d rid n k u w c'' d' u' w')
  then show ?case by (auto simp: sqlite_credit_port_def intro: commit_again)
qed

section \<open>Properties\<close>

text \<open>
  C4. Whatever sequence of reserve, release, commit and adjust calls runs on a ledger created
  with initial balances, the keys stay unique, no account's open holds exceed its balance (so
  \<open>available\<close> is never negative), and committed reservations and ledger entries
  correspond one to one with charges no larger than the reserved units.
\<close>

theorem credit_ledger_invariant:
  assumes "credit_step\<^sup>*\<^sup>* (snd (init_balances bs empty_credit_db)) db"
  shows "keys_ok db \<and> solvent db \<and> settled db \<and> 0 \<le> available a db"
proof -
  have "credit_inv (snd (init_balances bs empty_credit_db))"
    by (rule init_balances_inv) (simp_all add: credit_inv_empty, simp add: empty_credit_db_def)
  with assms have inv: "credit_inv db" by (rule credit_steps_inv)
  then have "0 \<le> available a db"
    by (auto simp: available_def credit_inv_def solvent_def dest!: find_account_Some split: option.splits)
  with inv show ?thesis by (simp add: credit_inv_def)
qed

theorem credit_ledger_invariant_witness:
  "let db0 = snd (init_balances [(''acct'', 5)] empty_credit_db)
   in \<exists>db. credit_step\<^sup>*\<^sup>* db0 db \<and> available ''acct'' db = 3 \<and> solvent db"
proof -
  let ?db0 = "snd (init_balances [(''acct'', 5)] empty_credit_db)"
  have "case reserve ''t'' ''acct'' ''run'' 2 ''k'' ''u'' ''now'' ?db0 of
      Inl e \<Rightarrow> False | Inr (c, db) \<Rightarrow> available ''acct'' db = 3"
    by code_simp
  then obtain c db where r: "reserve ''t'' ''acct'' ''run'' 2 ''k'' ''u'' ''now'' ?db0 = Inr (c, db)"
    and av: "available ''acct'' db = 3"
    by (rule run_obtain)
  from r have "credit_step\<^sup>*\<^sup>* ?db0 db" by (auto intro: credit_step.intros)
  then show ?thesis using credit_ledger_invariant [of "[(''acct'', 5)]" db "''acct''"] av
    by (auto simp: Let_def)
qed

text \<open>
  Reserving is exactly-once per idempotency key: after a successful reservation, and any
  later calls, repeating the call (with new uuids and times) returns the same reservation and
  changes nothing.
\<close>

theorem reserve_exactly_once:
  assumes "credit_inv db" and "reserve t a r n k u w db = Inr (c, db1)" and "credit_step\<^sup>*\<^sup>* db1 db2"
  shows "\<exists>c'. reserve t a r n k u' w' db2 = Inr (c', db2) \<and> cr_id c' = cr_id c \<and> cr_units c' = n"
proof -
  have inv1: "credit_inv db1" using assms(1,2) by (rule reserve_inv)
  have args: "\<not> blank t" "\<not> blank a" "\<not> blank r" "\<not> blank k" "0 < n"
    using assms(2) by (auto simp: reserve_def split: if_splits)
  obtain q where q: "q \<in> set (reservations db1)" "rsv_tenant q = t" "rsv_account q = a" "rsv_run q = r"
    "rsv_units q = n" "rsv_key q = k" "cr_id c = rsv_id q"
    using reserve_row [OF assms(2)] by (auto simp: to_reservation_def)
  obtain q' where q': "q' \<in> set (reservations db2)" "row_evolves q q'"
    using credit_steps_rows [OF assms(3) inv1 q(1)] by blast
  have "unique_by rsv_key (reservations db2)"
    using credit_steps_inv [OF assms(3) inv1] by (simp add: credit_inv_def keys_ok_def)
  then have "find (\<lambda>x. rsv_key x = k) (reservations db2) = Some q'"
    using find_key_unique [of rsv_key _ q'] q q' by (simp add: row_evolves_def)
  then show ?thesis
    using args q q' by (auto simp: reserve_def row_evolves_def to_reservation_def)
qed

theorem reserve_exactly_once_witness:
  "\<exists>c db1 c'. reserve ''t'' ''acct'' ''run'' 2 ''k'' ''u'' ''w''
       (snd (init_balances [(''acct'', 5)] empty_credit_db)) = Inr (c, db1)
     \<and> reserve ''t'' ''acct'' ''run'' 2 ''k'' ''v'' ''w2'' db1 = Inr (c', db1) \<and> cr_id c' = cr_id c"
proof -
  let ?db0 = "snd (init_balances [(''acct'', 5)] empty_credit_db)"
  have "case reserve ''t'' ''acct'' ''run'' 2 ''k'' ''u'' ''w'' ?db0 of
      Inl e \<Rightarrow> False | Inr (c, db) \<Rightarrow> True"
    by code_simp
  then obtain c db1 where r: "reserve ''t'' ''acct'' ''run'' 2 ''k'' ''u'' ''w'' ?db0 = Inr (c, db1)"
    by (rule run_obtain)
  have "credit_inv ?db0"
    by (rule init_balances_inv) (simp_all add: credit_inv_empty, simp add: empty_credit_db_def)
  from reserve_exactly_once [OF this r rtranclp.rtrancl_refl] r show ?thesis by blast
qed


definition demo_ledger :: credit_db where
  "demo_ledger = \<lparr>accounts = [\<lparr>acc_id = ''acct'', acc_balance = 5\<rparr>],
     reservations = [\<lparr>rsv_id = ''r1'', rsv_tenant = ''t'', rsv_account = ''acct'', rsv_run = ''run'',
       rsv_units = 2, rsv_key = ''k'', rsv_status = Reserved, rsv_created_at = ''w'', rsv_updated_at = ''w''\<rparr>],
     ledger = [], adjustments = []\<rparr>"

lemma demo_ledger_inv: "credit_inv demo_ledger"
  by (simp add: credit_inv_def keys_ok_def solvent_def settled_def demo_ledger_def unique_by_def
      held_by_def)


text \<open>
  Credits are conserved: for every account, the balance minus everything adjusted and charged
  is the same before and after any call, so the balance is always the opening balance plus the
  adjustments plus the (negative) ledger entries.
\<close>

theorem credits_conserved:
  assumes "credit_inv db" and "credit_step\<^sup>*\<^sup>* db db'"
  shows "balance_of a (accounts db') - booked a db' = balance_of a (accounts db) - booked a db"
  using assms(2,1)
proof (induction rule: rtranclp_induct)
  case base
  then show ?case by simp
next
  case (step x y)
  have "credit_inv x" using credit_steps_inv step by blast
  with step.hyps(2) have "balance_of a (accounts y) - booked a y = balance_of a (accounts x) - booked a x"
    by (rule credit_step_conserves)
  with step show ?case by simp
qed

theorem credits_conserved_witness:
  "\<exists>db. credit_step\<^sup>*\<^sup>* demo_ledger db \<and> balance_of ''acct'' (accounts db) - booked ''acct'' db = 5
     \<and> booked ''acct'' db = - 1"
proof -
  have "case commit ''r1'' 1 ''ck'' ''u'' ''w'' demo_ledger of
      Inl e \<Rightarrow> False | Inr (c, db) \<Rightarrow> booked ''acct'' db = - 1"
    by code_simp
  then obtain c db where r: "commit ''r1'' 1 ''ck'' ''u'' ''w'' demo_ledger = Inr (c, db)"
    and b: "booked ''acct'' db = - 1"
    by (rule run_obtain)
  from r have st: "credit_step\<^sup>*\<^sup>* demo_ledger db" by (auto intro: credit_step.intros)
  have "balance_of ''acct'' (accounts demo_ledger) - booked ''acct'' demo_ledger = 5" by code_simp
  with credits_conserved [OF demo_ledger_inv st, of "''acct''"] st b show ?thesis by auto
qed

text \<open>
  A valid request with a new key is granted exactly when the account can pay for it, and then
  takes exactly the requested units out of what is available.
\<close>

theorem reserve_granted_iff:
  assumes "\<not> blank t" "\<not> blank a" "\<not> blank r" "\<not> blank k" "0 < n"
    and "\<forall>x\<in>set (reservations db). rsv_key x \<noteq> k \<and> rsv_id x \<noteq> reservation_name u"
  shows "reserve t a r n k u w db = Inl (InsufficientCredits a) \<and> available a db < n
    \<or> (\<exists>c db'. reserve t a r n k u w db = Inr (c, db') \<and> n \<le> available a db
         \<and> cr_status c = Reserved \<and> available a db' = available a db - n)"
proof -
  have key: "find (\<lambda>x. rsv_key x = k) (reservations db) = None"
    using assms(6) by (simp add: find_None_iff_set)
  show ?thesis
  proof (cases "find_account a (accounts db)")
    case None
    with key assms show ?thesis by (auto simp: reserve_def available_def)
  next
    case (Some acc)
    with key assms show ?thesis
      by (auto simp: reserve_def available_def Let_def to_reservation_def held_by_def)
  qed
qed

theorem reserve_granted_iff_witness:
  "\<exists>c db'. reserve ''t'' ''acct'' ''run2'' 3 ''k2'' ''u'' ''w'' demo_ledger = Inr (c, db')
     \<and> available ''acct'' db' = 0"
proof -
  have "available ''acct'' demo_ledger = 3" by code_simp
  then show ?thesis
    using reserve_granted_iff [of "''t''" "''acct''" "''run2''" "''k2''" 3 demo_ledger "''u''" "''w''"]
    by (auto simp: blank_def is_space_def demo_ledger_def reservation_name_def)
qed

end
