(* ===== verification/Quota.thy ===== *)
theory Quota
  imports Ports
begin

text \<open>
  The run admission counters of \<open>services/metering_billing/quota.py\<close>: the policy, the
  tables \<open>quota_buckets\<close> and \<open>quota_admissions\<close>, \<open>reserve\<close>,
  \<open>release\<close> and \<open>snapshot\<close>. The clock is read in whole seconds: for a
  positive integer period, \<open>int(t // period)\<close> depends on the floor of \<open>t\<close> only.
\<close>

section \<open>State\<close>

record quota_policy =
  max_runs :: int
  max_units :: int
  period_seconds :: int

datatype admission_status = Counted | Freed

record quota_bucket =
  qb_scope :: string
  qb_period :: int
  qb_runs :: int
  qb_units :: int

record quota_admission =
  qa_run :: string
  qa_scope :: string
  qa_period :: int
  qa_units :: int
  qa_status :: admission_status

record quota_db =
  buckets :: "quota_bucket list"
  admissions :: "quota_admission list"

definition empty_quota_db :: quota_db where
  "empty_quota_db = \<lparr>buckets = [], admissions = []\<rparr>"

text \<open>\<open>QuotaPolicy.__post_init__\<close>\<close>

definition make_quota_policy :: "int \<Rightarrow> int \<Rightarrow> int \<Rightarrow> exn + quota_policy" where
  "make_quota_policy runs units period =
     (if runs \<le> 0 then Inl (ValueError ''max_runs must be a positive integer'')
      else if units \<le> 0 then Inl (ValueError ''max_units must be a positive integer'')
      else if period \<le> 0 then Inl (ValueError ''period_seconds must be a positive integer'')
      else if runs > 1000000 \<or> units > 10000000 \<or> period > 31536000
      then Inl (ValueError ''quota policy exceeds the low-cost safety ceiling'')
      else Inr \<lparr>max_runs = runs, max_units = units, period_seconds = period\<rparr>)"

definition default_quota_policy :: quota_policy where
  "default_quota_policy = \<lparr>max_runs = 10, max_units = 100, period_seconds = 86400\<rparr>"

section \<open>Operations\<close>

definition period_key :: "quota_policy \<Rightarrow> int \<Rightarrow> int" where
  "period_key pol t = t div period_seconds pol"

abbreviation bucket_key :: "quota_bucket \<Rightarrow> string \<times> int" where
  "bucket_key b \<equiv> (qb_scope b, qb_period b)"

definition find_bucket :: "string \<Rightarrow> int \<Rightarrow> quota_bucket list \<Rightarrow> quota_bucket option" where
  "find_bucket s p t = find (\<lambda>b. bucket_key b = (s, p)) t"

text \<open>\<open>_bucket\<close>: insert a zero bucket unless there is one, then read it back.\<close>

definition ensure_bucket :: "string \<Rightarrow> int \<Rightarrow> quota_bucket list \<Rightarrow> quota_bucket \<times> quota_bucket list" where
  "ensure_bucket s p t = (case find_bucket s p t of
     Some b \<Rightarrow> (b, t)
   | None \<Rightarrow> (let b = \<lparr>qb_scope = s, qb_period = p, qb_runs = 0, qb_units = 0\<rparr> in (b, t @ [b])))"

definition snapshot :: "quota_policy \<Rightarrow> string \<Rightarrow> int \<Rightarrow> quota_db \<Rightarrow> quota_snapshot \<times> quota_db" where
  "snapshot pol s t db =
     (let p = period_key pol t; (b, bs) = ensure_bucket s p (buckets db)
      in (\<lparr>qs_scope = s, qs_period = p, qs_runs = qb_runs b, qs_units = qb_units b,
           qs_max_runs = max_runs pol, qs_max_units = max_units pol\<rparr>, db\<lparr>buckets := bs\<rparr>))"

definition count_in :: "string \<Rightarrow> int \<Rightarrow> int \<Rightarrow> int \<Rightarrow> quota_bucket list \<Rightarrow> quota_bucket list" where
  "count_in s p dr du t = update_where (\<lambda>b. bucket_key b = (s, p))
     (\<lambda>b. b\<lparr>qb_runs := qb_runs b + dr, qb_units := qb_units b + du\<rparr>) t"

definition quota_reserve :: "quota_policy \<Rightarrow> string \<Rightarrow> string \<Rightarrow> int \<Rightarrow> int \<times> int \<Rightarrow> quota_db \<Rightarrow>
    exn + (quota_snapshot \<times> quota_db)" where
  "quota_reserve pol scope run units clk db =
     (if blank scope \<or> blank run
      then Inl (ValueError ''quota scope and run identity must be non-empty'')
      else if units \<le> 0 then Inl (ValueError ''quota units must be a positive integer'')
      else let p = period_key pol (fst clk)
        in case find (\<lambda>a. qa_run a = run) (admissions db) of
          Some a \<Rightarrow>
            (if (qa_scope a, qa_period a, qa_units a, qa_status a) \<noteq> (scope, p, units, Counted)
             then Inl (ValueError ''quota run identity was reused with different admission data'')
             else Inr (snapshot pol scope (snd clk) db))
        | None \<Rightarrow>
            (let (b, bs) = ensure_bucket scope p (buckets db)
             in if qb_runs b + 1 > max_runs pol then Inl (QuotaExceeded ''runs'' (max_runs pol))
                else if qb_units b + units > max_units pol then Inl (QuotaExceeded ''units'' (max_units pol))
                else Inr (snapshot pol scope (snd clk) (db\<lparr>
                  buckets := count_in scope p 1 units bs,
                  admissions := admissions db @ [\<lparr>qa_run = run, qa_scope = scope, qa_period = p,
                    qa_units = units, qa_status = Counted\<rparr>]\<rparr>))))"

text \<open>The CHECK constraints of \<open>quota_buckets\<close> refuse a negative count.\<close>

definition quota_release :: "string \<Rightarrow> quota_db \<Rightarrow> exn + (unit \<times> quota_db)" where
  "quota_release run db =
     (case find (\<lambda>a. qa_run a = run) (admissions db) of
        None \<Rightarrow> Inr ((), db)
      | Some a \<Rightarrow>
          (if qa_status a = Freed then Inr ((), db)
           else let bs = count_in (qa_scope a) (qa_period a) (- 1) (- qa_units a) (buckets db)
             in if \<exists>b\<in>set bs. qb_runs b < 0 \<or> qb_units b < 0
                then Inl (IntegrityError ''quota_buckets'')
                else Inr ((), db\<lparr>buckets := bs,
                  admissions := update_where (\<lambda>a. qa_run a = run) (\<lambda>a. a\<lparr>qa_status := Freed\<rparr>) (admissions db)\<rparr>)))"

section \<open>The invariant: a bucket counts its open admissions\<close>

definition counts :: "string \<Rightarrow> int \<Rightarrow> quota_admission \<Rightarrow> bool" where
  "counts s p a \<longleftrightarrow> qa_scope a = s \<and> qa_period a = p \<and> qa_status a = Counted"

definition runs_in :: "string \<Rightarrow> int \<Rightarrow> quota_admission list \<Rightarrow> int" where
  "runs_in s p t = (\<Sum>a\<leftarrow>t. if counts s p a then 1 else 0)"

definition units_in :: "string \<Rightarrow> int \<Rightarrow> quota_admission list \<Rightarrow> int" where
  "units_in s p t = (\<Sum>a\<leftarrow>t. if counts s p a then qa_units a else 0)"

definition quota_inv :: "quota_policy \<Rightarrow> quota_db \<Rightarrow> bool" where
  "quota_inv pol db \<longleftrightarrow> unique_by bucket_key (buckets db) \<and> unique_by qa_run (admissions db)
     \<and> (\<forall>a\<in>set (admissions db). 0 < qa_units a \<and> (qa_scope a, qa_period a) \<in> bucket_key ` set (buckets db))
     \<and> (\<forall>b\<in>set (buckets db). qb_runs b = runs_in (qb_scope b) (qb_period b) (admissions db)
          \<and> qb_units b = units_in (qb_scope b) (qb_period b) (admissions db)
          \<and> qb_runs b \<le> max_runs pol \<and> qb_units b \<le> max_units pol)
     \<and> 0 \<le> max_runs pol \<and> 0 \<le> max_units pol"

lemma quota_invI:
  assumes "unique_by bucket_key bs" and "unique_by qa_run as"
    and "\<And>a. a \<in> set as \<Longrightarrow> 0 < qa_units a \<and> (qa_scope a, qa_period a) \<in> bucket_key ` set bs"
    and "\<And>b. b \<in> set bs \<Longrightarrow> qb_runs b = runs_in (qb_scope b) (qb_period b) as
          \<and> qb_units b = units_in (qb_scope b) (qb_period b) as
          \<and> qb_runs b \<le> max_runs pol \<and> qb_units b \<le> max_units pol"
    and "0 \<le> max_runs pol" and "0 \<le> max_units pol"
  shows "quota_inv pol (db\<lparr>buckets := bs, admissions := as\<rparr>)"
proof -
  have "buckets (db\<lparr>buckets := bs, admissions := as\<rparr>) = bs"
    and "admissions (db\<lparr>buckets := bs, admissions := as\<rparr>) = as" by simp_all
  then show ?thesis unfolding quota_inv_def
    by (simp only:) (intro conjI ballI assms | rule assms(3) [THEN conjunct1] assms(3) [THEN conjunct2]
      assms(4) [THEN conjunct1] assms(4) [THEN conjunct2, THEN conjunct1]
      assms(4) [THEN conjunct2, THEN conjunct2, THEN conjunct1]
      assms(4) [THEN conjunct2, THEN conjunct2, THEN conjunct2]; assumption)+
qed

lemma sums_append [simp]:
  "runs_in s p (t @ [a]) = runs_in s p t + (if counts s p a then 1 else 0)"
  "units_in s p (t @ [a]) = units_in s p t + (if counts s p a then qa_units a else 0)"
  by (simp_all add: runs_in_def units_in_def)

lemma sums_none:
  assumes "\<forall>a\<in>set t. (qa_scope a, qa_period a) \<noteq> (s, p)"
  shows "runs_in s p t = 0" "units_in s p t = 0"
  using assms by (induction t) (auto simp: runs_in_def units_in_def counts_def)

lemma sums_nonneg:
  assumes "\<forall>a\<in>set t. 0 < qa_units a"
  shows "0 \<le> runs_in s p t" "0 \<le> units_in s p t"
  using assms by (induction t) (auto simp: runs_in_def units_in_def intro: add_nonneg_nonneg less_imp_le)

lemma find_bucket_Some: "find_bucket s p t = Some b \<Longrightarrow> b \<in> set t \<and> qb_scope b = s \<and> qb_period b = p"
  by (auto simp: find_bucket_def dest!: find_SomeD)

lemma find_bucket_None: "find_bucket s p t = None \<longleftrightarrow> (s, p) \<notin> bucket_key ` set t"
  by (auto simp: find_bucket_def find_None_iff_set image_iff)

lemma ensure_bucket_inv:
  assumes "quota_inv pol db" and "ensure_bucket s p (buckets db) = (b, bs)"
  shows "quota_inv pol (db\<lparr>buckets := bs\<rparr>) \<and> b \<in> set bs \<and> qb_scope b = s \<and> qb_period b = p"
proof (cases "find_bucket s p (buckets db)")
  case (Some b')
  with assms show ?thesis by (auto simp: ensure_bucket_def dest: find_bucket_Some)
next
  case None
  then have new: "(s, p) \<notin> bucket_key ` set (buckets db)" by (simp add: find_bucket_None)
  then have "\<forall>a\<in>set (admissions db). (qa_scope a, qa_period a) \<noteq> (s, p)"
    using assms(1) by (auto simp: quota_inv_def)
  with None assms new show ?thesis
    by (auto simp: ensure_bucket_def Let_def quota_inv_def unique_by_append sums_none)
qed

lemma snapshot_inv: "quota_inv pol db \<Longrightarrow> quota_inv pol (snd (snapshot pol s t db))"
  using ensure_bucket_inv by (auto simp: snapshot_def Let_def split: prod.splits)

lemma snapshot_admissions [simp]: "admissions (snd (snapshot pol s t db)) = admissions db"
  by (simp add: snapshot_def Let_def split: prod.splits)

lemma in_count_in:
  "x \<in> set (count_in s p dr du t) \<longleftrightarrow> (\<exists>b\<in>set t. x = (if bucket_key b = (s, p)
     then b\<lparr>qb_runs := qb_runs b + dr, qb_units := qb_units b + du\<rparr> else b))"
  by (auto simp: count_in_def in_set_update_where)

lemma map_key_count_in [tbl]: "map bucket_key (count_in s p dr du t) = map bucket_key t"
  by (simp add: count_in_def map_update_where)

lemma keys_count_in [tbl]: "bucket_key ` set (count_in s p dr du t) = bucket_key ` set t"
  by (metis map_key_count_in set_map)

lemma unique_count_in [tbl]: "unique_by bucket_key (count_in s p dr du t) = unique_by bucket_key t"
  by (simp add: count_in_def unique_by_update_where)

lemma quota_reserve_InrE:
  assumes "quota_reserve pol s r n clk db = Inr (x, db')"
  obtains (replay) a where "find (\<lambda>a. qa_run a = r) (admissions db) = Some a"
      and "qa_scope a = s" "qa_period a = period_key pol (fst clk)" "qa_units a = n" "qa_status a = Counted"
      and "(x, db') = snapshot pol s (snd clk) db"
  | (admit) b bs where "find (\<lambda>a. qa_run a = r) (admissions db) = None" "0 < n"
      and "ensure_bucket s (period_key pol (fst clk)) (buckets db) = (b, bs)"
      and "qb_runs b + 1 \<le> max_runs pol" "qb_units b + n \<le> max_units pol"
      and "(x, db') = snapshot pol s (snd clk) (db\<lparr>
             buckets := count_in s (period_key pol (fst clk)) 1 n bs,
             admissions := admissions db @ [\<lparr>qa_run = r, qa_scope = s, qa_period = period_key pol (fst clk),
               qa_units = n, qa_status = Counted\<rparr>]\<rparr>)"
proof (cases "find (\<lambda>a. qa_run a = r) (admissions db)")
  case (Some a)
  with assms show thesis
    by (auto simp: quota_reserve_def Let_def split: if_splits intro: replay)
next
  case None
  obtain b bs where e: "ensure_bucket s (period_key pol (fst clk)) (buckets db) = (b, bs)"
    by (cases "ensure_bucket s (period_key pol (fst clk)) (buckets db)")
  from assms None e show thesis
    by (intro admit [OF None _ e]) (auto simp: quota_reserve_def Let_def split: if_splits)
qed

lemma admit_inv:
  assumes I: "quota_inv pol (db\<lparr>buckets := bs\<rparr>)" and new: "\<forall>a\<in>set (admissions db). qa_run a \<noteq> r"
    and b: "b \<in> set bs" "qb_scope b = s" "qb_period b = p" and n: "0 < n"
    and room: "qb_runs b + 1 \<le> max_runs pol" "qb_units b + n \<le> max_units pol"
  shows "quota_inv pol (db\<lparr>buckets := count_in s p 1 n bs, admissions := admissions db @
    [\<lparr>qa_run = r, qa_scope = s, qa_period = p, qa_units = n, qa_status = Counted\<rparr>]\<rparr>)"
proof -
  let ?a = "\<lparr>qa_run = r, qa_scope = s, qa_period = p, qa_units = n, qa_status = Counted\<rparr>"
  have u: "unique_by bucket_key bs" using I by (simp add: quota_inv_def)
  have key: "(s, p) \<in> bucket_key ` set bs" using b by force
  have "qb_runs x = runs_in (qb_scope x) (qb_period x) (admissions db @ [?a])
        \<and> qb_units x = units_in (qb_scope x) (qb_period x) (admissions db @ [?a])
        \<and> qb_runs x \<le> max_runs pol \<and> qb_units x \<le> max_units pol"
    if x: "x \<in> set (count_in s p 1 n bs)" for x
  proof -
    from x obtain y where y: "y \<in> set bs" and xy: "x = (if bucket_key y = (s, p)
        then y\<lparr>qb_runs := qb_runs y + 1, qb_units := qb_units y + n\<rparr> else y)"
      unfolding in_count_in by blast
    have Y: "qb_runs y = runs_in (qb_scope y) (qb_period y) (admissions db)"
      "qb_units y = units_in (qb_scope y) (qb_period y) (admissions db)"
      "qb_runs y \<le> max_runs pol" "qb_units y \<le> max_units pol"
      using I y by (auto simp: quota_inv_def)
    show ?thesis
    proof (cases "bucket_key y = (s, p)")
      case True
      then have "y = b" using unique_by_inj [OF u y b(1)] b by simp
      with True xy Y room show ?thesis by (simp add: counts_def)
    next
      case False
      with xy Y show ?thesis by (auto simp: counts_def)
    qed
  qed
  moreover have "unique_by qa_run (admissions db @ [?a])"
    using I new by (simp add: quota_inv_def unique_by_append)
  moreover have "0 < qa_units q \<and> (qa_scope q, qa_period q) \<in> bucket_key ` set (count_in s p 1 n bs)"
    if "q \<in> set (admissions db @ [?a])" for q
    using that I n key by (auto simp: quota_inv_def keys_count_in)
  moreover have "0 \<le> max_runs pol" "0 \<le> max_units pol"
    using I by (simp_all add: quota_inv_def)
  ultimately show ?thesis
    using u by (intro quota_invI) ((simp only: unique_count_in)?, blast)+
qed

lemma quota_reserve_inv:
  assumes "quota_inv pol db" and "quota_reserve pol s r n clk db = Inr (x, db')"
  shows "quota_inv pol db'"
  using assms(2)
proof (cases rule: quota_reserve_InrE)
  case (replay a)
  then show ?thesis using snapshot_inv [OF assms(1), of s "snd clk"] by (metis snd_conv)
next
  case (admit b bs)
  note e = ensure_bucket_inv [OF assms(1) admit(3)]
  have "\<forall>a\<in>set (admissions db). qa_run a \<noteq> r" using admit(1) by (simp add: find_None_iff_set)
  from admit_inv [OF _ this _ _ _ admit(2,4,5)] e
  have "quota_inv pol (db\<lparr>buckets := count_in s (period_key pol (fst clk)) 1 n bs,
      admissions := admissions db @ [\<lparr>qa_run = r, qa_scope = s, qa_period = period_key pol (fst clk),
        qa_units = n, qa_status = Counted\<rparr>]\<rparr>)" by blast
  from snapshot_inv [OF this, of s "snd clk"] admit(6) show ?thesis by (metis snd_conv)
qed

lemma quota_reserve_admissions:
  assumes "quota_reserve pol s r n clk db = Inr (x, db')"
  obtains (same) a where "admissions db' = admissions db" "a \<in> set (admissions db)" "qa_run a = r"
      "qa_scope a = s" "qa_period a = period_key pol (fst clk)" "qa_units a = n" "qa_status a = Counted"
      "find (\<lambda>a. qa_run a = r) (admissions db) = Some a"
  | (new) a where "admissions db' = admissions db @ [a]" "\<forall>q\<in>set (admissions db). qa_run q \<noteq> r"
      "a = \<lparr>qa_run = r, qa_scope = s, qa_period = period_key pol (fst clk), qa_units = n, qa_status = Counted\<rparr>"
  using assms
proof (cases rule: quota_reserve_InrE)
  case (replay a)
  have "admissions db' = admissions db" using replay(6) snapshot_admissions by (metis snd_conv)
  with replay find_SomeD [OF replay(1)] same show thesis by blast
next
  case (admit b bs)
  have "admissions db' = admissions db @ [\<lparr>qa_run = r, qa_scope = s, qa_period = period_key pol (fst clk),
      qa_units = n, qa_status = Counted\<rparr>]"
    using admit(6) snapshot_admissions by (metis snd_conv quota_db.select_convs(2) quota_db.surjective
      quota_db.update_convs(2))
  with admit(1) new show thesis by (simp add: find_None_iff_set)
qed

lemma sums_freed:
  assumes "unique_by qa_run t" and "a \<in> set t" and "qa_status a = Counted"
  defines "t' \<equiv> update_where (\<lambda>x. qa_run x = qa_run a) (\<lambda>x. x\<lparr>qa_status := Freed\<rparr>) t"
  shows "runs_in s p t' = runs_in s p t - (if (qa_scope a, qa_period a) = (s, p) then 1 else 0)"
    and "units_in s p t' = units_in s p t - (if (qa_scope a, qa_period a) = (s, p) then qa_units a else 0)"
  using sum_update_where [OF assms(1,2), of "\<lambda>x. if counts s p x then 1 else 0" "\<lambda>x. x\<lparr>qa_status := Freed\<rparr>"]
    sum_update_where [OF assms(1,2), of "\<lambda>x. if counts s p x then qa_units x else 0" "\<lambda>x. x\<lparr>qa_status := Freed\<rparr>"]
    assms(3)
  by (simp_all add: runs_in_def units_in_def counts_def t'_def)

lemma quota_release_cases:
  assumes I: "quota_inv pol db"
  obtains (noop) "quota_release r db = Inr ((), db)" "\<forall>a\<in>set (admissions db). qa_run a = r \<longrightarrow> qa_status a = Freed"
  | (freed) a db' where "quota_release r db = Inr ((), db')" "a \<in> set (admissions db)" "qa_run a = r"
      "qa_status a = Counted" "quota_inv pol db'"
      "admissions db' = update_where (\<lambda>x. qa_run x = r) (\<lambda>x. x\<lparr>qa_status := Freed\<rparr>) (admissions db)"
proof (cases "find (\<lambda>a. qa_run a = r) (admissions db)")
  case None
  then have "quota_release r db = Inr ((), db)" by (simp add: quota_release_def)
  moreover have "\<forall>a\<in>set (admissions db). qa_run a = r \<longrightarrow> qa_status a = Freed"
    using None by (simp add: find_None_iff_set)
  ultimately show thesis by (rule noop)
next
  case (Some a)
  have ur: "unique_by qa_run (admissions db)" using I by (simp add: quota_inv_def)
  have a: "a \<in> set (admissions db)" "qa_run a = r" using find_SomeD [OF Some] by auto
  show thesis
  proof (cases "qa_status a")
    case Freed
    have "q = a" if "q \<in> set (admissions db)" "qa_run q = r" for q
      using unique_by_inj [OF ur that(1) a(1)] that a by simp
    with Some Freed show thesis by (intro noop) (auto simp: quota_release_def)
  next
    case Counted
    let ?bs = "count_in (qa_scope a) (qa_period a) (- 1) (- qa_units a) (buckets db)"
    let ?as = "update_where (\<lambda>x. qa_run x = r) (\<lambda>x. x\<lparr>qa_status := Freed\<rparr>) (admissions db)"
    let ?db = "db\<lparr>buckets := ?bs, admissions := ?as\<rparr>"
    have pos: "0 < qa_units a" using I a by (simp add: quota_inv_def)
    have B: "qb_runs x = runs_in (qb_scope x) (qb_period x) ?as
        \<and> qb_units x = units_in (qb_scope x) (qb_period x) ?as
        \<and> qb_runs x \<le> max_runs pol \<and> qb_units x \<le> max_units pol" if x: "x \<in> set ?bs" for x
    proof -
      from x obtain y where y: "y \<in> set (buckets db)" and xy: "x = (if bucket_key y = (qa_scope a, qa_period a)
          then y\<lparr>qb_runs := qb_runs y + - 1, qb_units := qb_units y + - qa_units a\<rparr> else y)"
        unfolding in_count_in by blast
      have Y: "qb_runs y = runs_in (qb_scope y) (qb_period y) (admissions db)"
        "qb_units y = units_in (qb_scope y) (qb_period y) (admissions db)"
        "qb_runs y \<le> max_runs pol" "qb_units y \<le> max_units pol"
        using I y by (auto simp: quota_inv_def)
      show ?thesis
        using xy Y pos sums_freed [OF ur a(1) Counted, of "qb_scope y" "qb_period y"] a(2)
        by (cases "bucket_key y = (qa_scope a, qa_period a)") auto
    qed
    have A: "\<forall>x\<in>set ?as. 0 < qa_units x" "bucket_key ` set ?bs = bucket_key ` set (buckets db)"
      using I by (auto simp: quota_inv_def in_set_update_where keys_count_in)
    have "unique_by bucket_key ?bs" "unique_by qa_run ?as"
      using I by (simp_all add: quota_inv_def unique_count_in unique_by_update_where)
    moreover have "(qa_scope x, qa_period x) \<in> bucket_key ` set ?bs" if "x \<in> set ?as" for x
      using that I unfolding A(2) quota_inv_def by (auto simp: in_set_update_where)
    moreover have "0 \<le> max_runs pol" "0 \<le> max_units pol"
      using I by (simp_all add: quota_inv_def)
    ultimately have inv: "quota_inv pol ?db"
      using A(1) B by (intro quota_invI) blast+
    have "\<not> (\<exists>x\<in>set ?bs. qb_runs x < 0 \<or> qb_units x < 0)"
      using B sums_nonneg [OF A(1)] by (metis not_less)
    then have "quota_release r db = Inr ((), ?db)"
      using Some Counted by (simp add: quota_release_def)
    then show thesis by (rule freed [OF _ a Counted inv]) simp
  qed
qed

section \<open>The counter as a quota port\<close>

definition sqlite_quota_port :: "quota_policy \<Rightarrow> quota_db quota_port" where
  "sqlite_quota_port pol = \<lparr>q_reserve = quota_reserve pol, q_release = quota_release\<rparr>"

definition admitted :: "quota_db \<Rightarrow> string \<Rightarrow> bool" where
  "admitted db r \<longleftrightarrow> (\<exists>a\<in>set (admissions db). qa_run a = r \<and> qa_status a = Counted)"

lemma quota_reserve_admits:
  assumes "quota_reserve pol s r n clk db = Inr (x, db')"
  shows "admitted db' = (admitted db)(r := True)"
  using assms
proof (cases rule: quota_reserve_admissions)
  case (same a)
  then have "admitted db r" by (auto simp: admitted_def)
  with same show ?thesis by (auto simp: admitted_def fun_eq_iff)
next
  case (new a)
  then show ?thesis by (auto simp: admitted_def fun_eq_iff)
qed

lemma counted_after_free:
  "(\<exists>a\<in>set (update_where (\<lambda>x. qa_run x = r) (\<lambda>x. x\<lparr>qa_status := Freed\<rparr>) t). qa_run a = q \<and> qa_status a = Counted)
     \<longleftrightarrow> q \<noteq> r \<and> (\<exists>a\<in>set t. qa_run a = q \<and> qa_status a = Counted)"
  by (induction t) auto

lemma quota_release_frees:
  assumes "quota_inv pol db" and "quota_release r db = Inr (y, db')"
  shows "quota_inv pol db' \<and> admitted db' = (admitted db)(r := False)"
proof (rule quota_release_cases [OF assms(1), of r], goal_cases noop freed)
  case noop
  with assms have "db' = db" "\<not> admitted db r" by (auto simp: admitted_def)
  with assms(1) show ?thesis by (simp add: fun_upd_idem)
next
  case (freed a db2)
  with assms(2) have "db' = db2" by simp
  moreover have "admitted db2 = (admitted db)(r := False)"
    by (rule ext) (simp add: admitted_def freed(6) counted_after_free)
  ultimately show ?thesis using freed(5) by blast
qed

interpretation sqlite_quota: quota_port_laws "sqlite_quota_port pol" "quota_inv pol" admitted for pol
proof (unfold_locales, goal_cases)
  case (1 q s r n p x q')
  then show ?case by (auto simp: sqlite_quota_port_def intro: quota_reserve_inv)
next
  case (2 q r y q')
  then show ?case using quota_release_frees [of pol q r y q'] by (simp add: sqlite_quota_port_def)
next
  case (3 q s r n p x q')
  then show ?case by (auto simp: sqlite_quota_port_def intro: quota_reserve_admits)
next
  case (4 q r)
  then show ?case
    by (rule quota_release_cases [of pol q r]) (auto simp: sqlite_quota_port_def)
next
  case (5 q r y q')
  then show ?case using quota_release_frees [of pol q r y q'] by (simp add: sqlite_quota_port_def)
qed

section \<open>Properties\<close>

text \<open>One step: a call that returned (a call that raised rolled its transaction back).\<close>

inductive quota_step :: "quota_policy \<Rightarrow> quota_db \<Rightarrow> quota_db \<Rightarrow> bool" for pol where
  qstep_reserve: "quota_reserve pol s r n clk db = Inr (x, db') \<Longrightarrow> quota_step pol db db'"
| qstep_release: "quota_release r db = Inr (y, db') \<Longrightarrow> quota_step pol db db'"
| qstep_snapshot: "snapshot pol s t db = (x, db') \<Longrightarrow> quota_step pol db db'"

lemma quota_step_inv: "quota_step pol db db' \<Longrightarrow> quota_inv pol db \<Longrightarrow> quota_inv pol db'"
proof (induction rule: quota_step.induct)
  case (qstep_reserve s r n clk db x db')
  then show ?case by (blast intro: quota_reserve_inv)
next
  case (qstep_release r db y db')
  then show ?case by (blast dest: quota_release_frees)
next
  case (qstep_snapshot s t db x db')
  then show ?case using snapshot_inv by (metis snd_conv)
qed

lemma quota_steps_inv: "(quota_step pol)\<^sup>*\<^sup>* db db' \<Longrightarrow> quota_inv pol db \<Longrightarrow> quota_inv pol db'"
  by (induction rule: rtranclp_induct) (auto intro: quota_step_inv)

lemma quota_inv_empty: "0 \<le> max_runs pol \<Longrightarrow> 0 \<le> max_units pol \<Longrightarrow> quota_inv pol empty_quota_db"
  by (simp add: quota_inv_def empty_quota_db_def)

lemma make_quota_policy_pos:
  "make_quota_policy r u t = Inr pol \<Longrightarrow> 0 < max_runs pol \<and> 0 < max_units pol \<and> 0 < period_seconds pol
     \<and> max_runs pol \<le> 1000000 \<and> max_units pol \<le> 10000000 \<and> period_seconds pol \<le> 31536000"
  by (auto simp: make_quota_policy_def split: if_splits)

text \<open>
  C5. Under a policy the constructor accepts, no sequence of admissions, releases and snapshots
  ever lets the open admissions of a tenant in one window exceed the run limit or the unit limit.
\<close>

theorem quota_never_exceeded:
  assumes "make_quota_policy r u t = Inr pol" and "(quota_step pol)\<^sup>*\<^sup>* empty_quota_db db"
  shows "runs_in s p (admissions db) \<le> max_runs pol \<and> units_in s p (admissions db) \<le> max_units pol"
proof -
  have pol: "0 \<le> max_runs pol" "0 \<le> max_units pol"
    using make_quota_policy_pos [OF assms(1)] by auto
  have I: "quota_inv pol db"
    using quota_steps_inv [OF assms(2) quota_inv_empty [OF pol]] .
  show ?thesis
  proof (cases "(s, p) \<in> bucket_key ` set (buckets db)")
    case True
    then show ?thesis using I unfolding quota_inv_def by fastforce
  next
    case False
    then have "\<forall>a\<in>set (admissions db). (qa_scope a, qa_period a) \<noteq> (s, p)"
      using I by (auto simp: quota_inv_def)
    then show ?thesis using pol by (simp add: sums_none)
  qed
qed

definition demo_policy :: quota_policy where
  "demo_policy = \<lparr>max_runs = 1, max_units = 5, period_seconds = 60\<rparr>"

theorem quota_never_exceeded_witness:
  "\<exists>x db. quota_reserve demo_policy ''t'' ''run-1'' 2 (100, 100) empty_quota_db = Inr (x, db)
     \<and> runs_in ''t'' 1 (admissions db) = 1 \<and> runs_in ''t'' 1 (admissions db) \<le> max_runs demo_policy
     \<and> quota_reserve demo_policy ''t'' ''run-2'' 2 (101, 101) db = Inl (QuotaExceeded ''runs'' 1)"
proof -
  have "case quota_reserve demo_policy ''t'' ''run-1'' 2 (100, 100) empty_quota_db of
      Inl e \<Rightarrow> False | Inr (x, db) \<Rightarrow> runs_in ''t'' 1 (admissions db) = 1
        \<and> quota_reserve demo_policy ''t'' ''run-2'' 2 (101, 101) db = Inl (QuotaExceeded ''runs'' 1)"
    by code_simp
  then obtain x db where r: "quota_reserve demo_policy ''t'' ''run-1'' 2 (100, 100) empty_quota_db = Inr (x, db)"
    and q: "runs_in ''t'' 1 (admissions db) = 1
        \<and> quota_reserve demo_policy ''t'' ''run-2'' 2 (101, 101) db = Inl (QuotaExceeded ''runs'' 1)"
    by (rule run_obtain)
  have pol: "make_quota_policy 1 5 60 = Inr demo_policy"
    by (simp add: make_quota_policy_def demo_policy_def)
  from r have st: "(quota_step demo_policy)\<^sup>*\<^sup>* empty_quota_db db" by (auto intro: quota_step.intros)
  from quota_never_exceeded [OF pol st, of "''t''" 1] r q show ?thesis by blast
qed

text \<open>
  Retrying an admitted run in the same window is a no-op on the admissions; retrying it in any
  other window does not return: it raises \<open>ValueError\<close>, although the class documents a
  retry as a no-op.
\<close>

theorem quota_retry:
  assumes "quota_inv pol db" and "quota_reserve pol s r n clk db = Inr (x, db1)"
  shows "if period_key pol (fst clk') = period_key pol (fst clk)
     then \<exists>x' db2. quota_reserve pol s r n clk' db1 = Inr (x', db2) \<and> admissions db2 = admissions db1
     else quota_reserve pol s r n clk' db1 =
       Inl (ValueError ''quota run identity was reused with different admission data'')"
proof -
  have args: "\<not> blank s" "\<not> blank r" "0 < n"
    using assms(2) by (auto simp: quota_reserve_def split: if_splits)
  have I: "quota_inv pol db1" using assms by (rule quota_reserve_inv)
  obtain a where a: "a \<in> set (admissions db1)" "qa_run a = r" "qa_scope a = s"
      "qa_period a = period_key pol (fst clk)" "qa_units a = n" "qa_status a = Counted"
  proof (cases rule: quota_reserve_admissions [OF assms(2)])
    case (1 a)
    then show ?thesis by (intro that [of a]) auto
  next
    case (2 a)
    then show ?thesis by (intro that [of a]) auto
  qed
  have f: "find (\<lambda>a. qa_run a = r) (admissions db1) = Some a"
    using I find_key_unique [of qa_run _ a] a by (simp add: quota_inv_def)
  show ?thesis
  proof (cases "period_key pol (fst clk') = period_key pol (fst clk)")
    case True
    with f a args have "quota_reserve pol s r n clk' db1 = Inr (snapshot pol s (snd clk') db1)"
      by (auto simp: quota_reserve_def Let_def)
    with True show ?thesis by (metis prod.collapse snapshot_admissions)
  next
    case False
    with f a args show ?thesis by (auto simp: quota_reserve_def Let_def)
  qed
qed

theorem quota_retry_witness:
  "\<exists>x db. quota_reserve demo_policy ''t'' ''run-1'' 2 (100, 100) empty_quota_db = Inr (x, db)
     \<and> quota_reserve demo_policy ''t'' ''run-1'' 2 (180, 180) db =
         Inl (ValueError ''quota run identity was reused with different admission data'')"
proof -
  have "case quota_reserve demo_policy ''t'' ''run-1'' 2 (100, 100) empty_quota_db of
      Inl e \<Rightarrow> False | Inr (x, db) \<Rightarrow> True"
    by code_simp
  then obtain x db where r: "quota_reserve demo_policy ''t'' ''run-1'' 2 (100, 100) empty_quota_db = Inr (x, db)"
    by (rule run_obtain)
  have "quota_inv demo_policy empty_quota_db" by (rule quota_inv_empty) (simp_all add: demo_policy_def)
  from quota_retry [OF this r, of "(180, 180)"] r show ?thesis
    by (simp add: period_key_def demo_policy_def)
qed

end
