(* ===== verification/Token_Budget.thy ===== *)
theory Token_Budget
  imports Prelude
begin

text \<open>
  The Local Lite token ceilings of \<open>agent_platform/budgets.py\<close>: the policy for each
  mode, the ledger with its decisions, \<open>reserve\<close> with its checks in the code's order,
  and the token estimate; with the \<open>BudgetDecision\<close> and \<open>UsageRecord\<close> records of
  \<open>contracts.py\<close>.
\<close>

section \<open>State\<close>

datatype budget_status = Allowed | Quota_Paused | Budget_Exceeded

record budget_decision =
  bd_allowed :: bool
  bd_status :: budget_status
  bd_reason :: string
  bd_total_used :: int
  bd_total_limit :: int
  bd_primary_calls :: int
  bd_retries :: int

record budget_policy =
  bp_mode :: string
  bp_phase_limits :: "int list"
  bp_total_limit :: int
  bp_per_call_input :: int
  bp_max_primary :: int
  bp_max_retries :: int

definition local_lite :: "string \<Rightarrow> exn + budget_policy" where
  "local_lite mode =
     (if mode = ''plan_only'' then Inr \<lparr>bp_mode = mode, bp_phase_limits = [2000, 9000, 9000],
        bp_total_limit = 20000, bp_per_call_input = 8000, bp_max_primary = 5, bp_max_retries = 1\<rparr>
      else if mode = ''verify'' then Inr \<lparr>bp_mode = mode, bp_phase_limits = [20000, 16000, 5000],
        bp_total_limit = 41000, bp_per_call_input = 8000, bp_max_primary = 5, bp_max_retries = 1\<rparr>
      else Inl (ValueError ''mode must be plan_only or verify''))"

record token_ledger =
  tl_policy :: budget_policy
  tl_quota :: "int option"
  tl_total :: int
  tl_primary :: int
  tl_retries :: int
  tl_decisions :: "budget_decision list"
  tl_phases :: "int list"

definition new_token_ledger :: "budget_policy \<Rightarrow> int option \<Rightarrow> token_ledger" where
  "new_token_ledger pol quota = \<lparr>tl_policy = pol, tl_quota = quota, tl_total = 0, tl_primary = 0,
     tl_retries = 0, tl_decisions = [], tl_phases = [0, 0, 0]\<rparr>"

section \<open>Operations\<close>

definition decide :: "bool \<Rightarrow> budget_status \<Rightarrow> string \<Rightarrow> token_ledger \<Rightarrow> budget_decision \<times> token_ledger" where
  "decide ok st why l =
     (let d = \<lparr>bd_allowed = ok, bd_status = st, bd_reason = why, bd_total_used = tl_total l,
               bd_total_limit = bp_total_limit (tl_policy l), bd_primary_calls = tl_primary l,
               bd_retries = tl_retries l\<rparr>
      in (d, l\<lparr>tl_decisions := tl_decisions l @ [d]\<rparr>))"

record token_request =
  tr_phase :: int
  tr_input :: int
  tr_output :: int
  tr_retry :: bool

definition over_quota :: "token_ledger \<Rightarrow> int \<Rightarrow> bool" where
  "over_quota l n = (case tl_quota l of None \<Rightarrow> False | Some q \<Rightarrow> q < tl_total l + n)"

definition spend :: "token_request \<Rightarrow> token_ledger \<Rightarrow> token_ledger" where
  "spend r l =
     (let n = tr_input r + tr_output r; p = nat (tr_phase r)
      in l\<lparr>tl_total := tl_total l + n, tl_phases := (tl_phases l)[p := tl_phases l ! p + n],
           tl_retries := (if tr_retry r then tl_retries l + 1 else tl_retries l),
           tl_primary := (if tr_retry r then tl_primary l else tl_primary l + 1)\<rparr>)"

definition budget_reserve :: "token_request \<Rightarrow> token_ledger \<Rightarrow> exn + (budget_decision \<times> token_ledger)" where
  "budget_reserve r l =
     (let pol = tl_policy l; n = tr_input r + tr_output r; p = nat (tr_phase r)
      in if tr_phase r < 0 \<or> 2 < tr_phase r then Inl (ValueError ''phase must be 0, 1, or 2'')
         else if bp_per_call_input pol < tr_input r
         then Inr (decide False Budget_Exceeded ''per-call input limit exceeded'' l)
         else if tr_input r < 0 \<or> tr_output r < 0
         then Inr (decide False Budget_Exceeded ''negative token usage'' l)
         else if tr_retry r \<and> bp_max_retries pol \<le> tl_retries l
         then Inr (decide False Budget_Exceeded ''retry limit exceeded'' l)
         else if \<not> tr_retry r \<and> bp_max_primary pol \<le> tl_primary l
         then Inr (decide False Budget_Exceeded ''primary model-call limit exceeded'' l)
         else if over_quota l n then Inr (decide False Quota_Paused ''tenant quota exhausted'' l)
         else if bp_total_limit pol < tl_total l + n
         then Inr (decide False Budget_Exceeded ''total token budget exhausted'' l)
         else if bp_phase_limits pol ! p < tl_phases l ! p + n
         then Inr (decide False Budget_Exceeded ''phase token budget exhausted'' l)
         else Inr (decide True Allowed ''within Local Lite budget'' (spend r l)))"

text \<open>The estimate, on the length in bytes of the UTF-8 encoding.\<close>

definition estimate_tokens :: "nat \<Rightarrow> nat" where
  "estimate_tokens bytes = max 1 ((bytes + 3) div 4)"

record usage_record =
  ur_run :: string
  ur_call :: string
  ur_phase :: string
  ur_input :: int
  ur_output :: int
  ur_total :: int
  ur_estimated :: bool
  ur_cache_hit :: bool
  ur_expansion :: int
  ur_decision :: string
  ur_retry :: bool

definition make_usage :: "usage_record \<Rightarrow> exn + usage_record" where
  "make_usage u =
     (if ur_input u < 0 \<or> ur_output u < 0 \<or> ur_total u < 0
      then Inl (ValueError ''token counts must be non-negative'')
      else if ur_total u \<noteq> ur_input u + ur_output u
      then Inl (ValueError ''total_tokens must equal input_tokens + output_tokens'')
      else Inr u)"

section \<open>The invariant\<close>

definition policy_ok :: "budget_policy \<Rightarrow> bool" where
  "policy_ok pol \<longleftrightarrow> length (bp_phase_limits pol) = 3 \<and> (\<forall>x\<in>set (bp_phase_limits pol). 0 \<le> x)
     \<and> 0 \<le> bp_total_limit pol \<and> 0 \<le> bp_max_primary pol \<and> 0 \<le> bp_max_retries pol"

definition budget_inv :: "token_ledger \<Rightarrow> bool" where
  "budget_inv l \<longleftrightarrow> (let pol = tl_policy l in
     length (bp_phase_limits pol) = 3 \<and> length (tl_phases l) = 3
     \<and> (\<forall>p<3. 0 \<le> tl_phases l ! p \<and> tl_phases l ! p \<le> bp_phase_limits pol ! p)
     \<and> sum_list (tl_phases l) = tl_total l \<and> tl_total l \<le> bp_total_limit pol
     \<and> (case tl_quota l of None \<Rightarrow> True | Some q \<Rightarrow> tl_total l \<le> max 0 q)
     \<and> 0 \<le> tl_primary l \<and> tl_primary l \<le> bp_max_primary pol
     \<and> 0 \<le> tl_retries l \<and> tl_retries l \<le> bp_max_retries pol
     \<and> int (length (filter bd_allowed (tl_decisions l))) = tl_primary l + tl_retries l)"

lemma local_lite_ok: "local_lite mode = Inr pol \<Longrightarrow> policy_ok pol"
  by (auto simp: local_lite_def policy_ok_def split: if_splits)

lemma new_ledger_inv: "policy_ok pol \<Longrightarrow> budget_inv (new_token_ledger pol quota)"
  by (auto simp: policy_ok_def budget_inv_def new_token_ledger_def Let_def less_Suc_eq numeral_3_eq_3
      split: option.split)

lemma decide_snd [simp]:
  "tl_policy (snd (decide ok st why l)) = tl_policy l" "tl_quota (snd (decide ok st why l)) = tl_quota l"
  "tl_total (snd (decide ok st why l)) = tl_total l" "tl_primary (snd (decide ok st why l)) = tl_primary l"
  "tl_retries (snd (decide ok st why l)) = tl_retries l" "tl_phases (snd (decide ok st why l)) = tl_phases l"
  "tl_decisions (snd (decide ok st why l)) = tl_decisions l @ [fst (decide ok st why l)]"
  "bd_allowed (fst (decide ok st why l)) = ok" "bd_status (fst (decide ok st why l)) = st"
  by (simp_all add: decide_def Let_def)

lemma decide_refuse_inv: "budget_inv l \<Longrightarrow> budget_inv (snd (decide False st why l))"
  by (cases "tl_quota l") (auto simp: budget_inv_def Let_def)

text \<open>The conditions under which a request is granted.\<close>

definition affordable :: "token_request \<Rightarrow> token_ledger \<Rightarrow> bool" where
  "affordable r l \<longleftrightarrow> (let pol = tl_policy l; n = tr_input r + tr_output r; p = nat (tr_phase r) in
     0 \<le> tr_input r \<and> 0 \<le> tr_output r \<and> tr_input r \<le> bp_per_call_input pol
     \<and> (if tr_retry r then tl_retries l < bp_max_retries pol else tl_primary l < bp_max_primary pol)
     \<and> \<not> over_quota l n \<and> tl_total l + n \<le> bp_total_limit pol
     \<and> tl_phases l ! p + n \<le> bp_phase_limits pol ! p)"

lemma budget_reserve_cases:
  assumes "budget_reserve r l = Inr (d, l')"
  obtains (granted) "affordable r l" "0 \<le> tr_phase r" "tr_phase r \<le> 2"
      "(d, l') = decide True Allowed ''within Local Lite budget'' (spend r l)"
  | (refused) st why where "\<not> affordable r l" "(d, l') = decide False st why l" "st \<noteq> Allowed"
proof -
  have ph: "0 \<le> tr_phase r" "tr_phase r \<le> 2"
    using assms by (auto simp: budget_reserve_def Let_def split: if_splits)
  show thesis
  proof (cases "affordable r l")
    case True
    with ph assms have "(d, l') = decide True Allowed ''within Local Lite budget'' (spend r l)"
      by (simp add: budget_reserve_def affordable_def Let_def split: if_splits)
    with True ph show thesis by (rule granted)
  next
    case False
    with ph assms have "\<exists>st why. (d, l') = decide False st why l \<and> st \<noteq> Allowed"
      unfolding budget_reserve_def affordable_def Let_def
      by (simp split: if_splits) (metis budget_status.distinct(1,3))+
    with False show thesis by (auto intro: refused)
  qed
qed

lemma sum_list_update_int:
  fixes xs :: "int list"
  shows "k < length xs \<Longrightarrow> sum_list (xs[k := xs ! k + n]) = sum_list xs + n"
  by (induction xs arbitrary: k) (auto split: nat.split)

lemma spend_inv:
  assumes I: "budget_inv l" and a: "affordable r l" and ph: "0 \<le> tr_phase r" "tr_phase r \<le> 2"
  shows "budget_inv (snd (decide True Allowed why (spend r l)))"
proof -
  let ?n = "tr_input r + tr_output r" and ?p = "nat (tr_phase r)"
  have p: "?p < 3" using ph by linarith
  have len: "length (tl_phases l) = 3" using I by (simp add: budget_inv_def Let_def)
  have n: "0 \<le> ?n" using a by (simp add: affordable_def Let_def)
  have "0 \<le> tl_phases (spend r l) ! q \<and> tl_phases (spend r l) ! q \<le> bp_phase_limits (tl_policy l) ! q"
    if "q < 3" for q
    using I a n that p len
    by (cases "q = ?p") (auto simp: budget_inv_def affordable_def spend_def Let_def)
  moreover have "sum_list (tl_phases (spend r l)) = tl_total l + ?n"
    using I p len by (simp add: spend_def Let_def sum_list_update_int budget_inv_def)
  ultimately show ?thesis
    using I a n len unfolding budget_inv_def affordable_def over_quota_def
    by (auto simp: spend_def Let_def split: option.splits if_splits)
qed

lemma budget_reserve_inv:
  assumes "budget_inv l" and "budget_reserve r l = Inr (d, l')"
  shows "budget_inv l'"
  using assms(2)
proof (cases rule: budget_reserve_cases)
  case granted
  from spend_inv [OF assms(1) granted(1,2,3), of "''within Local Lite budget''"] granted(4)
  show ?thesis by (metis snd_conv)
next
  case (refused st why)
  from decide_refuse_inv [OF assms(1), of st why] refused(2) show ?thesis by (metis snd_conv)
qed

section \<open>Properties\<close>

text \<open>All requests of a run, in order; an invalid phase raises and leaves the ledger as it is.\<close>

fun reserve_all :: "token_request list \<Rightarrow> token_ledger \<Rightarrow> token_ledger" where
  "reserve_all [] l = l"
| "reserve_all (r # rs) l = (case budget_reserve r l of
     Inl e \<Rightarrow> reserve_all rs l | Inr (d, l') \<Rightarrow> reserve_all rs l')"

lemma reserve_all_inv: "budget_inv l \<Longrightarrow> budget_inv (reserve_all rs l)"
  by (induction rs arbitrary: l) (auto split: sum.splits prod.splits intro: budget_reserve_inv)

lemma budget_reserve_frame:
  assumes "budget_reserve r l = Inr (d, l')"
  shows "tl_policy l' = tl_policy l \<and> tl_quota l' = tl_quota l"
  using assms
proof (cases rule: budget_reserve_cases)
  case granted
  from granted(4) have "l' = snd (decide True Allowed ''within Local Lite budget'' (spend r l))" by (metis snd_conv)
  then show ?thesis by (simp add: spend_def Let_def)
next
  case (refused st why)
  from refused(2) have "l' = snd (decide False st why l)" by (metis snd_conv)
  then show ?thesis by simp
qed

lemma reserve_all_frame: "tl_policy (reserve_all rs l) = tl_policy l \<and> tl_quota (reserve_all rs l) = tl_quota l"
  by (induction rs arbitrary: l) (auto split: sum.splits prod.splits dest: budget_reserve_frame)



text \<open>
  A request in a valid phase always gets a decision: it is allowed exactly when every
  ceiling has room for it, and then the total grows by exactly its tokens; a refused request
  changes no counter.
\<close>

theorem reserve_decides:
  assumes "0 \<le> tr_phase r" "tr_phase r \<le> 2"
  shows "\<exists>d l'. budget_reserve r l = Inr (d, l') \<and> bd_allowed d = affordable r l
    \<and> (bd_status d = Allowed) = affordable r l \<and> tl_decisions l' = tl_decisions l @ [d]
    \<and> tl_total l' = tl_total l + (if affordable r l then tr_input r + tr_output r else 0)
    \<and> tl_primary l' + tl_retries l' = tl_primary l + tl_retries l + (if affordable r l then 1 else 0)"
proof -
  have "\<exists>x. budget_reserve r l = Inr x"
    using assms by (simp add: budget_reserve_def Let_def)
  then obtain d l' where dl: "budget_reserve r l = Inr (d, l')"
    by auto
  then show ?thesis
  proof (cases rule: budget_reserve_cases)
    case granted
    let ?m = "decide True Allowed ''within Local Lite budget'' (spend r l)"
    have "d = fst ?m" "l' = snd ?m" using granted(4) by (metis fst_conv, metis snd_conv)
    then have "bd_allowed d" "bd_status d = Allowed" "tl_decisions l' = tl_decisions l @ [d]"
      "tl_total l' = tl_total l + (tr_input r + tr_output r)"
      "tl_primary l' + tl_retries l' = tl_primary l + tl_retries l + 1"
      by (simp_all add: spend_def Let_def)
    with dl granted(1) show ?thesis by (intro exI [of _ d] exI [of _ l']) simp
  next
    case (refused st why)
    have "d = fst (decide False st why l)" "l' = snd (decide False st why l)"
      using refused(2) by (metis fst_conv, metis snd_conv)
    then have "\<not> bd_allowed d" "bd_status d \<noteq> Allowed" "tl_decisions l' = tl_decisions l @ [d]"
      "tl_total l' = tl_total l" "tl_primary l' + tl_retries l' = tl_primary l + tl_retries l"
      using refused(3) by simp_all
    with dl refused(1) show ?thesis by (intro exI [of _ d] exI [of _ l']) simp
  qed
qed

theorem reserve_decides_witness:
  "\<exists>pol d l'. local_lite ''verify'' = Inr pol \<and>
     budget_reserve \<lparr>tr_phase = 2, tr_input = 5000, tr_output = 1, tr_retry = False\<rparr>
       (new_token_ledger pol None) = Inr (d, l') \<and> \<not> bd_allowed d \<and> tl_total l' = 0"
proof -
  let ?r = "\<lparr>tr_phase = 2, tr_input = 5000, tr_output = 1, tr_retry = False\<rparr>"
  have "case local_lite ''verify'' of Inl e \<Rightarrow> False | Inr pol \<Rightarrow> \<not> affordable ?r (new_token_ledger pol None)"
    by code_simp
  then obtain pol where pol: "local_lite ''verify'' = Inr pol" "\<not> affordable ?r (new_token_ledger pol None)"
    by (auto split: sum.splits)
  have "tl_total (new_token_ledger pol None) = 0" by (simp add: new_token_ledger_def)
  with reserve_decides [of ?r "new_token_ledger pol None"] pol show ?thesis by fastforce
qed

end
