(* ===== verification/Lifecycle.thy ===== *)
theory Lifecycle
  imports Prelude
begin

text \<open>
  Two contracts that both durable stores of the program keep: a state column that only moves
  along a transition table, and an event log whose entries of one run are numbered without gaps
  and never rewritten. \<open>Run_Store\<close> and \<open>Kernel_Store\<close> interpret them.
\<close>

section \<open>State columns\<close>

locale lifecycle =
  fixes state :: "'db \<Rightarrow> 'k \<Rightarrow> 's option"
    and step :: "'db \<Rightarrow> 'db \<Rightarrow> bool"
    and allowed :: "'s \<Rightarrow> 's \<Rightarrow> bool"
    and ok :: "'db \<Rightarrow> bool"
  assumes ok_step: "ok d \<Longrightarrow> step d d' \<Longrightarrow> ok d'"
    and moves: "ok d \<Longrightarrow> step d d' \<Longrightarrow> state d k = Some s \<Longrightarrow>
      \<exists>t. state d' k = Some t \<and> (t = s \<or> allowed s t)"
begin

lemma ok_steps: "step\<^sup>*\<^sup>* d d' \<Longrightarrow> ok d \<Longrightarrow> ok d'"
  by (induction rule: rtranclp_induct) (auto intro: ok_step)

lemma travels:
  assumes "step\<^sup>*\<^sup>* d d'" and "ok d" and "state d k = Some s"
  shows "\<exists>t. state d' k = Some t \<and> allowed\<^sup>*\<^sup>* s t"
  using assms
proof (induction rule: rtranclp_induct)
  case base
  then show ?case by auto
next
  case (step y z)
  then obtain t where "state y k = Some t" "allowed\<^sup>*\<^sup>* s t" by auto
  moreover have "ok y" using step ok_steps by auto
  ultimately show ?case
    using moves [of y z k t] step.hyps(2) by (auto intro: rtranclp.rtrancl_into_rtrancl)
qed

lemma final_stays:
  assumes "step\<^sup>*\<^sup>* d d'" and "ok d" and "state d k = Some s" and "\<And>t. \<not> allowed s t"
  shows "state d' k = Some s"
proof -
  obtain t where "state d' k = Some t" "allowed\<^sup>*\<^sup>* s t" using travels assms(1-3) by blast
  then show ?thesis using assms(4) by (auto elim: converse_rtranclpE)
qed

end

section \<open>Sequenced event logs\<close>

locale sequenced_log =
  fixes seq :: "'db \<Rightarrow> 'k \<Rightarrow> int option"
    and log :: "'db \<Rightarrow> 'k \<Rightarrow> 'e list"
    and num :: "'e \<Rightarrow> int"
    and step :: "'db \<Rightarrow> 'db \<Rightarrow> bool"
    and ok :: "'db \<Rightarrow> bool"
  assumes ok_step: "ok d \<Longrightarrow> step d d' \<Longrightarrow> ok d'"
    and unopened: "ok d \<Longrightarrow> seq d k = None \<Longrightarrow> log d k = []"
    and advance: "ok d \<Longrightarrow> step d d' \<Longrightarrow>
      seq d' k = seq d k \<and> log d' k = log d k \<or>
      (\<exists>e. log d' k = log d k @ [e] \<and> num e = (case seq d k of None \<Rightarrow> 1 | Some n \<Rightarrow> n + 1) \<and> seq d' k = Some (num e))"
begin

definition contiguous :: "'db \<Rightarrow> bool" where
  "contiguous d \<longleftrightarrow> (\<forall>k. map num (log d k) = (case seq d k of None \<Rightarrow> [] | Some n \<Rightarrow> [1..n]) \<and>
     (\<forall>n. seq d k = Some n \<longrightarrow> 1 \<le> n))"

lemma contiguous_step:
  assumes "ok d" and "step d d'" and "contiguous d"
  shows "contiguous d'"
  unfolding contiguous_def
proof (intro allI)
  fix k
  have C: "map num (log d k) = (case seq d k of None \<Rightarrow> [] | Some n \<Rightarrow> [1..n])"
    "\<And>n. seq d k = Some n \<Longrightarrow> 1 \<le> n"
    using assms(3) by (auto simp: contiguous_def)
  from advance [OF assms(1,2), of k]
  show "map num (log d' k) = (case seq d' k of None \<Rightarrow> [] | Some n \<Rightarrow> [1..n]) \<and>
      (\<forall>n. seq d' k = Some n \<longrightarrow> 1 \<le> n)"
  proof
    assume "seq d' k = seq d k \<and> log d' k = log d k"
    with C show ?thesis by simp
  next
    assume "\<exists>e. log d' k = log d k @ [e] \<and> num e = (case seq d k of None \<Rightarrow> 1 | Some n \<Rightarrow> n + 1) \<and> seq d' k = Some (num e)"
    then obtain e where e: "log d' k = log d k @ [e]" "seq d' k = Some (num e)"
      "num e = (case seq d k of None \<Rightarrow> 1 | Some n \<Rightarrow> n + 1)" by blast
    with C show ?thesis
      by (cases "seq d k") (auto simp: upto_rec2)
  qed
qed

lemma contiguous_steps: "step\<^sup>*\<^sup>* d d' \<Longrightarrow> ok d \<Longrightarrow> contiguous d \<Longrightarrow> ok d' \<and> contiguous d'"
  by (induction rule: rtranclp_induct) (auto intro: ok_step contiguous_step)

lemma ok_steps: "step\<^sup>*\<^sup>* d d' \<Longrightarrow> ok d \<Longrightarrow> ok d'"
  by (induction rule: rtranclp_induct) (auto intro: ok_step)

lemma append_only:
  assumes "step\<^sup>*\<^sup>* d d'" and "ok d"
  shows "\<exists>es. log d' k = log d k @ es"
  using assms
proof (induction rule: rtranclp_induct)
  case base
  then show ?case by simp
next
  case (step y z)
  then have "ok y" by (blast intro: ok_steps)
  from advance [OF this step.hyps(2), of k] step show ?case by auto
qed

end

end
