(* ===== verification/Redaction.thy ===== *)
theory Redaction
  imports Prelude
begin

text \<open>
  The redaction of secrets before values reach events, checkpoints and caches:
  \<open>redact_text\<close> of \<open>services/run_service/store.py\<close> and its recursive
  \<open>_redact_state\<close>. A regular expression is a matcher: on a suffix of the text it gives
  the replacement and the length of the match at its start, and \<open>sub_all\<close> is
  \<open>re.sub\<close>. Case is ignored on ASCII letters, as \<open>(?i)\<close> does.
\<close>

section \<open>Substitution\<close>

type_synonym matcher = "string \<Rightarrow> (string \<times> nat) option"

fun sub_all :: "matcher \<Rightarrow> string \<Rightarrow> string" where
  "sub_all m [] = []"
| "sub_all m (c # cs) = (case m (c # cs) of
     Some (rep, n) \<Rightarrow> rep @ sub_all m (drop (n - 1) cs)
   | None \<Rightarrow> c # sub_all m cs)"

definition prefix_ci :: "string \<Rightarrow> string \<Rightarrow> bool" where
  "prefix_ci p s \<longleftrightarrow> length p \<le> length s \<and> lower (take (length p) s) = p"

definition is_digit :: "char \<Rightarrow> bool" where
  "is_digit c \<longleftrightarrow> (let n = (of_char c :: nat) in 48 \<le> n \<and> n \<le> 57)"

definition is_letter :: "char \<Rightarrow> bool" where
  "is_letter c \<longleftrightarrow> (let n = (of_char c :: nat) in (65 \<le> n \<and> n \<le> 90) \<or> (97 \<le> n \<and> n \<le> 122))"

text \<open>\<open>[A-Za-z0-9_-]\<close> and \<open>[^,;\s}]\<close>\<close>

definition key_char :: "char \<Rightarrow> bool" where
  "key_char c \<longleftrightarrow> is_letter c \<or> is_digit c \<or> c = CHR ''_'' \<or> c = CHR ''-''"

definition value_char :: "char \<Rightarrow> bool" where
  "value_char c \<longleftrightarrow> c \<noteq> CHR '','' \<and> c \<noteq> CHR '';'' \<and> c \<noteq> CHR ''}'' \<and> \<not> is_space c"

section \<open>The three patterns\<close>

text \<open>\<open>(?i)(sk-[A-Za-z0-9_-]+)\<close>\<close>

definition match_sk :: matcher where
  "match_sk s = (if prefix_ci ''sk-'' s \<and> takeWhile key_char (drop 3 s) \<noteq> []
     then Some (''[REDACTED_KEY]'', 3 + length (takeWhile key_char (drop 3 s))) else None)"

text \<open>
  \<open>(?i)(password|passwd|secret|token|api[_-]?key|card(?:_number)?)[=:][^,;\s}]+\<close>: the
  alternatives in the order backtracking tries them, and the first that is followed by a
  separator and a value.
\<close>

definition credential_words :: "string list" where
  "credential_words = [''password'', ''passwd'', ''secret'', ''token'', ''api_key'', ''api-key'', ''apikey'',
     ''card_number'', ''card'']"

definition match_word :: "string \<Rightarrow> matcher" where
  "match_word w s = (case drop (length w) s of
     [] \<Rightarrow> None
   | c # rest \<Rightarrow>
       (if prefix_ci w s \<and> (c = CHR ''='' \<or> c = CHR '':'') \<and> takeWhile value_char rest \<noteq> []
        then Some (take (length w) s @ ''=[REDACTED]'', length w + 1 + length (takeWhile value_char rest))
        else None))"

fun first_match :: "matcher list \<Rightarrow> matcher" where
  "first_match [] s = None"
| "first_match (m # ms) s = (case m s of Some x \<Rightarrow> Some x | None \<Rightarrow> first_match ms s)"

definition match_credential :: matcher where
  "match_credential = first_match (map match_word credential_words)"

text \<open>\<open>(?i)card=\d+\<close>\<close>

definition match_card :: matcher where
  "match_card s = (if prefix_ci ''card='' s \<and> takeWhile is_digit (drop 5 s) \<noteq> []
     then Some (''card=[REDACTED]'', 5 + length (takeWhile is_digit (drop 5 s))) else None)"

definition redact_text :: "string \<Rightarrow> string" where
  "redact_text s = sub_all match_card (sub_all match_credential (sub_all match_sk s))"

text \<open>\<open>_redact_state\<close>: strings anywhere inside a value are redacted, keys are kept.\<close>

fun redact_state :: "json \<Rightarrow> json"
  and redact_list :: "json list \<Rightarrow> json list"
  and redact_dict :: "dict \<Rightarrow> dict" where
  "redact_state (JStr s) = JStr (redact_text s)"
| "redact_state (JObj d) = JObj (redact_dict d)"
| "redact_state (JList xs) = JList (redact_list xs)"
| "redact_state v = v"
| "redact_list [] = []"
| "redact_list (x # xs) = redact_state x # redact_list xs"
| "redact_dict [] = []"
| "redact_dict ((k, v) # d) = (k, redact_state v) # redact_dict d"

lemma redact_list_map: "redact_list xs = map redact_state xs"
  by (induction xs) auto

lemma redact_dict_map: "redact_dict d = map (\<lambda>(k, v). (k, redact_state v)) d"
  by (induction d) auto

end
