(* ===== verification/Json_Text.thy ===== *)
theory Json_Text
  imports Prelude "HOL-Library.List_Lexorder"
begin

text \<open>
  Text the services produce and read: Python's decimal rendering and \<open>int(str)\<close>, and
  \<open>json.dumps(value, sort_keys=True, separators=(",", ":"))\<close>. Rendering a float is the
  parameter \<open>fr\<close>.
\<close>

section \<open>Integers\<close>

definition digit_char :: "nat \<Rightarrow> char" where
  "digit_char d = char_of (48 + d)"

fun dec_nat :: "nat \<Rightarrow> string" where
  "dec_nat n = (if n < 10 then [digit_char n] else dec_nat (n div 10) @ [digit_char (n mod 10)])"

declare dec_nat.simps [simp del]

definition dec_int :: "int \<Rightarrow> string" where
  "dec_int i = (if i < 0 then CHR ''-'' # dec_nat (nat (- i)) else dec_nat (nat i))"

definition digit_value :: "char \<Rightarrow> int option" where
  "digit_value c = (let n = (of_char c :: nat) in if 48 \<le> n \<and> n \<le> 57 then Some (int n - 48) else None)"

text \<open>Digits with single underscores between them, as \<open>int()\<close> accepts them.\<close>

fun parse_digits :: "bool \<Rightarrow> int \<Rightarrow> string \<Rightarrow> int option" where
  "parse_digits after_digit acc [] = (if after_digit then Some acc else None)"
| "parse_digits after_digit acc (c # cs) = (case digit_value c of
     Some d \<Rightarrow> parse_digits True (acc * 10 + d) cs
   | None \<Rightarrow> if c = CHR ''_'' \<and> after_digit then parse_digits False acc cs else None)"

definition parse_int :: "string \<Rightarrow> int option" where
  "parse_int s = (case strip s of
     [] \<Rightarrow> None
   | c # cs \<Rightarrow> if c = CHR ''-'' then map_option uminus (parse_digits False 0 cs)
               else if c = CHR ''+'' then parse_digits False 0 cs
               else parse_digits False 0 (c # cs))"

lemma digit_value_digit_char: "d < 10 \<Longrightarrow> digit_value (digit_char d) = Some (int d)"
  by (simp add: digit_value_def digit_char_def Let_def)

lemma parse_digits_dec: "parse_digits b acc (dec_nat n @ cs) =
    parse_digits True (acc * 10 ^ length (dec_nat n) + int n) cs"
proof (induction n arbitrary: b acc cs rule: dec_nat.induct)
  case (1 n)
  show ?case
  proof (cases "n < 10")
    case True
    then show ?thesis by (simp add: dec_nat.simps [of n] digit_value_digit_char)
  next
    case False
    have "int n = int (n div 10) * 10 + int (n mod 10)"
      by (metis div_mult_mod_eq of_nat_add of_nat_mult of_nat_numeral)
    then have v: "int (n mod 10) + (10 * int (n div 10) + x) = int n + x" for x by simp
    show ?thesis
      using 1 [OF False] False
      by (simp add: dec_nat.simps [of n] digit_value_digit_char algebra_simps v)
  qed
qed

lemma dec_nat_digits: "c \<in> set (dec_nat n) \<Longrightarrow> \<exists>d<10. c = digit_char d"
proof (induction n rule: dec_nat.induct)
  case (1 n)
  then show ?case
    by (cases "n < 10") (auto simp: dec_nat.simps [of n] intro: exI [of _ "n mod 10"])
qed

lemma digit_char_not_space: "d < 10 \<Longrightarrow> \<not> is_space (digit_char d)"
  by (simp add: is_space_def digit_char_def Let_def)

lemma digit_char_sign: "d < 10 \<Longrightarrow> digit_char d \<noteq> CHR ''-'' \<and> digit_char d \<noteq> CHR ''+''"
  by (auto simp: digit_char_def dest!: arg_cong [of _ _ "of_char :: char \<Rightarrow> nat"])

lemma strip_id: "\<forall>c\<in>set s. \<not> is_space c \<Longrightarrow> strip s = s"
proof -
  assume s: "\<forall>c\<in>set s. \<not> is_space c"
  then have "dropWhile is_space s = s" "dropWhile is_space (rev s) = rev s"
    by (auto simp: dropWhile_eq_self_iff) (metis in_set_conv_decomp rev_is_Nil_conv hd_in_set set_rev)
  then show ?thesis by (simp add: strip_def)
qed

lemma dec_nat_nonempty: "dec_nat n \<noteq> []"
  by (simp add: dec_nat.simps)

text \<open>A rendered number is read back.\<close>

lemma parse_dec_int: "parse_int (dec_int i) = Some i"
proof -
  have sp: "\<forall>c\<in>set (dec_int i). \<not> is_space c"
    by (auto simp: dec_int_def is_space_def [of "CHR ''-''"] dest!: dec_nat_digits digit_char_not_space)
  obtain c cs where n: "dec_nat (nat i) = c # cs" using dec_nat_nonempty by (cases "dec_nat (nat i)") auto
  then have c: "c \<noteq> CHR ''-''" "c \<noteq> CHR ''+''"
    using dec_nat_digits [of c "nat i"] digit_char_sign by auto
  have p: "parse_digits False 0 (dec_nat m) = Some (int m)" for m
    using parse_digits_dec [of False 0 m "[]"] by simp
  show ?thesis
  proof (cases "i < 0")
    case True
    then show ?thesis
      by (simp add: parse_int_def strip_id [OF sp] p) (simp add: dec_int_def p)
  next
    case False
    with c p [of "nat i"] show ?thesis
      by (simp add: parse_int_def strip_id [OF sp]) (simp add: dec_int_def n del: parse_digits.simps)
  qed
qed

section \<open>JSON text\<close>

definition hex_char :: "nat \<Rightarrow> char" where
  "hex_char d = (if d < 10 then char_of (48 + d) else char_of (87 + d))"

text \<open>\<open>ensure_ascii\<close>: everything outside the printable ASCII range is written as an escape.\<close>

definition json_char :: "char \<Rightarrow> string" where
  "json_char c = (let n = (of_char c :: nat) in
     if n = 34 then [CHR 0x5C, CHR 0x22]
     else if n = 92 then [CHR 0x5C, CHR 0x5C]
     else if n = 10 then [CHR 0x5C, CHR ''n'']
     else if n = 13 then [CHR 0x5C, CHR ''r'']
     else if n = 9 then [CHR 0x5C, CHR ''t'']
     else if n = 8 then [CHR 0x5C, CHR ''b'']
     else if n = 12 then [CHR 0x5C, CHR ''f'']
     else if 32 \<le> n \<and> n \<le> 126 then [c]
     else [CHR 0x5C, CHR ''u'', CHR ''0'', CHR ''0'', hex_char (n div 16), hex_char (n mod 16)])"

definition json_string :: "string \<Rightarrow> string" where
  "json_string s = [CHR 0x22] @ concat (map json_char s) @ [CHR 0x22]"

fun commas :: "string list \<Rightarrow> string" where
  "commas [] = []"
| "commas [x] = x"
| "commas (x # xs) = x @ CHR '','' # commas xs"

fun json_text :: "(rat \<Rightarrow> string) \<Rightarrow> json \<Rightarrow> string"
  and json_texts :: "(rat \<Rightarrow> string) \<Rightarrow> json list \<Rightarrow> string list"
  and json_members :: "(rat \<Rightarrow> string) \<Rightarrow> dict \<Rightarrow> (string \<times> string) list" where
  "json_text fr JNull = ''null''"
| "json_text fr (JBool b) = (if b then ''true'' else ''false'')"
| "json_text fr (JInt i) = dec_int i"
| "json_text fr (JNum r) = fr r"
| "json_text fr (JStr s) = json_string s"
| "json_text fr (JList vs) = ''['' @ commas (json_texts fr vs) @ '']''"
| "json_text fr (JObj d) = ''{'' @ commas (map snd (sort_key fst (json_members fr d))) @ ''}''"
| "json_texts fr [] = []"
| "json_texts fr (v # vs) = json_text fr v # json_texts fr vs"
| "json_members fr [] = []"
| "json_members fr ((k, v) # d) = (k, json_string k @ '':'' @ json_text fr v) # json_members fr d"

definition no_newline :: "string \<Rightarrow> bool" where
  "no_newline s \<longleftrightarrow> CHR 0x0A \<notin> set s"

lemma hex_char_no_newline: "d < 16 \<Longrightarrow> hex_char d \<noteq> CHR 0x0A"
  by (auto simp: hex_char_def dest!: arg_cong [of _ _ "of_char :: char \<Rightarrow> nat"])

lemma json_char_no_newline: "no_newline (json_char c)"
proof -
  have n: "(of_char c :: nat) < 256" by (metis of_char_mod_256 mod_less_divisor zero_less_numeral)
  then have "of_char c div 16 < (16 :: nat)" by (intro less_mult_imp_div_less) simp
  moreover have "of_char c mod 16 < (16 :: nat)" by simp
  ultimately have h: "CHR 0x0A \<noteq> hex_char (of_char c div 16)" "CHR 0x0A \<noteq> hex_char (of_char c mod 16)"
    by (simp_all only: hex_char_no_newline [THEN not_sym] not_False_eq_True)
  have c: "(of_char c :: nat) \<noteq> 10 \<Longrightarrow> CHR 0x0A \<noteq> c" by auto
  show ?thesis
    using c by (simp add: no_newline_def json_char_def Let_def h)
qed

lemma dec_int_no_newline: "no_newline (dec_int i)"
proof -
  have "d < 10 \<Longrightarrow> digit_char d \<noteq> CHR 0x0A" for d
    by (auto simp: digit_char_def dest!: arg_cong [of _ _ "of_char :: char \<Rightarrow> nat"])
  then show ?thesis by (fastforce simp: no_newline_def dec_int_def dest: dec_nat_digits)
qed

lemma json_string_no_newline: "no_newline (json_string s)"
  using json_char_no_newline by (auto simp: no_newline_def json_string_def)

lemma commas_no_newline: "\<forall>x\<in>set xs. no_newline x \<Longrightarrow> no_newline (commas xs)"
  by (induction xs rule: commas.induct) (auto simp: no_newline_def)

text \<open>A JSON text never holds a raw line feed, so it fits on one line of an event stream.\<close>

lemma json_text_no_newline:
  "(\<forall>r. no_newline (fr r)) \<longrightarrow> no_newline (json_text fr v)"
  "(\<forall>r. no_newline (fr r)) \<longrightarrow> (\<forall>x\<in>set (json_texts fr vs). no_newline x)"
  "(\<forall>r. no_newline (fr r)) \<longrightarrow> (\<forall>p\<in>set (json_members fr d). no_newline (snd p))"
proof (induction fr v and fr vs and fr d rule: json_text_json_texts_json_members.induct)
  case (6 fr vs)
  then show ?case using commas_no_newline [of "json_texts fr vs"] by (simp add: no_newline_def)
next
  case (7 fr d)
  then show ?case
    using commas_no_newline [of "map snd (sort_key fst (json_members fr d))"]
    by (simp add: no_newline_def)
next
  case (11 fr k v d)
  then show ?case using json_string_no_newline [of k] by (simp add: no_newline_def)
qed (simp_all add: dec_int_no_newline json_string_no_newline, simp_all add: no_newline_def)

end
