(* ===== verification/Run_Store.thy ===== *)
theory Run_Store
  imports Lifecycle Redaction
begin

text \<open>
  The durable run store of \<open>services/run_service\<close>: \<open>RunCreate\<close> and the run records of
  \<open>models.py\<close>, and every method of \<open>SQLiteRunStore\<close> (\<open>store.py\<close>) as a transaction
  body over the tables \<open>runs\<close>, \<open>run_events\<close> and \<open>run_checkpoints\<close>. The hex
  digits of the event's uuid and the clock reading are the arguments \<open>uid\<close> and \<open>now\<close>;
  JSON columns hold the dictionary they encode.
\<close>

section \<open>Run states\<close>

datatype run_state = Queued | Running | Waiting_Approval | Quota_Paused | Completed | Failed | Cancelled

fun run_state_name :: "run_state \<Rightarrow> string" where
  "run_state_name Queued = ''queued''"
| "run_state_name Running = ''running''"
| "run_state_name Waiting_Approval = ''waiting_approval''"
| "run_state_name Quota_Paused = ''quota_paused''"
| "run_state_name Completed = ''completed''"
| "run_state_name Failed = ''failed''"
| "run_state_name Cancelled = ''cancelled''"

text \<open>\<open>_TRANSITIONS\<close>\<close>

fun transitions :: "run_state \<Rightarrow> run_state list" where
  "transitions Queued = [Running, Failed, Cancelled, Quota_Paused]"
| "transitions Running = [Waiting_Approval, Completed, Failed, Cancelled]"
| "transitions Waiting_Approval = [Running, Failed, Cancelled]"
| "transitions Quota_Paused = [Queued, Cancelled]"
| "transitions Failed = [Queued]"
| "transitions Completed = []"
| "transitions Cancelled = []"

definition allowed :: "run_state \<Rightarrow> run_state \<Rightarrow> bool" where
  "allowed s t \<longleftrightarrow> t \<in> set (transitions s)"

section \<open>Requests and rows\<close>

record run_create =
  rc_tenant :: string
  rc_account :: string
  rc_project :: string
  rc_key :: string
  rc_trace :: string
  rc_input :: dict
  rc_units :: int
  rc_max_steps :: int
  rc_max_calls :: int
  rc_max_runtime :: rat

text \<open>\<open>RunCreate.__post_init__\<close>\<close>

definition make_run_create :: "run_create \<Rightarrow> exn + run_create" where
  "make_run_create r =
     (if blank (rc_tenant r) then Inl (ValueError ''tenant_id must be non-empty'')
      else if blank (rc_account r) then Inl (ValueError ''account_id must be non-empty'')
      else if blank (rc_project r) then Inl (ValueError ''project_id must be non-empty'')
      else if blank (rc_key r) then Inl (ValueError ''idempotency_key must be non-empty'')
      else if blank (rc_trace r) then Inl (ValueError ''trace_id must be non-empty'')
      else if length (rc_key r) < 8 \<or> length (rc_trace r) < 8
      then Inl (ValueError ''idempotency_key and trace_id must be at least 8 characters'')
      else if rc_units r \<le> 0 then Inl (ValueError ''reserve_units must be a positive integer'')
      else if rc_max_steps r \<le> 0 then Inl (ValueError ''max_steps must be a positive integer'')
      else if rc_max_calls r \<le> 0 then Inl (ValueError ''max_model_calls must be a positive integer'')
      else if 32 < rc_max_steps r \<or> 32 < rc_max_calls r
      then Inl (ValueError ''workflow limits cannot exceed 32'')
      else if rc_max_runtime r \<le> 0 then Inl (ValueError ''max_runtime_seconds must be positive'')
      else if 900 < rc_max_runtime r then Inl (ValueError ''workflow runtime cannot exceed 900 seconds'')
      else Inr r)"

text \<open>
  The dictionary whose JSON encoding \<open>fingerprint\<close> hashes. The digest of the encoding (sorted
  keys, no spaces, SHA-256) is the parameter \<open>H\<close> of \<open>fingerprint\<close>; the idempotency
  key is not part of it.
\<close>

definition fingerprint_value :: "run_create \<Rightarrow> dict" where
  "fingerprint_value r = [(''tenant_id'', JStr (rc_tenant r)), (''account_id'', JStr (rc_account r)),
     (''project_id'', JStr (rc_project r)), (''trace_id'', JStr (rc_trace r)), (''input'', JObj (rc_input r)),
     (''reserve_units'', JInt (rc_units r)), (''max_steps'', JInt (rc_max_steps r)),
     (''max_model_calls'', JInt (rc_max_calls r)), (''max_runtime_seconds'', JNum (rc_max_runtime r))]"

definition fingerprint :: "(dict \<Rightarrow> string) \<Rightarrow> run_create \<Rightarrow> string" where
  "fingerprint H r = H (fingerprint_value r)"

record run =
  rn_id :: string
  rn_tenant :: string
  rn_account :: string
  rn_project :: string
  rn_key :: string
  rn_trace :: string
  rn_input :: dict
  rn_state :: run_state
  rn_seq :: int
  rn_reservation :: "string option"
  rn_cancel :: bool
  rn_attempt :: int
  rn_max_steps :: int
  rn_max_calls :: int
  rn_max_runtime :: rat
  rn_result :: dict

text \<open>A row of \<open>runs\<close> is a run with the columns \<open>_to_run\<close> drops.\<close>

record run_row = run +
  rw_hash :: string
  rw_created_at :: string
  rw_updated_at :: string

record run_event =
  ev_id :: string
  ev_run :: string
  ev_tenant :: string
  ev_seq :: int
  ev_name :: string
  ev_data :: dict
  ev_created_at :: string

record checkpoint =
  cp_run :: string
  cp_step :: int
  cp_state :: dict
  cp_inflight :: "string option"
  cp_approval :: "string option"
  cp_usage :: int

record run_db =
  runs :: "run_row list"
  events :: "run_event list"
  checkpoints :: "checkpoint list"

definition empty_run_db :: run_db where
  "empty_run_db = \<lparr>runs = [], events = [], checkpoints = []\<rparr>"

definition to_run :: "run_row \<Rightarrow> run" where
  "to_run r = run.truncate r"

section \<open>Building blocks\<close>

definition find_run :: "string \<Rightarrow> run_db \<Rightarrow> run_row option" where
  "find_run rid db = find (\<lambda>r. rn_id r = rid) (runs db)"

text \<open>\<open>_row_locked\<close>\<close>

definition row_locked :: "string \<Rightarrow> run_db \<Rightarrow> exn + run_row" where
  "row_locked rid db = (case find_run rid db of None \<Rightarrow> Inl (RunNotFound rid) | Some r \<Rightarrow> Inr r)"

definition update_run :: "string \<Rightarrow> (run_row \<Rightarrow> run_row) \<Rightarrow> run_db \<Rightarrow> run_db" where
  "update_run rid f db = db\<lparr>runs := update_where (\<lambda>r. rn_id r = rid) f (runs db)\<rparr>"

definition event_name :: "string \<Rightarrow> string" where
  "event_name uid = ''event-'' @ uid"

text \<open>\<open>_append_event_locked\<close>, with the table's PRIMARY KEY and UNIQUE(run_id, sequence).\<close>

definition append_event_locked :: "string \<Rightarrow> string \<Rightarrow> string \<Rightarrow> string \<Rightarrow> int \<Rightarrow> string \<Rightarrow> dict \<Rightarrow>
    run_db \<Rightarrow> exn + (run_event \<times> run_db)" where
  "append_event_locked uid now rid tenant n name data db =
     (let e = \<lparr>ev_id = event_name uid, ev_run = rid, ev_tenant = tenant, ev_seq = n, ev_name = name,
               ev_data = data, ev_created_at = now\<rparr>
      in if \<exists>q\<in>set (events db). ev_id q = ev_id e \<or> (ev_run q = rid \<and> ev_seq q = n)
         then Inl (IntegrityError ''run_events'')
         else Inr (e, db\<lparr>events := events db @ [e]\<rparr>))"

text \<open>
  Every state change appends its event, updates the row, and reads the row back: the common tail
  of \<open>claim\<close>, \<open>transition\<close>, \<open>_transition_locked\<close>, \<open>complete\<close> and the cancel
  request.
\<close>

definition record_change :: "string \<Rightarrow> string \<Rightarrow> run_row \<Rightarrow> string \<Rightarrow> dict \<Rightarrow> (run_row \<Rightarrow> run_row) \<Rightarrow>
    run_db \<Rightarrow> exn + (run \<times> run_db)" where
  "record_change uid now row name data f db =
     (case append_event_locked uid now (rn_id row) (rn_tenant row) (rn_seq row + 1) name data db of
        Inl e \<Rightarrow> Inl e
      | Inr (ev, db1) \<Rightarrow>
          (let db2 = update_run (rn_id row) f db1
           in case row_locked (rn_id row) db2 of Inl e \<Rightarrow> Inl e | Inr r \<Rightarrow> Inr (to_run r, db2)))"

text \<open>\<open>{"state": state, "trace_id": trace, **payload}\<close>\<close>

definition change_payload :: "run_state \<Rightarrow> run_row \<Rightarrow> dict \<Rightarrow> dict" where
  "change_payload s row payload =
     dict_merge [(''state'', JStr (run_state_name s)), (''trace_id'', JStr (rn_trace row))] payload"

definition bad_transition :: "run_state \<Rightarrow> run_state \<Rightarrow> exn" where
  "bad_transition s t = InvalidTransition (run_state_name s @ '' -> '' @ run_state_name t @ '' is not allowed'')"

section \<open>Operations\<close>

definition new_run_row :: "(dict \<Rightarrow> string) \<Rightarrow> string \<Rightarrow> run_create \<Rightarrow> string \<Rightarrow> run_row" where
  "new_run_row H rid req now = \<lparr>rn_id = rid, rn_tenant = rc_tenant req, rn_account = rc_account req,
     rn_project = rc_project req, rn_key = rc_key req, rn_trace = rc_trace req,
     rn_input = rc_input req, rn_state = Queued, rn_seq = 1, rn_reservation = None,
     rn_cancel = False, rn_attempt = 0, rn_max_steps = rc_max_steps req,
     rn_max_calls = rc_max_calls req, rn_max_runtime = rc_max_runtime req, rn_result = [],
     rw_hash = fingerprint H req, rw_created_at = now, rw_updated_at = now\<rparr>"

definition create_run_row :: "(dict \<Rightarrow> string) \<Rightarrow> string \<Rightarrow> run_create \<Rightarrow> string \<Rightarrow> string \<Rightarrow> run_db \<Rightarrow>
    exn + ((run \<times> bool) \<times> run_db)" where
  "create_run_row H rid req uid now db =
     (case find (\<lambda>r. rn_tenant r = rc_tenant req \<and> rn_key r = rc_key req) (runs db) of
        Some r \<Rightarrow>
          (if rw_hash r \<noteq> fingerprint H req
           then Inl (IdempotencyConflict ''run idempotency key was reused with different input'')
           else Inr ((to_run r, False), db))
      | None \<Rightarrow>
          (if find_run rid db \<noteq> None then Inl (IntegrityError ''runs.run_id'')
           else let row = new_run_row H rid req now
                in case append_event_locked uid now rid (rc_tenant req) 1 ''run.state_changed''
                      [(''state'', JStr ''queued''), (''trace_id'', JStr (rc_trace req))]
                      (db\<lparr>runs := runs db @ [row]\<rparr>) of
                     Inl e \<Rightarrow> Inl e
                   | Inr (ev, db') \<Rightarrow> Inr ((to_run row, True), db')))"

definition get_run :: "string \<Rightarrow> string option \<Rightarrow> run_db \<Rightarrow> exn + run" where
  "get_run rid tenant db = (case find_run rid db of
     None \<Rightarrow> Inl (RunNotFound rid)
   | Some r \<Rightarrow> (case tenant of
       None \<Rightarrow> Inr (to_run r)
     | Some t \<Rightarrow> if rn_tenant r \<noteq> t then Inl (TenantMismatch rid) else Inr (to_run r)))"

definition attach_reservation :: "string \<Rightarrow> string \<Rightarrow> string \<Rightarrow> run_db \<Rightarrow> exn + (run \<times> run_db)" where
  "attach_reservation rid rsv now db = (case row_locked rid db of
     Inl e \<Rightarrow> Inl e
   | Inr row \<Rightarrow>
       (if rn_reservation row \<noteq> None \<and> rn_reservation row \<noteq> Some rsv
        then Inl (IdempotencyConflict ''run already has a different reservation'')
        else let db' = update_run rid (\<lambda>r. r\<lparr>rn_reservation := Some rsv, rw_updated_at := now\<rparr>) db
             in case row_locked rid db' of Inl e \<Rightarrow> Inl e | Inr r \<Rightarrow> Inr (to_run r, db')))"

definition claim :: "string \<Rightarrow> string \<Rightarrow> string \<Rightarrow> run_db \<Rightarrow> exn + (run \<times> run_db)" where
  "claim rid uid now db = (case row_locked rid db of
     Inl e \<Rightarrow> Inl e
   | Inr row \<Rightarrow>
       (if rn_state row \<noteq> Queued \<and> rn_state row \<noteq> Running then Inr (to_run row, db)
        else if rn_state row = Queued
        then record_change uid now row ''run.state_changed''
               [(''state'', JStr ''running''), (''trace_id'', JStr (rn_trace row)),
                (''worker_attempt'', JInt (rn_attempt row + 1))]
               (\<lambda>r. r\<lparr>rn_state := Running, rn_attempt := rn_attempt r + 1, rn_seq := rn_seq r + 1,
                      rw_updated_at := now\<rparr>) db
        else let db' = update_run rid (\<lambda>r. r\<lparr>rn_state := Running, rn_attempt := rn_attempt r + 1,
                         rw_updated_at := now\<rparr>) db
             in case row_locked rid db' of Inl e \<Rightarrow> Inl e | Inr r \<Rightarrow> Inr (to_run r, db')))"

definition transition :: "string \<Rightarrow> run_state \<Rightarrow> dict \<Rightarrow> string \<Rightarrow> string \<Rightarrow> run_db \<Rightarrow> exn + (run \<times> run_db)" where
  "transition rid s payload uid now db = (case row_locked rid db of
     Inl e \<Rightarrow> Inl e
   | Inr row \<Rightarrow>
       (if \<not> allowed (rn_state row) s then Inl (bad_transition (rn_state row) s)
        else record_change uid now row ''run.state_changed'' (change_payload s row payload)
               (\<lambda>r. r\<lparr>rn_state := s, rn_seq := rn_seq row + 1, rw_updated_at := now\<rparr>) db))"

text \<open>\<open>_transition_locked\<close> also clears the cancel flag.\<close>

definition transition_locked :: "run_row \<Rightarrow> run_state \<Rightarrow> dict \<Rightarrow> string \<Rightarrow> string \<Rightarrow> run_db \<Rightarrow>
    exn + (run \<times> run_db)" where
  "transition_locked row s payload uid now db =
     (if \<not> allowed (rn_state row) s then Inl (bad_transition (rn_state row) s)
      else record_change uid now row ''run.state_changed'' (change_payload s row payload)
             (\<lambda>r. r\<lparr>rn_state := s, rn_seq := rn_seq row + 1, rn_cancel := False, rw_updated_at := now\<rparr>) db)"

definition mark_cancel_requested :: "string \<Rightarrow> string \<Rightarrow> string \<Rightarrow> string \<Rightarrow> run_db \<Rightarrow> exn + (run \<times> run_db)" where
  "mark_cancel_requested rid tenant uid now db = (case row_locked rid db of
     Inl e \<Rightarrow> Inl e
   | Inr row \<Rightarrow>
       (if rn_tenant row \<noteq> tenant then Inl (TenantMismatch rid)
        else if rn_state row \<in> {Completed, Failed, Cancelled} then Inr (to_run row, db)
        else if rn_state row \<in> {Queued, Waiting_Approval}
        then transition_locked row Cancelled [(''reason'', JStr ''user_cancelled'')] uid now db
        else record_change uid now row ''run.state_changed''
               [(''state'', JStr ''running''), (''trace_id'', JStr (rn_trace row)),
                (''cancellation_requested'', JBool True)]
               (\<lambda>r. r\<lparr>rn_cancel := True, rn_seq := rn_seq row + 1, rw_updated_at := now\<rparr>) db))"

definition approve :: "string \<Rightarrow> string \<Rightarrow> string \<Rightarrow> string \<Rightarrow> run_db \<Rightarrow> exn + (run \<times> run_db)" where
  "approve rid tenant uid now db = (case row_locked rid db of
     Inl e \<Rightarrow> Inl e
   | Inr row \<Rightarrow>
       (if rn_tenant row \<noteq> tenant then Inl (TenantMismatch rid)
        else transition_locked row Running [(''approval'', JStr ''granted'')] uid now db))"

definition fail :: "string \<Rightarrow> string \<Rightarrow> string \<Rightarrow> string \<Rightarrow> run_db \<Rightarrow> exn + (run \<times> run_db)" where
  "fail rid reason uid now db =
     transition rid Failed [(''reason'', JStr (take 160 (redact_text reason)))] uid now db"

definition pause_quota :: "string \<Rightarrow> string \<Rightarrow> int \<Rightarrow> string \<Rightarrow> string \<Rightarrow> run_db \<Rightarrow> exn + (run \<times> run_db)" where
  "pause_quota rid what limit uid now db =
     (if what \<noteq> ''runs'' \<and> what \<noteq> ''units'' then Inl (ValueError ''unsupported quota dimension'')
      else transition rid Quota_Paused
        [(''reason'', JStr ''quota_limit''), (''dimension'', JStr what), (''limit'', JInt limit)] uid now db)"

text \<open>\<open>INSERT ... ON CONFLICT(run_id) DO UPDATE\<close>: replace the run's checkpoint or add it.\<close>

definition put_checkpoint :: "checkpoint \<Rightarrow> checkpoint list \<Rightarrow> checkpoint list" where
  "put_checkpoint c t = (if \<exists>q\<in>set t. cp_run q = cp_run c
     then update_where (\<lambda>q. cp_run q = cp_run c) (\<lambda>_. c) t else t @ [c])"

definition save_checkpoint :: "string \<Rightarrow> int \<Rightarrow> dict \<Rightarrow> string option \<Rightarrow> string option \<Rightarrow> int \<Rightarrow>
    run_db \<Rightarrow> exn + (checkpoint \<times> run_db)" where
  "save_checkpoint rid n state inflight approval usage db = (case row_locked rid db of
     Inl e \<Rightarrow> Inl e
   | Inr row \<Rightarrow>
       (let c = \<lparr>cp_run = rid, cp_step = n, cp_state = redact_dict state, cp_inflight = inflight,
                 cp_approval = approval, cp_usage = usage\<rparr>
        in Inr (c, db\<lparr>checkpoints := put_checkpoint c (checkpoints db)\<rparr>)))"

definition find_checkpoint :: "string \<Rightarrow> run_db \<Rightarrow> checkpoint option" where
  "find_checkpoint rid db = find (\<lambda>c. cp_run c = rid) (checkpoints db)"

definition append_token :: "string \<Rightarrow> string \<Rightarrow> string \<Rightarrow> string \<Rightarrow> run_db \<Rightarrow> exn + (run_event \<times> run_db)" where
  "append_token rid text uid now db = (case row_locked rid db of
     Inl e \<Rightarrow> Inl e
   | Inr row \<Rightarrow>
       (case append_event_locked uid now rid (rn_tenant row) (rn_seq row + 1) ''run.token''
               [(''text'', JStr (redact_text text)), (''trace_id'', JStr (rn_trace row))] db of
          Inl e \<Rightarrow> Inl e
        | Inr (ev, db1) \<Rightarrow>
            (let db2 = db1\<lparr>checkpoints := update_where (\<lambda>c. cp_run c = rid)
                   (\<lambda>c. c\<lparr>cp_state := AList.update ''token_emitted'' (JBool True) (cp_state c)\<rparr>) (checkpoints db1)\<rparr>
             in Inr (ev, update_run rid (\<lambda>r. r\<lparr>rn_seq := rn_seq row + 1, rw_updated_at := now\<rparr>) db2))))"

definition complete :: "string \<Rightarrow> int \<Rightarrow> string \<Rightarrow> string \<Rightarrow> run_db \<Rightarrow> exn + (run \<times> run_db)" where
  "complete rid usage uid now db = (case row_locked rid db of
     Inl e \<Rightarrow> Inl e
   | Inr row \<Rightarrow>
       (if rn_state row \<noteq> Running then Inl (bad_transition (rn_state row) Completed)
        else record_change uid now row ''run.completed''
               [(''usage_units'', JInt usage), (''trace_id'', JStr (rn_trace row))]
               (\<lambda>r. r\<lparr>rn_state := Completed, rn_seq := rn_seq row + 1,
                      rn_result := [(''usage_units'', JInt usage)], rw_updated_at := now\<rparr>) db))"

definition list_events :: "string \<Rightarrow> string \<Rightarrow> int \<Rightarrow> run_db \<Rightarrow> exn + run_event list" where
  "list_events rid tenant after db = (case get_run rid (Some tenant) db of
     Inl e \<Rightarrow> Inl e
   | Inr _ \<Rightarrow> Inr (sort_key ev_seq (filter (\<lambda>e. ev_run e = rid \<and> after < ev_seq e) (events db))))"

definition sequence_for_event :: "string \<Rightarrow> string \<Rightarrow> run_db \<Rightarrow> int" where
  "sequence_for_event rid eid db =
     (case find (\<lambda>e. ev_run e = rid \<and> ev_id e = eid) (events db) of None \<Rightarrow> 0 | Some e \<Rightarrow> ev_seq e)"

section \<open>The shapes of a change\<close>

lemma find_run_Some: "find_run rid db = Some r \<Longrightarrow> r \<in> set (runs db) \<and> rn_id r = rid"
  by (auto simp: find_run_def dest: find_SomeD)

lemma find_run_None: "find_run rid db = None \<longleftrightarrow> (\<forall>r\<in>set (runs db). rn_id r \<noteq> rid)"
  by (simp add: find_run_def find_None_iff_set)

lemma row_locked_Inr: "row_locked rid db = Inr r \<longleftrightarrow> find_run rid db = Some r"
  by (auto simp: row_locked_def split: option.splits)

lemma row_locked_Inl: "row_locked rid db = Inl e \<longleftrightarrow> find_run rid db = None \<and> e = RunNotFound rid"
  by (auto simp: row_locked_def split: option.splits)

definition same_identity :: "run_row \<Rightarrow> run_row \<Rightarrow> bool" where
  "same_identity r q \<longleftrightarrow> rn_id q = rn_id r \<and> rn_tenant q = rn_tenant r \<and> rn_account q = rn_account r
     \<and> rn_project q = rn_project r \<and> rn_key q = rn_key r \<and> rn_trace q = rn_trace r
     \<and> rn_input q = rn_input r \<and> rw_hash q = rw_hash r \<and> rn_max_steps q = rn_max_steps r
     \<and> rn_max_calls q = rn_max_calls r \<and> rn_max_runtime q = rn_max_runtime r"

lemma find_run_update:
  assumes "find_run rid db = Some row" and "\<And>r. rn_id (f r) = rn_id r"
  shows "find_run q (update_run rid f db) = (if q = rid then Some (f row) else find_run q db)"
proof -
  have "find_run q (update_run rid f db) =
      map_option (\<lambda>r. if rn_id r = rid then f r else r) (find_run q db)"
    using assms(2) by (simp add: find_run_def update_run_def find_update_where_same)
  then show ?thesis
    using assms(1) by (cases "find_run q db") (auto dest: find_run_Some)
qed

lemma update_run_simps [simp]:
  "events (update_run rid f db) = events db" "checkpoints (update_run rid f db) = checkpoints db"
  "find_run q (db\<lparr>events := es\<rparr>) = find_run q db" "find_run q (db\<lparr>checkpoints := cs\<rparr>) = find_run q db"
  by (simp_all add: update_run_def find_run_def)

lemma append_event_Inr:
  "append_event_locked uid now rid tenant n name data db = Inr (e, db') \<longleftrightarrow>
     e = \<lparr>ev_id = event_name uid, ev_run = rid, ev_tenant = tenant, ev_seq = n, ev_name = name,
          ev_data = data, ev_created_at = now\<rparr>
     \<and> (\<forall>q\<in>set (events db). ev_id q \<noteq> event_name uid \<and> \<not> (ev_run q = rid \<and> ev_seq q = n))
     \<and> db' = db\<lparr>events := events db @ [e]\<rparr>"
  by (auto simp: append_event_locked_def Let_def)

lemma record_change_InrD:
  assumes "record_change uid now row name data f db = Inr (x, db')"
    and "find_run (rn_id row) db = Some row" and "\<And>r. rn_id (f r) = rn_id r"
  shows "\<exists>e. e = \<lparr>ev_id = event_name uid, ev_run = rn_id row, ev_tenant = rn_tenant row,
       ev_seq = rn_seq row + 1, ev_name = name, ev_data = data, ev_created_at = now\<rparr>
     \<and> (\<forall>q\<in>set (events db). ev_id q \<noteq> event_name uid)
     \<and> db' = update_run (rn_id row) f (db\<lparr>events := events db @ [e]\<rparr>) \<and> x = to_run (f row)"
proof -
  obtain e db1 where a: "append_event_locked uid now (rn_id row) (rn_tenant row) (rn_seq row + 1) name data db = Inr (e, db1)"
    using assms(1) by (auto simp: record_change_def split: sum.splits)
  then have "find_run (rn_id row) (update_run (rn_id row) f db1) = Some (f row)"
    using assms(2,3) by (subst find_run_update) (auto simp: append_event_Inr)
  with assms(1) a show ?thesis
    by (auto simp: record_change_def append_event_Inr row_locked_def Let_def)
qed

text \<open>What one successful call can do to the tables.\<close>

inductive run_effect :: "run_db \<Rightarrow> run_db \<Rightarrow> bool" where
  idle: "run_effect db (db\<lparr>checkpoints := cs\<rparr>)"
| touch: "find_run rid db = Some row \<Longrightarrow> same_identity row (f row) \<Longrightarrow>
     (\<And>r. rn_id (f r) = rn_id r) \<Longrightarrow> rn_seq (f row) = rn_seq row \<Longrightarrow> rn_state (f row) = rn_state row \<Longrightarrow>
     (rn_reservation row \<noteq> None \<longrightarrow> rn_reservation (f row) = rn_reservation row) \<Longrightarrow>
     run_effect db (update_run rid f db)"
| change: "find_run rid db = Some row \<Longrightarrow> same_identity row (f row) \<Longrightarrow>
     (\<And>r. rn_id (f r) = rn_id r) \<Longrightarrow> rn_seq (f row) = rn_seq row + 1 \<Longrightarrow>
     rn_state (f row) = rn_state row \<or> allowed (rn_state row) (rn_state (f row)) \<Longrightarrow>
     rn_reservation (f row) = rn_reservation row \<Longrightarrow>
     ev_run e = rid \<Longrightarrow> ev_tenant e = rn_tenant row \<Longrightarrow> ev_seq e = rn_seq row + 1 \<Longrightarrow>
     \<forall>q\<in>set (events db). ev_id q \<noteq> ev_id e \<Longrightarrow> \<exists>u. ev_id e = event_name u \<Longrightarrow>
     run_effect db (update_run rid f (db\<lparr>events := events db @ [e], checkpoints := cs\<rparr>))"
| open_run: "find_run rid db = None \<Longrightarrow> rn_id row = rid \<Longrightarrow> rn_seq row = 1 \<Longrightarrow> rn_state row = Queued \<Longrightarrow>
     \<forall>q\<in>set (runs db). (rn_tenant q, rn_key q) \<noteq> (rn_tenant row, rn_key row) \<Longrightarrow>
     ev_run e = rid \<Longrightarrow> ev_tenant e = rn_tenant row \<Longrightarrow> ev_seq e = 1 \<Longrightarrow>
     \<forall>q\<in>set (events db). ev_id q \<noteq> ev_id e \<Longrightarrow> \<exists>u. ev_id e = event_name u \<Longrightarrow>
     run_effect db (db\<lparr>runs := runs db @ [row], events := events db @ [e]\<rparr>)"

lemma idle_same: "run_effect db db"
  using idle [of db "checkpoints db"] by simp

lemma record_change_effect:
  assumes "record_change uid now row name data f db = Inr (x, db')"
    and "find_run (rn_id row) db = Some row" and "\<And>r. rn_id (f r) = rn_id r"
    and "same_identity row (f row)" "rn_seq (f row) = rn_seq row + 1"
    and "rn_state (f row) = rn_state row \<or> allowed (rn_state row) (rn_state (f row))"
    and "rn_reservation (f row) = rn_reservation row"
  shows "run_effect db db'"
proof -
  obtain e where e: "e = \<lparr>ev_id = event_name uid, ev_run = rn_id row, ev_tenant = rn_tenant row,
       ev_seq = rn_seq row + 1, ev_name = name, ev_data = data, ev_created_at = now\<rparr>"
    and f: "\<forall>q\<in>set (events db). ev_id q \<noteq> event_name uid"
    and db': "db' = update_run (rn_id row) f (db\<lparr>events := events db @ [e]\<rparr>)"
    using record_change_InrD [OF assms(1-3)] by blast
  have "run_effect db (update_run (rn_id row) f (db\<lparr>events := events db @ [e], checkpoints := checkpoints db\<rparr>))"
    using assms f by (intro change) (auto simp add: e)
  then show ?thesis unfolding db' by simp
qed

lemma create_run_row_effect:
  assumes "create_run_row H rid req uid now db = Inr (x, db')"
  shows "run_effect db db'"
proof (cases "find (\<lambda>r. rn_tenant r = rc_tenant req \<and> rn_key r = rc_key req) (runs db)")
  case (Some r)
  with assms show ?thesis by (auto simp: create_run_row_def split: if_splits intro: idle_same)
next
  case None
  from assms None have new: "find_run rid db = None"
    by (auto simp: create_run_row_def split: if_splits)
  let ?row = "new_run_row H rid req now"
  from assms None new obtain e where e: "append_event_locked uid now rid (rc_tenant req) 1 ''run.state_changed''
      [(''state'', JStr ''queued''), (''trace_id'', JStr (rc_trace req))] (db\<lparr>runs := runs db @ [?row]\<rparr>) = Inr (e, db')"
    by (auto simp: create_run_row_def Let_def split: sum.splits)
  then have db': "db' = db\<lparr>runs := runs db @ [?row], events := events db @ [e]\<rparr>"
    by (simp add: append_event_Inr)
  show ?thesis
    unfolding db' using e None new
    by (intro open_run) (auto simp: append_event_Inr new_run_row_def find_None_iff_set)
qed

lemma attach_reservation_effect:
  assumes "attach_reservation rid rsv now db = Inr (x, db')"
  shows "run_effect db db'"
  using assms
  by (auto simp: attach_reservation_def row_locked_Inr same_identity_def Let_def
      split: sum.splits if_splits intro!: touch)

lemma claim_effect:
  assumes "claim rid uid now db = Inr (x, db')"
  shows "run_effect db db'"
proof -
  obtain row where row: "find_run rid db = Some row" "rn_id row = rid"
    using assms by (auto simp: claim_def row_locked_def dest: find_run_Some split: option.splits)
  show ?thesis
  proof (cases "rn_state row")
    case Queued
    with assms row show ?thesis
      by (auto simp: claim_def row_locked_def same_identity_def allowed_def elim!: record_change_effect)
  next
    case Running
    with assms row show ?thesis
      by (auto simp: claim_def row_locked_def same_identity_def Let_def split: sum.splits intro!: touch)
  qed (use assms row in \<open>auto simp: claim_def row_locked_def intro: idle_same\<close>)
qed

lemma transition_effect:
  assumes "transition rid s payload uid now db = Inr (x, db')"
  shows "run_effect db db'"
  using assms
  by (auto simp: transition_def row_locked_Inr same_identity_def dest: find_run_Some
      split: sum.splits if_splits elim!: record_change_effect)

lemma transition_locked_effect:
  assumes "transition_locked row s payload uid now db = Inr (x, db')" and "find_run (rn_id row) db = Some row"
  shows "run_effect db db'"
  using assms
  by (auto simp: transition_locked_def same_identity_def split: if_splits elim!: record_change_effect)

lemma mark_cancel_effect:
  assumes "mark_cancel_requested rid tenant uid now db = Inr (x, db')"
  shows "run_effect db db'"
proof -
  obtain row where row: "find_run rid db = Some row" "rn_id row = rid"
    using assms by (auto simp: mark_cancel_requested_def row_locked_def dest: find_run_Some split: option.splits)
  with assms show ?thesis
    by (auto simp: mark_cancel_requested_def row_locked_def same_identity_def idle_same
        split: if_splits elim!: record_change_effect transition_locked_effect)
qed

lemma approve_effect:
  assumes "approve rid tenant uid now db = Inr (x, db')"
  shows "run_effect db db'"
  using assms
  by (auto simp: approve_def row_locked_Inr dest: find_run_Some
      split: sum.splits if_splits elim!: transition_locked_effect)

lemma pause_quota_effect: "pause_quota rid k n uid now db = Inr (x, db') \<Longrightarrow> run_effect db db'"
  by (auto simp: pause_quota_def split: if_splits elim: transition_effect)

lemma fail_effect: "fail rid why uid now db = Inr (x, db') \<Longrightarrow> run_effect db db'"
  by (auto simp: fail_def elim: transition_effect)

lemma save_checkpoint_effect: "save_checkpoint rid n st fl app u db = Inr (x, db') \<Longrightarrow> run_effect db db'"
  by (auto simp: save_checkpoint_def Let_def split: sum.splits intro: idle)

lemma append_token_effect:
  assumes "append_token rid text uid now db = Inr (x, db')"
  shows "run_effect db db'"
proof -
  obtain row where row: "find_run rid db = Some row" "rn_id row = rid"
    using assms by (auto simp: append_token_def row_locked_def dest: find_run_Some split: option.splits)
  with assms obtain e cs where "db' = update_run rid (\<lambda>r. r\<lparr>rn_seq := rn_seq row + 1, rw_updated_at := now\<rparr>)
      (db\<lparr>events := events db @ [e], checkpoints := cs\<rparr>)"
    "ev_run e = rid" "ev_tenant e = rn_tenant row" "ev_seq e = rn_seq row + 1"
    "\<forall>q\<in>set (events db). ev_id q \<noteq> ev_id e" "ev_id e = event_name uid"
    by (auto simp: append_token_def row_locked_def append_event_Inr Let_def split: sum.splits)
  with row show ?thesis by (auto intro!: change simp: same_identity_def)
qed

lemma complete_effect:
  assumes "complete rid usage uid now db = Inr (x, db')"
  shows "run_effect db db'"
  using assms
  by (auto simp: complete_def row_locked_Inr same_identity_def allowed_def dest: find_run_Some
      split: sum.splits if_splits elim!: record_change_effect)

lemmas store_effects = create_run_row_effect attach_reservation_effect claim_effect transition_effect
  mark_cancel_effect approve_effect fail_effect pause_quota_effect save_checkpoint_effect
  append_token_effect complete_effect

section \<open>The invariant\<close>

definition run_ok :: "run_db \<Rightarrow> bool" where
  "run_ok db \<longleftrightarrow> unique_by rn_id (runs db) \<and> unique_by (\<lambda>r. (rn_tenant r, rn_key r)) (runs db)
     \<and> unique_by ev_id (events db) \<and> (\<forall>e\<in>set (events db). \<exists>u. ev_id e = event_name u)
     \<and> (\<forall>e\<in>set (events db). \<exists>r. find_run (ev_run e) db = Some r \<and> rn_tenant r = ev_tenant e)"

lemma run_ok_empty: "run_ok empty_run_db"
  by (simp add: run_ok_def empty_run_db_def)

lemma find_run_open:
  "find_run rid db = None \<Longrightarrow> rn_id row = rid \<Longrightarrow>
   find_run q (db\<lparr>runs := runs db @ [row]\<rparr>) = (if q = rid then Some row else find_run q db)"
  "find_run q (db\<lparr>events := es\<rparr>) = find_run q db"
  by (auto simp: find_run_def find_append split: option.split)

lemma effect_find_run:
  assumes "run_effect db db'" and "find_run q db = Some r"
  shows "\<exists>r'. find_run q db' = Some r' \<and> same_identity r r' \<and>
    (rn_state r' = rn_state r \<or> allowed (rn_state r) (rn_state r')) \<and>
    (rn_reservation r \<noteq> None \<longrightarrow> rn_reservation r' = rn_reservation r)"
  using assms
proof (induction rule: run_effect.induct)
  case (idle db cs)
  then show ?case by (simp add: same_identity_def)
next
  case (touch rid db row f)
  then show ?case by (auto simp: find_run_update same_identity_def)
next
  case (change rid db row f e cs)
  then show ?case by (subst find_run_update) (auto simp: same_identity_def find_run_def)
next
  case (open_run rid db row e)
  then show ?case by (auto simp: find_run_open same_identity_def)
qed

lemma unique_update_run:
  assumes "unique_by key (runs db)" and "find_run rid db = Some row" and "unique_by rn_id (runs db)"
    and "key (f row) = key row"
  shows "unique_by key (runs (update_run rid f db))"
proof -
  have "map key (runs (update_run rid f db)) = map key (runs db)"
    using assms(2-4) unique_by_inj [OF assms(3)] find_run_Some [OF assms(2)]
    by (auto simp: update_run_def update_where_def)
  with assms(1) show ?thesis by (simp add: unique_by_def)
qed

lemma run_effect_keys:
  assumes "run_effect db db'" and "unique_by rn_id (runs db)"
    and "unique_by (\<lambda>r. (rn_tenant r, rn_key r)) (runs db)" and "unique_by ev_id (events db)"
  shows "unique_by rn_id (runs db') \<and> unique_by (\<lambda>r. (rn_tenant r, rn_key r)) (runs db') \<and> unique_by ev_id (events db')"
  using assms
proof (cases rule: run_effect.cases)
  case (idle cs)
  then show ?thesis using assms by simp
next
  case (touch rid row f)
  then show ?thesis
    using assms unique_update_run [OF assms(2) touch(2) assms(2), of f]
      unique_update_run [OF assms(3) touch(2) assms(2), of f]
    by (simp add: same_identity_def)
next
  case (change rid row f e cs)
  let ?db = "db\<lparr>events := events db @ [e], checkpoints := cs\<rparr>"
  have row: "find_run rid ?db = Some row" using change(2) by simp
  have u: "unique_by rn_id (runs ?db)" "unique_by (\<lambda>r. (rn_tenant r, rn_key r)) (runs ?db)"
    using assms by simp_all
  show ?thesis
    using change assms(4) unique_update_run [OF u(1) row u(1), of f] unique_update_run [OF u(2) row u(1), of f]
    by (simp add: same_identity_def unique_by_append)
next
  case (open_run rid row e)
  then show ?thesis using assms by (simp add: unique_by_append find_run_None)
qed

lemma run_effect_events:
  assumes "run_effect db db'" and "e \<in> set (events db')"
  shows "e \<in> set (events db) \<or> (\<exists>r. find_run (ev_run e) db' = Some r \<and> rn_tenant r = ev_tenant e)"
  using assms
proof (cases rule: run_effect.cases)
  case (idle cs)
  then show ?thesis using assms(2) by simp
next
  case (touch rid row f)
  then show ?thesis using assms(2) by simp
next
  case (change rid row f e' cs)
  let ?db = "db\<lparr>events := events db @ [e'], checkpoints := cs\<rparr>"
  have row: "find_run rid ?db = Some row" using change(2) by simp
  show ?thesis
    using assms(2) change(3,8,9) unfolding change(1)
    by (auto simp: find_run_update [OF row change(4)] same_identity_def)
next
  case (open_run rid row e')
  then show ?thesis using assms(2) by (auto simp: find_run_open)
qed

lemma run_effect_names:
  assumes "run_effect db db'" and "\<forall>e\<in>set (events db). \<exists>u. ev_id e = event_name u"
  shows "\<forall>e\<in>set (events db'). \<exists>u. ev_id e = event_name u"
  using assms by (cases rule: run_effect.cases) auto

lemma run_effect_ok:
  assumes "run_effect db db'" and "run_ok db"
  shows "run_ok db'"
proof -
  have "\<exists>r. find_run (ev_run e) db' = Some r \<and> rn_tenant r = ev_tenant e" if "e \<in> set (events db')" for e
  proof (cases "e \<in> set (events db)")
    case True
    then obtain r where r: "find_run (ev_run e) db = Some r" "rn_tenant r = ev_tenant e"
      using assms(2) unfolding run_ok_def by blast
    show ?thesis
      using effect_find_run [OF assms(1) r(1)] r(2) by (auto simp: same_identity_def)
  qed (use run_effect_events [OF assms(1) that] in blast)
  then show ?thesis
    using run_effect_keys [OF assms(1)] run_effect_names [OF assms(1)] assms(2)
    unfolding run_ok_def by blast
qed

section \<open>Runs of the store\<close>

text \<open>
  One step: a method call that returned. (A call that raised was rolled back; \<open>get\<close>,
  \<open>checkpoint\<close>, \<open>events\<close> and \<open>sequence_for_event\<close> read only.)
\<close>

inductive run_step :: "(dict \<Rightarrow> string) \<Rightarrow> run_db \<Rightarrow> run_db \<Rightarrow> bool" for H where
  do_create: "create_run_row H rid req u w db = Inr (x, db') \<Longrightarrow> run_step H db db'"
| do_attach: "attach_reservation rid rsv w db = Inr (y, db') \<Longrightarrow> run_step H db db'"
| do_claim: "claim rid u w db = Inr (y, db') \<Longrightarrow> run_step H db db'"
| do_transition: "transition rid s p u w db = Inr (y, db') \<Longrightarrow> run_step H db db'"
| do_cancel: "mark_cancel_requested rid t u w db = Inr (y, db') \<Longrightarrow> run_step H db db'"
| do_approve: "approve rid t u w db = Inr (y, db') \<Longrightarrow> run_step H db db'"
| do_fail: "fail rid why u w db = Inr (y, db') \<Longrightarrow> run_step H db db'"
| do_pause: "pause_quota rid k n u w db = Inr (y, db') \<Longrightarrow> run_step H db db'"
| do_checkpoint: "save_checkpoint rid n st fl app us db = Inr (c, db') \<Longrightarrow> run_step H db db'"
| do_token: "append_token rid text u w db = Inr (e, db') \<Longrightarrow> run_step H db db'"
| do_complete: "complete rid us u w db = Inr (y, db') \<Longrightarrow> run_step H db db'"

lemma run_step_effect: "run_step H db db' \<Longrightarrow> run_effect db db'"
  by (induction rule: run_step.induct) (auto intro: store_effects)

definition state_of :: "run_db \<Rightarrow> string \<Rightarrow> run_state option" where
  "state_of db rid = map_option rn_state (find_run rid db)"

definition seq_of :: "run_db \<Rightarrow> string \<Rightarrow> int option" where
  "seq_of db rid = map_option rn_seq (find_run rid db)"

definition log_of :: "run_db \<Rightarrow> string \<Rightarrow> run_event list" where
  "log_of db rid = filter (\<lambda>e. ev_run e = rid) (events db)"

lemma effect_advances:
  assumes "run_effect db db'" and "run_ok db"
  shows "seq_of db' k = seq_of db k \<and> log_of db' k = log_of db k \<or>
    (\<exists>e. log_of db' k = log_of db k @ [e] \<and>
      ev_seq e = (case seq_of db k of None \<Rightarrow> 1 | Some n \<Rightarrow> n + 1) \<and> seq_of db' k = Some (ev_seq e))"
  using assms
proof (induction rule: run_effect.induct)
  case (idle db cs)
  then show ?case by (simp add: seq_of_def log_of_def)
next
  case (touch rid db row f)
  then show ?case by (auto simp: seq_of_def log_of_def find_run_update)
next
  case (change rid db row f e cs)
  have "find_run q (update_run rid f (db\<lparr>events := events db @ [e], checkpoints := cs\<rparr>)) =
      (if q = rid then Some (f row) else find_run q db)" for q
  proof -
    have row: "find_run rid (db\<lparr>events := events db @ [e], checkpoints := cs\<rparr>) = Some row"
      using change.hyps(1) by (simp add: find_run_def)
    show ?thesis
      by (simp add: find_run_update [OF row change.hyps(3)])
  qed
  with change show ?case by (auto simp: seq_of_def log_of_def)
next
  case (open_run rid db row e)
  then show ?case by (auto simp: seq_of_def log_of_def find_run_open)
qed

interpretation run_life: lifecycle state_of "run_step H" allowed run_ok for H
proof (unfold_locales, goal_cases)
  case (1 d d')
  then show ?case by (blast intro: run_effect_ok run_step_effect)
next
  case (2 d d' k s)
  then obtain r where "find_run k d = Some r" "rn_state r = s" by (auto simp: state_of_def)
  with effect_find_run [OF run_step_effect [OF 2(2)], of k r] show ?case
    by (auto simp: state_of_def)
qed

interpretation run_log: sequenced_log seq_of log_of ev_seq "run_step H" run_ok for H
proof (unfold_locales, goal_cases)
  case (1 d d')
  then show ?case by (blast intro: run_effect_ok run_step_effect)
next
  case (2 d k)
  then show ?case by (auto simp: seq_of_def log_of_def run_ok_def filter_empty_conv)
next
  case (3 d d' k)
  then show ?case by (intro effect_advances run_step_effect)
qed

lemma contiguous_empty: "run_log.contiguous empty_run_db"
  by (simp add: run_log.contiguous_def seq_of_def log_of_def empty_run_db_def find_run_def)

section \<open>What the store guarantees\<close>

lemma run_reachable_ok:
  assumes "(run_step H)\<^sup>*\<^sup>* empty_run_db db"
  shows "run_ok db" and "run_log.contiguous db"
  using run_log.contiguous_steps [OF assms run_ok_empty contiguous_empty] by auto

lemma run_path:
  assumes "(run_step H)\<^sup>*\<^sup>* db db'" and "run_ok db" and "find_run rid db = Some r"
  shows "\<exists>r'. find_run rid db' = Some r' \<and> same_identity r r' \<and>
    (rn_reservation r \<noteq> None \<longrightarrow> rn_reservation r' = rn_reservation r)"
  using assms
proof (induction rule: rtranclp_induct)
  case base
  then show ?case by (auto simp: same_identity_def)
next
  case (step y z)
  then obtain q where q: "find_run rid y = Some q" "same_identity r q"
    "rn_reservation r \<noteq> None \<longrightarrow> rn_reservation q = rn_reservation r" by auto
  show ?case
    using effect_find_run [OF run_step_effect [OF step.hyps(2)] q(1)] q(2,3)
    by (auto simp: same_identity_def)
qed

lemma contiguous_numbers:
  "run_log.contiguous db \<Longrightarrow> find_run rid db = Some r \<Longrightarrow> map ev_seq (log_of db rid) = [1..rn_seq r]"
  by (simp add: run_log.contiguous_def seq_of_def)

lemma record_change_total:
  assumes "run_log.contiguous db" and "find_run (rn_id r) db = Some r"
    and "\<forall>e\<in>set (events db). ev_id e \<noteq> event_name u" and f: "\<And>q. rn_id (f q) = rn_id q"
  shows "record_change u w r name data f db = Inr (to_run (f r), update_run (rn_id r) f (db\<lparr>events := events db @
    [\<lparr>ev_id = event_name u, ev_run = rn_id r, ev_tenant = rn_tenant r, ev_seq = rn_seq r + 1,
      ev_name = name, ev_data = data, ev_created_at = w\<rparr>]\<rparr>))" (is "_ = Inr (_, update_run _ f ?db)")
proof -
  have "map ev_seq (log_of db (rn_id r)) = [1..rn_seq r]"
    using assms(1,2) by (rule contiguous_numbers)
  then have "rn_seq r + 1 \<notin> ev_seq ` set (log_of db (rn_id r))"
    by (metis atLeastAtMost_iff list.set_map set_upto add_le_same_cancel1 not_one_le_zero)
  then have fresh: "\<forall>q\<in>set (events db). ev_id q \<noteq> event_name u \<and> \<not> (ev_run q = rn_id r \<and> ev_seq q = rn_seq r + 1)"
    using assms(3) unfolding log_of_def by (auto simp: image_iff)
  have row: "find_run (rn_id r) ?db = Some r" using assms(2) by simp
  have app: "append_event_locked u w (rn_id r) (rn_tenant r) (rn_seq r + 1) name data db =
      Inr (last (events ?db), ?db)"
    using fresh by (simp add: append_event_Inr)
  show ?thesis
    by (simp add: record_change_def app Let_def row_locked_def find_run_update [OF row f])
qed

text \<open>With numbered events, the page after \<open>n\<close> is the log without its first \<open>n\<close> entries.\<close>

lemma filter_after_upto:
  assumes "map num es = [1..m]" and "0 \<le> n"
  shows "filter (\<lambda>e. n < num e) es = drop (nat n) es"
  using assms
proof (induction es arbitrary: m rule: rev_induct)
  case Nil
  then show ?case by simp
next
  case (snoc e es)
  then have m: "1 \<le> m" by (cases "1 \<le> m") auto
  with snoc.prems have e: "num e = m" "map num es = [1..m - 1]" by (auto simp: upto_rec2)
  then have "int (length es) = m - 1" using m by (metis length_map length_upto diff_add_cancel int_nat_eq zle_diff1_eq zless_add1_eq diff_ge_0_iff_ge)
  with snoc e show ?case by auto
qed

lemma list_events_page:
  assumes "run_log.contiguous db" and "find_run rid db = Some r" and "0 \<le> n"
  shows "list_events rid (rn_tenant r) n db = Inr (drop (nat n) (log_of db rid))"
proof -
  have m: "map ev_seq (log_of db rid) = [1..rn_seq r]"
    using assms by (intro contiguous_numbers)
  have "filter (\<lambda>e. ev_run e = rid \<and> n < ev_seq e) (events db) = filter (\<lambda>e. n < ev_seq e) (log_of db rid)"
    unfolding log_of_def filter_filter by (rule filter_cong) auto
  also have "\<dots> = drop (nat n) (log_of db rid)" using m assms(3) by (rule filter_after_upto)
  finally have page: "filter (\<lambda>e. ev_run e = rid \<and> n < ev_seq e) (events db) = drop (nat n) (log_of db rid)" .
  have "sorted (map ev_seq (drop (nat n) (log_of db rid)))"
    by (simp add: m sorted_wrt_drop flip: drop_map)
  then have "sort_key ev_seq (drop (nat n) (log_of db rid)) = drop (nat n) (log_of db rid)"
    by (rule sort_key_id_if_sorted)
  with page assms(2) show ?thesis by (simp add: list_events_def get_run_def)
qed

text \<open>
  C7. A run that is completed or cancelled keeps its state, tenant and input for ever, whatever
  calls the store serves afterwards (late worker checkpoints, approvals, cancellations, failures).
\<close>

theorem finished_run_is_final:
  assumes "(run_step H)\<^sup>*\<^sup>* empty_run_db db" and "(run_step H)\<^sup>*\<^sup>* db db'"
    and "find_run rid db = Some r" and "rn_state r \<in> {Completed, Cancelled}"
  shows "\<exists>r'. find_run rid db' = Some r' \<and> rn_state r' = rn_state r \<and> same_identity r r'"
proof -
  have "state_of db' rid = Some (rn_state r)"
    using assms(3,4) by (intro run_life.final_stays [OF assms(2) run_reachable_ok(1) [OF assms(1)]])
      (auto simp: state_of_def allowed_def)
  with run_path [OF assms(2) run_reachable_ok(1) [OF assms(1)] assms(3)] show ?thesis
    by (auto simp: state_of_def)
qed

definition demo_request :: run_create where
  "demo_request = \<lparr>rc_tenant = ''t'', rc_account = ''acct'', rc_project = ''p'', rc_key = ''key-0001'',
     rc_trace = ''trace-01'', rc_input = [(''repository'', JStr ''o/r'')], rc_units = 2, rc_max_steps = 8,
     rc_max_calls = 8, rc_max_runtime = 60\<rparr>"

text \<open>A created, claimed and completed run.\<close>

lemma demo_finished:
  obtains x y z d1 d2 d3 where
    "create_run_row (\<lambda>_. ''h'') ''run-1'' demo_request ''a'' ''w'' empty_run_db = Inr (x, d1)"
    "claim ''run-1'' ''b'' ''w'' d1 = Inr (y, d2)" "complete ''run-1'' 1 ''c'' ''w'' d2 = Inr (z, d3)"
    "(run_step (\<lambda>_. ''h''))\<^sup>*\<^sup>* empty_run_db d3"
    "find_run ''run-1'' d3 \<noteq> None \<and> rn_state (the (find_run ''run-1'' d3)) = Completed
       \<and> rn_seq (the (find_run ''run-1'' d3)) = 3 \<and> rn_tenant (the (find_run ''run-1'' d3)) = ''t''
       \<and> snd x \<and> list_all (\<lambda>e. ev_id e \<noteq> event_name ''d'') (events d3)"
proof -
  have "case create_run_row (\<lambda>_. ''h'') ''run-1'' demo_request ''a'' ''w'' empty_run_db of
      Inl e \<Rightarrow> False | Inr (x, d1) \<Rightarrow> (case claim ''run-1'' ''b'' ''w'' d1 of
      Inl e \<Rightarrow> False | Inr (y, d2) \<Rightarrow> (case complete ''run-1'' 1 ''c'' ''w'' d2 of
      Inl e \<Rightarrow> False | Inr (z, d3) \<Rightarrow> find_run ''run-1'' d3 \<noteq> None
       \<and> rn_state (the (find_run ''run-1'' d3)) = Completed \<and> rn_seq (the (find_run ''run-1'' d3)) = 3
       \<and> rn_tenant (the (find_run ''run-1'' d3)) = ''t'' \<and> snd x
       \<and> list_all (\<lambda>e. ev_id e \<noteq> event_name ''d'') (events d3)))"
    by code_simp
  then obtain x d1 y d2 z d3 where
    s: "create_run_row (\<lambda>_. ''h'') ''run-1'' demo_request ''a'' ''w'' empty_run_db = Inr (x, d1)"
      "claim ''run-1'' ''b'' ''w'' d1 = Inr (y, d2)" "complete ''run-1'' 1 ''c'' ''w'' d2 = Inr (z, d3)"
    and r: "find_run ''run-1'' d3 \<noteq> None \<and> rn_state (the (find_run ''run-1'' d3)) = Completed
       \<and> rn_seq (the (find_run ''run-1'' d3)) = 3 \<and> rn_tenant (the (find_run ''run-1'' d3)) = ''t''
       \<and> snd x \<and> list_all (\<lambda>e. ev_id e \<noteq> event_name ''d'') (events d3)"
    by (blast elim: run_obtain)
  have "(run_step (\<lambda>_. ''h''))\<^sup>*\<^sup>* empty_run_db d3"
    using do_create [OF s(1)] do_claim [OF s(2)] do_complete [OF s(3)]
    by (meson converse_rtranclp_into_rtranclp rtranclp.rtrancl_refl)
  from that [OF s this r] show thesis .
qed

theorem finished_run_is_final_witness:
  "\<exists>db r. (run_step (\<lambda>_. ''h''))\<^sup>*\<^sup>* empty_run_db db \<and> find_run ''run-1'' db = Some r \<and> rn_state r = Completed"
proof -
  obtain d3 where d: "(run_step (\<lambda>_. ''h''))\<^sup>*\<^sup>* empty_run_db d3"
    "find_run ''run-1'' d3 \<noteq> None \<and> rn_state (the (find_run ''run-1'' d3)) = Completed"
    by (rule demo_finished) blast
  then obtain r where "find_run ''run-1'' d3 = Some r" "rn_state r = Completed" by auto
  with finished_run_is_final [OF d(1) rtranclp.rtrancl_refl, of "''run-1''" r] d(1) show ?thesis by auto
qed

text \<open>
  C8. The event log of a run is numbered 1, 2, ... without gaps up to the run's sequence column,
  it is append-only, and a reader who has seen \<open>n\<close> events and asks again later gets exactly the
  events after the \<open>n\<close>-th, in order: what it would have got before, followed by the new ones.
\<close>

theorem replay_is_gap_free:
  assumes "(run_step H)\<^sup>*\<^sup>* empty_run_db db" and "(run_step H)\<^sup>*\<^sup>* db db'"
    and "find_run rid db = Some r" and "0 \<le> n" and "n \<le> rn_seq r"
  shows "\<exists>seen new r'. list_events rid (rn_tenant r) n db = Inr seen
    \<and> list_events rid (rn_tenant r) n db' = Inr (seen @ new)
    \<and> find_run rid db' = Some r' \<and> map ev_seq (seen @ new) = [n + 1..rn_seq r']"
proof -
  obtain r' where r': "find_run rid db' = Some r'" "same_identity r r'"
    using run_path [OF assms(2) run_reachable_ok(1) [OF assms(1)] assms(3)] by blast
  have c: "run_log.contiguous db" "run_log.contiguous db'"
    using run_reachable_ok(2) assms(1,2) rtranclp_trans [OF assms(1,2)] by auto
  obtain es where es: "log_of db' rid = log_of db rid @ es"
    using run_log.append_only [OF assms(2) run_reachable_ok(1) [OF assms(1)]] by blast
  have m: "map ev_seq (log_of db rid) = [1..rn_seq r]" "map ev_seq (log_of db' rid) = [1..rn_seq r']"
    using contiguous_numbers c assms(3) r'(1) by auto
  have len: "int (length (log_of db rid)) = rn_seq r"
    using arg_cong [OF m(1), of length] assms(4,5) by simp
  have "map ev_seq (drop (nat n) (log_of db' rid)) = [n + 1..rn_seq r']"
    unfolding drop_map [symmetric] m(2) by (rule nth_equalityI) (use assms(4) in \<open>auto simp: nth_upto\<close>)
  moreover have "drop (nat n) (log_of db' rid) = drop (nat n) (log_of db rid) @ es"
    using es len assms(4,5) by simp
  ultimately show ?thesis
    using list_events_page [OF c(1) assms(3,4)] list_events_page [OF c(2) r'(1) assms(4)] r'
    by (auto simp: same_identity_def)
qed

theorem replay_is_gap_free_witness:
  "\<exists>db seen. (run_step (\<lambda>_. ''h''))\<^sup>*\<^sup>* empty_run_db db \<and> list_events ''run-1'' ''t'' 1 db = Inr seen
     \<and> map ev_seq seen = [2..3]"
proof -
  obtain d3 where d: "(run_step (\<lambda>_. ''h''))\<^sup>*\<^sup>* empty_run_db d3"
    "find_run ''run-1'' d3 \<noteq> None \<and> rn_seq (the (find_run ''run-1'' d3)) = 3
       \<and> rn_tenant (the (find_run ''run-1'' d3)) = ''t''"
    by (rule demo_finished) blast
  then obtain r where r: "find_run ''run-1'' d3 = Some r" "rn_seq r = 3" "rn_tenant r = ''t''" by auto
  from replay_is_gap_free [OF d(1) rtranclp.rtrancl_refl r(1), of 1] r d(1) show ?thesis by auto
qed

lemma created_row_stays:
  assumes "run_ok db" and "create_run_row H rid req u w db = Inr ((x, True), db1)" and "(run_step H)\<^sup>*\<^sup>* db1 db2"
  shows "\<exists>r. find_run rid db2 = Some r \<and> rw_hash r = fingerprint H req
    \<and> find (\<lambda>q. rn_tenant q = rc_tenant req \<and> rn_key q = rc_key req) (runs db2) = Some r"
proof -
  let ?row = "new_run_row H rid req w"
  have step: "run_step H db db1" using assms(2) by (rule do_create)
  then have ok1: "run_ok db1" using assms(1) by (blast intro: run_effect_ok run_step_effect)
  then have ok2: "run_ok db2" using assms(3) run_life.ok_steps by blast
  have "find_run rid db = None"
    using assms(2) by (auto simp: create_run_row_def split: option.splits if_splits)
  with assms(2) have "find_run rid db1 = Some ?row"
    by (auto simp: create_run_row_def append_event_Inr Let_def new_run_row_def find_run_open
        split: option.splits if_splits sum.splits)
  with run_path [OF assms(3) ok1] obtain r where r: "find_run rid db2 = Some r" "same_identity ?row r" by blast
  have key: "rn_tenant r = rc_tenant req" "rn_key r = rc_key req" "rw_hash r = fingerprint H req"
    using r(2) by (simp_all add: same_identity_def new_run_row_def)
  have "find (\<lambda>q. (rn_tenant q, rn_key q) = (rn_tenant r, rn_key r)) (runs db2) = Some r"
    using ok2 find_run_Some [OF r(1)] by (intro find_key_unique) (auto simp: run_ok_def)
  then have "find (\<lambda>q. rn_tenant q = rc_tenant req \<and> rn_key q = rc_key req) (runs db2) = Some r"
    using key by simp
  with r(1) key show ?thesis by simp
qed

text \<open>
  Creating a run is idempotent per tenant and key: once a request created a run, the same
  request at any later time returns that run (as not created) and changes nothing, and a request
  with the same key and another fingerprint is refused as an idempotency conflict.
\<close>

theorem create_is_idempotent:
  assumes "(run_step H)\<^sup>*\<^sup>* empty_run_db db" and "create_run_row H rid req u w db = Inr ((x, True), db1)"
    and "(run_step H)\<^sup>*\<^sup>* db1 db2"
  shows "\<exists>r. find_run rid db2 = Some r
    \<and> create_run_row H rid' req u' w' db2 = Inr ((to_run r, False), db2)
    \<and> (rc_tenant req' = rc_tenant req \<and> rc_key req' = rc_key req \<and> fingerprint H req' \<noteq> fingerprint H req \<longrightarrow>
        create_run_row H rid' req' u' w' db2 =
          Inl (IdempotencyConflict ''run idempotency key was reused with different input''))"
  using created_row_stays [OF run_reachable_ok(1) [OF assms(1)] assms(2,3)]
  by (auto simp: create_run_row_def)

theorem create_is_idempotent_witness:
  "\<exists>x db1 y. create_run_row (\<lambda>_. ''h'') ''run-1'' demo_request ''a'' ''w'' empty_run_db = Inr ((x, True), db1)
     \<and> create_run_row (\<lambda>_. ''h'') ''run-2'' demo_request ''b'' ''w2'' db1 = Inr ((y, False), db1)"
proof -
  obtain x d1 where x: "create_run_row (\<lambda>_. ''h'') ''run-1'' demo_request ''a'' ''w'' empty_run_db = Inr ((x, True), d1)"
    by (rule demo_finished) (metis prod.collapse)
  from create_is_idempotent [OF rtranclp.rtrancl_refl x rtranclp.rtrancl_refl] x show ?thesis by blast
qed

text \<open>
  A state change succeeds exactly when the transition table allows it: with a new event id the
  call never fails for another reason (the UNIQUE(run_id, sequence) constraint of the event table
  cannot be violated in a reachable store), the row moves to the new state and one event that
  carries it is appended.
\<close>

theorem transition_iff_allowed:
  assumes "(run_step H)\<^sup>*\<^sup>* empty_run_db db" and "find_run rid db = Some r"
    and "\<forall>e\<in>set (events db). ev_id e \<noteq> event_name u"
  shows "(if allowed (rn_state r) s
      then \<exists>x db' e. transition rid s p u w db = Inr (x, db') \<and> rn_state x = s \<and> rn_seq x = rn_seq r + 1
        \<and> rn_cancel x = rn_cancel r \<and> log_of db' rid = log_of db rid @ [e] \<and> ev_data e = change_payload s r p
        \<and> (\<forall>q. q \<noteq> rid \<longrightarrow> find_run q db' = find_run q db)
      else transition rid s p u w db = Inl (bad_transition (rn_state r) s))"
proof (cases "allowed (rn_state r) s")
  case False
  with assms(2) show ?thesis by (simp add: transition_def row_locked_def)
next
  case True
  let ?f = "\<lambda>q. q\<lparr>rn_state := s, rn_seq := rn_seq r + 1, rw_updated_at := w\<rparr>"
  have r: "rn_id r = rid" using assms(2) find_run_Some by blast
  let ?e = "\<lparr>ev_id = event_name u, ev_run = rid, ev_tenant = rn_tenant r, ev_seq = rn_seq r + 1,
    ev_name = ''run.state_changed'', ev_data = change_payload s r p, ev_created_at = w\<rparr>"
  let ?db = "db\<lparr>events := events db @ [?e]\<rparr>"
  have fr: "find_run rid ?db = Some r" using assms(2) by simp
  have f: "find_run q (update_run rid ?f ?db) = (if q = rid then Some (?f r) else find_run q db)" for q
    by (subst find_run_update [OF fr]) simp_all
  have "transition rid s p u w db = Inr (to_run (?f r), update_run rid ?f ?db)"
    using record_change_total [OF run_reachable_ok(2) [OF assms(1)], of r u ?f] assms(2,3) r True
    by (simp add: transition_def row_locked_def)
  moreover have "log_of (update_run rid ?f ?db) rid = log_of db rid @ [?e]" by (simp add: log_of_def)
  ultimately show ?thesis
    using True f by (auto simp: to_run_def run.defs)
qed

theorem transition_iff_allowed_witness:
  "\<exists>db. (run_step (\<lambda>_. ''h''))\<^sup>*\<^sup>* empty_run_db db
     \<and> transition ''run-1'' Failed [] ''d'' ''w'' db = Inl (bad_transition Completed Failed)"
proof -
  obtain d3 where d: "(run_step (\<lambda>_. ''h''))\<^sup>*\<^sup>* empty_run_db d3"
    "find_run ''run-1'' d3 \<noteq> None \<and> rn_state (the (find_run ''run-1'' d3)) = Completed
       \<and> list_all (\<lambda>e. ev_id e \<noteq> event_name ''d'') (events d3)"
    by (rule demo_finished) blast
  then obtain r where r: "find_run ''run-1'' d3 = Some r" "rn_state r = Completed"
    and f: "\<forall>e\<in>set (events d3). ev_id e \<noteq> event_name ''d''" by (auto simp: list_all_iff)
  from transition_iff_allowed [OF d(1) r(1) f, of Failed] r d(1) show ?thesis by (auto simp: allowed_def)
qed

text \<open>
  Tenants are isolated: for a run of another tenant, reading it or its events, cancelling it
  and approving it are all refused with \<open>TenantMismatch\<close>, so none of them returns or
  changes a row of that tenant.
\<close>

theorem other_tenant_is_refused:
  assumes "find_run rid db = Some r" and "rn_tenant r \<noteq> t"
  shows "get_run rid (Some t) db = Inl (TenantMismatch rid)
    \<and> list_events rid t n db = Inl (TenantMismatch rid)
    \<and> mark_cancel_requested rid t u w db = Inl (TenantMismatch rid)
    \<and> approve rid t u w db = Inl (TenantMismatch rid)"
  using assms
  by (simp_all add: get_run_def list_events_def mark_cancel_requested_def approve_def row_locked_def)

theorem other_tenant_is_refused_witness:
  "\<exists>db. find_run ''run-1'' db \<noteq> None \<and> approve ''run-1'' ''other'' ''u'' ''w'' db = Inl (TenantMismatch ''run-1'')"
proof -
  obtain d3 where "find_run ''run-1'' d3 \<noteq> None \<and> rn_tenant (the (find_run ''run-1'' d3)) = ''t''"
    by (rule demo_finished) blast
  then obtain r where "find_run ''run-1'' d3 = Some r" "rn_tenant r = ''t''" by auto
  with other_tenant_is_refused [of "''run-1''" d3 r "''other''"] show ?thesis by auto
qed

end
