(* ===== verification/Run_Service.thy ===== *)
theory Run_Service
  imports Run_Store Json_Text Credit_Ledger Quota
begin

text \<open>
  \<open>RunService\<close> (\<open>services/run_service/service.py\<close>) and \<open>InngestDispatcher\<close>
  (\<open>workflow.py\<close>). The service is handed a credit port, optionally a quota counter and a
  dispatcher: a record of functions here. Each call on a collaborator is a transaction of its own,
  so the service's operations return the state with the result, also when they raise.
\<close>

section \<open>The service and its collaborators\<close>

text \<open>
  \<open>w_outside\<close> is whatever lies behind the injected callables: the workflow engine, the model
  provider, the clock.
\<close>

type_synonym 'w dispatcher = "(string \<times> string) list \<Rightarrow> 'w \<Rightarrow> (exn + unit) \<times> 'w"

record ('c, 'q, 'w) service =
  rs_credits :: "'c credit_port"
  rs_quota :: "'q quota_port option"
  rs_flow :: "'w dispatcher option"

record ('c, 'q, 'w) world =
  w_runs :: run_db
  w_credits :: 'c
  w_quota :: 'q
  w_outside :: 'w

text \<open>
  What one call takes from outside: hex digits of fresh uuids and clock readings, numbered by the
  place in the code that asks for them.
\<close>

record fresh_values =
  nonce :: "nat \<Rightarrow> string"
  stamp :: "nat \<Rightarrow> string"
  epochs :: "nat \<Rightarrow> int \<times> int"

definition on_runs :: "(run_db \<Rightarrow> exn + ('a \<times> run_db)) \<Rightarrow> ('c, 'q, 'w) world \<Rightarrow>
    (exn + 'a) \<times> ('c, 'q, 'w) world" where
  "on_runs body s = (let (r, db) = atomically body (w_runs s) in (r, s\<lparr>w_runs := db\<rparr>))"

definition on_credits :: "('c \<Rightarrow> exn + ('a \<times> 'c)) \<Rightarrow> ('c, 'q, 'w) world \<Rightarrow>
    (exn + 'a) \<times> ('c, 'q, 'w) world" where
  "on_credits body s = (let (r, d) = atomically body (w_credits s) in (r, s\<lparr>w_credits := d\<rparr>))"

definition on_quota :: "('q \<Rightarrow> exn + ('a \<times> 'q)) \<Rightarrow> ('c, 'q, 'w) world \<Rightarrow>
    (exn + 'a) \<times> ('c, 'q, 'w) world" where
  "on_quota body s = (let (r, q) = atomically body (w_quota s) in (r, s\<lparr>w_quota := q\<rparr>))"

definition on_flow :: "('w \<Rightarrow> (exn + 'a) \<times> 'w) \<Rightarrow> ('c, 'q, 'w) world \<Rightarrow> (exn + 'a) \<times> ('c, 'q, 'w) world" where
  "on_flow body s = (let (r, w) = body (w_outside s) in (r, s\<lparr>w_outside := w\<rparr>))"

text \<open>\<open>if run.reservation_id\<close>: neither None nor the empty string.\<close>

definition truthy :: "string option \<Rightarrow> bool" where
  "truthy x \<longleftrightarrow> x \<noteq> None \<and> x \<noteq> Some []"

section \<open>Creating a run\<close>

definition run_name :: "string \<Rightarrow> string" where
  "run_name uid = ''run-'' @ uid"

definition reserve_key :: "run_create \<Rightarrow> string" where
  "reserve_key req = ''run-reserve:'' @ rc_tenant req @ '':'' @ rc_key req"

definition release_key :: "string \<Rightarrow> string" where
  "release_key rid = ''run-release:'' @ rid"

definition dispatch_message :: "run \<Rightarrow> string \<Rightarrow> string \<Rightarrow> (string \<times> string) list" where
  "dispatch_message run rsv key = [(''run_id'', rn_id run), (''tenant_id'', rn_tenant run),
     (''trace_id'', rn_trace run), (''reservation_id'', rsv), (''idempotency_key'', key)]"

text \<open>The \<open>try\<close> block of \<open>create_run\<close>; the second component is the local variable \<open>run\<close>.\<close>

definition reserve_and_dispatch :: "('c, 'q, 'w) service \<Rightarrow> fresh_values \<Rightarrow> run_create \<Rightarrow> run \<Rightarrow>
    ('c, 'q, 'w) world \<Rightarrow> (exn + unit) \<times> run \<times> ('c, 'q, 'w) world" where
  "reserve_and_dispatch svc v req run s =
     (case on_credits (p_reserve (rs_credits svc) (rc_tenant req) (rc_account req) (rn_id run) (rc_units req)
               (reserve_key req) (nonce v 3) (stamp v 3)) s of
        (Inl e, s1) \<Rightarrow> (Inl e, run, s1)
      | (Inr rsv, s1) \<Rightarrow>
          (case on_runs (attach_reservation (rn_id run) (cr_id rsv) (stamp v 4)) s1 of
             (Inl e, s2) \<Rightarrow> (Inl e, run, s2)
           | (Inr run', s2) \<Rightarrow>
               (case rs_flow svc of
                  None \<Rightarrow> (Inr (), run', s2)
                | Some send \<Rightarrow>
                    (case on_flow (send (dispatch_message run' (cr_id rsv) (rc_key req))) s2 of
                       (Inl e, s3) \<Rightarrow> (Inl e, run', s3)
                     | (Inr u, s3) \<Rightarrow> (Inr (), run', s3)))))"

text \<open>The handler: give the quota and the reservation back, fail the run, raise again.\<close>

definition undo_create :: "('c, 'q, 'w) service \<Rightarrow> fresh_values \<Rightarrow> exn \<Rightarrow> run \<Rightarrow> ('c, 'q, 'w) world \<Rightarrow>
    (exn + run) \<times> ('c, 'q, 'w) world" where
  "undo_create svc v e run s =
     and_then (case rs_quota svc of None \<Rightarrow> (Inr (), s) | Some q \<Rightarrow> on_quota (q_release q (rn_id run)) s)
       (\<lambda>_ s1. and_then (if truthy (rn_reservation run)
            then on_credits (\<lambda>c. case p_release (rs_credits svc) (the (rn_reservation run))
                   (release_key (rn_id run)) (stamp v 5) c of Inl e \<Rightarrow> Inl e | Inr (x, c') \<Rightarrow> Inr ((), c')) s1
            else (Inr (), s1))
       (\<lambda>_ s2. and_then (on_runs (fail (rn_id run) ''workflow dispatch failed'' (nonce v 6) (stamp v 6)) s2)
       (\<lambda>_ s3. (Inl e, s3))))"

definition get_fresh :: "string \<Rightarrow> ('c, 'q, 'w) world \<Rightarrow> (exn + run) \<times> ('c, 'q, 'w) world" where
  "get_fresh rid s = (get_run rid None (w_runs s), s)"

definition start_run :: "('c, 'q, 'w) service \<Rightarrow> fresh_values \<Rightarrow> run_create \<Rightarrow> run \<Rightarrow>
    ('c, 'q, 'w) world \<Rightarrow> (exn + run) \<times> ('c, 'q, 'w) world" where
  "start_run svc v req run s =
     (case reserve_and_dispatch svc v req run s of
        (Inl e, run', s1) \<Rightarrow> undo_create svc v e run' s1
      | (Inr _, run', s1) \<Rightarrow> get_fresh (rn_id run') s1)"

text \<open>Admission by the quota counter, then the rest.\<close>

definition admit_and_start :: "('c, 'q, 'w) service \<Rightarrow> fresh_values \<Rightarrow> run_create \<Rightarrow> run \<Rightarrow>
    ('c, 'q, 'w) world \<Rightarrow> (exn + run) \<times> ('c, 'q, 'w) world" where
  "admit_and_start svc v req run s = (case rs_quota svc of
     None \<Rightarrow> start_run svc v req run s
   | Some q \<Rightarrow>
       (case on_quota (q_reserve q (rc_tenant req) (rn_id run) (rc_units req) (epochs v 0)) s of
          (Inl (QuotaExceeded what limit), s1) \<Rightarrow>
            on_runs (pause_quota (rn_id run) what limit (nonce v 2) (stamp v 2)) s1
        | (Inl e, s1) \<Rightarrow> (Inl e, s1)
        | (Inr _, s1) \<Rightarrow> start_run svc v req run s1))"

text \<open>A retry of a run that was paused by its quota.\<close>

definition resume_paused :: "('c, 'q, 'w) service \<Rightarrow> fresh_values \<Rightarrow> run_create \<Rightarrow> run \<Rightarrow>
    ('c, 'q, 'w) world \<Rightarrow> (exn + run) \<times> ('c, 'q, 'w) world" where
  "resume_paused svc v req run s = (case rs_quota svc of
     None \<Rightarrow> get_fresh (rn_id run) s
   | Some q \<Rightarrow>
       (case on_quota (q_reserve q (rc_tenant req) (rn_id run) (rc_units req) (epochs v 0)) s of
          (Inl (QuotaExceeded what limit), s1) \<Rightarrow> get_fresh (rn_id run) s1
        | (Inl e, s1) \<Rightarrow> (Inl e, s1)
        | (Inr _, s1) \<Rightarrow>
            and_then (on_runs (transition (rn_id run) Queued [(''reason'', JStr ''quota_window_available'')]
                (nonce v 2) (stamp v 2)) s1)
              (\<lambda>run' s2. start_run svc v req run' s2)))"

definition create_run :: "(dict \<Rightarrow> string) \<Rightarrow> ('c, 'q, 'w) service \<Rightarrow> fresh_values \<Rightarrow> run_create \<Rightarrow>
    ('c, 'q, 'w) world \<Rightarrow> (exn + run) \<times> ('c, 'q, 'w) world" where
  "create_run H svc v req s =
     and_then (on_runs (create_run_row H (run_name (nonce v 0)) req (nonce v 1) (stamp v 1)) s)
       (\<lambda>(run, created) s1.
          if created then admit_and_start svc v req run s1
          else if rn_reservation run \<noteq> None \<or> rn_state run \<notin> {Queued, Quota_Paused} then get_fresh (rn_id run) s1
          else if rn_state run = Quota_Paused then resume_paused svc v req run s1
          else admit_and_start svc v req run s1)"

section \<open>The other operations\<close>

definition run_status :: "string \<Rightarrow> string \<Rightarrow> ('c, 'q, 'w) world \<Rightarrow> exn + run" where
  "run_status rid tenant s = get_run rid (Some tenant) (w_runs s)"

definition approve_run :: "fresh_values \<Rightarrow> string \<Rightarrow> string \<Rightarrow> ('c, 'q, 'w) world \<Rightarrow>
    (exn + run) \<times> ('c, 'q, 'w) world" where
  "approve_run v rid tenant s = on_runs (approve rid tenant (nonce v 0) (stamp v 0)) s"

definition cancel_run :: "('c, 'q, 'w) service \<Rightarrow> fresh_values \<Rightarrow> string \<Rightarrow> string \<Rightarrow> ('c, 'q, 'w) world \<Rightarrow>
    (exn + run) \<times> ('c, 'q, 'w) world" where
  "cancel_run svc v rid tenant s =
     and_then (on_runs (mark_cancel_requested rid tenant (nonce v 0) (stamp v 0)) s)
       (\<lambda>run s1. if rn_state run = Cancelled \<and> truthy (rn_reservation run)
          then and_then (on_credits (p_release (rs_credits svc) (the (rn_reservation run))
                 (release_key (rn_id run)) (stamp v 1)) s1) (\<lambda>_ s2. (Inr run, s2))
          else (Inr run, s1))"

definition replay_after :: "string \<Rightarrow> string option \<Rightarrow> run_db \<Rightarrow> int" where
  "replay_after rid seen db = (if truthy seen
     then case parse_int (the seen) of Some n \<Rightarrow> n | None \<Rightarrow> sequence_for_event rid (the seen) db
     else 0)"

definition replay :: "string \<Rightarrow> string \<Rightarrow> string option \<Rightarrow> run_db \<Rightarrow> exn + run_event list" where
  "replay rid tenant seen db = list_events rid tenant (replay_after rid seen db) db"

text \<open>\<open>RunEvent.data_json\<close> and the event-stream rendering; \<open>fr\<close> renders a float.\<close>

definition data_json :: "(rat \<Rightarrow> string) \<Rightarrow> run_event \<Rightarrow> string" where
  "data_json fr e = json_text fr (JObj [(''contract_version'', JStr ''v1''), (''event_id'', JStr (ev_id e)),
     (''event'', JStr (ev_name e)), (''run_id'', JStr (ev_run e)), (''sequence'', JInt (ev_seq e)),
     (''payload'', JObj (ev_data e))])"

abbreviation newline :: string where
  "newline \<equiv> [CHR 0x0A]"

definition sse_frame :: "(rat \<Rightarrow> string) \<Rightarrow> run_event \<Rightarrow> string" where
  "sse_frame fr e = ''id: '' @ ev_id e @ newline @ ''event: '' @ ev_name e @ newline
     @ ''data: '' @ data_json fr e @ newline @ newline"

definition sse :: "(rat \<Rightarrow> string) \<Rightarrow> string \<Rightarrow> string \<Rightarrow> string option \<Rightarrow> run_db \<Rightarrow> exn + string" where
  "sse fr rid tenant seen db = (case replay rid tenant seen db of
     Inl e \<Rightarrow> Inl e | Inr es \<Rightarrow> Inr (concat (map (sse_frame fr) es)))"

definition request_payload :: "run \<Rightarrow> (string \<times> string) list" where
  "request_payload run = [(''run_id'', rn_id run), (''tenant_id'', rn_tenant run), (''trace_id'', rn_trace run),
     (''reservation_id'', case rn_reservation run of None \<Rightarrow> [] | Some r \<Rightarrow> r),
     (''idempotency_key'', rn_key run)]"

section \<open>The Inngest dispatcher\<close>

record inngest =
  in_max_steps :: int
  in_max_calls :: int
  in_max_runtime :: rat

definition make_inngest :: "int \<Rightarrow> int \<Rightarrow> rat \<Rightarrow> exn + inngest" where
  "make_inngest steps calls runtime =
     (if \<not> (0 < steps \<and> steps \<le> 32) \<or> \<not> (0 < calls \<and> calls \<le> 32)
      then Inl (ValueError ''workflow limits must be between 1 and 32'')
      else if \<not> (0 < runtime \<and> runtime \<le> 900)
      then Inl (ValueError ''workflow runtime must be between 0 and 900 seconds'')
      else Inr \<lparr>in_max_steps = steps, in_max_calls = calls, in_max_runtime = runtime\<rparr>)"

definition dispatch_fields :: "string list" where
  "dispatch_fields = [''run_id'', ''tenant_id'', ''trace_id'', ''reservation_id'', ''idempotency_key'']"

definition inngest_event :: "inngest \<Rightarrow> (string \<Rightarrow> string) \<Rightarrow> dict" where
  "inngest_event d get = [(''name'', JStr ''run.requested''),
     (''data'', JObj [(''contract_version'', JStr ''v1''),
        (''event_id'', JStr (''event-run-requested:'' @ get ''run_id'')),
        (''event_type'', JStr ''run.requested''), (''tenant_id'', JStr (get ''tenant_id'')),
        (''run_id'', JStr (get ''run_id'')), (''trace_id'', JStr (get ''trace_id'')),
        (''idempotency_key'', JStr (get ''idempotency_key'')), (''reservation_id'', JStr (get ''reservation_id''))]),
     (''limits'', JObj [(''max_steps'', JInt (in_max_steps d)), (''max_model_calls'', JInt (in_max_calls d)),
        (''max_runtime_seconds'', JNum (in_max_runtime d))])]"

text \<open>\<open>send\<close> is the injected sender.\<close>

definition inngest_dispatch :: "inngest \<Rightarrow> (dict \<Rightarrow> 'w \<Rightarrow> (exn + unit) \<times> 'w) \<Rightarrow> 'w dispatcher" where
  "inngest_dispatch d send request w =
     (if \<exists>k\<in>set dispatch_fields. \<not> truthy (map_of request k)
      then (Inl (ValueError ''run request is missing a dispatch identifier''), w)
      else send (inngest_event d (\<lambda>k. the (map_of request k))) w)"

section \<open>Calls on the collaborators\<close>

lemma on_runs_Inr: "body (w_runs s) = Inr (x, db) \<Longrightarrow> on_runs body s = (Inr x, s\<lparr>w_runs := db\<rparr>)"
  by (simp add: on_runs_def atomically_def)

lemma on_runs_Inl: "body (w_runs s) = Inl e \<Longrightarrow> on_runs body s = (Inl e, s)"
  by (simp add: on_runs_def atomically_def)

lemma on_credits_Inr: "body (w_credits s) = Inr (x, d) \<Longrightarrow> on_credits body s = (Inr x, s\<lparr>w_credits := d\<rparr>)"
  by (simp add: on_credits_def atomically_def)

lemma on_credits_Inl: "body (w_credits s) = Inl e \<Longrightarrow> on_credits body s = (Inl e, s)"
  by (simp add: on_credits_def atomically_def)

lemma on_quota_Inr: "body (w_quota s) = Inr (x, q) \<Longrightarrow> on_quota body s = (Inr x, s\<lparr>w_quota := q\<rparr>)"
  by (simp add: on_quota_def atomically_def)

lemma on_quota_Inl: "body (w_quota s) = Inl e \<Longrightarrow> on_quota body s = (Inl e, s)"
  by (simp add: on_quota_def atomically_def)

lemmas on_ports = on_runs_Inr on_runs_Inl on_credits_Inr on_credits_Inl on_quota_Inr on_quota_Inl

lemma yields_ports [wp]:
  "yields E Q (on_runs body s) \<longleftrightarrow> (case body (w_runs s) of Inl e \<Rightarrow> E e s | Inr (x, db) \<Rightarrow> Q x (s\<lparr>w_runs := db\<rparr>))"
  "yields E Q (on_credits body1 s) \<longleftrightarrow> (case body1 (w_credits s) of Inl e \<Rightarrow> E e s | Inr (x, d) \<Rightarrow> Q x (s\<lparr>w_credits := d\<rparr>))"
  "yields E Q (on_flow body2 s) \<longleftrightarrow> (case body2 (w_outside s) of (Inl e, w) \<Rightarrow> E e (s\<lparr>w_outside := w\<rparr>)
     | (Inr x, w) \<Rightarrow> Q x (s\<lparr>w_outside := w\<rparr>))"
  by (auto simp: yields_def on_runs_def on_credits_def on_flow_def atomically_def split: sum.splits prod.splits)

lemma on_flow_frame: "on_flow body s = (x, s') \<Longrightarrow> \<exists>w. s' = s\<lparr>w_outside := w\<rparr>"
  by (auto simp: on_flow_def split: prod.splits)

lemma to_run_simps [simp]:
  "rn_id (to_run r) = rn_id r" "rn_tenant (to_run r) = rn_tenant r" "rn_state (to_run r) = rn_state r"
  "rn_reservation (to_run r) = rn_reservation r" "rn_trace (to_run r) = rn_trace r"
  by (simp_all add: to_run_def run.defs)

section \<open>A run that has just been opened\<close>

text \<open>The run is queued, unfunded, and the events table has no event with the name of the failure event.\<close>

definition opened :: "fresh_values \<Rightarrow> string \<Rightarrow> run_db \<Rightarrow> bool" where
  "opened v rid db \<longleftrightarrow> run_ok db \<and> run_log.contiguous db
     \<and> (\<exists>r. find_run rid db = Some r \<and> rn_state r = Queued \<and> rn_reservation r = None)
     \<and> (\<forall>e\<in>set (events db). ev_id e \<noteq> event_name (nonce v 6))"

text \<open>It may meanwhile have been given a reservation.\<close>

definition funded_at_most :: "fresh_values \<Rightarrow> string \<Rightarrow> string option \<Rightarrow> run_db \<Rightarrow> bool" where
  "funded_at_most v rid rsv db \<longleftrightarrow> run_log.contiguous db
     \<and> (\<exists>r. find_run rid db = Some r \<and> rn_state r = Queued \<and> rn_reservation r = rsv)
     \<and> (\<forall>e\<in>set (events db). ev_id e \<noteq> event_name (nonce v 6))"

lemma opened_funded: "opened v rid db \<Longrightarrow> funded_at_most v rid None db"
  by (auto simp: opened_def funded_at_most_def)

lemma attach_opened:
  assumes "opened v rid db"
  shows "\<exists>x db'. attach_reservation rid k w db = Inr (x, db') \<and> rn_id x = rid \<and> rn_reservation x = Some k
    \<and> funded_at_most v rid (Some k) db'"
proof -
  obtain r where r: "find_run rid db = Some r" "rn_state r = Queued" "rn_reservation r = None"
    using assms by (auto simp: opened_def)
  let ?f = "\<lambda>r. r\<lparr>rn_reservation := Some k, rw_updated_at := w\<rparr>"
  let ?db = "update_run rid ?f db"
  have row: "find_run rid ?db = Some (?f r)" by (subst find_run_update [OF r(1)]) simp_all
  have att: "attach_reservation rid k w db = Inr (to_run (?f r), ?db)"
    using r row by (simp add: attach_reservation_def row_locked_def Let_def)
  have "run_log.contiguous ?db"
    using run_log.contiguous_step [OF _ do_attach [OF att]] assms by (auto simp: opened_def)
  moreover have "rn_id r = rid" using r find_run_Some by blast
  ultimately show ?thesis
    using assms att row r(2) by (auto simp: funded_at_most_def opened_def)
qed

lemma fail_queued:
  assumes "funded_at_most v rid rsv db"
  shows "\<exists>x db'. fail rid why (nonce v 6) w db = Inr (x, db') \<and>
    (\<exists>r. find_run rid db' = Some r \<and> rn_state r = Failed \<and> rn_reservation r = rsv)"
proof -
  obtain r where r: "find_run rid db = Some r" "rn_state r = Queued" "rn_reservation r = rsv" "rn_id r = rid"
    using assms by (auto simp: funded_at_most_def dest: find_run_Some)
  let ?f = "\<lambda>q. q\<lparr>rn_state := Failed, rn_seq := rn_seq r + 1, rw_updated_at := w\<rparr>"
  from record_change_total [of db r "nonce v 6" ?f] assms r
  obtain e where e: "fail rid why (nonce v 6) w db = Inr (to_run (?f r), update_run rid ?f (db\<lparr>events := events db @ [e]\<rparr>))"
    by (auto simp: funded_at_most_def fail_def transition_def row_locked_def allowed_def)
  have "find_run rid (db\<lparr>events := events db @ [e]\<rparr>) = Some r" using r by simp
  then have "find_run rid (update_run rid ?f (db\<lparr>events := events db @ [e]\<rparr>)) = Some (?f r)"
    by (subst find_run_update) simp_all
  with e r show ?thesis by auto
qed

text \<open>Once the reservation is attached, the dispatcher decides.\<close>

lemma start_run_cases:
  assumes res: "p_reserve (rs_credits svc) (rc_tenant req) (rc_account req) (rn_id run) (rc_units req) (reserve_key req)
      (nonce v 3) (stamp v 3) (w_credits s) = Inr (c, d)"
    and att: "attach_reservation (rn_id run) (cr_id c) (stamp v 4) (w_runs s) = Inr (x, db)"
  obtains (sent) w where "start_run svc v req run s = get_fresh (rn_id x) (s\<lparr>w_credits := d, w_runs := db, w_outside := w\<rparr>)"
  | (refused) err w where "start_run svc v req run s = undo_create svc v err x (s\<lparr>w_credits := d, w_runs := db, w_outside := w\<rparr>)"
proof -
  let ?s = "s\<lparr>w_credits := d, w_runs := db\<rparr>"
  have 1: "on_credits (p_reserve (rs_credits svc) (rc_tenant req) (rc_account req) (rn_id run) (rc_units req)
      (reserve_key req) (nonce v 3) (stamp v 3)) s = (Inr c, s\<lparr>w_credits := d\<rparr>)"
    using res by (rule on_credits_Inr)
  have 2: "on_runs (attach_reservation (rn_id run) (cr_id c) (stamp v 4)) (s\<lparr>w_credits := d\<rparr>) = (Inr x, ?s)"
    using on_runs_Inr [of "attach_reservation (rn_id run) (cr_id c) (stamp v 4)" "s\<lparr>w_credits := d\<rparr>"] att by simp
  show thesis
  proof (cases "rs_flow svc")
    case None
    then have "start_run svc v req run s = get_fresh (rn_id x) (?s\<lparr>w_outside := w_outside s\<rparr>)"
      by (simp add: start_run_def reserve_and_dispatch_def 1 2)
    then show thesis by (rule sent)
  next
    case (Some send)
    obtain r s3 where 3: "on_flow (send (dispatch_message x (cr_id c) (rc_key req))) ?s = (r, s3)" by fastforce
    obtain w where w: "s3 = ?s\<lparr>w_outside := w\<rparr>" using on_flow_frame [OF 3] by blast
    show thesis
    proof (cases r)
      case (Inl err)
      then have "start_run svc v req run s = undo_create svc v err x (?s\<lparr>w_outside := w\<rparr>)"
        using 3 w Some by (simp add: start_run_def reserve_and_dispatch_def 1 2)
      then show thesis by (rule refused)
    next
      case (Inr u)
      then have "start_run svc v req run s = get_fresh (rn_id x) (?s\<lparr>w_outside := w\<rparr>)"
        using 3 w Some by (simp add: start_run_def reserve_and_dispatch_def 1 2)
      then show thesis by (rule sent)
    qed
  qed
qed

text \<open>The names a creation draws are new to the store, and so is the request's key.\<close>

definition fresh_for :: "fresh_values \<Rightarrow> run_create \<Rightarrow> run_db \<Rightarrow> bool" where
  "fresh_for v req db \<longleftrightarrow> find (\<lambda>r. rn_tenant r = rc_tenant req \<and> rn_key r = rc_key req) (runs db) = None
     \<and> find_run (run_name (nonce v 0)) db = None \<and> nonce v 1 \<noteq> nonce v 2 \<and> nonce v 1 \<noteq> nonce v 6
     \<and> list_all (\<lambda>e. ev_id e \<noteq> event_name (nonce v 1) \<and> ev_id e \<noteq> event_name (nonce v 2)
          \<and> ev_id e \<noteq> event_name (nonce v 6)) (events db)"

lemma event_name_eq [simp]: "event_name u = event_name v \<longleftrightarrow> u = v"
  by (simp add: event_name_def)

lemma created_opened:
  assumes "run_ok db" and "run_log.contiguous db" and "fresh_for v req db"
  shows "\<exists>x db1. create_run_row H (run_name (nonce v 0)) req (nonce v 1) (stamp v 1) db = Inr ((x, True), db1)
    \<and> rn_id x = run_name (nonce v 0) \<and> rn_reservation x = None \<and> opened v (run_name (nonce v 0)) db1
    \<and> list_all (\<lambda>e. ev_id e \<noteq> event_name (nonce v 2)) (events db1)"
proof -
  let ?rid = "run_name (nonce v 0)"
  let ?row = "new_run_row H ?rid req (stamp v 1)"
  have new: "find_run ?rid db = None" using assms(3) by (simp add: fresh_for_def)
  have "log_of db ?rid = []"
    using run_log.unopened [OF assms(1), of ?rid] new by (simp add: seq_of_def)
  then have nolog: "\<forall>e\<in>set (events db). ev_run e \<noteq> ?rid" by (simp add: log_of_def filter_empty_conv)
  define e where "e = \<lparr>ev_id = event_name (nonce v 1), ev_run = ?rid, ev_tenant = rc_tenant req, ev_seq = 1,
    ev_name = ''run.state_changed'', ev_data = [(''state'', JStr ''queued''), (''trace_id'', JStr (rc_trace req))],
    ev_created_at = stamp v 1\<rparr>"
  let ?db = "db\<lparr>runs := runs db @ [?row], events := events db @ [e]\<rparr>"
  have "append_event_locked (nonce v 1) (stamp v 1) ?rid (rc_tenant req) 1 ''run.state_changed''
      [(''state'', JStr ''queued''), (''trace_id'', JStr (rc_trace req))] (db\<lparr>runs := runs db @ [?row]\<rparr>) = Inr (e, ?db)"
    using assms(3) nolog by (simp add: append_event_Inr e_def fresh_for_def list_all_iff)
  then have c: "create_run_row H ?rid req (nonce v 1) (stamp v 1) db = Inr ((to_run ?row, True), ?db)"
    using assms(3) by (simp add: create_run_row_def fresh_for_def Let_def)
  note step = do_create [OF c]
  have "run_ok ?db" "run_log.contiguous ?db"
    using run_log.ok_step [OF assms(1) step] run_log.contiguous_step [OF assms(1) step assms(2)] by auto
  moreover have "find_run ?rid ?db = Some ?row"
    using find_run_open(1) [OF new, of ?row ?rid] by (simp add: new_run_row_def find_run_def)
  ultimately have "opened v ?rid ?db"
    using assms(3) by (auto simp: opened_def new_run_row_def fresh_for_def list_all_iff e_def)
  moreover have "list_all (\<lambda>e. ev_id e \<noteq> event_name (nonce v 2)) (events ?db)"
    using assms(3) by (auto simp: fresh_for_def list_all_iff e_def)
  ultimately show ?thesis using c by (auto simp: new_run_row_def)
qed

lemma pause_opened:
  assumes "opened v rid db" and "list_all (\<lambda>e. ev_id e \<noteq> event_name u) (events db)"
    and "pause_quota rid what n u w db = Inr (x, db')"
  shows "rn_id x = rid \<and> rn_state x = Quota_Paused \<and> rn_reservation x = None"
proof -
  obtain r where r: "find_run rid db = Some r" "rn_state r = Queued" "rn_reservation r = None" "rn_id r = rid"
    and c: "run_log.contiguous db"
    using assms(1) by (auto simp: opened_def dest: find_run_Some)
  with assms(2,3) record_change_total [OF c, of r u "\<lambda>q. q\<lparr>rn_state := Quota_Paused, rn_seq := rn_seq r + 1, rw_updated_at := w\<rparr>"]
  show ?thesis
    by (auto simp: pause_quota_def transition_def row_locked_def allowed_def list_all_iff split: if_splits)
qed

section \<open>The service over any lawful ports\<close>

locale run_service_ports = credit_port_laws P inv status fresh + quota_port_laws Q qinv admitted
  for P :: "'c credit_port" and inv :: "'c \<Rightarrow> bool" and status :: "'c \<Rightarrow> string \<Rightarrow> reservation_status option"
    and fresh :: "'c \<Rightarrow> string \<Rightarrow> bool" and Q :: "'q quota_port" and qinv :: "'q \<Rightarrow> bool"
    and admitted :: "'q \<Rightarrow> string \<Rightarrow> bool"
begin

text \<open>No reservation is open in the second state that was not open in the first.\<close>

definition no_new_hold :: "'c \<Rightarrow> 'c \<Rightarrow> bool" where
  "no_new_hold d d' \<longleftrightarrow> (\<forall>k. status d' k = Some Reserved \<longrightarrow> status d k = Some Reserved)"

text \<open>Undoing a creation whose reservation is known to the ledger always succeeds.\<close>

lemma undo_create_gives_back:
  assumes "rs_credits svc = P" and "rs_quota svc = Some Q"
    and "inv (w_credits s)" and "qinv (w_quota s)" and "funded_at_most v (rn_id run) rsv (w_runs s)"
    and "rn_reservation run = rsv" and "rsv \<noteq> Some []"
    and "\<And>k. rsv = Some k \<Longrightarrow> status (w_credits s) k \<noteq> None"
  shows "\<exists>s'. undo_create svc v e run (s :: ('c, 'q, 'd) world) = (Inl e, s') \<and> inv (w_credits s')
    \<and> (\<exists>r. find_run (rn_id run) (w_runs s') = Some r \<and> rn_state r = Failed)
    \<and> \<not> admitted (w_quota s') (rn_id run)
    \<and> (\<forall>k. status (w_credits s') k = Some Reserved \<longrightarrow> status (w_credits s) k = Some Reserved \<and> rsv \<noteq> Some k)"
proof -
  obtain q where q: "q_release Q (rn_id run) (w_quota s) = Inr ((), q)"
    using q_release_total [OF assms(4)] by blast
  have nadm: "\<not> admitted q (rn_id run)" using q_release_frees [OF assms(4) q] by simp
  obtain x db where f: "fail (rn_id run) ''workflow dispatch failed'' (nonce v 6) (stamp v 6) (w_runs s) = Inr (x, db)"
    and r: "\<exists>r. find_run (rn_id run) db = Some r \<and> rn_state r = Failed"
    using fail_queued [OF assms(5)] by blast
  have quo: "on_quota (q_release Q (rn_id run)) s = (Inr (), s\<lparr>w_quota := q\<rparr>)"
    using q by (rule on_quota_Inr)
  have fl: "on_runs (fail (rn_id run) ''workflow dispatch failed'' (nonce v 6) (stamp v 6)) t = (Inr x, t\<lparr>w_runs := db\<rparr>)"
    if "w_runs t = w_runs s" for t :: "('c, 'q, 'd) world"
    using f that by (simp add: on_runs_Inr)
  show ?thesis
  proof (cases rsv)
    case None
    then have "undo_create svc v e run s = (Inl e, s\<lparr>w_quota := q, w_runs := db\<rparr>)"
      using assms(2,6) by (simp add: undo_create_def quo fl truthy_def)
    with assms(3) r nadm None show ?thesis by simp
  next
    case (Some k)
    obtain c d where c: "p_release P k (release_key (rn_id run)) (stamp v 5) (w_credits s) = Inr (c, d)"
      using release_total [OF assms(3)] assms(8) Some by blast
    have cre: "on_credits (\<lambda>cs. case p_release P k (release_key (rn_id run)) (stamp v 5) cs of
        Inl e \<Rightarrow> Inl e | Inr (x, c') \<Rightarrow> Inr ((), c')) (s\<lparr>w_quota := q\<rparr>) = (Inr (), s\<lparr>w_quota := q, w_credits := d\<rparr>)"
      using on_credits_Inr [of "\<lambda>cs. case p_release P k (release_key (rn_id run)) (stamp v 5) cs of
        Inl e \<Rightarrow> Inl e | Inr (x, c') \<Rightarrow> Inr ((), c')" "s\<lparr>w_quota := q\<rparr>" "()" d] c by simp
    have u: "undo_create svc v e run s = (Inl e, s\<lparr>w_quota := q, w_credits := d, w_runs := db\<rparr>)"
      using assms(1,2,6,7) Some by (simp add: undo_create_def quo fl cre truthy_def)
    have "status d j = Some Reserved \<longrightarrow> status (w_credits s) j = Some Reserved \<and> rsv \<noteq> Some j" for j
      using release_status [OF assms(3) c] Some by auto
    with u r nadm release_inv [OF assms(3) c] show ?thesis by simp
  qed
qed

lemma start_run_failed:
  assumes "rs_credits svc = P" and "rs_quota svc = Some Q"
    and "inv (w_credits s)" and "qinv (w_quota s)" and "opened v (rn_id run) (w_runs s)"
    and "rn_reservation run = None" and "start_run svc v req run s = (Inl e, s')"
  shows "(\<exists>r. find_run (rn_id run) (w_runs s') = Some r \<and> rn_state r = Failed)
    \<and> \<not> admitted (w_quota s') (rn_id run) \<and> inv (w_credits s') \<and> no_new_hold (w_credits s) (w_credits s')"
proof (cases "p_reserve P (rc_tenant req) (rc_account req) (rn_id run) (rc_units req) (reserve_key req)
      (nonce v 3) (stamp v 3) (w_credits s)")
  case (Inl err)
  then have "start_run svc v req run s = undo_create svc v err run s"
    using assms(1) by (simp add: start_run_def reserve_and_dispatch_def on_ports)
  with undo_create_gives_back [OF assms(1-4) opened_funded [OF assms(5)] assms(6), of err] assms(7)
  show ?thesis by (auto simp: no_new_hold_def)
next
  case (Inr cd)
  obtain c d where res: "p_reserve P (rc_tenant req) (rc_account req) (rn_id run) (rc_units req) (reserve_key req)
      (nonce v 3) (stamp v 3) (w_credits s) = Inr (c, d)"
    using Inr by (cases cd) auto
  note d = reserve_inv [OF assms(3) res] and st = reserve_status [OF assms(3) res]
  obtain x db where att: "attach_reservation (rn_id run) (cr_id c) (stamp v 4) (w_runs s) = Inr (x, db)"
    and x: "rn_id x = rn_id run" "rn_reservation x = Some (cr_id c)"
    and fd: "funded_at_most v (rn_id run) (Some (cr_id c)) db"
    using attach_opened [OF assms(5)] by blast
  obtain row where row: "find_run (rn_id run) db = Some row" using fd by (auto simp: funded_at_most_def)
  show ?thesis
    using res [folded assms(1)] att
  proof (cases rule: start_run_cases)
    case (sent w)
    with assms(7) x row show ?thesis by (simp add: get_fresh_def get_run_def)
  next
    case (refused err w)
    let ?s = "s\<lparr>w_credits := d, w_runs := db, w_outside := w\<rparr>"
    have "\<exists>s'. undo_create svc v err x ?s = (Inl err, s') \<and> inv (w_credits s')
      \<and> (\<exists>r. find_run (rn_id x) (w_runs s') = Some r \<and> rn_state r = Failed) \<and> \<not> admitted (w_quota s') (rn_id x)
      \<and> (\<forall>k. status (w_credits s') k = Some Reserved \<longrightarrow> status (w_credits ?s) k = Some Reserved \<and> Some (cr_id c) \<noteq> Some k)"
      using d assms(4) fd x st by (intro undo_create_gives_back [OF assms(1,2)]) auto
    with refused assms(7) x st show ?thesis by (auto simp: no_new_hold_def split: if_splits)
  qed
qed

text \<open>A start that succeeds leaves the run funded by a reservation the ledger knows.\<close>

lemma start_run_funded:
  assumes "rs_credits svc = P" and "rs_quota svc = Some Q"
    and "inv (w_credits s)" and "qinv (w_quota s)" and "opened v (rn_id run) (w_runs s)"
    and "rn_reservation run = None" and "start_run svc v req run s = (Inr y, s')"
  shows "rn_id y = rn_id run \<and> rn_state y = Queued \<and> inv (w_credits s') \<and> w_quota s' = w_quota s
    \<and> (\<exists>row. find_run (rn_id run) (w_runs s') = Some row \<and> y = to_run row)
    \<and> (\<exists>c d. p_reserve P (rc_tenant req) (rc_account req) (rn_id run) (rc_units req) (reserve_key req)
          (nonce v 3) (stamp v 3) (w_credits s) = Inr (c, d) \<and> rn_reservation y = Some (cr_id c)
        \<and> w_credits s' = d)"
proof (cases "p_reserve P (rc_tenant req) (rc_account req) (rn_id run) (rc_units req) (reserve_key req)
      (nonce v 3) (stamp v 3) (w_credits s)")
  case (Inl err)
  then have "start_run svc v req run s = undo_create svc v err run s"
    using assms(1) by (simp add: start_run_def reserve_and_dispatch_def on_ports)
  with undo_create_gives_back [OF assms(1-4) opened_funded [OF assms(5)] assms(6), of err] assms(7)
  show ?thesis by auto
next
  case (Inr cd)
  obtain c d where res: "p_reserve P (rc_tenant req) (rc_account req) (rn_id run) (rc_units req) (reserve_key req)
      (nonce v 3) (stamp v 3) (w_credits s) = Inr (c, d)"
    using Inr by (cases cd) auto
  note d = reserve_inv [OF assms(3) res] and st = reserve_status [OF assms(3) res]
  obtain x db where att: "attach_reservation (rn_id run) (cr_id c) (stamp v 4) (w_runs s) = Inr (x, db)"
    and x: "rn_id x = rn_id run" "rn_reservation x = Some (cr_id c)"
    and fd: "funded_at_most v (rn_id run) (Some (cr_id c)) db"
    using attach_opened [OF assms(5)] by blast
  obtain row where row: "find_run (rn_id run) db = Some row" "rn_state row = Queued" "rn_reservation row = Some (cr_id c)"
    "rn_id row = rn_id run"
    using fd by (auto simp: funded_at_most_def dest: find_run_Some)
  show ?thesis
    using res [folded assms(1)] att
  proof (cases rule: start_run_cases)
    case (sent w)
    with assms(7) x row d res show ?thesis by (auto simp: get_fresh_def get_run_def)
  next
    case (refused err w)
    let ?s = "s\<lparr>w_credits := d, w_runs := db, w_outside := w\<rparr>"
    have "\<exists>s'. undo_create svc v err x ?s = (Inl err, s') \<and> inv (w_credits s')
      \<and> (\<exists>r. find_run (rn_id x) (w_runs s') = Some r \<and> rn_state r = Failed) \<and> \<not> admitted (w_quota s') (rn_id x)
      \<and> (\<forall>k. status (w_credits s') k = Some Reserved \<longrightarrow> status (w_credits ?s) k = Some Reserved \<and> Some (cr_id c) \<noteq> Some k)"
      using d assms(4) fd x st by (intro undo_create_gives_back [OF assms(1,2)]) auto
    with refused assms(7) show ?thesis by auto
  qed
qed

lemma create_failed:
  assumes "rs_credits svc = P" and "rs_quota svc = Some Q"
    and "inv (w_credits s)" and "qinv (w_quota s)" and "run_ok (w_runs s)" and "run_log.contiguous (w_runs s)"
    and "fresh_for v req (w_runs s)"
    and "q_reserve Q (rc_tenant req) (run_name (nonce v 0)) (rc_units req) (epochs v 0) (w_quota s) = Inr (x, q)"
    and "create_run H svc v req s = (Inl e, s')"
  shows "(\<exists>r. find_run (run_name (nonce v 0)) (w_runs s') = Some r \<and> rn_state r = Failed)
    \<and> \<not> admitted (w_quota s') (run_name (nonce v 0)) \<and> inv (w_credits s') \<and> no_new_hold (w_credits s) (w_credits s')"
proof -
  obtain y db where c: "create_run_row H (run_name (nonce v 0)) req (nonce v 1) (stamp v 1) (w_runs s) = Inr ((y, True), db)"
    and y: "rn_id y = run_name (nonce v 0)" "rn_reservation y = None" "opened v (run_name (nonce v 0)) db"
    using created_opened [OF assms(5-7), of H] by blast
  let ?s = "s\<lparr>w_runs := db, w_quota := q\<rparr>"
  have q: "on_quota (q_reserve Q (rc_tenant req) (run_name (nonce v 0)) (rc_units req) (epochs v 0)) (s\<lparr>w_runs := db\<rparr>) = (Inr x, ?s)"
    using on_quota_Inr [of "q_reserve Q (rc_tenant req) (run_name (nonce v 0)) (rc_units req) (epochs v 0)" "s\<lparr>w_runs := db\<rparr>"]
      assms(8) by simp
  have on: "on_runs (create_run_row H (run_name (nonce v 0)) req (nonce v 1) (stamp v 1)) s = (Inr (y, True), s\<lparr>w_runs := db\<rparr>)"
    using c by (rule on_runs_Inr)
  have "create_run H svc v req s = start_run svc v req y ?s"
    using assms(2) y q by (simp add: create_run_def on admit_and_start_def del: One_nat_def)
  with start_run_failed [OF assms(1,2), of ?s v y req e s'] assms(3,9) q_reserve_inv [OF assms(4,8)] y
  show ?thesis by simp
qed

lemma create_ok:
  assumes "rs_credits svc = P" and "rs_quota svc = Some Q"
    and "inv (w_credits s)" and "qinv (w_quota s)" and "run_ok (w_runs s)" and "run_log.contiguous (w_runs s)"
    and "fresh_for v req (w_runs s)" and "create_run H svc v req s = (Inr z, s')"
  shows "rn_id z = run_name (nonce v 0) \<and>
    (rn_state z = Quota_Paused \<and> rn_reservation z = None \<and> w_credits s' = w_credits s \<and> w_outside s' = w_outside s \<or>
     rn_state z = Queued \<and> admitted (w_quota s') (rn_id z) \<and>
      (\<exists>row. find_run (rn_id z) (w_runs s') = Some row \<and> z = to_run row) \<and>
      (\<exists>c. p_reserve P (rc_tenant req) (rc_account req) (rn_id z) (rc_units req) (reserve_key req)
          (nonce v 3) (stamp v 3) (w_credits s) = Inr (c, w_credits s') \<and> rn_reservation z = Some (cr_id c)))"
proof -
  obtain y db where c: "create_run_row H (run_name (nonce v 0)) req (nonce v 1) (stamp v 1) (w_runs s) = Inr ((y, True), db)"
    and y: "rn_id y = run_name (nonce v 0)" "rn_reservation y = None" "opened v (run_name (nonce v 0)) db"
      "list_all (\<lambda>e. ev_id e \<noteq> event_name (nonce v 2)) (events db)"
    using created_opened [OF assms(5-7), of H] by blast
  let ?t = "s\<lparr>w_runs := db\<rparr>"
  let ?q = "q_reserve Q (rc_tenant req) (run_name (nonce v 0)) (rc_units req) (epochs v 0)"
  have on: "on_runs (create_run_row H (run_name (nonce v 0)) req (nonce v 1) (stamp v 1)) s = (Inr (y, True), s\<lparr>w_runs := db\<rparr>)"
    using c by (rule on_runs_Inr)
  have cr: "create_run H svc v req s = admit_and_start svc v req y ?t"
    by (simp add: create_run_def on del: One_nat_def)
  show ?thesis
  proof (cases "?q (w_quota s)")
    case (Inl err)
    then have q: "on_quota ?q ?t = (Inl err, ?t)" using on_quota_Inl [of ?q ?t] by simp
    with assms(2,8) cr y obtain what n where "on_runs (pause_quota (rn_id y) what n (nonce v 2) (stamp v 2)) ?t = (Inr z, s')"
      by (cases err) (auto simp: admit_and_start_def)
    then obtain db' where "pause_quota (rn_id y) what n (nonce v 2) (stamp v 2) db = Inr (z, db')" "s' = ?t\<lparr>w_runs := db'\<rparr>"
      by (auto simp: on_runs_def atomically_def split: sum.splits)
    with pause_opened [OF y(3,4)] y(1) show ?thesis by auto
  next
    case (Inr xq)
    then obtain x q where x: "?q (w_quota s) = Inr (x, q)" by (cases xq) auto
    then have "on_quota ?q ?t = (Inr x, ?t\<lparr>w_quota := q\<rparr>)" using on_quota_Inr [of ?q ?t] by simp
    with assms(2,8) cr y have st: "start_run svc v req y (?t\<lparr>w_quota := q\<rparr>) = (Inr z, s')"
      by (simp add: admit_and_start_def)
    have "admitted q (run_name (nonce v 0))" using q_reserve_admits [OF assms(4) x] by simp
    with start_run_funded [OF assms(1,2) _ _ _ y(2) st] assms(3) q_reserve_inv [OF assms(4) x] y(1,3)
    show ?thesis by auto
  qed
qed

lemma cancel_ok:
  assumes "rs_credits svc = P" and "inv (w_credits s)" and "cancel_run svc v rid t s = (Inr y, s')"
    and "rn_state y = Cancelled" and "rn_reservation y = Some k" and "k \<noteq> []"
  shows "status (w_credits s') k \<in> {Some Released, Some Committed}"
proof -
  obtain s1 where s1: "on_runs (mark_cancel_requested rid t (nonce v 0) (stamp v 0)) s = (Inr y, s1)"
    and c: "on_credits (p_release P k (release_key (rn_id y)) (stamp v 1)) s1 \<noteq> (Inl e, s2)"
      "and_then (on_credits (p_release P k (release_key (rn_id y)) (stamp v 1)) s1) (\<lambda>_ s2. (Inr y, s2)) = (Inr y, s')" for e s2
    using assms by (auto simp: cancel_run_def and_then_def truthy_def split: prod.splits sum.splits if_splits)
  then have "w_credits s1 = w_credits s" by (auto simp: on_runs_def split: prod.splits)
  with c obtain c' d where "p_release P k (release_key (rn_id y)) (stamp v 1) (w_credits s) = Inr (c', d)" "w_credits s' = d"
    by (auto simp: on_credits_def atomically_def and_then_def split: sum.splits prod.splits)
  with release_status [OF assms(2)] show ?thesis by auto
qed

end

interpretation sqlite_service: run_service_ports sqlite_credit_port credit_inv status_of fresh_entry
  "sqlite_quota_port pol" "quota_inv pol" admitted for pol
  by unfold_locales

section \<open>The service only moves the store by its operations\<close>

lemma on_runs_step:
  assumes "on_runs body s = (r, s')" and "\<And>x db. body (w_runs s) = Inr (x, db) \<Longrightarrow> run_step H (w_runs s) db"
  shows "(run_step H)\<^sup>*\<^sup>* (w_runs s) (w_runs s')"
  using assms by (auto simp: on_runs_def atomically_def split: sum.splits)

lemma frames:
  "on_credits body s = (r, s') \<Longrightarrow> w_runs s' = w_runs s"
  "on_quota body' s = (r', s') \<Longrightarrow> w_runs s' = w_runs s"
  "on_flow body'' s = (r'', s') \<Longrightarrow> w_runs s' = w_runs s"
  by (auto simp: on_credits_def on_quota_def on_flow_def split: prod.splits)

lemma undo_create_steps: "undo_create svc v e run s = (r, s') \<Longrightarrow> (run_step H)\<^sup>*\<^sup>* (w_runs s) (w_runs s')"
  unfolding undo_create_def
proof (elim and_then_E, goal_cases)
  case (1 e')
  then show ?case by (auto dest: frames split: option.splits)
next
  case (2 x s1 e')
  then have "w_runs s1 = w_runs s" "w_runs s' = w_runs s1"
    by (auto dest: frames split: option.splits if_splits)
  then show ?case by simp
next
  case (3 x s1 y s2 e')
  then have "w_runs s1 = w_runs s" "w_runs s2 = w_runs s1"
    by (auto dest: frames split: option.splits if_splits)
  with on_runs_step [OF 3(3)] show ?case by (auto intro: do_fail)
next
  case (4 x s1 y s2 z s3)
  then have "w_runs s1 = w_runs s" "w_runs s2 = w_runs s1" "s' = s3"
    by (auto dest: frames split: option.splits if_splits)
  with on_runs_step [OF 4(3)] show ?case by (auto intro: do_fail)
qed

lemma start_run_steps:
  assumes "start_run svc v req run s = (r, s')"
  shows "(run_step H)\<^sup>*\<^sup>* (w_runs s) (w_runs s')"
proof -
  obtain x run' s1 where t: "reserve_and_dispatch svc v req run s = (x, run', s1)" by (metis prod.exhaust)
  have "(run_step H)\<^sup>*\<^sup>* (w_runs s) (w_runs s1)"
  proof (cases "on_credits (p_reserve (rs_credits svc) (rc_tenant req) (rc_account req) (rn_id run) (rc_units req)
      (reserve_key req) (nonce v 3) (stamp v 3)) s")
    case (Pair y s2)
    note s2 = frames(1) [OF Pair]
    show ?thesis
    proof (cases y)
      case (Inl e)
      with t Pair s2 show ?thesis by (auto simp: reserve_and_dispatch_def)
    next
      case (Inr c)
      obtain z s3 where z: "on_runs (attach_reservation (rn_id run) (cr_id c) (stamp v 4)) s2 = (z, s3)" by fastforce
      have "(run_step H)\<^sup>*\<^sup>* (w_runs s2) (w_runs s3)" using on_runs_step [OF z] by (blast intro: do_attach)
      moreover have "w_runs s1 = w_runs s3"
        using t Pair Inr z by (auto simp: reserve_and_dispatch_def dest: frames split: sum.splits option.splits prod.splits)
      ultimately show ?thesis using s2 by simp
    qed
  qed
  moreover have "(run_step H)\<^sup>*\<^sup>* (w_runs s1) (w_runs s')"
    using assms t undo_create_steps by (auto simp: start_run_def get_fresh_def split: sum.splits)
  ultimately show ?thesis by simp
qed

lemma admit_and_start_steps:
  assumes "admit_and_start svc v req run s = (r, s')"
  shows "(run_step H)\<^sup>*\<^sup>* (w_runs s) (w_runs s')"
proof (cases "rs_quota svc")
  case None
  with assms start_run_steps show ?thesis by (auto simp: admit_and_start_def)
next
  case (Some q)
  obtain x s1 where x: "on_quota (q_reserve q (rc_tenant req) (rn_id run) (rc_units req) (epochs v 0)) s = (x, s1)" by fastforce
  have "(run_step H)\<^sup>*\<^sup>* (w_runs s1) (w_runs s')"
    using assms Some x
    by (auto simp: admit_and_start_def intro: start_run_steps elim!: on_runs_step split: sum.splits exn.splits intro: do_pause)
  with frames(2) [OF x] show ?thesis by simp
qed

lemma resume_paused_steps:
  assumes "resume_paused svc v req run s = (r, s')"
  shows "(run_step H)\<^sup>*\<^sup>* (w_runs s) (w_runs s')"
proof (cases "rs_quota svc")
  case None
  with assms show ?thesis by (auto simp: resume_paused_def get_fresh_def)
next
  case (Some q)
  obtain x s1 where x: "on_quota (q_reserve q (rc_tenant req) (rn_id run) (rc_units req) (epochs v 0)) s = (x, s1)" by fastforce
  have "(run_step H)\<^sup>*\<^sup>* (w_runs s1) (w_runs s')"
  proof (cases x)
    case (Inl e)
    with assms Some x show ?thesis by (cases e) (auto simp: resume_paused_def get_fresh_def)
  next
    case (Inr u)
    let ?t = "on_runs (transition (rn_id run) Queued [(''reason'', JStr ''quota_window_available'')] (nonce v 2) (stamp v 2)) s1"
    obtain y s2 where y: "?t = (y, s2)" by fastforce
    have "(run_step H)\<^sup>*\<^sup>* (w_runs s1) (w_runs s2)" using on_runs_step [OF y] by (blast intro: do_transition)
    moreover have "(run_step H)\<^sup>*\<^sup>* (w_runs s2) (w_runs s')"
      using assms Some x Inr y by (cases y) (auto simp: resume_paused_def intro: start_run_steps)
    ultimately show ?thesis by simp
  qed
  with frames(2) [OF x] show ?thesis by simp
qed

lemma create_run_steps:
  assumes "create_run H svc v req s = (r, s')"
  shows "(run_step H)\<^sup>*\<^sup>* (w_runs s) (w_runs s')"
proof -
  obtain x s1 where x: "on_runs (create_run_row H (run_name (nonce v 0)) req (nonce v 1) (stamp v 1)) s = (x, s1)" by fastforce
  have "(run_step H)\<^sup>*\<^sup>* (w_runs s) (w_runs s1)" using on_runs_step [OF x] by (blast intro: do_create)
  moreover have "(run_step H)\<^sup>*\<^sup>* (w_runs s1) (w_runs s')"
    using assms x
    by (cases x) (auto simp: create_run_def get_fresh_def admit_and_start_steps resume_paused_steps
        simp del: One_nat_def split: if_splits)
  ultimately show ?thesis by simp
qed

section \<open>Properties\<close>

text \<open>The state of the service over the SQLite stores: reachable run tables, lawful ledgers.\<close>

definition world_ok :: "(dict \<Rightarrow> string) \<Rightarrow> quota_policy \<Rightarrow> (credit_db, quota_db, 'w) world \<Rightarrow> bool" where
  "world_ok H pol s \<longleftrightarrow> (run_step H)\<^sup>*\<^sup>* empty_run_db (w_runs s) \<and> credit_inv (w_credits s) \<and> quota_inv pol (w_quota s)"

definition sqlite_service :: "quota_policy \<Rightarrow> 'w dispatcher option \<Rightarrow> (credit_db, quota_db, 'w) service" where
  "sqlite_service pol flow = \<lparr>rs_credits = sqlite_credit_port, rs_quota = Some (sqlite_quota_port pol), rs_flow = flow\<rparr>"

lemma sqlite_service_simps [simp]:
  "rs_credits (sqlite_service pol flow) = sqlite_credit_port"
  "rs_quota (sqlite_service pol flow) = Some (sqlite_quota_port pol)" "rs_flow (sqlite_service pol flow) = flow"
  by (simp_all add: sqlite_service_def)

definition demo_world :: "(credit_db, quota_db, unit) world" where
  "demo_world = \<lparr>w_runs = empty_run_db, w_credits = demo_ledger, w_quota = empty_quota_db, w_outside = ()\<rparr>"

definition demo_fresh :: fresh_values where
  "demo_fresh = \<lparr>nonce = dec_nat, stamp = (\<lambda>_. ''w''), epochs = (\<lambda>_. (100, 100))\<rparr>"

lemma demo_world_ok: "world_ok H demo_policy demo_world"
proof -
  have "quota_inv demo_policy empty_quota_db" by (rule quota_inv_empty) (simp_all add: demo_policy_def)
  then show ?thesis by (simp add: world_ok_def demo_world_def demo_ledger_inv)
qed

lemma demo_fresh_for: "fresh_for demo_fresh demo_request empty_run_db"
  by code_simp

text \<open>
  C9. A creation that fails gives everything back. Whether the credits were insufficient or the
  dispatcher raised after the reservation was made: the recorded run is failed, the quota
  admission is freed, the ledger invariant holds, and no reservation is open that was not open
  before the call.
\<close>

theorem failed_create_gives_back:
  assumes "world_ok H pol s" and "fresh_for v req (w_runs s)"
    and "quota_reserve pol (rc_tenant req) (run_name (nonce v 0)) (rc_units req) (epochs v 0) (w_quota s) = Inr (x, q)"
    and "create_run H (sqlite_service pol flow) v req s = (Inl e, s')"
  shows "(\<exists>r. find_run (run_name (nonce v 0)) (w_runs s') = Some r \<and> rn_state r = Failed)
    \<and> \<not> admitted (w_quota s') (run_name (nonce v 0)) \<and> credit_inv (w_credits s')
    \<and> (\<forall>k. status_of (w_credits s') k = Some Reserved \<longrightarrow> status_of (w_credits s) k = Some Reserved)"
proof -
  have "run_ok (w_runs s)" "run_log.contiguous (w_runs s)"
    using assms(1) run_reachable_ok by (auto simp: world_ok_def)
  with sqlite_service.create_failed [of "sqlite_service pol flow" pol s v req x q H e s'] assms show ?thesis
    by (simp add: world_ok_def sqlite_service.no_new_hold_def sqlite_quota_port_def)
qed

theorem failed_create_gives_back_witness:
  "\<exists>s'. create_run (\<lambda>_. ''h'') (sqlite_service demo_policy (Some (\<lambda>m w. (Inl (RuntimeError ''down''), w))))
       demo_fresh demo_request demo_world = (Inl (RuntimeError ''down''), s')
     \<and> \<not> admitted (w_quota s') (run_name (dec_nat 0))"
proof -
  let ?svc = "sqlite_service demo_policy (Some (\<lambda>m w. (Inl (RuntimeError ''down''), w)))"
  have "case create_run (\<lambda>_. ''h'') ?svc demo_fresh demo_request demo_world of
      (Inl e, s') \<Rightarrow> e = RuntimeError ''down'' | (Inr _, _) \<Rightarrow> False"
    by code_simp
  then obtain s' where s': "create_run (\<lambda>_. ''h'') ?svc demo_fresh demo_request demo_world = (Inl (RuntimeError ''down''), s')"
    by (auto split: prod.splits sum.splits)
  have "case quota_reserve demo_policy (rc_tenant demo_request) (run_name (nonce demo_fresh 0)) (rc_units demo_request)
      (epochs demo_fresh 0) (w_quota demo_world) of Inl e \<Rightarrow> False | Inr (x, q) \<Rightarrow> True"
    by code_simp
  then obtain x q where "quota_reserve demo_policy (rc_tenant demo_request) (run_name (nonce demo_fresh 0)) (rc_units demo_request)
      (epochs demo_fresh 0) (w_quota demo_world) = Inr (x, q)" by (rule run_obtain)
  moreover have "fresh_for demo_fresh demo_request (w_runs demo_world)"
    using demo_fresh_for by (simp add: demo_world_def)
  ultimately show ?thesis
    using failed_create_gives_back [OF demo_world_ok _ _ s'] s' by (auto simp: demo_fresh_def)
qed

text \<open>
  C10. A new run that is returned is either paused by its quota, with nothing reserved and nothing
  dispatched, or queued, admitted by the quota and holding the reservation that the ledger made
  for exactly its tenant, account and units.
\<close>

theorem created_run_is_funded:
  assumes "world_ok H pol s" and "fresh_for v req (w_runs s)"
    and "create_run H (sqlite_service pol flow) v req s = (Inr z, s')"
  shows "rn_state z = Quota_Paused \<and> rn_reservation z = None \<and> w_credits s' = w_credits s \<and> w_outside s' = w_outside s
    \<or> rn_state z = Queued \<and> admitted (w_quota s') (rn_id z)
      \<and> (\<exists>c. reserve (rc_tenant req) (rc_account req) (rn_id z) (rc_units req) (reserve_key req) (nonce v 3) (stamp v 3)
            (w_credits s) = Inr (c, w_credits s') \<and> rn_reservation z = Some (cr_id c) \<and> status_of (w_credits s') (cr_id c) = Some (cr_status c))"
proof -
  have "run_ok (w_runs s)" "run_log.contiguous (w_runs s)"
    using assms(1) run_reachable_ok by (auto simp: world_ok_def)
  with sqlite_service.create_ok [of "sqlite_service pol flow" pol s v req H z s'] assms reserve_status_of show ?thesis
    by (fastforce simp: world_ok_def sqlite_credit_port_def)
qed

lemma demo_created:
  obtains z s' where "create_run (\<lambda>_. ''h'') (sqlite_service demo_policy (Some (\<lambda>m w. (Inr (), w))))
       demo_fresh demo_request demo_world = (Inr z, s')" "rn_reservation z \<noteq> None"
proof -
  have "case create_run (\<lambda>_. ''h'') (sqlite_service demo_policy (Some (\<lambda>m w. (Inr (), w)))) demo_fresh demo_request demo_world of
      (Inl e, s') \<Rightarrow> False | (Inr z, s') \<Rightarrow> rn_reservation z \<noteq> None"
    by code_simp
  then show thesis using that by (auto split: prod.splits sum.splits)
qed

theorem created_run_is_funded_witness:
  "\<exists>z s'. create_run (\<lambda>_. ''h'') (sqlite_service demo_policy (Some (\<lambda>m w. (Inr (), w)))) demo_fresh demo_request demo_world
       = (Inr z, s') \<and> rn_state z = Queued \<and> admitted (w_quota s') (rn_id z)"
proof -
  obtain z s' where z: "create_run (\<lambda>_. ''h'') (sqlite_service demo_policy (Some (\<lambda>m w. (Inr (), w))))
       demo_fresh demo_request demo_world = (Inr z, s')" "rn_reservation z \<noteq> None" by (rule demo_created)
  have "fresh_for demo_fresh demo_request (w_runs demo_world)"
    using demo_fresh_for by (simp add: demo_world_def)
  from created_run_is_funded [OF demo_world_ok this z(1)] z show ?thesis by auto
qed

text \<open>
  Retrying a creation costs nothing: once a run was created and funded, the same request, at any
  later time and through any service over the same store, returns the same run with the same
  reservation and changes no store: no second reservation, no second dispatch.
\<close>

theorem create_retry_is_free:
  assumes "world_ok H pol s" and "fresh_for v req (w_runs s)"
    and "create_run H (sqlite_service pol flow) v req s = (Inr z, s1)" and "rn_reservation z \<noteq> None"
    and "(run_step H)\<^sup>*\<^sup>* (w_runs s1) (w_runs s2)"
  shows "\<exists>z'. create_run H svc v' req s2 = (Inr z', s2) \<and> rn_id z' = rn_id z \<and> rn_reservation z' = rn_reservation z"
proof -
  have ok: "run_ok (w_runs s)" "run_log.contiguous (w_runs s)"
    using assms(1) run_reachable_ok by (auto simp: world_ok_def)
  obtain row where row: "rn_id z = run_name (nonce v 0)" "find_run (rn_id z) (w_runs s1) = Some row" "z = to_run row"
    using sqlite_service.create_ok [of "sqlite_service pol flow" pol s v req H z s1] ok assms
    by (auto simp: world_ok_def)
  obtain y db where c: "create_run_row H (run_name (nonce v 0)) req (nonce v 1) (stamp v 1) (w_runs s) = Inr ((y, True), db)"
    using created_opened [OF ok assms(2), of H] by blast
  have "on_runs (create_run_row H (run_name (nonce v 0)) req (nonce v 1) (stamp v 1)) s = (Inr (y, True), s\<lparr>w_runs := db\<rparr>)"
    using c by (rule on_runs_Inr)
  then have "admit_and_start (sqlite_service pol flow) v req y (s\<lparr>w_runs := db\<rparr>) = (Inr z, s1)"
    using assms(3) by (simp add: create_run_def del: One_nat_def)
  then have s1: "(run_step H)\<^sup>*\<^sup>* db (w_runs s1)" using admit_and_start_steps by fastforce
  with assms(5) have "(run_step H)\<^sup>*\<^sup>* db (w_runs s2)" by simp
  from created_row_stays [OF ok(1) c this] obtain r where r: "find_run (rn_id z) (w_runs s2) = Some r"
    "rw_hash r = fingerprint H req"
    "find (\<lambda>q. rn_tenant q = rc_tenant req \<and> rn_key q = rc_key req) (runs (w_runs s2)) = Some r"
    using row(1) by auto
  have "run_ok (w_runs s1)"
    using run_life.ok_steps [OF create_run_steps [OF assms(3)]] ok(1) by blast
  with run_path [OF assms(5) _ row(2)] r(1) row(3) assms(4) have "rn_reservation r = rn_reservation z" by auto
  moreover have "rn_id r = rn_id z" using r(1) find_run_Some by blast
  moreover have "on_runs (create_run_row H (run_name (nonce v' 0)) req (nonce v' 1) (stamp v' 1)) s2 = (Inr (to_run r, False), s2)"
    using r(2,3) on_runs_Inr [of "create_run_row H (run_name (nonce v' 0)) req (nonce v' 1) (stamp v' 1)" s2]
    by (simp add: create_run_row_def)
  ultimately show ?thesis
    using assms(4) r(1) by (simp add: create_run_def get_fresh_def get_run_def del: One_nat_def)
qed

theorem create_retry_is_free_witness:
  "\<exists>z s1 z'. create_run (\<lambda>_. ''h'') (sqlite_service demo_policy (Some (\<lambda>m w. (Inr (), w)))) demo_fresh demo_request demo_world
       = (Inr z, s1) \<and> create_run (\<lambda>_. ''h'') (sqlite_service demo_policy None) demo_fresh demo_request s1 = (Inr z', s1)"
proof -
  obtain z s1 where z: "create_run (\<lambda>_. ''h'') (sqlite_service demo_policy (Some (\<lambda>m w. (Inr (), w))))
       demo_fresh demo_request demo_world = (Inr z, s1)" "rn_reservation z \<noteq> None" by (rule demo_created)
  have "fresh_for demo_fresh demo_request (w_runs demo_world)"
    using demo_fresh_for by (simp add: demo_world_def)
  from create_retry_is_free [OF demo_world_ok this z rtranclp.rtrancl_refl] z show ?thesis by blast
qed

text \<open>
  A cancelled run holds no credits: when a cancellation returns the run as cancelled, its
  reservation is released, or was already charged by the worker; it is never left open.
\<close>

theorem cancelled_run_holds_nothing:
  assumes "world_ok H pol s" and "cancel_run (sqlite_service pol flow) v rid t s = (Inr y, s')"
    and "rn_state y = Cancelled" and "rn_reservation y = Some k" and "k \<noteq> []"
  shows "status_of (w_credits s') k \<in> {Some Released, Some Committed}"
  using sqlite_service.cancel_ok [of "sqlite_service pol flow" s v rid t y s' k] assms
  by (simp add: world_ok_def)

lemma demo_quota_after:
  assumes "create_run (\<lambda>_. ''h'') (sqlite_service demo_policy (Some (\<lambda>m w. (Inr (), w)))) demo_fresh demo_request demo_world
    = (Inr z, s1)"
  shows "quota_inv demo_policy (w_quota s1)"
proof -
  have "w_quota s1 = (case quota_reserve demo_policy ''t'' (run_name (dec_nat 0)) 2 (100, 100) empty_quota_db of
      Inl e \<Rightarrow> empty_quota_db | Inr (x, q) \<Rightarrow> q)"
  proof -
    have "w_quota (snd (create_run (\<lambda>_. ''h'') (sqlite_service demo_policy (Some (\<lambda>m w. (Inr (), w)))) demo_fresh demo_request demo_world))
       = (case quota_reserve demo_policy ''t'' (run_name (dec_nat 0)) 2 (100, 100) empty_quota_db of
      Inl e \<Rightarrow> empty_quota_db | Inr (x, q) \<Rightarrow> q)"
      by code_simp
    with assms show ?thesis by simp
  qed
  moreover have "quota_inv demo_policy empty_quota_db" by (rule quota_inv_empty) (simp_all add: demo_policy_def)
  ultimately show ?thesis
    using sqlite_quota.q_reserve_inv [of demo_policy empty_quota_db] by (auto simp: sqlite_quota_port_def split: sum.splits)
qed

theorem cancelled_run_holds_nothing_witness:
  "\<exists>z s1 y s2. create_run (\<lambda>_. ''h'') (sqlite_service demo_policy (Some (\<lambda>m w. (Inr (), w)))) demo_fresh demo_request demo_world
       = (Inr z, s1) \<and> cancel_run (sqlite_service demo_policy None) (demo_fresh\<lparr>nonce := \<lambda>_. ''c''\<rparr>) (rn_id z) ''t'' s1 = (Inr y, s2)
     \<and> status_of (w_credits s2) (reservation_name (dec_nat 3)) \<in> {Some Released, Some Committed}"
proof -
  let ?svc = "sqlite_service demo_policy (Some (\<lambda>m w. (Inr (), w)))"
  let ?v = "demo_fresh\<lparr>nonce := \<lambda>_. ''c''\<rparr>"
  have "case create_run (\<lambda>_. ''h'') ?svc demo_fresh demo_request demo_world of (Inl e, s1) \<Rightarrow> False
     | (Inr z, s1) \<Rightarrow> (case cancel_run (sqlite_service demo_policy None) ?v (rn_id z) ''t'' s1 of (Inl e, s2) \<Rightarrow> False
     | (Inr y, s2) \<Rightarrow> rn_state y = Cancelled \<and> rn_reservation y = Some (reservation_name (dec_nat 3)))"
    by code_simp
  then obtain z s1 where z: "create_run (\<lambda>_. ''h'') ?svc demo_fresh demo_request demo_world = (Inr z, s1)"
    and "case cancel_run (sqlite_service demo_policy None) ?v (rn_id z) ''t'' s1 of (Inl e, s2) \<Rightarrow> False
       | (Inr y, s2) \<Rightarrow> rn_state y = Cancelled \<and> rn_reservation y = Some (reservation_name (dec_nat 3))"
    by (rule call_obtain)
  then obtain y s2 where y: "cancel_run (sqlite_service demo_policy None) ?v (rn_id z) ''t'' s1 = (Inr y, s2)"
      "rn_state y = Cancelled" "rn_reservation y = Some (reservation_name (dec_nat 3))"
    by (elim call_obtain conjE) blast
  have ok: "run_ok (w_runs demo_world)" "run_log.contiguous (w_runs demo_world)"
    using demo_world_ok [of "\<lambda>_. ''h''"] run_reachable_ok by (auto simp: world_ok_def)
  have q: "quota_inv demo_policy (w_quota s1)"
    using demo_quota_after z by blast
  have "fresh_for demo_fresh demo_request (w_runs demo_world)"
    using demo_fresh_for by (simp add: demo_world_def)
  with sqlite_service.create_ok [of ?svc demo_policy demo_world demo_fresh demo_request "\<lambda>_. ''h''" z s1] ok z
    demo_world_ok [of "\<lambda>_. ''h''"] q
  have "world_ok (\<lambda>_. ''h'') demo_policy s1"
    using create_run_steps [OF z] by (auto simp: world_ok_def demo_world_def sqlite_credit_port_def demo_ledger_inv dest: reserve_inv [OF demo_ledger_inv])
  from cancelled_run_holds_nothing [OF this y] z y show ?thesis by auto
qed

section \<open>Replaying events\<close>

lemma strip_Cons: "\<not> is_space c \<Longrightarrow> \<exists>t. strip (c # s) = c # t"
proof (induction s rule: rev_induct)
  case Nil
  then show ?case by (simp add: strip_def)
next
  case (snoc x xs)
  then show ?case by (cases "is_space x") (auto simp: strip_def)
qed

lemma event_name_not_number: "parse_int (event_name u) = None"
proof -
  obtain t where "strip (event_name u) = CHR ''e'' # t"
    using strip_Cons [of "CHR ''e''" "''vent-'' @ u"] by (auto simp: event_name_def is_space_def)
  then show ?thesis by (simp add: parse_int_def digit_value_def)
qed

lemma sequence_of_event:
  assumes "run_ok db" and "e \<in> set (log_of db rid)"
  shows "sequence_for_event rid (ev_id e) db = ev_seq e"
proof -
  have e: "e \<in> set (events db)" "ev_run e = rid" using assms(2) by (auto simp: log_of_def)
  then obtain q where q: "find (\<lambda>q. ev_run q = rid \<and> ev_id q = ev_id e) (events db) = Some q"
    by (cases "find (\<lambda>q. ev_run q = rid \<and> ev_id q = ev_id e) (events db)") (auto simp: find_None_iff_set)
  have "q = e"
    using find_SomeD [OF q] e assms(1) unique_by_inj [of ev_id "events db"] by (auto simp: run_ok_def)
  with q show ?thesis by (simp add: sequence_for_event_def)
qed

text \<open>
  Replay resumes where the reader stopped: whether the reader names the last event it saw by its
  identifier or by its number, it gets exactly the events of the run that follow it, in order. An
  identifier is never mistaken for a number.
\<close>

theorem replay_resumes:
  assumes "(run_step H)\<^sup>*\<^sup>* empty_run_db db" and "find_run rid db = Some r"
    and "e \<in> set (log_of db rid)" and "last_seen \<in> {ev_id e, dec_int (ev_seq e)}"
  shows "replay rid (rn_tenant r) (Some last_seen) db = Inr (drop (nat (ev_seq e)) (log_of db rid))
    \<and> 1 \<le> ev_seq e \<and> log_of db rid ! (nat (ev_seq e) - 1) = e"
proof -
  note ok = run_reachable_ok [OF assms(1)]
  have m: "map ev_seq (log_of db rid) = [1..rn_seq r]" using contiguous_numbers ok(2) assms(2) by blast
  obtain i where i: "i < length (log_of db rid)" "log_of db rid ! i = e" using assms(3) by (auto simp: in_set_conv_nth)
  then have "ev_seq e = [1..rn_seq r] ! i" by (metis m nth_map)
  then have n: "ev_seq e = 1 + int i" using i(1) arg_cong [OF m, of length] by (simp add: nth_upto)
  obtain u where u: "ev_id e = event_name u" using ok(1) assms(3) by (auto simp: run_ok_def log_of_def)
  have "dec_int k \<noteq> []" for k by (simp add: dec_int_def dec_nat_nonempty)
  then have "replay_after rid (Some last_seen) db = ev_seq e"
    using assms(4) sequence_of_event [OF ok(1) assms(3)]
    by (auto simp: replay_after_def truthy_def parse_dec_int u event_name_not_number) (simp add: event_name_def)
  moreover have "nat (ev_seq e) - 1 = i" using n by simp
  ultimately show ?thesis
    using list_events_page [OF ok(2) assms(2), of "ev_seq e"] n i by (simp add: replay_def)
qed

theorem replay_resumes_witness:
  "\<exists>db. (run_step (\<lambda>_. ''h''))\<^sup>*\<^sup>* empty_run_db db \<and> log_of db ''run-1'' \<noteq> []
     \<and> replay ''run-1'' ''t'' (Some (ev_id (log_of db ''run-1'' ! 0))) db = Inr (drop 1 (log_of db ''run-1''))"
proof -
  obtain d3 where d: "(run_step (\<lambda>_. ''h''))\<^sup>*\<^sup>* empty_run_db d3"
    "find_run ''run-1'' d3 \<noteq> None \<and> rn_seq (the (find_run ''run-1'' d3)) = 3
       \<and> rn_tenant (the (find_run ''run-1'' d3)) = ''t''"
    by (rule demo_finished) blast
  then obtain r where r: "find_run ''run-1'' d3 = Some r" "rn_seq r = 3" "rn_tenant r = ''t''" by auto
  have m: "map ev_seq (log_of d3 ''run-1'') = [1..3]"
    using contiguous_numbers [OF run_reachable_ok(2) [OF d(1)] r(1)] r(2) by simp
  then obtain e es where l: "log_of d3 ''run-1'' = e # es" "ev_seq e = 1" by (auto simp: upto.simps)
  from replay_resumes [OF d(1) r(1), of e "ev_id e"] d(1) l r(3) show ?thesis by auto
qed

lemma count_newlines_frame:
  assumes "no_newline (ev_id e)" and "no_newline (ev_name e)" and "\<forall>r. no_newline (fr r)"
  shows "length (filter (\<lambda>c. c = CHR 0x0A) (sse_frame fr e)) = 4"
proof -
  have z: "no_newline t \<Longrightarrow> filter (\<lambda>c. c = CHR 0x0A) t = []" for t
    by (auto simp: no_newline_def filter_empty_conv)
  have "no_newline (data_json fr e)" using assms(3) json_text_no_newline(1) unfolding data_json_def by blast
  then show ?thesis using assms(1,2) by (simp add: sse_frame_def z)
qed

text \<open>
  The event stream is framed by the server only: each event occupies exactly four line ends
  (three fields and the blank line), whatever text, including line feeds, the model or the user put into its
  payload, so no payload can forge an event.
\<close>

theorem sse_is_framed:
  assumes "sse fr rid t seen db = Inr out" and "replay rid t seen db = Inr es"
    and "\<forall>e\<in>set es. no_newline (ev_id e) \<and> no_newline (ev_name e)" and "\<forall>r. no_newline (fr r)"
  shows "length (filter (\<lambda>c. c = CHR 0x0A) out) = 4 * length es"
proof -
  have "length (filter (\<lambda>c. c = CHR 0x0A) (concat (map (sse_frame fr) es))) = 4 * length es"
    using assms(3)
  proof (induction es)
    case (Cons e es)
    then show ?case using count_newlines_frame [of e fr] assms(4) by simp
  qed simp
  with assms(1,2) show ?thesis by (simp add: sse_def)
qed

theorem sse_is_framed_witness:
  "case create_run_row (\<lambda>_. ''h'') ''run-1'' demo_request ''a'' ''w'' empty_run_db of
     Inl e \<Rightarrow> False
   | Inr (x, db) \<Rightarrow> \<exists>out. sse (\<lambda>_. []) ''run-1'' ''t'' None db = Inr out \<and> length (filter (\<lambda>c. c = CHR 0x0A) out) = 4"
proof -
  have "case create_run_row (\<lambda>_. ''h'') ''run-1'' demo_request ''a'' ''w'' empty_run_db of
      Inl e \<Rightarrow> False | Inr (x, db) \<Rightarrow> (case replay ''run-1'' ''t'' None db of Inl e \<Rightarrow> False | Inr es \<Rightarrow>
        length es = 1 \<and> list_all (\<lambda>e. list_all (\<lambda>c. c \<noteq> CHR 0x0A) (ev_id e) \<and> list_all (\<lambda>c. c \<noteq> CHR 0x0A) (ev_name e)) es)"
    by code_simp
  then obtain x db es where c: "create_run_row (\<lambda>_. ''h'') ''run-1'' demo_request ''a'' ''w'' empty_run_db = Inr (x, db)"
    and es: "replay ''run-1'' ''t'' None db = Inr es" "length es = 1"
      "list_all (\<lambda>e. list_all (\<lambda>c. c \<noteq> CHR 0x0A) (ev_id e) \<and> list_all (\<lambda>c. c \<noteq> CHR 0x0A) (ev_name e)) es"
    by (blast elim: run_obtain value_obtain)
  have names: "\<forall>e\<in>set es. no_newline (ev_id e) \<and> no_newline (ev_name e)"
    using es(3) by (auto simp: no_newline_def list_all_iff)
  obtain out where out: "sse (\<lambda>_. []) ''run-1'' ''t'' None db = Inr out" using es(1) by (simp add: sse_def)
  have "\<forall>r::rat. no_newline []" by (simp add: no_newline_def)
  from sse_is_framed [OF out es(1) names this] es(2) c out show ?thesis by simp
qed

end
