(* ===== verification/Agent_Worker.thy ===== *)
theory Agent_Worker
  imports Run_Service
begin

text \<open>
  \<open>BoundedWorker\<close> (\<open>services/agent_worker/runtime.py\<close>) and the event handler of
  \<open>workflow.py\<close>. The model, the hooks, the tracer and the clock are injected: functions that
  may raise and may change the outside world.
\<close>

section \<open>The worker\<close>

record model_result =
  mr_output :: string
  mr_usage :: int
  mr_done :: bool
  mr_approval :: "string option"

text \<open>\<open>ModelResult.__post_init__\<close>\<close>

definition make_model_result :: "model_result \<Rightarrow> exn + model_result" where
  "make_model_result m = (if mr_usage m < 0 then Inl (ValueError ''usage_units must be a non-negative integer'') else Inr m)"

record 'm tracer =
  tr_start :: "string \<Rightarrow> dict \<Rightarrow> 'm \<Rightarrow> (exn + unit) \<times> 'm"
  tr_attribute :: "string \<Rightarrow> int \<Rightarrow> 'm \<Rightarrow> (exn + unit) \<times> 'm"

text \<open>
  \<open>wk_str\<close> is \<open>str\<close> on JSON values other than strings; \<open>wk_clock\<close> reads the
  monotonic clock.
\<close>

record ('c, 'm) worker =
  wk_credits :: "'c credit_port"
  wk_model :: "string \<Rightarrow> string \<Rightarrow> rat \<Rightarrow> 'm \<Rightarrow> (exn + model_result) \<times> 'm"
  wk_after_model :: "(string \<Rightarrow> int \<Rightarrow> model_result \<Rightarrow> 'm \<Rightarrow> (exn + unit) \<times> 'm) option"
  wk_after_commit :: "(string \<Rightarrow> int \<Rightarrow> 'm \<Rightarrow> (exn + unit) \<times> 'm) option"
  wk_tracer :: "'m tracer option"
  wk_clock :: "'m \<Rightarrow> rat \<times> 'm"
  wk_str :: "json \<Rightarrow> string"

definition text_of :: "(json \<Rightarrow> string) \<Rightarrow> json \<Rightarrow> string" where
  "text_of str v = (case v of JStr t \<Rightarrow> t | _ \<Rightarrow> str v)"

definition prompt_of :: "(json \<Rightarrow> string) \<Rightarrow> run \<Rightarrow> string" where
  "prompt_of str run = text_of str (case map_of (rn_input run) ''message'' of
     Some m \<Rightarrow> m
   | None \<Rightarrow> (case map_of (rn_input run) ''prompt'' of Some p \<Rightarrow> p | None \<Rightarrow> JStr []))"

definition commit_key :: "string \<Rightarrow> string" where
  "commit_key rid = ''run-commit:'' @ rid"

definition read_clock :: "('c, 'm) worker \<Rightarrow> ('c, 'q, 'm) world \<Rightarrow> rat \<times> ('c, 'q, 'm) world" where
  "read_clock wk s = (let (t, m) = wk_clock wk (w_outside s) in (t, s\<lparr>w_outside := m\<rparr>))"

text \<open>\<open>_settle_or_release\<close>: charge what was used if the reservation covers it, else give it back.\<close>

definition settle_or_release :: "'c credit_port \<Rightarrow> string \<Rightarrow> int \<Rightarrow> string \<Rightarrow> string \<Rightarrow> string \<Rightarrow>
    'c \<Rightarrow> exn + (unit \<times> 'c)" where
  "settle_or_release P k used rid u w d =
     (let give_back = (case p_release P k (release_key rid) w d of Inl e \<Rightarrow> Inl e | Inr (c, d') \<Rightarrow> Inr ((), d'))
      in if used \<noteq> 0
         then case p_commit P k used (commit_key rid) u w d of
                Inr (c, d') \<Rightarrow> Inr ((), d')
              | Inl e \<Rightarrow> if is_value_error e then give_back else Inl e
         else give_back)"

text \<open>\<open>self._credits.commit(...)\<close>\<close>

definition charge :: "'c credit_port \<Rightarrow> string \<Rightarrow> int \<Rightarrow> string \<Rightarrow> string \<Rightarrow> string \<Rightarrow> 'c \<Rightarrow> exn + (unit \<times> 'c)" where
  "charge P k used rid u w d =
     (case p_commit P k used (commit_key rid) u w d of Inl e \<Rightarrow> Inl e | Inr (c, d') \<Rightarrow> Inr ((), d'))"

section \<open>One turn of the loop\<close>

datatype turn = Stop run | Go int "checkpoint option"

definition inflight_key :: "string \<Rightarrow> int \<Rightarrow> checkpoint option \<Rightarrow> string" where
  "inflight_key rid n cp = (case cp of
     Some c \<Rightarrow> if cp_step c = n \<and> truthy (cp_inflight c) then the (cp_inflight c) else rid @ '':model:'' @ dec_int n
   | None \<Rightarrow> rid @ '':model:'' @ dec_int n)"

text \<open>The call itself, inside a span when a tracer is configured.\<close>

definition call_model :: "('c, 'm) worker \<Rightarrow> run \<Rightarrow> int \<Rightarrow> string \<Rightarrow> rat \<Rightarrow> ('c, 'q, 'm) world \<Rightarrow>
    (exn + model_result) \<times> ('c, 'q, 'm) world" where
  "call_model wk run n key deadline s =
     (let ask = (\<lambda>s. let (t, s') = read_clock wk s
                    in on_flow (wk_model wk (prompt_of (wk_str wk) run) key (max (1 / 100) (deadline - t))) s')
      in case wk_tracer wk of
           None \<Rightarrow> ask s
         | Some tr \<Rightarrow>
             and_then (on_flow (tr_start tr ''agent.model_call'' [(''run_id'', JStr (rn_id run)),
                 (''tenant_id'', JStr (rn_tenant run)), (''trace_id'', JStr (rn_trace run)), (''step'', JInt n)]) s)
               (\<lambda>_ s1. and_then (ask s1)
               (\<lambda>res s2. and_then (on_flow (tr_attribute tr ''usage_units'' (mr_usage res)) s2)
               (\<lambda>_ s3. (Inr res, s3)))))"

definition hook :: "('m \<Rightarrow> (exn + unit) \<times> 'm) option \<Rightarrow> ('c, 'q, 'm) world \<Rightarrow> (exn + unit) \<times> ('c, 'q, 'm) world" where
  "hook h s = (case h of None \<Rightarrow> (Inr (), s) | Some f \<Rightarrow> on_flow f s)"

text \<open>Numbers of the fresh values of turn \<open>c\<close>.\<close>

definition slot :: "nat \<Rightarrow> nat \<Rightarrow> nat" where
  "slot c i = 10 + 6 * c + i"

text \<open>After a final answer: charge, or fail when the reservation is too small.\<close>

definition finish_done :: "('c, 'm) worker \<Rightarrow> fresh_values \<Rightarrow> string \<Rightarrow> string \<Rightarrow> int \<Rightarrow> nat \<Rightarrow>
    ('c, 'q, 'm) world \<Rightarrow> (exn + turn) \<times> ('c, 'q, 'm) world" where
  "finish_done wk v rid k used c s =
     (case on_credits (charge (wk_credits wk) k used rid (nonce v (slot c 1)) (stamp v (slot c 1))) s of
        (Inl e, s1) \<Rightarrow>
          (if is_value_error e
           then and_then (on_credits (settle_or_release (wk_credits wk) k 0 rid (nonce v (slot c 2)) (stamp v (slot c 2))) s1)
             (\<lambda>_ s2. and_then (on_runs (fail rid ''actual usage exceeded reservation'' (nonce v (slot c 3)) (stamp v (slot c 3))) s2)
             (\<lambda>run s3. (Inr (Stop run), s3)))
           else (Inl e, s1))
      | (Inr _, s1) \<Rightarrow>
          and_then (hook (map_option (\<lambda>f. f rid used) (wk_after_commit wk)) s1)
            (\<lambda>_ s2. and_then (on_runs (complete rid used (nonce v (slot c 3)) (stamp v (slot c 3))) s2)
            (\<lambda>run s3. (Inr (Stop run), s3))))"

text \<open>From the model's answer to the end of the loop body.\<close>

definition record_answer :: "('c, 'm) worker \<Rightarrow> fresh_values \<Rightarrow> string \<Rightarrow> string \<Rightarrow> int \<Rightarrow> int \<Rightarrow> nat \<Rightarrow> model_result \<Rightarrow>
    ('c, 'q, 'm) world \<Rightarrow> (exn + turn) \<times> ('c, 'q, 'm) world" where
  "record_answer wk v rid k n used c res s =
     and_then (hook (map_option (\<lambda>f. f rid n res) (wk_after_model wk)) s)
       (\<lambda>_ s1. and_then (on_runs (save_checkpoint rid (n + 1) [(''step'', JInt (n + 1)),
             (''last_output'', JStr (mr_output res)), (''done'', JBool (mr_done res)), (''token_emitted'', JBool False)]
             None (mr_approval res) (used + mr_usage res)) s1)
       (\<lambda>_ s2. if truthy (mr_approval res)
          then and_then (on_runs (append_token rid ''[approval required]'' (nonce v (slot c 0)) (stamp v (slot c 0))) s2)
            (\<lambda>_ s3. and_then (on_runs (transition rid Waiting_Approval [(''approval_id'', JStr (the (mr_approval res)))]
                (nonce v (slot c 3)) (stamp v (slot c 3))) s3)
            (\<lambda>run s4. (Inr (Stop run), s4)))
          else and_then (on_runs (append_token rid (mr_output res) (nonce v (slot c 0)) (stamp v (slot c 0))) s2)
            (\<lambda>_ s3. if mr_done res then finish_done wk v rid k (used + mr_usage res) c s3
               else (Inr (Go (used + mr_usage res) (find_checkpoint rid (w_runs s3))), s3))))"

definition worker_turn :: "('c, 'm) worker \<Rightarrow> fresh_values \<Rightarrow> run \<Rightarrow> string \<Rightarrow> string \<Rightarrow> rat \<Rightarrow> int \<Rightarrow> int \<Rightarrow> nat \<Rightarrow>
    checkpoint option \<Rightarrow> ('c, 'q, 'm) world \<Rightarrow> (exn + turn) \<times> ('c, 'q, 'm) world" where
  "worker_turn wk v run rid k deadline n used c cp s =
     and_then (get_fresh rid s) (\<lambda>current s.
       if rn_cancel current
       then and_then (on_credits (settle_or_release (wk_credits wk) k used rid (nonce v (slot c 4)) (stamp v (slot c 4))) s)
         (\<lambda>_ s1. and_then (on_runs (transition rid Cancelled [(''reason'', JStr ''user_cancelled'')]
              (nonce v (slot c 5)) (stamp v (slot c 5))) s1) (\<lambda>r s2. (Inr (Stop r), s2)))
       else (let (t, s0) = read_clock wk s in
         if deadline \<le> t
         then and_then (on_credits (settle_or_release (wk_credits wk) k used rid (nonce v (slot c 4)) (stamp v (slot c 4))) s0)
           (\<lambda>_ s1. and_then (on_runs (fail rid ''workflow timeout'' (nonce v (slot c 5)) (stamp v (slot c 5))) s1)
              (\<lambda>r s2. (Inr (Stop r), s2)))
         else let key = inflight_key rid n cp in
           and_then (on_runs (save_checkpoint rid n [(''step'', JInt n)] (Some key) None used) s0)
             (\<lambda>_ s1. and_then (call_model wk run n key deadline s1)
             (\<lambda>res s2. record_answer wk v rid k n used c res s2))))"

section \<open>The loop and the entry point\<close>

text \<open>\<open>while step < run.max_steps and model_calls < run.max_model_calls\<close>; \<open>c\<close> counts the calls.\<close>

function worker_loop :: "('c, 'm) worker \<Rightarrow> fresh_values \<Rightarrow> run \<Rightarrow> string \<Rightarrow> string \<Rightarrow> rat \<Rightarrow> int \<Rightarrow> int \<Rightarrow> nat \<Rightarrow>
    checkpoint option \<Rightarrow> ('c, 'q, 'm) world \<Rightarrow> (exn + run) \<times> ('c, 'q, 'm) world" where
  "worker_loop wk v run rid k deadline n used c cp s =
     (if n < rn_max_steps run \<and> int c < rn_max_calls run
      then case worker_turn wk v run rid k deadline n used c cp s of
             (Inl e, s') \<Rightarrow> (Inl e, s')
           | (Inr (Stop r), s') \<Rightarrow> (Inr r, s')
           | (Inr (Go used' cp'), s') \<Rightarrow> worker_loop wk v run rid k deadline (n + 1) used' (c + 1) cp' s'
      else and_then (on_credits (settle_or_release (wk_credits wk) k used rid (nonce v 5) (stamp v 5)) s)
        (\<lambda>_ s1. on_runs (fail rid ''workflow step or model-call limit exceeded'' (nonce v 6) (stamp v 6)) s1))"
  by pat_completeness auto

termination
  by (relation "measure (\<lambda>(wk, v, run, rid, k, deadline, n, used, c, cp, s). nat (rn_max_steps run - n))") auto

declare worker_loop.simps [simp del]

definition is_done :: "checkpoint \<Rightarrow> bool" where
  "is_done c \<longleftrightarrow> map_of (cp_state c) ''done'' = Some (JBool True)"

definition token_emitted :: "checkpoint \<Rightarrow> bool" where
  "token_emitted c \<longleftrightarrow> map_of (cp_state c) ''token_emitted'' = Some (JBool True)"

text \<open>A retry whose checkpoint says the work is done: emit the token if it was not, charge, complete.\<close>

definition finish_checkpoint :: "('c, 'm) worker \<Rightarrow> fresh_values \<Rightarrow> string \<Rightarrow> string \<Rightarrow> checkpoint \<Rightarrow>
    ('c, 'q, 'm) world \<Rightarrow> (exn + run) \<times> ('c, 'q, 'm) world" where
  "finish_checkpoint wk v rid k cp s =
     and_then (if token_emitted cp then (Inr (), s)
        else and_then (on_runs (append_token rid (text_of (wk_str wk)
             (case map_of (cp_state cp) ''last_output'' of Some x \<Rightarrow> x | None \<Rightarrow> JStr [])) (nonce v 2) (stamp v 2)) s)
           (\<lambda>_ s1. (Inr (), s1)))
       (\<lambda>_ s1. and_then (on_credits (charge (wk_credits wk) k (cp_usage cp) rid (nonce v 3) (stamp v 3)) s1)
       (\<lambda>_ s2. on_runs (complete rid (cp_usage cp) (nonce v 4) (stamp v 4)) s2))"

definition execute :: "('c, 'm) worker \<Rightarrow> fresh_values \<Rightarrow> string \<Rightarrow> ('c, 'q, 'm) world \<Rightarrow>
    (exn + run) \<times> ('c, 'q, 'm) world" where
  "execute wk v rid s =
     and_then (on_runs (claim rid (nonce v 0) (stamp v 0)) s) (\<lambda>run s1.
       if rn_state run \<in> {Completed, Failed, Cancelled, Waiting_Approval, Quota_Paused} then (Inr run, s1)
       else if \<not> truthy (rn_reservation run)
       then on_runs (fail rid ''missing credit reservation'' (nonce v 1) (stamp v 1)) s1
       else let k = the (rn_reservation run); cp = find_checkpoint rid (w_runs s1);
                n = (case cp of Some c \<Rightarrow> cp_step c | None \<Rightarrow> 0);
                used = (case cp of Some c \<Rightarrow> cp_usage c | None \<Rightarrow> 0)
            in if cp \<noteq> None \<and> is_done (the cp) then finish_checkpoint wk v rid k (the cp) s1
               else let (t, s2) = read_clock wk s1
                    in worker_loop wk v run rid k (t + rn_max_runtime run) n used 0 cp s2)"

section \<open>The event handler\<close>

definition make_handler :: "rat \<Rightarrow> exn + rat" where
  "make_handler runtime = (if \<not> (0 < runtime \<and> runtime \<le> 900)
     then Inl (ValueError ''workflow runtime must be between 0 and 900 seconds'') else Inr runtime)"

definition handle_event :: "('c, 'm) worker \<Rightarrow> fresh_values \<Rightarrow> dict \<Rightarrow> ('c, 'q, 'm) world \<Rightarrow>
    (exn + run) \<times> ('c, 'q, 'm) world" where
  "handle_event wk v event s =
     (if map_of event ''name'' \<noteq> Some (JStr ''run.requested'') then (Inl (ValueError ''unsupported workflow event''), s)
      else case map_of event ''data'' of
             Some (JObj data) \<Rightarrow>
               (case map_of data ''run_id'' of
                  Some (JStr rid) \<Rightarrow> execute wk v rid s
                | _ \<Rightarrow> (Inl (ValueError ''run.requested must carry a run_id''), s))
           | _ \<Rightarrow> (Inl (ValueError ''run.requested must carry a run_id''), s))"

section \<open>The state a store call returns\<close>

lemma record_change_state:
  assumes "record_change u w r name data f db = Inr (x, db')" and "find_run (rn_id r) db = Some r"
    and "\<And>q. rn_id (f q) = rn_id q"
  shows "rn_state x = rn_state (f r)"
  using record_change_InrD [OF assms] by auto

lemma transition_state:
  assumes "transition rid st p u w db = Inr (x, db')"
  shows "rn_state x = st"
proof -
  obtain r where r: "find_run rid db = Some r" "rn_id r = rid"
    using assms by (auto simp: transition_def row_locked_Inr dest: find_run_Some split: sum.splits)
  with assms have "record_change u w r ''run.state_changed'' (change_payload st r p)
      (\<lambda>q. q\<lparr>rn_state := st, rn_seq := rn_seq r + 1, rw_updated_at := w\<rparr>) db = Inr (x, db')"
    by (auto simp: transition_def row_locked_def split: if_splits)
  from record_change_state [OF this] r show ?thesis by simp
qed

lemma fail_state: "fail rid why u w db = Inr (x, db') \<Longrightarrow> rn_state x = Failed"
  unfolding fail_def by (rule transition_state)

lemma complete_state:
  assumes "complete rid n u w db = Inr (x, db')"
  shows "rn_state x = Completed"
proof -
  obtain r where r: "find_run rid db = Some r" "rn_id r = rid"
    using assms by (auto simp: complete_def row_locked_Inr dest: find_run_Some split: sum.splits)
  with assms have "record_change u w r ''run.completed'' [(''usage_units'', JInt n), (''trace_id'', JStr (rn_trace r))]
      (\<lambda>q. q\<lparr>rn_state := Completed, rn_seq := rn_seq r + 1, rn_result := [(''usage_units'', JInt n)], rw_updated_at := w\<rparr>) db
      = Inr (x, db')"
    by (auto simp: complete_def row_locked_def split: if_splits)
  from record_change_state [OF this] r show ?thesis by simp
qed

lemma claim_row:
  assumes "claim rid u w db = Inr (x, db')" and "find_run rid db = Some r" and "rn_state r \<in> {Queued, Running}"
  shows "\<exists>r'. find_run rid db' = Some r' \<and> x = to_run r' \<and> rn_state r' = Running
    \<and> rn_reservation r' = rn_reservation r \<and> rn_max_steps r' = rn_max_steps r \<and> rn_max_calls r' = rn_max_calls r
    \<and> checkpoints db' = checkpoints db"
proof (cases "rn_state r = Queued")
  case True
  let ?f = "\<lambda>r. r\<lparr>rn_state := Running, rn_attempt := rn_attempt r + 1, rn_seq := rn_seq r + 1, rw_updated_at := w\<rparr>"
  have r: "rn_id r = rid" using assms(2) find_run_Some by blast
  with True assms have "record_change u w r ''run.state_changed''
      [(''state'', JStr ''running''), (''trace_id'', JStr (rn_trace r)), (''worker_attempt'', JInt (rn_attempt r + 1))] ?f db
      = Inr (x, db')"
    by (simp add: claim_def row_locked_def)
  from record_change_InrD [OF this] assms(2) r obtain e where
    db': "db' = update_run rid ?f (db\<lparr>events := events db @ [e]\<rparr>)" "x = to_run (?f r)" by auto
  have "find_run rid (db\<lparr>events := events db @ [e]\<rparr>) = Some r" using assms(2) by simp
  then have "find_run rid db' = Some (?f r)" unfolding db' by (subst find_run_update) simp_all
  with db' show ?thesis by (intro exI [of _ "?f r"]) simp
next
  case False
  let ?f = "\<lambda>r. r\<lparr>rn_state := Running, rn_attempt := rn_attempt r + 1, rw_updated_at := w\<rparr>"
  have "find_run rid (update_run rid ?f db) = Some (?f r)" by (subst find_run_update [OF assms(2)]) simp_all
  with assms False show ?thesis
    by (intro exI [of _ "?f r"]) (auto simp: claim_def row_locked_def Let_def)
qed

lemma to_run_limits [simp]:
  "rn_max_steps (to_run r) = rn_max_steps r" "rn_max_calls (to_run r) = rn_max_calls r"
  by (simp_all add: to_run_def run.defs)

section \<open>What the worker leaves in the ledger\<close>

text \<open>
  \<open>concluded\<close>: unless the run waits for an approval its reservation is charged or given back,
  and a completed run is charged.
\<close>

definition concluded :: "('d \<Rightarrow> string \<Rightarrow> reservation_status option) \<Rightarrow> string \<Rightarrow> run \<Rightarrow> 'd \<Rightarrow> bool" where
  "concluded st k y d \<longleftrightarrow> (rn_state y \<noteq> Waiting_Approval \<longrightarrow> st d k \<in> {Some Committed, Some Released})
     \<and> (rn_state y = Completed \<longrightarrow> st d k = Some Committed)"

context credit_port_laws
begin

lemma settle_frees:
  assumes "inv d" and "settle_or_release P k used rid u w d = Inr (x, d')"
  shows "inv d' \<and> status d' k \<in> {Some Committed, Some Released}"
proof -
  have rel: "inv e \<and> status e k \<in> {Some Committed, Some Released}"
    if "p_release P k (release_key rid) w d = Inr (c, e)" for c e
    using release_inv [OF assms(1) that] release_status [OF assms(1) that] by simp
  have com: "inv e \<and> status e k \<in> {Some Committed, Some Released}"
    if "p_commit P k used (commit_key rid) u w d = Inr (c, e)" for c e
    using commit_inv [OF assms(1) that] commit_status [OF assms(1) that] by simp
  from assms(2) show ?thesis
    by (auto simp: settle_or_release_def Let_def split: if_splits sum.splits dest: rel com)
qed

lemma charge_commits:
  assumes "inv d" and "charge P k used rid u w d = Inr (x, d')"
  shows "inv d' \<and> status d' k = Some Committed"
  using assms commit_inv commit_status by (fastforce simp: charge_def split: sum.splits)

text \<open>Settling cannot be refused: the ledger knows the reservation and the entry id is new.\<close>

lemma settle_total:
  assumes "inv d" and "status d k \<noteq> None" and "fresh d u"
  shows "\<exists>d'. settle_or_release P k used rid u w d = Inr ((), d')"
  using release_total [OF assms(1,2), of "release_key rid" w] commit_errors [OF assms]
  by (fastforce simp: settle_or_release_def Let_def split: sum.splits)

abbreviation lawful :: "exn \<Rightarrow> ('d, 'q, 'w) world \<Rightarrow> bool" where
  "lawful e s \<equiv> inv (w_credits s)"

definition turn_ok :: "string \<Rightarrow> turn \<Rightarrow> ('d, 'q, 'w) world \<Rightarrow> bool" where
  "turn_ok k t s \<longleftrightarrow> inv (w_credits s) \<and> (case t of Stop y \<Rightarrow> concluded status k y (w_credits s) | Go _ _ \<Rightarrow> True)"

lemma yields_settle:
  assumes "inv (w_credits s)"
    and "\<And>d. inv d \<Longrightarrow> status d k \<in> {Some Committed, Some Released} \<Longrightarrow> Q () (s\<lparr>w_credits := d\<rparr>)"
    and "X = P"
  shows "yields lawful Q (on_credits (settle_or_release X k used rid u w) s)"
  using assms settle_frees [OF assms(1)] by (auto simp: wp split: sum.splits)

lemma yields_change:
  assumes "\<And>x db. body (w_runs s) = Inr (x, db) \<Longrightarrow> Q x (s\<lparr>w_runs := db\<rparr>)" and "inv (w_credits s)"
  shows "yields lawful Q (on_runs body s)"
  using assms by (auto simp: wp split: sum.splits)

lemma yields_outside:
  assumes "\<And>x w. Q x (s\<lparr>w_outside := w\<rparr>)" and "inv (w_credits s)"
  shows "yields lawful Q (on_flow body s)"
  using assms by (auto simp: wp split: sum.splits prod.splits)

lemma yields_hook:
  assumes "\<And>w. Q () (s\<lparr>w_outside := w\<rparr>)" and "inv (w_credits s)"
  shows "yields lawful Q (hook h s)"
proof (cases h)
  case None
  have "s\<lparr>w_outside := w_outside s\<rparr> = s" by simp
  with None assms(1) [of "w_outside s"] show ?thesis by (simp add: hook_def)
next
  case (Some f)
  with assms show ?thesis by (simp add: hook_def yields_outside)
qed

lemma finish_done_ok:
  assumes P: "wk_credits wk = P" and "inv (w_credits s)"
  shows "yields lawful (turn_ok k) (finish_done wk v rid k used c s)"
proof (cases "charge P k used rid (nonce v (slot c 1)) (stamp v (slot c 1)) (w_credits s)")
  case (Inl e)
  then have "on_credits (charge P k used rid (nonce v (slot c 1)) (stamp v (slot c 1))) s = (Inl e, s)"
    by (rule on_credits_Inl)
  then show ?thesis
    using assms by (auto simp: finish_done_def yields_and_then turn_ok_def concluded_def dest: fail_state
        intro!: yields_settle yields_change simp del: One_nat_def)
next
  case (Inr ud)
  obtain d where d: "charge P k used rid (nonce v (slot c 1)) (stamp v (slot c 1)) (w_credits s) = Inr ((), d)"
    using Inr by (cases ud) auto
  then have "on_credits (charge P k used rid (nonce v (slot c 1)) (stamp v (slot c 1))) s = (Inr (), s\<lparr>w_credits := d\<rparr>)"
    by (rule on_credits_Inr)
  then show ?thesis
    using assms charge_commits [OF assms(2) d]
    by (auto simp: finish_done_def yields_and_then turn_ok_def concluded_def dest: complete_state
        intro!: yields_hook yields_change)
qed

lemma record_answer_ok:
  assumes "wk_credits wk = P" and "inv (w_credits s)"
  shows "yields lawful (turn_ok k) (record_answer wk v rid k n used c res s)"
  using assms
  by (auto simp: record_answer_def yields_and_then turn_ok_def [of k "Stop y" for y] concluded_def dest: transition_state
      intro!: yields_hook yields_change finish_done_ok)
     (auto simp: turn_ok_def)

lemma call_model_ok:
  assumes "inv (w_credits s)" and "\<And>x w. Q x (s\<lparr>w_outside := w\<rparr>)"
  shows "yields lawful Q (call_model wk run n key deadline s)"
  using assms
  by (auto simp: call_model_def Let_def yields_and_then read_clock_def split: option.splits prod.splits
      intro!: yields_outside)

lemma worker_turn_ok:
  assumes "wk_credits wk = P" and "inv (w_credits s)"
  shows "yields lawful (turn_ok k) (worker_turn wk v run rid k deadline n used c cp s)"
proof (cases "get_run rid None (w_runs s)")
  case (Inl e)
  with assms show ?thesis by (simp add: worker_turn_def get_fresh_def)
next
  case (Inr current)
  then show ?thesis
    using assms
    by (auto simp: worker_turn_def get_fresh_def Let_def read_clock_def yields_and_then turn_ok_def [of k "Stop y" for y]
        concluded_def split: prod.splits dest: transition_state fail_state
        intro!: yields_settle yields_change call_model_ok record_answer_ok)
qed

lemma worker_loop_ok:
  assumes "wk_credits wk = P" and "inv (w_credits s)"
  shows "yields lawful (\<lambda>y s. inv (w_credits s) \<and> concluded status k y (w_credits s))
    (worker_loop wk v run rid k deadline n used c cp s)"
  using assms
proof (induction wk v run rid k deadline n used c cp s rule: worker_loop.induct)
  case (1 wk v run rid k deadline n used c cp s)
  show ?case
  proof (cases "n < rn_max_steps run \<and> int c < rn_max_calls run")
    case False
    then show ?thesis
      using "1.prems"
      by (auto simp: worker_loop.simps [of wk v run rid k deadline n used c cp s] yields_and_then concluded_def
          dest: fail_state intro!: yields_settle yields_change)
  next
    case True
    note ok = worker_turn_ok [OF "1.prems", of k v run rid deadline n used c cp]
    obtain t s' where t: "worker_turn wk v run rid k deadline n used c cp s = (t, s')" by fastforce
    show ?thesis
    proof (cases t)
      case (Inl e)
      with True t ok show ?thesis
        by (simp add: worker_loop.simps [of wk v run rid k deadline n used c cp s])
    next
      case (Inr tn)
      show ?thesis
      proof (cases tn)
        case (Stop y)
        with True t Inr ok show ?thesis
          by (simp add: worker_loop.simps [of wk v run rid k deadline n used c cp s] turn_ok_def)
      next
        case (Go used' cp')
        with t Inr ok have "inv (w_credits s')" by (simp add: turn_ok_def)
        with 1(1) [OF True] t Inr Go True "1.prems"(1) show ?thesis
          by (simp add: worker_loop.simps [of wk v run rid k deadline n used c cp s])
      qed
    qed
  qed
qed

lemma finish_checkpoint_ok:
  assumes "wk_credits wk = P" and "inv (w_credits s)"
  shows "yields lawful (\<lambda>y s. inv (w_credits s) \<and> concluded status k y (w_credits s)) (finish_checkpoint wk v rid k cp s)"
proof -
  have ch: "yields lawful (\<lambda>_ s. inv (w_credits s) \<and> status (w_credits s) k = Some Committed)
      (on_credits (charge (wk_credits wk) k (cp_usage cp) rid (nonce v 3) (stamp v 3)) t)" if "inv (w_credits t)" for t
    using that assms(1) charge_commits [OF that] by (auto simp: wp split: sum.splits)
  show ?thesis
    unfolding finish_checkpoint_def yields_and_then
    using assms
    by (auto simp: yields_and_then concluded_def dest: complete_state intro!: yields_change yields_mono [OF ch])
qed

lemma execute_ok:
  assumes "wk_credits wk = P" and "inv (w_credits s)" and "find_run rid (w_runs s) = Some r"
    and "rn_state r \<in> {Queued, Running}" and "rn_reservation r = Some k" and "k \<noteq> []"
  shows "yields lawful (\<lambda>y s. inv (w_credits s) \<and> concluded status k y (w_credits s)) (execute wk v rid s)"
  unfolding execute_def yields_and_then
proof (rule yields_change)
  fix x db assume c: "claim rid (nonce v 0) (stamp v 0) (w_runs s) = Inr (x, db)"
  have x: "rn_state x = Running" "rn_reservation x = Some k" using claim_row [OF c assms(3,4)] assms(5) by auto
  then show "yields lawful (\<lambda>y s. inv (w_credits s) \<and> concluded status k y (w_credits s))
      (if rn_state x \<in> {Completed, Failed, Cancelled, Waiting_Approval, Quota_Paused} then (Inr x, s\<lparr>w_runs := db\<rparr>)
       else if \<not> truthy (rn_reservation x)
       then on_runs (fail rid ''missing credit reservation'' (nonce v 1) (stamp v 1)) (s\<lparr>w_runs := db\<rparr>)
       else let k = the (rn_reservation x); cp = find_checkpoint rid (w_runs (s\<lparr>w_runs := db\<rparr>));
                n = (case cp of Some c \<Rightarrow> cp_step c | None \<Rightarrow> 0);
                used = (case cp of Some c \<Rightarrow> cp_usage c | None \<Rightarrow> 0)
            in if cp \<noteq> None \<and> is_done (the cp) then finish_checkpoint wk v rid k (the cp) (s\<lparr>w_runs := db\<rparr>)
               else let (t, s2) = read_clock wk (s\<lparr>w_runs := db\<rparr>)
                    in worker_loop wk v x rid k (t + rn_max_runtime x) n used 0 cp s2)"
    using assms(1,2,6)
    by (auto simp: Let_def truthy_def read_clock_def split: prod.splits
        intro!: finish_checkpoint_ok worker_loop_ok)
qed (rule assms(2))

end

section \<open>How often the model is asked\<close>

text \<open>
  \<open>cnt\<close> reads a call counter in the outside world: the model moves it by at most one, the
  hooks, the tracer and the clock leave it alone.
\<close>

definition counts_calls :: "('c, 'm) worker \<Rightarrow> ('m \<Rightarrow> nat) \<Rightarrow> bool" where
  "counts_calls wk cnt \<longleftrightarrow> (\<forall>p k t m. cnt (snd (wk_model wk p k t m)) \<le> Suc (cnt m))
     \<and> (\<forall>m. cnt (snd (wk_clock wk m)) \<le> cnt m)
     \<and> (\<forall>f. wk_after_model wk = Some f \<longrightarrow> (\<forall>r n x m. cnt (snd (f r n x m)) \<le> cnt m))
     \<and> (\<forall>f. wk_after_commit wk = Some f \<longrightarrow> (\<forall>r n m. cnt (snd (f r n m)) \<le> cnt m))
     \<and> (\<forall>tr. wk_tracer wk = Some tr \<longrightarrow> (\<forall>x d m. cnt (snd (tr_start tr x d m)) \<le> cnt m)
          \<and> (\<forall>x n m. cnt (snd (tr_attribute tr x n m)) \<le> cnt m))"

lemma counts_callsD:
  assumes "counts_calls wk cnt"
  shows "cnt (snd (wk_model wk p k t m)) \<le> Suc (cnt m)" and "cnt (snd (wk_clock wk m)) \<le> cnt m"
  using assms by (simp_all add: counts_calls_def)

abbreviation calls_le :: "('m \<Rightarrow> nat) \<Rightarrow> nat \<Rightarrow> ('c, 'q, 'm) world \<Rightarrow> bool" where
  "calls_le cnt N s \<equiv> cnt (w_outside s) \<le> N"

lemma within_outside:
  assumes "cnt (snd (body (w_outside s))) \<le> M" and "\<And>x w. cnt w \<le> M \<Longrightarrow> Q x (s\<lparr>w_outside := w\<rparr>)" and "M \<le> N"
  shows "yields (\<lambda>_. calls_le cnt N) Q (on_flow body s)"
  using assms by (auto simp: wp split: sum.splits prod.splits)

lemma within_runs:
  assumes "\<And>x db. body (w_runs s) = Inr (x, db) \<Longrightarrow> Q x (s\<lparr>w_runs := db\<rparr>)" and "calls_le cnt N s"
  shows "yields (\<lambda>_. calls_le cnt N) Q (on_runs body s)"
  using assms by (auto simp: wp split: sum.splits)

lemma within_credits:
  assumes "\<And>x d. body (w_credits s) = Inr (x, d) \<Longrightarrow> Q x (s\<lparr>w_credits := d\<rparr>)" and "calls_le cnt N s"
  shows "yields (\<lambda>_. calls_le cnt N) Q (on_credits body s)"
  using assms by (auto simp: wp split: sum.splits)

lemma within_hook:
  assumes "\<And>f m. h = Some f \<Longrightarrow> cnt (snd (f m)) \<le> cnt m" and "calls_le cnt N s" and "\<And>w. cnt w \<le> N \<Longrightarrow> Q () (s\<lparr>w_outside := w\<rparr>)"
  shows "yields (\<lambda>_. calls_le cnt N) Q (hook h s)"
proof (cases h)
  case None
  have "s\<lparr>w_outside := w_outside s\<rparr> = s" by simp
  with None assms(2) assms(3) [of "w_outside s"] show ?thesis by (simp add: hook_def)
next
  case (Some f)
  have "yields (\<lambda>_. calls_le cnt N) Q (on_flow f s)"
    using assms(1) [OF Some, of "w_outside s"] assms(2,3) by (intro within_outside [of _ _ _ N]) auto
  with Some show ?thesis by (simp add: hook_def)
qed

lemmas within_rules = within_runs within_credits within_hook

lemma call_model_within:
  assumes c: "counts_calls wk cnt" and s: "calls_le cnt N s" and Q: "\<And>x w. cnt w \<le> Suc N \<Longrightarrow> Q x (s\<lparr>w_outside := w\<rparr>)"
  shows "yields (\<lambda>_. calls_le cnt (Suc N)) Q (call_model wk run n key deadline s)"
proof -
  have ask: "yields (\<lambda>_. calls_le cnt (Suc N)) Q' (let (t, s') = read_clock wk u
      in on_flow (wk_model wk (prompt_of (wk_str wk) run) key (max (1 / 100) (deadline - t))) s')"
    if u: "calls_le cnt N u" "\<And>x w. cnt w \<le> Suc N \<Longrightarrow> Q' x (u\<lparr>w_outside := w\<rparr>)" for Q' :: "model_result \<Rightarrow> _" and u
  proof -
    obtain t m where t: "wk_clock wk (w_outside u) = (t, m)" by fastforce
    have "cnt m \<le> N" using c u(1) t unfolding counts_calls_def by (metis order_trans snd_conv)
    moreover have "cnt (snd (wk_model wk (prompt_of (wk_str wk) run) key (max (1 / 100) (deadline - t)) m)) \<le> Suc (cnt m)"
      by (rule counts_callsD [OF c])
    ultimately have "yields (\<lambda>_. calls_le cnt (Suc N)) Q'
        (on_flow (wk_model wk (prompt_of (wk_str wk) run) key (max (1 / 100) (deadline - t))) (u\<lparr>w_outside := m\<rparr>))"
      using u(2) by (intro within_outside [of _ _ _ "Suc N"]) auto
    with t show ?thesis by (simp add: read_clock_def)
  qed
  show ?thesis
  proof (cases "wk_tracer wk")
    case None
    have "yields (\<lambda>_. calls_le cnt (Suc N)) Q (let (t, s') = read_clock wk s
      in on_flow (wk_model wk (prompt_of (wk_str wk) run) key (max (1 / 100) (deadline - t))) s')"
      by (intro ask s Q)
    with None show ?thesis by (simp add: call_model_def Let_def)
  next
    case (Some tr)
    have tr: "cnt (snd (tr_start tr x d m)) \<le> cnt m" "cnt (snd (tr_attribute tr x n m)) \<le> cnt m" for x d n m
      using c Some unfolding counts_calls_def by blast+
    have start: "cnt (snd (tr_start tr x d (w_outside s))) \<le> N" for x d using tr(1) s by (rule order_trans)
    have att: "cnt w \<le> Suc N \<Longrightarrow> cnt (snd (tr_attribute tr x n w)) \<le> Suc N" for x n w using tr(2) by (rule order_trans)
    let ?ask = "\<lambda>u. let (t, s') = read_clock wk u
      in on_flow (wk_model wk (prompt_of (wk_str wk) run) key (max (1 / 100) (deadline - t))) s'"
    have "yields (\<lambda>_. calls_le cnt (Suc N)) Q (and_then (?ask u) (\<lambda>res s2.
        and_then (on_flow (tr_attribute tr ''usage_units'' (mr_usage res)) s2) (\<lambda>_ s3. (Inr res, s3))))"
      if "u = s\<lparr>w_outside := w\<rparr>" "cnt w \<le> N" for u w
      unfolding yields_and_then using that
      by (intro ask) (auto intro!: within_outside [where M = "Suc N"] att Q)
    then have "yields (\<lambda>_. calls_le cnt (Suc N)) (\<lambda>_ u. yields (\<lambda>_. calls_le cnt (Suc N)) Q (and_then (?ask u) (\<lambda>res s2.
        and_then (on_flow (tr_attribute tr ''usage_units'' (mr_usage res)) s2) (\<lambda>_ s3. (Inr res, s3)))))
      (on_flow (tr_start tr ''agent.model_call'' [(''run_id'', JStr (rn_id run)),
                 (''tenant_id'', JStr (rn_tenant run)), (''trace_id'', JStr (rn_trace run)), (''step'', JInt n)]) s)"
      using start by (intro within_outside [where M = N]) auto
    with Some show ?thesis by (simp add: call_model_def Let_def yields_and_then)
  qed
qed

lemma finish_done_within:
  assumes "counts_calls wk cnt" and "calls_le cnt N s"
  shows "yields (\<lambda>_. calls_le cnt N) (\<lambda>_. calls_le cnt N) (finish_done wk v rid k used c s)"
proof -
  obtain r s1 where r: "on_credits (charge (wk_credits wk) k used rid (nonce v (slot c 1)) (stamp v (slot c 1))) s = (r, s1)" by fastforce
  then have s1: "calls_le cnt N s1" using assms(2) by (auto simp: on_credits_def split: prod.splits)
  have "\<And>f m. map_option (\<lambda>f. f rid used) (wk_after_commit wk) = Some f \<Longrightarrow> cnt (snd (f m)) \<le> cnt m"
    using assms(1) by (auto simp: counts_calls_def)
  with r s1 show ?thesis
    by (cases r) (auto simp: finish_done_def yields_and_then simp del: One_nat_def intro!: within_rules)
qed

lemma record_answer_within:
  assumes "counts_calls wk cnt" and "calls_le cnt N s"
  shows "yields (\<lambda>_. calls_le cnt N) (\<lambda>_. calls_le cnt N) (record_answer wk v rid k n used c res s)"
proof -
  have "\<And>f m. map_option (\<lambda>f. f rid n res) (wk_after_model wk) = Some f \<Longrightarrow> cnt (snd (f m)) \<le> cnt m"
    using assms(1) by (auto simp: counts_calls_def)
  with assms show ?thesis
    by (auto simp: record_answer_def yields_and_then intro!: within_rules finish_done_within)
qed

lemma worker_turn_within:
  assumes "counts_calls wk cnt" and "calls_le cnt N s"
  shows "yields (\<lambda>_. calls_le cnt (Suc N)) (\<lambda>_. calls_le cnt (Suc N)) (worker_turn wk v run rid k deadline n used c cp s)"
proof (cases "get_run rid None (w_runs s)")
  case (Inl e)
  with assms show ?thesis by (simp add: worker_turn_def get_fresh_def)
next
  case (Inr current)
  obtain t m where t: "wk_clock wk (w_outside s) = (t, m)" by fastforce
  have m: "cnt m \<le> N" using assms t unfolding counts_calls_def by (metis order_trans snd_conv)
  with assms t Inr show ?thesis
    by (auto simp: worker_turn_def get_fresh_def Let_def read_clock_def yields_and_then le_SucI
        intro!: within_rules call_model_within [OF assms(1)] record_answer_within)
qed

lemma worker_loop_within:
  assumes "counts_calls wk cnt" and "calls_le cnt N s"
  shows "cnt (w_outside (snd (worker_loop wk v run rid k deadline n used c cp s)))
    \<le> N + min (nat (rn_max_steps run - n)) (nat (rn_max_calls run - int c))"
  using assms
proof (induction wk v run rid k deadline n used c cp s arbitrary: N rule: worker_loop.induct)
  case (1 wk v run rid k deadline n used c cp s)
  show ?case
  proof (cases "n < rn_max_steps run \<and> int c < rn_max_calls run")
    case False
    have "yields (\<lambda>_. calls_le cnt N) (\<lambda>_. calls_le cnt N) (worker_loop wk v run rid k deadline n used c cp s)"
      using False "1.prems" by (auto simp: worker_loop.simps [of wk v run rid k deadline n used c cp s] yields_and_then intro!: within_rules)
    then show ?thesis by (auto simp: yields_def split: prod.splits sum.splits)
  next
    case True
    note ok = worker_turn_within [OF "1.prems", of v run rid k deadline n used c cp]
    have b: "Suc (min (nat (rn_max_steps run - (n + 1))) (nat (rn_max_calls run - int (c + 1)))) =
        min (nat (rn_max_steps run - n)) (nat (rn_max_calls run - int c))"
      using True by (auto simp: min_def)
    obtain t s' where t: "worker_turn wk v run rid k deadline n used c cp s = (t, s')" by fastforce
    have s': "calls_le cnt (Suc N) s'" using ok t by (cases t) auto
    show ?thesis
    proof (cases "\<exists>used' cp'. t = Inr (Go used' cp')")
      case False
      then have "snd (worker_loop wk v run rid k deadline n used c cp s) = s'"
        using True t by (auto simp: worker_loop.simps [of wk v run rid k deadline n used c cp s] split: sum.splits turn.splits)
      with s' b show ?thesis by simp
    next
      case go: True
      then obtain used' cp' where g: "t = Inr (Go used' cp')" by blast
      have "worker_loop wk v run rid k deadline n used c cp s = worker_loop wk v run rid k deadline (n + 1) used' (c + 1) cp' s'"
        using True t g by (simp add: worker_loop.simps [of wk v run rid k deadline n used c cp s])
      with 1(1) [OF True t [symmetric] g refl "1.prems"(1) s'] b show ?thesis by simp
    qed
  qed
qed

lemma execute_within:
  assumes "counts_calls wk cnt" and "find_run rid (w_runs s) = Some r"
  shows "cnt (w_outside (snd (execute wk v rid s))) \<le> cnt (w_outside s)
    + min (nat (rn_max_steps r - (case find_checkpoint rid (w_runs s) of Some c \<Rightarrow> cp_step c | None \<Rightarrow> 0))) (nat (rn_max_calls r))"
proof -
  let ?N = "cnt (w_outside s)"
  obtain t s1 where t: "on_runs (claim rid (nonce v 0) (stamp v 0)) s = (t, s1)" by fastforce
  then have o: "w_outside s1 = w_outside s" by (auto simp: on_runs_def split: prod.splits)
  show ?thesis
  proof (cases t)
    case (Inl e)
    with t o show ?thesis by (simp add: execute_def)
  next
    case (Inr x)
    with t have c: "claim rid (nonce v 0) (stamp v 0) (w_runs s) = Inr (x, w_runs s1)"
      by (auto simp: on_runs_def atomically_def split: sum.splits)
    show ?thesis
    proof (cases "rn_state r \<in> {Queued, Running}")
      case False
      with c assms(2) have "rn_state x \<in> {Completed, Failed, Cancelled, Waiting_Approval, Quota_Paused}"
        by (cases "rn_state r") (auto simp: claim_def row_locked_def)
      with t o Inr show ?thesis by (auto simp: execute_def)
    next
      case True
      obtain r' where r': "x = to_run r'" "rn_state r' = Running" "rn_max_steps r' = rn_max_steps r"
        "rn_max_calls r' = rn_max_calls r" "checkpoints (w_runs s1) = checkpoints (w_runs s)"
        using claim_row [OF c assms(2) True] by blast
      have cp: "find_checkpoint rid (w_runs s1) = find_checkpoint rid (w_runs s)"
        using r'(5) by (simp add: find_checkpoint_def)
      obtain m tm where clk: "wk_clock wk (w_outside s1) = (tm, m)" by fastforce
      have m: "cnt m \<le> ?N" using counts_callsD(2) [OF assms(1), of "w_outside s1"] clk o by simp
      show ?thesis
      proof (cases "truthy (rn_reservation x) \<and> (find_checkpoint rid (w_runs s1) = None \<or> \<not> is_done (the (find_checkpoint rid (w_runs s1))))")
        case False
        have f: "yields (\<lambda>_. calls_le cnt ?N) (\<lambda>_. calls_le cnt ?N) (on_runs (fail rid why u w) s1)" for why u w
          using o by (auto intro!: within_rules)
        have g: "yields (\<lambda>_. calls_le cnt ?N) (\<lambda>_. calls_le cnt ?N) (finish_checkpoint wk v rid k c s1)" for k c
          using o by (auto simp: finish_checkpoint_def yields_and_then intro!: within_rules)
        have "calls_le cnt ?N (snd (execute wk v rid s))"
          using False t Inr r' f [THEN yields_snd] g [THEN yields_snd]
          by (auto simp: execute_def Let_def simp del: One_nat_def)
        then show ?thesis by simp
      next
        case True
        have "execute wk v rid s = worker_loop wk v x rid (the (rn_reservation x)) (tm + rn_max_runtime x)
            (case find_checkpoint rid (w_runs s) of Some c \<Rightarrow> cp_step c | None \<Rightarrow> 0)
            (case find_checkpoint rid (w_runs s) of Some c \<Rightarrow> cp_usage c | None \<Rightarrow> 0) 0 (find_checkpoint rid (w_runs s))
            (s1\<lparr>w_outside := m\<rparr>)"
          using True t Inr r' cp clk by (auto simp: execute_def Let_def read_clock_def)
        moreover have "calls_le cnt ?N (s1\<lparr>w_outside := m\<rparr>)" using m by simp
        ultimately show ?thesis
          using worker_loop_within [OF assms(1), of "s1\<lparr>w_outside := m\<rparr>" ?N v x rid "the (rn_reservation x)"
            "tm + rn_max_runtime x" "case find_checkpoint rid (w_runs s) of Some c \<Rightarrow> cp_step c | None \<Rightarrow> 0"
            "case find_checkpoint rid (w_runs s) of Some c \<Rightarrow> cp_usage c | None \<Rightarrow> 0" 0 "find_checkpoint rid (w_runs s)"]
            r'(1,3,4) by simp
      qed
    qed
  qed
qed

section \<open>Resuming finished work\<close>

lemma finish_checkpoint_outside: "w_outside (snd (finish_checkpoint wk v rid k cp s)) = w_outside s"
  by (auto simp: finish_checkpoint_def and_then_def on_runs_def on_credits_def split: prod.splits sum.splits)

lemma execute_done:
  assumes "find_run rid (w_runs s) = Some r" and "rn_state r \<in> {Queued, Running}"
    and "rn_reservation r = Some k" and "k \<noteq> []" and "find_checkpoint rid (w_runs s) = Some cp" and "is_done cp"
  obtains (unclaimed) e where "execute wk v rid s = (Inl e, s)"
  | (claimed) x db r' where "execute wk v rid s = finish_checkpoint wk v rid k cp (s\<lparr>w_runs := db\<rparr>)"
    and "claim rid (nonce v 0) (stamp v 0) (w_runs s) = Inr (x, db)" "find_run rid db = Some r'"
    and "rn_state r' = Running" "rn_reservation r' = Some k" "checkpoints db = checkpoints (w_runs s)"
proof (cases "claim rid (nonce v 0) (stamp v 0) (w_runs s)")
  case (Inl e)
  then have "execute wk v rid s = (Inl e, s)" by (simp add: execute_def on_runs_Inl)
  then show thesis by (rule unclaimed)
next
  case (Inr xd)
  obtain x db where c: "claim rid (nonce v 0) (stamp v 0) (w_runs s) = Inr (x, db)" using Inr by (cases xd) auto
  obtain r' where r': "find_run rid db = Some r'" "x = to_run r'" "rn_state r' = Running" "rn_reservation r' = Some k"
    "checkpoints db = checkpoints (w_runs s)"
    using claim_row [OF c assms(1,2)] assms(3) by auto
  have on: "on_runs (claim rid (nonce v 0) (stamp v 0)) s = (Inr x, s\<lparr>w_runs := db\<rparr>)" using c by (rule on_runs_Inr)
  have "execute wk v rid s = finish_checkpoint wk v rid k cp (s\<lparr>w_runs := db\<rparr>)"
    using on r' assms(4-6) by (simp add: execute_def truthy_def find_checkpoint_def)
  then show thesis using claimed c r' by blast
qed

context credit_port_laws
begin

lemma execute_inv:
  assumes "wk_credits wk = P" and "inv (w_credits s)"
  shows "inv (w_credits (snd (execute wk v rid s)))"
proof -
  have loop: "yields lawful (\<lambda>_ s. inv (w_credits s)) (worker_loop wk v run rid k deadline n used c cp t)"
    if "inv (w_credits t)" for run k deadline n used c cp t
    using worker_loop_ok [OF assms(1) that] by (rule yields_mono) auto
  have fin: "yields lawful (\<lambda>_ s. inv (w_credits s)) (finish_checkpoint wk v rid k cp t)"
    if "inv (w_credits t)" for k cp t
    using finish_checkpoint_ok [OF assms(1) that] by (rule yields_mono) auto
  have "yields lawful (\<lambda>_ s. inv (w_credits s)) (execute wk v rid s)"
    unfolding execute_def yields_and_then
    using assms(2) by (auto simp: Let_def read_clock_def split: prod.splits intro!: yields_change loop fin)
  then show ?thesis by (rule yields_snd)
qed

end

text \<open>Any number of executions, also of the same run, each with its own fresh values; one that raises is followed by the next.\<close>

fun execute_all :: "('c, 'm) worker \<Rightarrow> (fresh_values \<times> string) list \<Rightarrow> ('c, 'q, 'm) world \<Rightarrow> ('c, 'q, 'm) world" where
  "execute_all wk [] s = s"
| "execute_all wk ((v, rid) # jobs) s = execute_all wk jobs (snd (execute wk v rid s))"

lemma execute_all_inv:
  "wk_credits wk = sqlite_credit_port \<Longrightarrow> credit_inv (w_credits s) \<Longrightarrow> credit_inv (w_credits (execute_all wk jobs s))"
proof (induction wk jobs s rule: execute_all.induct)
  case (2 wk v rid jobs s)
  then show ?case using sqlite_credits.execute_inv [of wk s v rid] by simp
qed simp

text \<open>The retry cannot settle: the finished work used more than the open reservation covers.\<close>

definition overused :: "string \<Rightarrow> (credit_db, 'q, 'm) world \<Rightarrow> bool" where
  "overused rid s \<longleftrightarrow> (\<exists>r k cp q. find_run rid (w_runs s) = Some r \<and> rn_state r \<in> {Queued, Running}
     \<and> rn_reservation r = Some k \<and> k \<noteq> [] \<and> find_checkpoint rid (w_runs s) = Some cp \<and> is_done cp
     \<and> find (\<lambda>q. rsv_id q = k) (reservations (w_credits s)) = Some q \<and> rsv_status q = Reserved
     \<and> rsv_units q < cp_usage cp \<and> 0 \<le> cp_usage cp
     \<and> find (\<lambda>e. led_key e = commit_key rid) (ledger (w_credits s)) = None)"

lemma charge_overused:
  assumes "find (\<lambda>q. rsv_id q = k) (reservations d) = Some q" and "rsv_status q = Reserved"
    and "rsv_units q < used" and "0 \<le> used" and "find (\<lambda>e. led_key e = commit_key rid) (ledger d) = None"
  shows "charge sqlite_credit_port k used rid u w d = Inl (ValueError ''actual usage exceeds the reserved units'')"
  using assms by (simp add: charge_def sqlite_credit_port_def commit_def)

lemma append_token_keeps:
  assumes "append_token rid text u w db = Inr (e, db')" and "find_run rid db = Some r"
    and "find_checkpoint rid db = Some cp" and "is_done cp"
  shows "(\<exists>r'. find_run rid db' = Some r' \<and> rn_state r' = rn_state r \<and> rn_reservation r' = rn_reservation r)
    \<and> (\<exists>cp'. find_checkpoint rid db' = Some cp' \<and> is_done cp' \<and> cp_usage cp' = cp_usage cp)"
proof -
  let ?g = "\<lambda>c. c\<lparr>cp_state := AList.update ''token_emitted'' (JBool True) (cp_state c)\<rparr>"
  let ?f = "\<lambda>q. q\<lparr>rn_seq := rn_seq r + 1, rw_updated_at := w\<rparr>"
  from assms(1,2) obtain e' where db': "db' = update_run rid ?f (db\<lparr>events := events db @ [e'],
      checkpoints := update_where (\<lambda>c. cp_run c = rid) ?g (checkpoints db)\<rparr>)" (is "_ = update_run rid ?f ?db")
    by (auto simp: append_token_def row_locked_def append_event_Inr Let_def split: sum.splits)
  have fr: "find_run rid ?db = Some r" using assms(2) by simp
  have "find_run rid db' = Some (?f r)" unfolding db' by (subst find_run_update [OF fr]) simp_all
  moreover have "find_checkpoint rid db' = Some (?g cp)"
    using assms(3) find_SomeD [of "\<lambda>c. cp_run c = rid" "checkpoints db" cp]
    by (simp add: db' find_checkpoint_def find_update_where_same)
  moreover have "is_done (?g cp)" using assms(4) by (simp add: is_done_def update_conv')
  ultimately show ?thesis by simp
qed

lemma finish_overused:
  assumes "wk_credits wk = sqlite_credit_port" and "find_run rid (w_runs s) = Some r" and "rn_state r = Running"
    and "rn_reservation r = Some k" and "k \<noteq> []" and "find_checkpoint rid (w_runs s) = Some cp" and "is_done cp"
    and "find (\<lambda>q. rsv_id q = k) (reservations (w_credits s)) = Some q" and "rsv_status q = Reserved"
    and "rsv_units q < cp_usage cp" "0 \<le> cp_usage cp"
    and "find (\<lambda>e. led_key e = commit_key rid) (ledger (w_credits s)) = None"
  shows "\<exists>e s'. finish_checkpoint wk v rid k cp s = (Inl e, s') \<and> w_credits s' = w_credits s \<and> overused rid s'"
proof (cases "token_emitted cp")
  case True
  have "on_credits (charge sqlite_credit_port k (cp_usage cp) rid (nonce v 3) (stamp v 3)) s =
      (Inl (ValueError ''actual usage exceeds the reserved units''), s)"
    using charge_overused [OF assms(8-12)] by (rule on_credits_Inl)
  then show ?thesis
    using True assms by (auto simp: finish_checkpoint_def overused_def)
next
  case False
  let ?text = "text_of (wk_str wk) (case map_of (cp_state cp) ''last_output'' of Some x \<Rightarrow> x | None \<Rightarrow> JStr [])"
  show ?thesis
  proof (cases "append_token rid ?text (nonce v 2) (stamp v 2) (w_runs s)")
    case (Inl e)
    then have "on_runs (append_token rid ?text (nonce v 2) (stamp v 2)) s = (Inl e, s)" by (rule on_runs_Inl)
    then show ?thesis using False assms by (auto simp: finish_checkpoint_def overused_def)
  next
    case (Inr ed)
    obtain e db where a: "append_token rid ?text (nonce v 2) (stamp v 2) (w_runs s) = Inr (e, db)" using Inr by (cases ed) auto
    then have on: "on_runs (append_token rid ?text (nonce v 2) (stamp v 2)) s = (Inr e, s\<lparr>w_runs := db\<rparr>)" by (rule on_runs_Inr)
    have ch: "on_credits (charge sqlite_credit_port k (cp_usage cp) rid (nonce v 3) (stamp v 3)) (s\<lparr>w_runs := db\<rparr>) =
        (Inl (ValueError ''actual usage exceeds the reserved units''), s\<lparr>w_runs := db\<rparr>)"
      using on_credits_Inl [of "charge sqlite_credit_port k (cp_usage cp) rid (nonce v 3) (stamp v 3)" "s\<lparr>w_runs := db\<rparr>"]
        charge_overused [OF assms(8-12)] by simp
    have "finish_checkpoint wk v rid k cp s = (Inl (ValueError ''actual usage exceeds the reserved units''), s\<lparr>w_runs := db\<rparr>)"
      using False assms(1) on ch by (simp add: finish_checkpoint_def)
    moreover have "overused rid (s\<lparr>w_runs := db\<rparr>)"
      using append_token_keeps [OF a assms(2,6,7)] assms by (auto simp: overused_def)
    ultimately show ?thesis by simp
  qed
qed

section \<open>Properties\<close>

text \<open>A queued, funded run, and a worker whose outside world counts the calls of the model.\<close>

definition demo_row :: run_row where
  "demo_row = (new_run_row (\<lambda>_. ''h'') ''run'' demo_request ''w'')\<lparr>rn_reservation := Some ''r1''\<rparr>"

definition demo_job :: "checkpoint list \<Rightarrow> (credit_db, unit, nat) world" where
  "demo_job cps = \<lparr>w_runs = \<lparr>runs = [demo_row], events = [], checkpoints = cps\<rparr>,
     w_credits = demo_ledger, w_quota = (), w_outside = 0\<rparr>"

definition demo_worker :: "(credit_db, nat) worker" where
  "demo_worker = \<lparr>wk_credits = sqlite_credit_port,
     wk_model = (\<lambda>p k t m. (Inr \<lparr>mr_output = ''hi'', mr_usage = 1, mr_done = True, mr_approval = None\<rparr>, Suc m)),
     wk_after_model = None, wk_after_commit = None, wk_tracer = None, wk_clock = (\<lambda>m. (0, m)), wk_str = (\<lambda>_. [])\<rparr>"

definition demo_checkpoint :: "int \<Rightarrow> checkpoint" where
  "demo_checkpoint used = \<lparr>cp_run = ''run'', cp_step = 1, cp_state = [(''done'', JBool True), (''last_output'', JStr ''hi'')],
     cp_inflight = None, cp_approval = None, cp_usage = used\<rparr>"

lemma demo_job_run: "find_run ''run'' (w_runs (demo_job cps)) = Some demo_row"
  "rn_state demo_row = Queued" "rn_reservation demo_row = Some ''r1''"
  "rn_max_steps demo_row = 8" "rn_max_calls demo_row = 8"
  by (simp_all add: demo_job_def demo_row_def new_run_row_def find_run_def demo_request_def)

lemma demo_job_ledger: "credit_inv (w_credits (demo_job cps))" "wk_credits demo_worker = sqlite_credit_port"
  by (simp_all add: demo_job_def demo_ledger_inv demo_worker_def)

text \<open>
  C11. The worker never leaves credits on hold: when an execution of a queued or running run returns,
  by any branch (completed, failed, timed out, over its limits, cancelled), its reservation is
  charged or given back, unless the run waits for an approval; and a completed run is charged.
\<close>

theorem worker_never_leaves_a_hold:
  assumes "credit_inv (w_credits s)" and "wk_credits wk = sqlite_credit_port"
    and "find_run rid (w_runs s) = Some r" and "rn_state r \<in> {Queued, Running}"
    and "rn_reservation r = Some k" and "k \<noteq> []" and "execute wk v rid s = (Inr y, s')"
  shows "(rn_state y \<noteq> Waiting_Approval \<longrightarrow> status_of (w_credits s') k \<in> {Some Committed, Some Released})
    \<and> (rn_state y = Completed \<longrightarrow> status_of (w_credits s') k = Some Committed)"
  using sqlite_credits.execute_ok [OF assms(2,1,3-6), of v] assms(7)
  by (simp add: concluded_def)

theorem worker_never_leaves_a_hold_witness:
  "\<exists>y s'. execute demo_worker demo_fresh ''run'' (demo_job []) = (Inr y, s') \<and> rn_state y = Completed
     \<and> status_of (w_credits s') ''r1'' = Some Committed"
proof -
  have "case execute demo_worker demo_fresh ''run'' (demo_job []) of (Inl e, s') \<Rightarrow> False | (Inr y, s') \<Rightarrow> rn_state y = Completed"
    by code_simp
  then obtain y s' where y: "execute demo_worker demo_fresh ''run'' (demo_job []) = (Inr y, s')" "rn_state y = Completed"
    by (rule call_obtain)
  from worker_never_leaves_a_hold [OF demo_job_ledger demo_job_run(1) _ demo_job_run(3) _ y(1)] y demo_job_run(2)
  show ?thesis by auto
qed



text \<open>
  C13. The worker is bounded: one execution asks the model at most as often as the run's step limit
  (from the checkpoint on) and its call limit allow, whatever the model answers, and it always ends.
\<close>

theorem worker_asks_boundedly:
  assumes "counts_calls wk cnt" and "find_run rid (w_runs s) = Some r" and "execute wk v rid s = (y, s')"
  shows "cnt (w_outside s') \<le> cnt (w_outside s)
    + min (nat (rn_max_steps r - (case find_checkpoint rid (w_runs s) of Some c \<Rightarrow> cp_step c | None \<Rightarrow> 0))) (nat (rn_max_calls r))"
  using execute_within [OF assms(1,2), of v] assms(3) by simp

theorem worker_asks_boundedly_witness:
  "\<exists>y s'. execute demo_worker demo_fresh ''run'' (demo_job []) = (y, s') \<and> w_outside s' \<le> 8"
proof -
  obtain y s' where y: "execute demo_worker demo_fresh ''run'' (demo_job []) = (y, s')" by fastforce
  have "counts_calls demo_worker (\<lambda>m. m)" by (simp add: counts_calls_def demo_worker_def)
  from worker_asks_boundedly [OF this demo_job_run(1) y] y show ?thesis
    by (auto simp: demo_job_run find_checkpoint_def demo_job_def)
qed

text \<open>
  Finished work is not done again: once the checkpoint says the work is done, a retry does not
  ask the model (nothing outside is touched), and if it returns, the run is completed.
\<close>

theorem finished_work_is_not_redone:
  assumes "find_run rid (w_runs s) = Some r" and "rn_state r \<in> {Queued, Running}" and "rn_reservation r = Some k"
    and "k \<noteq> []" and "find_checkpoint rid (w_runs s) = Some cp" and "is_done cp" and "execute wk v rid s = (y, s')"
  shows "w_outside s' = w_outside s \<and> (\<forall>run. y = Inr run \<longrightarrow> rn_state run = Completed)"
  using assms(1-6)
proof (cases rule: execute_done [where wk = wk and v = v])
  case (unclaimed e)
  with assms(7) show ?thesis by auto
next
  case (claimed x db r')
  have "yields (\<lambda>_ _. True) (\<lambda>run _. rn_state run = Completed) (finish_checkpoint wk v rid k cp (s\<lparr>w_runs := db\<rparr>))"
    by (auto simp: finish_checkpoint_def wp dest: complete_state split: sum.splits)
  moreover have "w_outside s' = w_outside (s\<lparr>w_runs := db\<rparr>)"
    using finish_checkpoint_outside [of wk v rid k cp "s\<lparr>w_runs := db\<rparr>"] claimed(1) assms(7) by (metis snd_conv)
  ultimately show ?thesis using claimed(1) assms(7) by (auto dest: yieldsD(1) [OF _ sym])
qed

theorem finished_work_is_not_redone_witness:
  "\<exists>y s'. execute demo_worker demo_fresh ''run'' (demo_job [demo_checkpoint 1]) = (Inr y, s') \<and> w_outside s' = 0
     \<and> rn_state y = Completed"
proof -
  have "case execute demo_worker demo_fresh ''run'' (demo_job [demo_checkpoint 1]) of (Inl e, s') \<Rightarrow> False | (Inr y, s') \<Rightarrow> True"
    by code_simp
  then obtain y s' where y: "execute demo_worker demo_fresh ''run'' (demo_job [demo_checkpoint 1]) = (Inr y, s')"
    by (rule call_obtain)
  have cp: "find_checkpoint ''run'' (w_runs (demo_job [demo_checkpoint 1])) = Some (demo_checkpoint 1)" "is_done (demo_checkpoint 1)"
    by (simp_all add: find_checkpoint_def demo_job_def demo_checkpoint_def is_done_def)
  from finished_work_is_not_redone [OF demo_job_run(1) _ demo_job_run(3) _ cp y] y demo_job_run(2) show ?thesis
    by (auto simp: demo_job_def)
qed

text \<open>
  A retry of finished work that used more than its reservation can never conclude: every
  execution raises, keeps the ledger and leaves the run in the same situation. (The first
  execution fails such a run and gives the units back; the resume path has no handler.)
\<close>

theorem overused_resume_is_stuck:
  assumes "overused rid s" and "wk_credits wk = sqlite_credit_port"
  shows "\<exists>e s'. execute wk v rid s = (Inl e, s') \<and> w_credits s' = w_credits s \<and> overused rid s'"
proof -
  obtain r k cp q where h: "find_run rid (w_runs s) = Some r" "rn_state r \<in> {Queued, Running}" "rn_reservation r = Some k"
    "k \<noteq> []" "find_checkpoint rid (w_runs s) = Some cp" "is_done cp"
    "find (\<lambda>q. rsv_id q = k) (reservations (w_credits s)) = Some q" "rsv_status q = Reserved"
    "rsv_units q < cp_usage cp" "0 \<le> cp_usage cp" "find (\<lambda>e. led_key e = commit_key rid) (ledger (w_credits s)) = None"
    using assms(1) unfolding overused_def by blast
  from h(1-6) show ?thesis
  proof (cases rule: execute_done [where wk = wk and v = v])
    case (unclaimed e)
    with assms(1) show ?thesis by simp
  next
    case (claimed x db r')
    have "find_checkpoint rid db = Some cp" using claimed(6) h(5) by (simp add: find_checkpoint_def)
    with finish_overused [OF assms(2), of rid "s\<lparr>w_runs := db\<rparr>" r' k cp q v] claimed h show ?thesis by auto
  qed
qed

theorem overused_resume_is_stuck_witness:
  "\<exists>e s'. execute demo_worker demo_fresh ''run'' (demo_job [demo_checkpoint 5]) = (Inl e, s') \<and> overused ''run'' s'"
proof -
  have "overused ''run'' (demo_job [demo_checkpoint 5])"
    unfolding overused_def
    by (intro exI [of _ demo_row] exI [of _ "''r1''"] exI [of _ "demo_checkpoint 5"] exI [of _ "hd (reservations demo_ledger)"])
      (simp add: demo_job_run, simp add: demo_job_def find_checkpoint_def demo_checkpoint_def is_done_def demo_ledger_def)
  from overused_resume_is_stuck [OF this demo_job_ledger(2)] show ?thesis by blast
qed

end
