(* ===== verification/Billing_Store.thy ===== *)
theory Billing_Store
  imports Credit_Ledger Lifecycle
begin

text \<open>
  Orders, provider events and the billing store: \<open>services/billing/models.py\<close> and
  \<open>store.py\<close>. A payment event is recorded in the inbox and applied in one transaction: the
  order's status, the account's entitlement, its credits and their ledger entry, and the audit
  record. Times are opaque strings; JSON columns hold the value they encode.
\<close>

section \<open>Values\<close>

datatype pay_status = Pay_Pending | Pay_Succeeded | Pay_Failed | Pay_Cancelled | Pay_Refunded | Pay_Unknown

text \<open>\<open>STATUSES\<close>\<close>

fun pay_status_name :: "pay_status \<Rightarrow> string" where
  "pay_status_name Pay_Pending = ''pending''"
| "pay_status_name Pay_Succeeded = ''succeeded''"
| "pay_status_name Pay_Failed = ''failed''"
| "pay_status_name Pay_Cancelled = ''cancelled''"
| "pay_status_name Pay_Refunded = ''refunded''"
| "pay_status_name Pay_Unknown = ''unknown''"

record create_order =
  co_id :: string
  co_tenant :: string
  co_account :: string
  co_plan :: string
  co_amount :: int
  co_currency :: string
  co_grant :: int
  co_key :: string

definition make_create_order :: "create_order \<Rightarrow> exn + create_order" where
  "make_create_order r =
     (if blank (co_id r) then Inl (ValueError ''order_id must be non-empty'')
      else if blank (co_tenant r) then Inl (ValueError ''tenant_id must be non-empty'')
      else if blank (co_account r) then Inl (ValueError ''account_id must be non-empty'')
      else if blank (co_plan r) then Inl (ValueError ''plan_id must be non-empty'')
      else if blank (co_currency r) then Inl (ValueError ''currency must be non-empty'')
      else if blank (co_key r) then Inl (ValueError ''idempotency_key must be non-empty'')
      else if co_amount r \<le> 0 then Inl (ValueError ''amount_minor must be a positive integer'')
      else if co_grant r < 0 then Inl (ValueError ''credit_grant must be a non-negative integer'')
      else if length (co_key r) < 8 then Inl (ValueError ''idempotency_key must be at least 8 characters'')
      else Inr (r\<lparr>co_currency := upper (co_currency r)\<rparr>))"

record pay_event =
  pe_provider :: string
  pe_event :: string
  pe_type :: string
  pe_status :: pay_status
  pe_order :: string
  pe_time :: string
  pe_test :: bool
  pe_key :: string
  pe_amount :: "int option"
  pe_metadata :: "(string \<times> string) list"

text \<open>\<open>NormalizedEvent.__post_init__\<close>; the status is one of \<open>STATUSES\<close> by its type.\<close>

definition make_pay_event :: "pay_event \<Rightarrow> exn + pay_event" where
  "make_pay_event e = (if pe_event e = [] \<or> pe_order e = [] \<or> length (pe_key e) < 8
     then Inl (ValueError ''normalized event identity is incomplete'') else Inr e)"

definition pay_event_dict :: "pay_event \<Rightarrow> dict" where
  "pay_event_dict e = [(''provider'', JStr (pe_provider e)), (''provider_event_id'', JStr (pe_event e)),
     (''event_type'', JStr (pe_type e)), (''status'', JStr (pay_status_name (pe_status e))),
     (''order_id'', JStr (pe_order e)), (''occurred_at'', JStr (pe_time e)), (''test_mode'', JBool (pe_test e)),
     (''idempotency_key'', JStr (pe_key e)),
     (''amount_minor'', case pe_amount e of None \<Rightarrow> JNull | Some n \<Rightarrow> JInt n),
     (''metadata'', JObj (map (\<lambda>(k, v). (k, JStr v)) (pe_metadata e)))]"

record bill_order =
  bo_id :: string
  bo_tenant :: string
  bo_account :: string
  bo_plan :: string
  bo_amount :: int
  bo_currency :: string
  bo_grant :: int
  bo_key :: string
  bo_status :: pay_status
  bo_provider :: "string option"
  bo_reference :: "string option"

record order_row = bill_order +
  ro_created_at :: string
  ro_updated_at :: string

record entitlement =
  en_account :: string
  en_plan :: string
  en_version :: int

record inbox_row =
  ib_provider :: string
  ib_event :: string
  ib_key :: string
  ib_body :: string
  ib_headers :: "(string \<times> string) list"
  ib_normalized :: dict
  ib_status :: string
  ib_applied :: bool
  ib_received_at :: string

record bill_entry =
  be_id :: string
  be_account :: string
  be_amount :: int
  be_key :: string
  be_reason :: string
  be_after :: int
  be_created_at :: string

record bill_audit_row =
  ba_id :: string
  ba_action :: string
  ba_target :: string
  ba_before :: dict
  ba_after :: dict
  ba_occurred_at :: string

record processing_result =
  pr_provider :: string
  pr_event :: string
  pr_applied :: bool
  pr_status :: string

record bill_db =
  orders :: "order_row list"
  inbox :: "inbox_row list"
  entitlements :: "entitlement list"
  bill_accounts :: "credit_account list"
  bill_ledger :: "bill_entry list"
  bill_audits :: "bill_audit_row list"

definition empty_bill_db :: bill_db where
  "empty_bill_db = \<lparr>orders = [], inbox = [], entitlements = [], bill_accounts = [], bill_ledger = [], bill_audits = []\<rparr>"

definition to_order :: "order_row \<Rightarrow> bill_order" where
  "to_order r = bill_order.truncate r"

section \<open>Orders\<close>

definition find_order :: "string \<Rightarrow> bill_db \<Rightarrow> order_row option" where
  "find_order oid db = find (\<lambda>r. bo_id r = oid) (orders db)"

definition create_pending_order :: "create_order \<Rightarrow> string \<Rightarrow> string \<Rightarrow> bill_db \<Rightarrow> exn + (bill_order \<times> bill_db)" where
  "create_pending_order req provider now db =
     (case find (\<lambda>r. bo_key r = co_key req) (orders db) of
        Some r \<Rightarrow> (if bo_id r \<noteq> co_id req then Inl (OrderConflict ''order idempotency key is already used'')
                   else Inr (to_order r, db))
      | None \<Rightarrow>
          (if find_order (co_id req) db \<noteq> None then Inl (IntegrityError ''billing_orders.order_id'')
           else let row = \<lparr>bo_id = co_id req, bo_tenant = co_tenant req, bo_account = co_account req,
                  bo_plan = co_plan req, bo_amount = co_amount req, bo_currency = co_currency req,
                  bo_grant = co_grant req, bo_key = co_key req, bo_status = Pay_Pending,
                  bo_provider = Some provider, bo_reference = None, ro_created_at = now, ro_updated_at = now\<rparr>
                in Inr (to_order row, db\<lparr>orders := orders db @ [row]\<rparr>)))"

definition attach_checkout :: "string \<Rightarrow> string \<Rightarrow> string \<Rightarrow> string \<Rightarrow> bill_db \<Rightarrow> exn + (bill_order \<times> bill_db)" where
  "attach_checkout oid provider reference now db =
     (let db' = db\<lparr>orders := update_where (\<lambda>r. bo_id r = oid)
            (\<lambda>r. r\<lparr>bo_provider := Some provider, bo_reference := Some reference, ro_updated_at := now\<rparr>) (orders db)\<rparr>
      in case find_order oid db' of
           None \<Rightarrow> Inl (TypeError ''row is None'')
         | Some r \<Rightarrow> Inr (to_order r, db'))"

definition get_order :: "string \<Rightarrow> bill_db \<Rightarrow> exn + bill_order" where
  "get_order oid db = (case find_order oid db of None \<Rightarrow> Inl (UnknownOrder oid) | Some r \<Rightarrow> Inr (to_order r))"

section \<open>Applying an event\<close>

definition entry_key :: "string \<Rightarrow> string \<Rightarrow> string \<Rightarrow> string" where
  "entry_key provider key kind = provider @ '':'' @ key @ '':'' @ kind"

text \<open>\<open>INSERT INTO entitlements ... ON CONFLICT(account_id) DO UPDATE\<close>\<close>

definition put_entitlement :: "string \<Rightarrow> string \<Rightarrow> entitlement list \<Rightarrow> entitlement list" where
  "put_entitlement a plan t = (if \<exists>e\<in>set t. en_account e = a
     then update_where (\<lambda>e. en_account e = a) (\<lambda>e. e\<lparr>en_plan := plan, en_version := en_version e + 1\<rparr>) t
     else t @ [\<lparr>en_account = a, en_plan = plan, en_version = 1\<rparr>])"

text \<open>
  \<open>INSERT OR IGNORE INTO credit_ledger\<close> and, if it inserted, the guarded update of the balance.
  The placeholder \<open>balance_after\<close> is filled in with the new balance.
\<close>

definition post_entry :: "string \<Rightarrow> string \<Rightarrow> string \<Rightarrow> int \<Rightarrow> string \<Rightarrow> string \<Rightarrow> bill_db \<Rightarrow> exn + bill_db" where
  "post_entry uid now a amount key why db =
     (if \<exists>e\<in>set (bill_ledger db). be_key e = key \<or> be_id e = uid then Inr db
      else if row_count (credit_matches a amount 0) (bill_accounts db) \<noteq> 1 then Inl (InsufficientCredits a)
      else let accs = update_where (credit_matches a amount 0)
                 (\<lambda>x. x\<lparr>acc_balance := acc_balance x + amount\<rparr>) (bill_accounts db)
           in Inr (db\<lparr>bill_accounts := accs, bill_ledger := bill_ledger db @
                [\<lparr>be_id = uid, be_account = a, be_amount = amount, be_key = key, be_reason = why,
                  be_after = balance_of a accs, be_created_at = now\<rparr>]\<rparr>))"

definition set_order_status :: "string \<Rightarrow> (pay_status \<Rightarrow> bool) \<Rightarrow> pay_status \<Rightarrow> string \<Rightarrow> bill_db \<Rightarrow> bill_db" where
  "set_order_status oid P s now db = db\<lparr>orders := update_where (\<lambda>r. bo_id r = oid \<and> P (bo_status r))
     (\<lambda>r. r\<lparr>bo_status := s, ro_updated_at := now\<rparr>) (orders db)\<rparr>"

text \<open>\<open>_audit\<close>\<close>

definition bill_audit :: "string \<Rightarrow> string \<Rightarrow> string \<Rightarrow> string \<Rightarrow> dict \<Rightarrow> dict \<Rightarrow> bill_db \<Rightarrow> exn + bill_db" where
  "bill_audit uid now action target before after db =
     (if \<exists>q\<in>set (bill_audits db). ba_id q = uid then Inl (IntegrityError ''billing_audit.event_id'')
      else Inr (db\<lparr>bill_audits := bill_audits db @ [\<lparr>ba_id = uid, ba_action = action, ba_target = target,
             ba_before = before, ba_after = after, ba_occurred_at = now\<rparr>]\<rparr>))"

definition order_status :: "string \<Rightarrow> bill_db \<Rightarrow> pay_status option" where
  "order_status oid db = map_option bo_status (find_order oid db)"

definition status_json :: "pay_status option \<Rightarrow> json" where
  "status_json s = (case s of Some t \<Rightarrow> JStr (pay_status_name t) | None \<Rightarrow> JNull)"

definition apply_success :: "string \<Rightarrow> string \<Rightarrow> string \<Rightarrow> pay_event \<Rightarrow> order_row \<Rightarrow> bill_db \<Rightarrow> exn + bill_db" where
  "apply_success uid aid now ev o1 db =
     (let a = bo_account o1;
          db1 = set_order_status (pe_order ev) (\<lambda>s. s \<in> {Pay_Pending, Pay_Unknown}) Pay_Succeeded now db;
          db2 = db1\<lparr>entitlements := put_entitlement a (bo_plan o1) (entitlements db1),
                    bill_accounts := ensure_account a 0 (bill_accounts db1)\<rparr>
      in case post_entry uid now a (bo_grant o1) (entry_key (pe_provider ev) (pe_key ev) ''grant'')
                (''payment '' @ pe_order ev) db2 of
           Inl e \<Rightarrow> Inl e
         | Inr db3 \<Rightarrow> bill_audit aid now ''billing.payment.succeeded'' a
             [(''status'', JStr (pay_status_name (bo_status o1)))]
             [(''status'', status_json (order_status (pe_order ev) db3)), (''credits'', JInt (bo_grant o1))] db3)"

definition apply_refund :: "string \<Rightarrow> string \<Rightarrow> string \<Rightarrow> pay_event \<Rightarrow> order_row \<Rightarrow> bill_db \<Rightarrow> exn + bill_db" where
  "apply_refund uid aid now ev o1 db =
     (let a = bo_account o1;
          db1 = set_order_status (pe_order ev) (\<lambda>s. s = Pay_Succeeded) Pay_Refunded now db;
          db2 = db1\<lparr>entitlements := put_entitlement a ''free'' (entitlements db1),
                    bill_accounts := ensure_account a 0 (bill_accounts db1)\<rparr>
      in case post_entry uid now a (- bo_grant o1) (entry_key (pe_provider ev) (pe_key ev) ''refund'')
                (''refund '' @ pe_order ev) db2 of
           Inl e \<Rightarrow> Inl e
         | Inr db3 \<Rightarrow> bill_audit aid now ''billing.payment.refunded'' a
             [(''status'', JStr (pay_status_name (bo_status o1))), (''plan'', JStr (bo_plan o1))]
             [(''status'', status_json (order_status (pe_order ev) db3)), (''plan'', JStr ''free''),
              (''credits'', JInt (- bo_grant o1))] db3)"

definition apply_event :: "string \<Rightarrow> string \<Rightarrow> string \<Rightarrow> pay_event \<Rightarrow> order_row \<Rightarrow> bill_db \<Rightarrow> exn + (bool \<times> bill_db)" where
  "apply_event uid aid now ev o1 db =
     (if pe_status ev = Pay_Succeeded \<and> bo_status o1 \<in> {Pay_Pending, Pay_Unknown}
      then map_sum id (Pair True) (apply_success uid aid now ev o1 db)
      else if pe_status ev = Pay_Refunded \<and> bo_status o1 = Pay_Succeeded
      then map_sum id (Pair True) (apply_refund uid aid now ev o1 db)
      else Inr (False, set_order_status (pe_order ev) (\<lambda>s. s = Pay_Pending) (pe_status ev) now db))"

definition process_event :: "pay_event \<Rightarrow> string \<Rightarrow> (string \<times> string) list \<Rightarrow> string \<Rightarrow> string \<Rightarrow> string \<Rightarrow> bill_db \<Rightarrow>
    exn + (processing_result \<times> bill_db)" where
  "process_event ev body headers uid aid now db =
     (case find (\<lambda>i. ib_provider i = pe_provider ev \<and> (ib_event i = pe_event ev \<or> ib_key i = pe_key ev)) (inbox db) of
        Some i \<Rightarrow> Inr (\<lparr>pr_provider = pe_provider ev, pr_event = pe_event ev, pr_applied = False, pr_status = ib_status i\<rparr>, db)
      | None \<Rightarrow>
          (case find_order (pe_order ev) db of
             None \<Rightarrow> Inl (UnknownOrder (pe_order ev))
           | Some o1 \<Rightarrow>
               (if pe_amount ev \<noteq> None \<and> pe_amount ev \<noteq> Some (bo_amount o1)
                then Inl (OrderConflict ''provider amount does not match the pending order'')
                else let db1 = db\<lparr>inbox := inbox db @ [\<lparr>ib_provider = pe_provider ev, ib_event = pe_event ev,
                        ib_key = pe_key ev, ib_body = body, ib_headers = headers, ib_normalized = pay_event_dict ev,
                        ib_status = ''received'', ib_applied = False, ib_received_at = now\<rparr>]\<rparr>
                     in case apply_event uid aid now ev o1 db1 of
                          Inl e \<Rightarrow> Inl e
                        | Inr (applied, db2) \<Rightarrow>
                            Inr (\<lparr>pr_provider = pe_provider ev, pr_event = pe_event ev, pr_applied = applied,
                                  pr_status = pay_status_name (pe_status ev)\<rparr>,
                                 db2\<lparr>inbox := update_where (\<lambda>i. ib_provider i = pe_provider ev \<and> ib_event i = pe_event ev)
                                   (\<lambda>i. i\<lparr>ib_status := pay_status_name (pe_status ev), ib_applied := True\<rparr>) (inbox db2)\<rparr>))))"

section \<open>Queries\<close>

definition bill_balance :: "string \<Rightarrow> bill_db \<Rightarrow> int" where
  "bill_balance a db = (case find_account a (bill_accounts db) of None \<Rightarrow> 0 | Some acc \<Rightarrow> acc_balance acc)"

definition get_entitlement :: "string \<Rightarrow> bill_db \<Rightarrow> entitlement" where
  "get_entitlement a db = (case find (\<lambda>e. en_account e = a) (entitlements db) of
     None \<Rightarrow> \<lparr>en_account = a, en_plan = ''free'', en_version = 0\<rparr> | Some e \<Rightarrow> e)"

text \<open>Rows are inserted in the order of the time they record.\<close>

definition inbox_records :: "bill_db \<Rightarrow> (string \<times> string \<times> string \<times> string \<times> bool) list" where
  "inbox_records db = map (\<lambda>i. (ib_provider i, ib_event i, ib_key i, ib_status i, ib_applied i)) (inbox db)"

definition audit_records :: "bill_db \<Rightarrow> (string \<times> string \<times> string \<times> dict \<times> dict) list" where
  "audit_records db = map (\<lambda>q. (ba_id q, ba_action q, ba_target q, ba_before q, ba_after q)) (bill_audits db)"

section \<open>The invariant\<close>

text \<open>
  \<open>granted\<close> is the abstract meaning of an account's balance: the credits of its orders that
  are paid and not refunded.
\<close>

definition grant_of :: "string \<Rightarrow> order_row \<Rightarrow> int" where
  "grant_of a r = (if bo_account r = a \<and> bo_status r = Pay_Succeeded then bo_grant r else 0)"

definition granted :: "string \<Rightarrow> order_row list \<Rightarrow> int" where
  "granted a t = (\<Sum>r\<leftarrow>t. grant_of a r)"

definition posted :: "string \<Rightarrow> bill_entry list \<Rightarrow> int" where
  "posted a t = (\<Sum>e\<leftarrow>t. if be_account e = a then be_amount e else 0)"

definition plain :: "string \<Rightarrow> bool" where
  "plain s \<longleftrightarrow> CHR '':'' \<notin> set s"

definition bill_keys :: "bill_db \<Rightarrow> bool" where
  "bill_keys db \<longleftrightarrow> unique_by bo_id (orders db) \<and> unique_by bo_key (orders db)
     \<and> unique_by (\<lambda>i. (ib_provider i, ib_event i)) (inbox db) \<and> unique_by (\<lambda>i. (ib_provider i, ib_key i)) (inbox db)
     \<and> unique_by en_account (entitlements db) \<and> unique_by acc_id (bill_accounts db)
     \<and> unique_by be_key (bill_ledger db) \<and> unique_by be_id (bill_ledger db) \<and> unique_by ba_id (bill_audits db)"

definition bill_ok :: "bill_db \<Rightarrow> bool" where
  "bill_ok db \<longleftrightarrow> bill_keys db
     \<and> (\<forall>r\<in>set (orders db). 0 \<le> bo_grant r)
     \<and> (\<forall>i\<in>set (inbox db). plain (ib_provider i))
     \<and> (\<forall>e\<in>set (bill_ledger db). \<exists>i\<in>set (inbox db). \<exists>kind\<in>{''grant'', ''refund''}. be_key e = entry_key (ib_provider i) (ib_key i) kind)
     \<and> (\<forall>a. balance_of a (bill_accounts db) = granted a (orders db))
     \<and> (\<forall>a. posted a (bill_ledger db) = granted a (orders db))"

section \<open>Keys, orders and entries\<close>

lemma entry_key_inj:
  assumes "plain p" and "plain q" and "kind \<in> {''grant'', ''refund''}" and "kind' \<in> {''grant'', ''refund''}"
    and "entry_key p k kind = entry_key q l kind'"
  shows "p = q \<and> k = l \<and> kind = kind'"
proof -
  have split: "takeWhile (\<lambda>c. c \<noteq> CHR '':'') (x @ CHR '':'' # y) = x"
    "dropWhile (\<lambda>c. c \<noteq> CHR '':'') (x @ CHR '':'' # y) = CHR '':'' # y" if "plain x" for x y
    using that by (induction x) (auto simp: plain_def)
  have e: "p @ CHR '':'' # (k @ CHR '':'' # kind) = q @ CHR '':'' # (l @ CHR '':'' # kind')"
    using assms(5) by (simp add: entry_key_def)
  have "p = q" using split(1) [OF assms(1)] split(1) [OF assms(2)] e by metis
  moreover have tail: "k @ CHR '':'' # kind = l @ CHR '':'' # kind'"
    using split(2) [OF assms(1)] split(2) [OF assms(2)] e by (metis list.inject)
  moreover have "kind = kind'"
    using arg_cong [OF tail, of last] assms(3,4) by auto
  ultimately show ?thesis by simp
qed

lemma find_order_Some: "find_order oid db = Some r \<Longrightarrow> r \<in> set (orders db) \<and> bo_id r = oid"
  by (auto simp: find_order_def dest: find_SomeD)

lemma set_order_status_simps [simp]:
  "inbox (set_order_status oid P s now db) = inbox db"
  "entitlements (set_order_status oid P s now db) = entitlements db"
  "bill_accounts (set_order_status oid P s now db) = bill_accounts db"
  "bill_ledger (set_order_status oid P s now db) = bill_ledger db"
  "bill_audits (set_order_status oid P s now db) = bill_audits db"
  by (simp_all add: set_order_status_def)

lemma unique_set_order_status [tbl]:
  "unique_by bo_id (orders (set_order_status oid P s now db)) = unique_by bo_id (orders db)"
  "unique_by bo_key (orders (set_order_status oid P s now db)) = unique_by bo_key (orders db)"
  by (simp_all add: set_order_status_def unique_by_update_where)

lemma grants_set_order_status [tbl]:
  "(\<forall>r\<in>set (orders (set_order_status oid P s now db)). 0 \<le> bo_grant r) = (\<forall>r\<in>set (orders db). 0 \<le> bo_grant r)"
  by (simp add: set_order_status_def ball_update_where if_distrib [of bo_grant] cong: if_cong)

lemma find_order_set_status:
  "find_order q (set_order_status oid P s now db) = map_option (\<lambda>r. if bo_id r = oid \<and> P (bo_status r)
     then r\<lparr>bo_status := s, ro_updated_at := now\<rparr> else r) (find_order q db)"
  by (simp add: find_order_def set_order_status_def find_update_where_same)

lemma order_status_set:
  "order_status q (set_order_status oid P s now db) = (if q = oid
     then map_option (\<lambda>t. if P t then s else t) (order_status q db) else order_status q db)"
  by (cases "find_order q db") (auto simp: order_status_def find_order_set_status dest: find_order_Some)

lemma granted_set_order_status:
  assumes "unique_by bo_id (orders db)" and "find_order oid db = Some o1"
  shows "granted a (orders (set_order_status oid P s now db)) = granted a (orders db)
    + (if P (bo_status o1) \<and> bo_account o1 = a
       then (if s = Pay_Succeeded then bo_grant o1 else 0) - (if bo_status o1 = Pay_Succeeded then bo_grant o1 else 0) else 0)"
proof -
  note o1 = find_order_Some [OF assms(2)]
  show ?thesis
  proof (cases "P (bo_status o1)")
    case True
    have "orders (set_order_status oid P s now db) = update_where (\<lambda>r. bo_id r = bo_id o1)
        (\<lambda>r. r\<lparr>bo_status := s, ro_updated_at := now\<rparr>) (orders db)"
      using update_where_guard [OF assms(1) conjunct1 [OF o1] conjunct2 [OF o1], where G = "\<lambda>r. P (bo_status r)"] True o1
      by (simp add: set_order_status_def)
    with True show ?thesis
      using sum_update_where [OF assms(1) conjunct1 [OF o1], of "grant_of a" "\<lambda>r. r\<lparr>bo_status := s, ro_updated_at := now\<rparr>"]
      by (simp add: granted_def grant_of_def)
  next
    case False
    have "\<And>r. r \<in> set (orders db) \<Longrightarrow> \<not> (bo_id r = oid \<and> P (bo_status r))"
      using False o1 unique_by_inj [OF assms(1)] by metis
    then have "orders (set_order_status oid P s now db) = orders db"
      by (simp add: set_order_status_def update_where_none)
    with False show ?thesis by simp
  qed
qed

lemma granted_append: "granted a (t @ [r]) = granted a t + grant_of a r"
  by (simp add: granted_def)

lemma bill_okD:
  assumes "bill_ok db"
  shows "bill_keys db" and "\<forall>r\<in>set (orders db). 0 \<le> bo_grant r" and "\<forall>i\<in>set (inbox db). plain (ib_provider i)"
    and "balance_of a (bill_accounts db) = granted a (orders db)" and "posted a (bill_ledger db) = granted a (orders db)"
  using assms unfolding bill_ok_def by auto

lemma bill_ok_entry:
  assumes "bill_ok db" and "e \<in> set (bill_ledger db)"
  shows "\<exists>i\<in>set (inbox db). \<exists>kind\<in>{''grant'', ''refund''}. be_key e = entry_key (ib_provider i) (ib_key i) kind"
  using assms unfolding bill_ok_def by (elim conjE) (erule (1) bspec)

lemma granted_nonneg: "\<forall>r\<in>set t. 0 \<le> bo_grant r \<Longrightarrow> 0 \<le> granted a t"
  by (induction t) (auto simp: granted_def grant_of_def)

lemma granted_covers:
  assumes "\<forall>r\<in>set t. 0 \<le> bo_grant r" and "r \<in> set t" and "bo_status r = Pay_Succeeded"
  shows "bo_grant r \<le> granted (bo_account r) t"
  using assms
proof (induction t)
  case (Cons q t)
  have "0 \<le> granted (bo_account r) t" using Cons.prems(1) by (intro granted_nonneg) simp
  with Cons show ?case by (auto simp: granted_def grant_of_def)
qed simp

lemma unique_put_entitlement [tbl]: "unique_by en_account (put_entitlement a p t) = unique_by en_account t"
  by (auto simp: put_entitlement_def unique_by_update_where unique_by_append)

lemma account_ensured: "\<exists>acc\<in>set (ensure_account a b t). acc_id acc = a"
  by (auto simp: ensure_account_def find_account_def dest: find_SomeD split: option.splits)

text \<open>A posting with a new key and identifier to an existing account that can bear it succeeds.\<close>

lemma post_entry_new:
  assumes "\<forall>e\<in>set (bill_ledger db). be_key e \<noteq> key \<and> be_id e \<noteq> uid" and "unique_by acc_id (bill_accounts db)"
    and "\<exists>acc\<in>set (bill_accounts db). acc_id acc = a" and "0 \<le> balance_of a (bill_accounts db) + amount"
  shows "post_entry uid now a amount key why db = Inr (db\<lparr>bill_accounts := add_balance a amount (bill_accounts db),
    bill_ledger := bill_ledger db @ [\<lparr>be_id = uid, be_account = a, be_amount = amount, be_key = key, be_reason = why,
      be_after = balance_of a (bill_accounts db) + amount, be_created_at = now\<rparr>]\<rparr>)"
proof -
  obtain acc where acc: "acc \<in> set (bill_accounts db)" "acc_id acc = a" using assms(3) by blast
  have "balance_of a (bill_accounts db) = acc_balance acc" using balance_of_eq [OF assms(2) acc(1)] acc(2) by simp
  then have m: "credit_matches a amount 0 acc" using acc(2) assms(4) by (simp add: credit_matches_def)
  have "row_count (credit_matches a amount 0) (bill_accounts db) \<le> 1"
    unfolding credit_matches_fun by (rule row_count_key_unique [OF assms(2)])
  then have one: "row_count (credit_matches a amount 0) (bill_accounts db) = 1"
    using row_count_pos [OF acc(1), of "credit_matches a amount 0"] m by linarith
  have upd: "update_where (credit_matches a amount 0) (\<lambda>x. x\<lparr>acc_balance := acc_balance x + amount\<rparr>) (bill_accounts db) =
      add_balance a amount (bill_accounts db)"
    using credit_as_add [OF assms(2) one] by blast
  have "\<not> (\<exists>e\<in>set (bill_ledger db). be_key e = key \<or> be_id e = uid)" using assms(1) by blast
  then show ?thesis
    using one assms(3) unfolding post_entry_def upd by (auto simp: Let_def balance_of_add_balance)
qed

lemma posted_append: "posted a (t @ [e]) = posted a t + (if be_account e = a then be_amount e else 0)"
  by (simp add: posted_def)

section \<open>Every operation keeps the invariant\<close>

lemma bill_ok_empty: "bill_ok empty_bill_db"
  by (simp add: bill_ok_def bill_keys_def empty_bill_db_def granted_def posted_def balance_of_def find_account_def)

lemma create_pending_order_ok:
  assumes "bill_ok db" and "0 \<le> co_grant req" and "create_pending_order req prov now db = Inr (x, db')"
  shows "bill_ok db' \<and> (\<forall>q s. order_status q db = Some s \<longrightarrow> order_status q db' = Some s)"
proof (cases "find (\<lambda>r. bo_key r = co_key req) (orders db)")
  case (Some r)
  with assms show ?thesis by (auto simp: create_pending_order_def split: if_splits)
next
  case None
  with assms(3) have new: "find_order (co_id req) db = None"
    by (auto simp: create_pending_order_def split: if_splits)
  with None assms(3) obtain row where row: "db' = db\<lparr>orders := orders db @ [row]\<rparr>"
    "bo_id row = co_id req" "bo_key row = co_key req" "bo_grant row = co_grant req" "bo_status row = Pay_Pending"
    by (auto simp: create_pending_order_def Let_def)
  have "order_status q db' = Some s" if "order_status q db = Some s" for q s
    using that row(1) by (auto simp: order_status_def find_order_def find_append)
  moreover have "bill_ok db'"
    using assms(1,2) None new row
    by (simp add: bill_ok_def bill_keys_def unique_by_append find_order_def find_None_iff_set granted_append)
      (simp add: grant_of_def)
  ultimately show ?thesis by blast
qed

lemma attach_checkout_ok:
  assumes "bill_ok db" and "attach_checkout oid prov r now db = Inr (x, db')"
  shows "bill_ok db' \<and> (\<forall>q. order_status q db' = order_status q db)"
proof -
  let ?f = "\<lambda>q. q\<lparr>bo_provider := Some prov, bo_reference := Some r, ro_updated_at := now\<rparr>"
  have db': "db' = db\<lparr>orders := update_where (\<lambda>q. bo_id q = oid) ?f (orders db)\<rparr>"
    using assms(2) by (auto simp: attach_checkout_def Let_def split: option.splits)
  have g: "granted a (update_where (\<lambda>q. bo_id q = oid) ?f t) = granted a t" for a t
    by (induction t) (auto simp: granted_def grant_of_def)
  have n: "(\<forall>q\<in>set (update_where (\<lambda>q. bo_id q = oid) ?f t). 0 \<le> bo_grant q) = (\<forall>q\<in>set t. 0 \<le> bo_grant q)" for t
    by (simp add: ball_update_where if_distrib [of bo_grant] cong: if_cong)
  have "order_status q db' = order_status q db" for q
    by (cases "find_order q db") (auto simp: db' order_status_def find_order_def find_update_where_same)
  moreover have "bill_ok db'"
    using assms(1) unfolding bill_ok_def bill_keys_def db' by (simp add: unique_by_update_where g n)
  ultimately show ?thesis by blast
qed

text \<open>Paying and refunding are the same movement of an order, its account and the ledger.\<close>

lemma move_order_ok:
  assumes ok: "bill_ok db" and o1: "find_order oid db = Some o1" and P: "P (bo_status o1)"
    and delta: "d = (if s = Pay_Succeeded then bo_grant o1 else 0) - (if bo_status o1 = Pay_Succeeded then bo_grant o1 else 0)"
    and new: "\<forall>i\<in>set (inbox db). \<not> (ib_provider i = prov \<and> ib_key i = k)" and plain: "plain prov"
    and kind: "kind \<in> {''grant'', ''refund''}" and uid: "\<forall>e\<in>set (bill_ledger db). be_id e \<noteq> uid"
    and i: "ib_provider i = prov" "ib_key i = k" "\<forall>j\<in>set (inbox db). \<not> (ib_provider j = prov \<and> ib_event j = ib_event i)"
    and db2_def: "db2 = (set_order_status oid P s now (db\<lparr>inbox := inbox db @ [i]\<rparr>))
      \<lparr>entitlements := put_entitlement (bo_account o1) plan (entitlements db),
       bill_accounts := ensure_account (bo_account o1) 0 (bill_accounts db)\<rparr>"
  shows "\<exists>db3. post_entry uid now (bo_account o1) d (entry_key prov k kind) why db2 = Inr db3 \<and> bill_ok db3
    \<and> bill_audits db3 = bill_audits db \<and> inbox db3 = inbox db @ [i] \<and> orders db3 = orders db2"
proof -
  let ?a = "bo_account o1" and ?accs = "ensure_account (bo_account o1) 0 (bill_accounts db)"
  note o1' = find_order_Some [OF o1]
  have keys: "bill_keys db" "unique_by acc_id ?accs" "unique_by bo_id (orders db)"
    using ok by (auto simp: bill_ok_def bill_keys_def unique_ensure_account)
  have bal: "balance_of a ?accs = granted a (orders db)" "balance_of a ?accs = posted a (bill_ledger db)" for a
    using bill_okD(4,5) [OF ok] by (simp_all add: balance_of_ensure_zero)
  have fresh: "be_key e \<noteq> entry_key prov k kind" if mem: "e \<in> set (bill_ledger db)" for e
  proof
    assume e: "be_key e = entry_key prov k kind"
    obtain j kind' where j: "j \<in> set (inbox db)" "kind' \<in> {''grant'', ''refund''}"
      "be_key e = entry_key (ib_provider j) (ib_key j) kind'"
      using bill_ok_entry [OF ok mem] by (elim bexE)
    have "plain (ib_provider j)" using ok j(1) by (simp add: bill_ok_def)
    then have "prov = ib_provider j \<and> k = ib_key j"
      using entry_key_inj [OF plain _ kind j(2)] trans [OF e [symmetric] j(3)] by blast
    with j(1) new show False by metis
  qed
  have "0 \<le> granted ?a (orders db)" using ok by (intro granted_nonneg) (simp add: bill_ok_def)
  moreover have "bo_status o1 = Pay_Succeeded \<Longrightarrow> bo_grant o1 \<le> granted ?a (orders db)"
    using ok o1' by (intro granted_covers) (auto simp: bill_ok_def)
  moreover have "0 \<le> bo_grant o1" using ok o1' by (simp add: bill_ok_def)
  ultimately have pos: "0 \<le> balance_of ?a ?accs + d" unfolding bal delta by auto
  let ?e = "\<lparr>be_id = uid, be_account = ?a, be_amount = d, be_key = entry_key prov k kind, be_reason = why,
      be_after = balance_of ?a ?accs + d, be_created_at = now\<rparr>"
  let ?db3 = "db2\<lparr>bill_accounts := add_balance ?a d ?accs, bill_ledger := bill_ledger db @ [?e]\<rparr>"
  have post: "post_entry uid now ?a d (entry_key prov k kind) why db2 = Inr ?db3"
    using post_entry_new [of db2 "entry_key prov k kind" uid ?a d now why] fresh uid keys(2) account_ensured [of ?a 0] pos
    by (simp add: db2_def)
  have k3: "bill_keys ?db3"
    unfolding bill_keys_def
  proof (intro conjI)
    show "unique_by (\<lambda>j. (ib_provider j, ib_event j)) (inbox ?db3)"
      using keys(1) i by (simp add: bill_keys_def db2_def unique_by_append)
    show "unique_by (\<lambda>j. (ib_provider j, ib_key j)) (inbox ?db3)"
      using keys(1) i(1,2) new by (simp add: bill_keys_def db2_def unique_by_append)
    show "unique_by be_key (bill_ledger ?db3)"
      using keys(1) fresh by (simp add: bill_keys_def unique_by_append)
    show "unique_by be_id (bill_ledger ?db3)"
      using keys(1) uid by (simp add: bill_keys_def unique_by_append)
  qed (use keys in \<open>simp_all add: bill_keys_def db2_def unique_set_order_status unique_put_entitlement unique_add_balance\<close>)
  have g2: "granted a (orders db2) = granted a (orders db) + (if ?a = a then d else 0)" for a
  proof -
    have "find_order oid (db\<lparr>inbox := inbox db @ [i]\<rparr>) = Some o1" using o1 by (simp add: find_order_def)
    from granted_set_order_status [OF _ this, of a P s now] keys(3) P delta show ?thesis
      by (simp add: db2_def)
  qed
  have "balance_of a (bill_accounts ?db3) = granted a (orders ?db3)" "posted a (bill_ledger ?db3) = granted a (orders ?db3)" for a
    by (simp_all add: balance_of_add_balance bal(1) posted_append bill_okD(5) [OF ok] g2 account_ensured)
  note k3 this
  moreover have "\<forall>r\<in>set (orders ?db3). 0 \<le> bo_grant r"
    using bill_okD(2) [OF ok] by (simp add: db2_def grants_set_order_status)
  moreover have "\<forall>j\<in>set (inbox ?db3). plain (ib_provider j)"
    using bill_okD(3) [OF ok] i(1) plain by (simp add: db2_def)
  moreover have "\<forall>e\<in>set (bill_ledger ?db3). \<exists>j\<in>set (inbox ?db3). \<exists>kind\<in>{''grant'', ''refund''}.
      be_key e = entry_key (ib_provider j) (ib_key j) kind"
  proof
    fix e assume "e \<in> set (bill_ledger ?db3)"
    then have "e \<in> set (bill_ledger db) \<or> e = ?e" by auto
    then show "\<exists>j\<in>set (inbox ?db3). \<exists>kind\<in>{''grant'', ''refund''}. be_key e = entry_key (ib_provider j) (ib_key j) kind"
    proof
      assume mem: "e \<in> set (bill_ledger db)"
      obtain j k' where "j \<in> set (inbox db)" "k' \<in> {''grant'', ''refund''}" "be_key e = entry_key (ib_provider j) (ib_key j) k'"
        using bill_ok_entry [OF ok mem] by (elim bexE)
      then show ?thesis by (intro bexI [of _ j] bexI [of _ k']) (simp_all add: db2_def)
    next
      assume "e = ?e"
      then show ?thesis using i(1,2) kind by (intro bexI [of _ i] bexI [of _ kind]) (simp_all add: db2_def)
    qed
  qed
  ultimately have "bill_ok ?db3" unfolding bill_ok_def by (intro conjI allI)
  then show ?thesis
    using post by (intro exI [of _ ?db3]) (simp add: db2_def)
qed

section \<open>Processing an event\<close>

text \<open>The abstract order: what an event does to the status of its order.\<close>

fun next_status :: "pay_status \<Rightarrow> pay_status \<Rightarrow> pay_status" where
  "next_status Pay_Pending Pay_Succeeded = Pay_Succeeded"
| "next_status Pay_Unknown Pay_Succeeded = Pay_Succeeded"
| "next_status Pay_Succeeded Pay_Refunded = Pay_Refunded"
| "next_status Pay_Pending s = s"
| "next_status t s = t"

lemma bill_ok_audit:
  assumes "bill_ok db" and "\<forall>q\<in>set (bill_audits db). ba_id q \<noteq> ba_id a"
  shows "bill_ok (db\<lparr>bill_audits := bill_audits db @ [a]\<rparr>)"
  using assms unfolding bill_ok_def bill_keys_def by (simp add: unique_by_append)

lemma bill_ok_mark:
  assumes "bill_ok db"
  shows "bill_ok (db\<lparr>inbox := update_where P (\<lambda>i. i\<lparr>ib_status := st, ib_applied := True\<rparr>) (inbox db)\<rparr>)"
proof -
  have same: "ib_provider (if P i then i\<lparr>ib_status := st, ib_applied := True\<rparr> else i) = ib_provider i"
    "ib_key (if P i then i\<lparr>ib_status := st, ib_applied := True\<rparr> else i) = ib_key i" for i
    by simp_all
  show ?thesis
    using assms unfolding bill_ok_def bill_keys_def
    by (simp add: unique_by_update_where bex_update_where ball_update_where same)
qed

lemma order_status_frame: "orders db' = orders db \<Longrightarrow> order_status q db' = order_status q db"
  by (simp add: order_status_def find_order_def)

lemma order_status_updates [simp]:
  "order_status q (db\<lparr>bill_audits := x\<rparr>) = order_status q db" "order_status q (db\<lparr>inbox := y\<rparr>) = order_status q db"
  by (simp_all add: order_status_def find_order_def)

lemma apply_event_ok:
  assumes ok: "bill_ok db" and plain: "plain (pe_provider ev)"
    and o1: "find_order (pe_order ev) db = Some o1"
    and i: "ib_provider i = pe_provider ev" "ib_event i = pe_event ev" "ib_key i = pe_key ev"
    and new: "\<forall>j\<in>set (inbox db). \<not> (ib_provider j = pe_provider ev \<and> (ib_event j = pe_event ev \<or> ib_key j = pe_key ev))"
    and uid: "\<forall>e\<in>set (bill_ledger db). be_id e \<noteq> uid" and aid: "\<forall>q\<in>set (bill_audits db). ba_id q \<noteq> aid"
  shows "\<exists>db'. apply_event uid aid now ev o1 (db\<lparr>inbox := inbox db @ [i]\<rparr>) =
      Inr (bo_status o1 \<noteq> next_status (bo_status o1) (pe_status ev) \<and> pe_status ev \<in> {Pay_Succeeded, Pay_Refunded}
           \<and> (pe_status ev = Pay_Refunded \<longrightarrow> bo_status o1 = Pay_Succeeded), db')
    \<and> bill_ok db' \<and> (\<forall>q. order_status q db' = (if q = pe_order ev then Some (next_status (bo_status o1) (pe_status ev)) else order_status q db))"
proof -
  let ?db1 = "db\<lparr>inbox := inbox db @ [i]\<rparr>"
  have st: "order_status (pe_order ev) db = Some (bo_status o1)" "order_status q ?db1 = order_status q db" for q
    using o1 by (simp_all add: order_status_def find_order_def)
  have audit: "bill_audit aid now act a b c db3 = Inr (db3\<lparr>bill_audits := bill_audits db3 @ [\<lparr>ba_id = aid, ba_action = act,
      ba_target = a, ba_before = b, ba_after = c, ba_occurred_at = now\<rparr>]\<rparr>)" if "bill_audits db3 = bill_audits db" for act a b c db3
    using aid that by (auto simp: bill_audit_def)
  have move: "\<exists>db3. post_entry uid now (bo_account o1) d (entry_key (pe_provider ev) (pe_key ev) kind) why
        ((set_order_status (pe_order ev) P s now ?db1)\<lparr>entitlements := put_entitlement (bo_account o1) plan (entitlements db),
          bill_accounts := ensure_account (bo_account o1) 0 (bill_accounts db)\<rparr>) = Inr db3
      \<and> bill_ok db3 \<and> bill_audits db3 = bill_audits db \<and> orders db3 = orders (set_order_status (pe_order ev) P s now ?db1)"
    if "P (bo_status o1)" "kind \<in> {''grant'', ''refund''}"
      "d = (if s = Pay_Succeeded then bo_grant o1 else 0) - (if bo_status o1 = Pay_Succeeded then bo_grant o1 else 0)"
    for P s kind d plan why
    using move_order_ok [where P = P and s = s and d = d and kind = kind and uid = uid and now = now and plan = plan and why = why
        and i = i, OF ok o1 that(1,3) _ plain that(2) uid i(1,3) _ refl] new i(2) by auto
  show ?thesis
  proof (cases "pe_status ev = Pay_Succeeded \<and> bo_status o1 \<in> {Pay_Pending, Pay_Unknown}")
    case True
    have "\<exists>db3. post_entry uid now (bo_account o1) (bo_grant o1) (entry_key (pe_provider ev) (pe_key ev) ''grant'')
        (''payment '' @ pe_order ev) ((set_order_status (pe_order ev) (\<lambda>s. s \<in> {Pay_Pending, Pay_Unknown}) Pay_Succeeded now ?db1)
        \<lparr>entitlements := put_entitlement (bo_account o1) (bo_plan o1) (entitlements db),
          bill_accounts := ensure_account (bo_account o1) 0 (bill_accounts db)\<rparr>) = Inr db3
      \<and> bill_ok db3 \<and> bill_audits db3 = bill_audits db
      \<and> orders db3 = orders (set_order_status (pe_order ev) (\<lambda>s. s \<in> {Pay_Pending, Pay_Unknown}) Pay_Succeeded now ?db1)"
      by (rule move) (use True in auto)
    then obtain db3 where db3: "post_entry uid now (bo_account o1) (bo_grant o1) (entry_key (pe_provider ev) (pe_key ev) ''grant'')
        (''payment '' @ pe_order ev) ((set_order_status (pe_order ev) (\<lambda>s. s \<in> {Pay_Pending, Pay_Unknown}) Pay_Succeeded now ?db1)
        \<lparr>entitlements := put_entitlement (bo_account o1) (bo_plan o1) (entitlements db),
          bill_accounts := ensure_account (bo_account o1) 0 (bill_accounts db)\<rparr>) = Inr db3"
      "bill_ok db3" "bill_audits db3 = bill_audits db"
      "orders db3 = orders (set_order_status (pe_order ev) (\<lambda>s. s \<in> {Pay_Pending, Pay_Unknown}) Pay_Succeeded now ?db1)"
      by (elim exE conjE)
    have "order_status q db3 = (if q = pe_order ev then Some Pay_Succeeded else order_status q db)" for q
      using order_status_frame [OF db3(4)] True st by (auto simp: order_status_set)
    then show ?thesis
      using True db3 bill_ok_audit [OF db3(2)] aid
      by (auto simp: apply_event_def apply_success_def Let_def audit)
  next
    case notsucc: False
    show ?thesis
    proof (cases "pe_status ev = Pay_Refunded \<and> bo_status o1 = Pay_Succeeded")
      case True
      have "\<exists>db3. post_entry uid now (bo_account o1) (- bo_grant o1) (entry_key (pe_provider ev) (pe_key ev) ''refund'')
          (''refund '' @ pe_order ev) ((set_order_status (pe_order ev) (\<lambda>s. s = Pay_Succeeded) Pay_Refunded now ?db1)
          \<lparr>entitlements := put_entitlement (bo_account o1) ''free'' (entitlements db),
            bill_accounts := ensure_account (bo_account o1) 0 (bill_accounts db)\<rparr>) = Inr db3
        \<and> bill_ok db3 \<and> bill_audits db3 = bill_audits db
        \<and> orders db3 = orders (set_order_status (pe_order ev) (\<lambda>s. s = Pay_Succeeded) Pay_Refunded now ?db1)"
        by (rule move) (use True in auto)
      then obtain db3 where db3: "post_entry uid now (bo_account o1) (- bo_grant o1) (entry_key (pe_provider ev) (pe_key ev) ''refund'')
          (''refund '' @ pe_order ev) ((set_order_status (pe_order ev) (\<lambda>s. s = Pay_Succeeded) Pay_Refunded now ?db1)
          \<lparr>entitlements := put_entitlement (bo_account o1) ''free'' (entitlements db),
            bill_accounts := ensure_account (bo_account o1) 0 (bill_accounts db)\<rparr>) = Inr db3"
        "bill_ok db3" "bill_audits db3 = bill_audits db"
        "orders db3 = orders (set_order_status (pe_order ev) (\<lambda>s. s = Pay_Succeeded) Pay_Refunded now ?db1)"
        by (elim exE conjE)
      have "order_status q db3 = (if q = pe_order ev then Some Pay_Refunded else order_status q db)" for q
        using order_status_frame [OF db3(4)] True st by (auto simp: order_status_set)
      then show ?thesis
        using True db3 bill_ok_audit [OF db3(2)] aid
        by (auto simp: apply_event_def apply_refund_def Let_def audit)
    next
      case False
      let ?db' = "set_order_status (pe_order ev) (\<lambda>s. s = Pay_Pending) (pe_status ev) now ?db1"
      have nx: "next_status (bo_status o1) (pe_status ev) = (if bo_status o1 = Pay_Pending then pe_status ev else bo_status o1)"
        using notsucc False by (cases "bo_status o1"; cases "pe_status ev") auto
      have ap: "apply_event uid aid now ev o1 ?db1 = Inr (False, ?db')"
        using notsucc False by (auto simp: apply_event_def)
      have "granted a (orders ?db') = granted a (orders db)" for a
        using granted_set_order_status [of ?db1 "pe_order ev" o1 a "\<lambda>s. s = Pay_Pending" "pe_status ev" now] o1 notsucc ok
        by (auto simp: find_order_def bill_ok_def bill_keys_def)
      moreover have "unique_by (\<lambda>j. (ib_provider j, ib_event j)) (inbox db @ [i])" "unique_by (\<lambda>j. (ib_provider j, ib_key j)) (inbox db @ [i])"
        using ok new i by (auto simp: bill_ok_def bill_keys_def unique_by_append)
      ultimately have "bill_ok ?db'"
        using ok plain i(1) unfolding bill_ok_def bill_keys_def
        by (simp add: unique_set_order_status grants_set_order_status)
      moreover have "order_status q ?db' = (if q = pe_order ev then Some (next_status (bo_status o1) (pe_status ev)) else order_status q db)" for q
        using st nx by (auto simp: order_status_set)
      ultimately show ?thesis
        using ap nx notsucc False by (intro exI [of _ ?db']) auto
    qed
  qed
qed

lemma post_entry_inbox: "post_entry uid now a n k why db = Inr db' \<Longrightarrow> inbox db' = inbox db"
  by (auto simp: post_entry_def Let_def split: if_splits)

lemma bill_audit_inbox: "bill_audit uid now act a b c db = Inr db' \<Longrightarrow> inbox db' = inbox db"
  by (auto simp: bill_audit_def split: if_splits)

lemma apply_event_inbox:
  assumes "apply_event uid aid now ev o1 db = Inr (b, db')"
  shows "inbox db' = inbox db"
proof -
  have "inbox d' = inbox db" if "apply_success uid aid now ev o1 db = Inr d'" for d'
    using that by (auto simp: apply_success_def Let_def split: sum.splits dest!: post_entry_inbox bill_audit_inbox)
  moreover have "inbox d' = inbox db" if "apply_refund uid aid now ev o1 db = Inr d'" for d'
    using that by (auto simp: apply_refund_def Let_def split: sum.splits dest!: post_entry_inbox bill_audit_inbox)
  ultimately show ?thesis
    using assms by (auto simp: apply_event_def map_sum_def split: if_splits sum.splits)
qed

definition is_duplicate :: "pay_event \<Rightarrow> bill_db \<Rightarrow> bool" where
  "is_duplicate ev db \<longleftrightarrow> (\<exists>i\<in>set (inbox db). ib_provider i = pe_provider ev \<and> (ib_event i = pe_event ev \<or> ib_key i = pe_key ev))"

definition recorded :: "pay_event \<Rightarrow> bill_db \<Rightarrow> bool" where
  "recorded ev db \<longleftrightarrow> (\<exists>i\<in>set (inbox db). ib_provider i = pe_provider ev \<and> ib_event i = pe_event ev \<and> ib_key i = pe_key ev)"

lemma recorded_duplicate:
  "recorded ev db \<Longrightarrow> pe_provider ev' = pe_provider ev \<Longrightarrow> pe_event ev' = pe_event ev \<or> pe_key ev' = pe_key ev \<Longrightarrow> is_duplicate ev' db"
  by (auto simp: recorded_def is_duplicate_def)

definition fresh_ids :: "string \<Rightarrow> string \<Rightarrow> bill_db \<Rightarrow> bool" where
  "fresh_ids uid aid db \<longleftrightarrow> (\<forall>e\<in>set (bill_ledger db). be_id e \<noteq> uid) \<and> (\<forall>q\<in>set (bill_audits db). ba_id q \<noteq> aid)"

lemma process_duplicate:
  assumes "is_duplicate ev db"
  shows "\<exists>r. process_event ev body hs uid aid now db = Inr (r, db) \<and> \<not> pr_applied r"
proof -
  obtain i where "find (\<lambda>i. ib_provider i = pe_provider ev \<and> (ib_event i = pe_event ev \<or> ib_key i = pe_key ev)) (inbox db) = Some i"
    using assms by (cases "find (\<lambda>i. ib_provider i = pe_provider ev \<and> (ib_event i = pe_event ev \<or> ib_key i = pe_key ev)) (inbox db)")
      (auto simp: is_duplicate_def find_None_iff_set)
  then show ?thesis by (simp add: process_event_def)
qed

lemma process_new:
  assumes "bill_ok db" and "plain (pe_provider ev)" and "\<not> is_duplicate ev db" and o1: "find_order (pe_order ev) db = Some o1"
    and "pe_amount ev \<in> {None, Some (bo_amount o1)}" and "fresh_ids uid aid db"
  shows "\<exists>r db'. process_event ev body hs uid aid now db = Inr (r, db') \<and> bill_ok db' \<and> recorded ev db'
    \<and> (\<forall>q. order_status q db' = (if q = pe_order ev then Some (next_status (bo_status o1) (pe_status ev)) else order_status q db))"
proof -
  define i where "i = \<lparr>ib_provider = pe_provider ev, ib_event = pe_event ev, ib_key = pe_key ev, ib_body = body, ib_headers = hs,
    ib_normalized = pay_event_dict ev, ib_status = ''received'', ib_applied = False, ib_received_at = now\<rparr>"
  have none: "find (\<lambda>i. ib_provider i = pe_provider ev \<and> (ib_event i = pe_event ev \<or> ib_key i = pe_key ev)) (inbox db) = None"
    using assms(3) by (simp add: is_duplicate_def find_None_iff_set)
  obtain b db2 where b: "apply_event uid aid now ev o1 (db\<lparr>inbox := inbox db @ [i]\<rparr>) = Inr (b, db2)" "bill_ok db2"
    "\<And>q. order_status q db2 = (if q = pe_order ev then Some (next_status (bo_status o1) (pe_status ev)) else order_status q db)"
    using apply_event_ok [OF assms(1,2) o1, of i uid aid now] assms(3,6) by (auto simp: i_def is_duplicate_def fresh_ids_def)
  let ?f = "\<lambda>i. i\<lparr>ib_status := pay_status_name (pe_status ev), ib_applied := True\<rparr>"
  let ?db' = "db2\<lparr>inbox := update_where (\<lambda>i. ib_provider i = pe_provider ev \<and> ib_event i = pe_event ev) ?f (inbox db2)\<rparr>"
  have "\<exists>r. process_event ev body hs uid aid now db = Inr (r, ?db')"
    using none o1 assms(5) b(1) unfolding process_event_def i_def by auto
  moreover have "bill_ok ?db'" by (rule bill_ok_mark [OF b(2)])
  moreover have "i \<in> set (inbox db2)"
    using apply_event_inbox [OF b(1)] by simp
  then have "recorded ev ?db'"
    unfolding recorded_def by (simp add: bex_update_where) (auto simp: i_def intro!: bexI [of _ i])
  ultimately show ?thesis using b(3) by auto
qed

text \<open>One step of the store: a call that returned, with new identifiers and a provider name without a colon.\<close>

inductive bill_step :: "bill_db \<Rightarrow> bill_db \<Rightarrow> bool" where
  do_order: "0 \<le> co_grant req \<Longrightarrow> create_pending_order req prov now db = Inr (x, db') \<Longrightarrow> bill_step db db'"
| do_checkout: "attach_checkout oid prov r now db = Inr (x, db') \<Longrightarrow> bill_step db db'"
| do_event: "plain (pe_provider ev) \<Longrightarrow> fresh_ids uid aid db \<Longrightarrow>
     process_event ev body hs uid aid now db = Inr (r, db') \<Longrightarrow> bill_step db db'"

lemma process_event_cases:
  assumes "process_event ev body hs uid aid now db = Inr (r, db')" and "bill_ok db" and "plain (pe_provider ev)" and "fresh_ids uid aid db"
  shows "bill_ok db' \<and> (\<forall>q s. order_status q db = Some s \<longrightarrow>
    order_status q db' = Some s \<or> order_status q db' = Some (next_status s (pe_status ev)))"
proof (cases "is_duplicate ev db")
  case True
  with assms process_duplicate [OF True, of body hs uid aid now] show ?thesis by auto
next
  case False
  then have none: "find (\<lambda>i. ib_provider i = pe_provider ev \<and> (ib_event i = pe_event ev \<or> ib_key i = pe_key ev)) (inbox db) = None"
    by (simp add: is_duplicate_def find_None_iff_set)
  with assms(1) obtain o1 where o1: "find_order (pe_order ev) db = Some o1" "pe_amount ev \<in> {None, Some (bo_amount o1)}"
    by (auto simp: process_event_def split: option.splits if_splits)
  from process_new [OF assms(2,3) False o1 assms(4), of body hs now] assms(1) o1(1) show ?thesis
    by (auto simp: order_status_def)
qed

lemma bill_step_ok: "bill_step db db' \<Longrightarrow> bill_ok db \<Longrightarrow> bill_ok db'"
  by (induction rule: bill_step.induct) (auto dest: create_pending_order_ok attach_checkout_ok process_event_cases)

definition pay_allowed :: "pay_status \<Rightarrow> pay_status \<Rightarrow> bool" where
  "pay_allowed s t \<longleftrightarrow> t \<noteq> s \<and> (\<exists>e. t = next_status s e)"

interpretation order_life: lifecycle "\<lambda>db oid. order_status oid db" bill_step pay_allowed bill_ok
proof (unfold_locales, goal_cases)
  case (1 d d')
  then show ?case by (blast intro: bill_step_ok)
next
  case (2 d d' k s)
  from 2(2,1,3) show ?case
  proof (induction rule: bill_step.induct)
    case (do_order req prov now db x db')
    then show ?case using create_pending_order_ok by blast
  next
    case (do_checkout oid prov r now db x db')
    then show ?case using attach_checkout_ok by metis
  next
    case (do_event ev uid aid db body hs now r db')
    with process_event_cases [OF do_event(3,4,1,2)] show ?case by (metis pay_allowed_def)
  qed
qed

lemma bill_step_recorded: "bill_step db db' \<Longrightarrow> recorded ev db \<Longrightarrow> recorded ev db'"
proof (induction rule: bill_step.induct)
  case (do_order req prov now db x db')
  then show ?case
    by (auto simp: create_pending_order_def recorded_def Let_def split: option.splits if_splits)
next
  case (do_checkout oid prov r now db x db')
  then show ?case by (auto simp: attach_checkout_def recorded_def Let_def split: option.splits)
next
  case (do_event e uid aid db body hs now r db')
  have "inbox db' = inbox db \<or> (\<exists>i P st. inbox db' =
      update_where P (\<lambda>i. i\<lparr>ib_status := st, ib_applied := True\<rparr>) (inbox db @ [i]))"
    using do_event(3) unfolding process_event_def
    by (auto simp: Let_def simp del: update_where_append split: option.splits if_splits sum.splits dest!: apply_event_inbox) blast+
  then show ?case
    using do_event(4) by (auto simp: recorded_def bex_update_where if_distrib [of ib_provider] if_distrib [of ib_event]
        if_distrib [of ib_key] cong: if_cong)
qed

lemma bill_steps_recorded: "bill_step\<^sup>*\<^sup>* db db' \<Longrightarrow> recorded ev db \<Longrightarrow> recorded ev db'"
  by (induction rule: rtranclp_induct) (auto dest: bill_step_recorded)

lemma process_event_recorded:
  assumes "process_event ev body hs uid aid now db = Inr (r, db')" and "bill_ok db" and "plain (pe_provider ev)" and "fresh_ids uid aid db"
    and "\<not> is_duplicate ev db"
  shows "recorded ev db'"
proof -
  have none: "find (\<lambda>i. ib_provider i = pe_provider ev \<and> (ib_event i = pe_event ev \<or> ib_key i = pe_key ev)) (inbox db) = None"
    using assms(5) by (simp add: is_duplicate_def find_None_iff_set)
  with assms(1) obtain o1 where o1: "find_order (pe_order ev) db = Some o1" "pe_amount ev \<in> {None, Some (bo_amount o1)}"
    by (auto simp: process_event_def split: option.splits if_splits)
  from process_new [OF assms(2,3,5) o1(1,2) assms(4), of body hs now] assms(1) show ?thesis by auto
qed

section \<open>Correctness\<close>

text \<open>An example: one paid order.\<close>

definition demo_order :: create_order where
  "demo_order = \<lparr>co_id = ''order-1'', co_tenant = ''t'', co_account = ''acct'', co_plan = ''pro'', co_amount = 990,
     co_currency = ''USD'', co_grant = 50, co_key = ''key-0001''\<rparr>"

definition demo_event :: "string \<Rightarrow> pay_status \<Rightarrow> pay_event" where
  "demo_event eid s = \<lparr>pe_provider = ''mock'', pe_event = eid, pe_type = ''payment'', pe_status = s, pe_order = ''order-1'',
     pe_time = ''now'', pe_test = True, pe_key = eid, pe_amount = Some 990, pe_metadata = []\<rparr>"

definition demo_db :: bill_db where
  "demo_db = (case create_pending_order demo_order ''mock'' ''now'' empty_bill_db of Inl _ \<Rightarrow> empty_bill_db | Inr (x, db) \<Rightarrow> db)"

definition demo_paid :: bill_db where
  "demo_paid = (case process_event (demo_event ''event-01'' Pay_Succeeded) ''b'' [] ''u1'' ''a1'' ''now'' demo_db of
     Inl _ \<Rightarrow> demo_db | Inr (r, db) \<Rightarrow> db)"

lemma demo_db_reached: "bill_step\<^sup>*\<^sup>* empty_bill_db demo_db"
proof -
  obtain x db where x: "create_pending_order demo_order ''mock'' ''now'' empty_bill_db = Inr (x, db)"
    by (rule run_obtain [where m = "create_pending_order demo_order ''mock'' ''now'' empty_bill_db" and Q = "\<lambda>_ _. True"]) code_simp
  moreover have "0 \<le> co_grant demo_order" by (simp add: demo_order_def)
  ultimately have "bill_step empty_bill_db db" by (blast intro: bill_step.do_order)
  with x show ?thesis by (simp add: demo_db_def r_into_rtranclp)
qed

lemma demo_db_shape:
  "is_duplicate (demo_event ''event-01'' Pay_Succeeded) demo_db = False" "plain (pe_provider (demo_event eid s))"
  "fresh_ids ''u1'' ''a1'' demo_db" "order_status ''order-1'' demo_db = Some Pay_Pending"
  by (code_simp, simp add: demo_event_def plain_def, code_simp, code_simp)

lemma demo_db_ok: "bill_ok demo_db"
  by (rule order_life.ok_steps [OF demo_db_reached bill_ok_empty])

lemma demo_paid_call: "\<exists>r. process_event (demo_event ''event-01'' Pay_Succeeded) ''b'' [] ''u1'' ''a1'' ''now'' demo_db = Inr (r, demo_paid)"
proof -
  obtain r db where "process_event (demo_event ''event-01'' Pay_Succeeded) ''b'' [] ''u1'' ''a1'' ''now'' demo_db = Inr (r, db)"
    by (rule run_obtain [where m = "process_event (demo_event ''event-01'' Pay_Succeeded) ''b'' [] ''u1'' ''a1'' ''now'' demo_db" and Q = "\<lambda>_ _. True"]) code_simp
  then show ?thesis by (simp add: demo_paid_def)
qed

lemma demo_paid_reached: "bill_step\<^sup>*\<^sup>* empty_bill_db demo_paid"
proof -
  obtain r where "process_event (demo_event ''event-01'' Pay_Succeeded) ''b'' [] ''u1'' ''a1'' ''now'' demo_db = Inr (r, demo_paid)"
    using demo_paid_call by blast
  then have "bill_step demo_db demo_paid"
    by (rule bill_step.do_event [OF demo_db_shape(2,3)])
  with demo_db_reached show ?thesis by (rule rtranclp.rtrancl_into_rtrancl)
qed

definition order_map :: "bill_db \<Rightarrow> string \<Rightarrow> pay_status option" where
  "order_map db = (\<lambda>oid. order_status oid db)"

text \<open>
  C14. The store refines the order state machine. On a consistent store an event is answered by
  exactly one of four outcomes: an event already in the inbox (same provider, same event id or same
  key) changes nothing; an unknown order and a wrong amount are refused; every other event returns,
  is recorded in the inbox, and acts on the abstract map from orders to statuses as one step of
  \<open>next_status\<close> at its order. In particular neither the ledger's unique key nor the
  balance check can make a valid event fail.
\<close>
theorem event_refines_order_machine:
  assumes "bill_ok db" and "plain (pe_provider ev)" and "fresh_ids uid aid db"
  shows "if is_duplicate ev db then \<exists>r. process_event ev body hs uid aid now db = Inr (r, db) \<and> \<not> pr_applied r
    else case find_order (pe_order ev) db of
      None \<Rightarrow> process_event ev body hs uid aid now db = Inl (UnknownOrder (pe_order ev))
    | Some o1 \<Rightarrow> if pe_amount ev \<in> {None, Some (bo_amount o1)}
        then \<exists>r db'. process_event ev body hs uid aid now db = Inr (r, db') \<and> bill_ok db' \<and> recorded ev db'
          \<and> order_map db' = (order_map db)(pe_order ev \<mapsto> next_status (bo_status o1) (pe_status ev))
        else process_event ev body hs uid aid now db =
          Inl (OrderConflict ''provider amount does not match the pending order'')"
proof (cases "is_duplicate ev db")
  case True
  then show ?thesis by (simp add: process_duplicate)
next
  case False
  then have none: "find (\<lambda>i. ib_provider i = pe_provider ev \<and> (ib_event i = pe_event ev \<or> ib_key i = pe_key ev)) (inbox db) = None"
    by (simp add: is_duplicate_def find_None_iff_set)
  show ?thesis
  proof (cases "find_order (pe_order ev) db")
    case None
    with none False show ?thesis by (simp add: process_event_def)
  next
    case (Some o1)
    show ?thesis
    proof (cases "pe_amount ev \<in> {None, Some (bo_amount o1)}")
      case True
      from process_new [OF assms(1,2) False Some True assms(3), of body hs now] False True Some show ?thesis
        by (simp add: order_map_def) (metis (no_types, lifting) fun_upd_apply ext)
    next
      case bad: False
      with none Some False show ?thesis by (auto simp: process_event_def)
    qed
  qed
qed

theorem event_refines_order_machine_witness:
  "\<exists>r db'. process_event (demo_event ''event-01'' Pay_Succeeded) ''b'' [] ''u1'' ''a1'' ''now'' demo_db = Inr (r, db')
     \<and> order_map db' ''order-1'' = Some Pay_Succeeded"
proof -
  obtain o1 where o1: "find_order ''order-1'' demo_db = Some o1" "bo_status o1 = Pay_Pending" "bo_amount o1 = 990"
    by (rule value_obtain [where m = "case find_order ''order-1'' demo_db of None \<Rightarrow> Inl (KeyError []) | Some o1 \<Rightarrow> Inr o1"
      and Q = "\<lambda>o1. bo_status o1 = Pay_Pending \<and> bo_amount o1 = 990"]) (code_simp, auto split: option.splits)
  from event_refines_order_machine [OF demo_db_ok demo_db_shape(2) demo_db_shape(3), of "''event-01''" Pay_Succeeded "''b''" "[]" "''now''"] o1
  show ?thesis using demo_db_shape(1) by (auto simp: demo_event_def)
qed

lemma bill_balance_of: "bill_balance a db = balance_of a (bill_accounts db)"
  by (simp add: bill_balance_def balance_of_def)



text \<open>
  C16. Once an event has been accepted the provider may deliver it again any number of times, at any
  later time, with the same event id or under a new id with the same idempotency key: the later
  deliveries are reported as not applied and leave the whole store as it is.
\<close>
theorem redelivery_changes_nothing:
  assumes "bill_step\<^sup>*\<^sup>* empty_bill_db db" and "plain (pe_provider ev)" and "fresh_ids uid aid db" and "\<not> is_duplicate ev db"
    and "process_event ev body hs uid aid now db = Inr (r, db1)" and "bill_step\<^sup>*\<^sup>* db1 db2"
    and "pe_provider ev' = pe_provider ev" and "pe_event ev' = pe_event ev \<or> pe_key ev' = pe_key ev"
  shows "\<exists>r'. process_event ev' body' hs' uid' aid' now' db2 = Inr (r', db2) \<and> \<not> pr_applied r'"
proof (rule process_duplicate)
  have "recorded ev db1"
    by (rule process_event_recorded [OF assms(5) order_life.ok_steps [OF assms(1) bill_ok_empty] assms(2-4)])
  then show "is_duplicate ev' db2"
    using assms(7,8) by (rule recorded_duplicate [OF bill_steps_recorded [OF assms(6)]])
qed

theorem redelivery_changes_nothing_witness:
  "\<exists>r'. process_event (demo_event ''event-01'' Pay_Failed) ''b2'' [] ''u2'' ''a2'' ''later'' demo_paid = Inr (r', demo_paid) \<and> \<not> pr_applied r'"
proof -
  obtain r where "process_event (demo_event ''event-01'' Pay_Succeeded) ''b'' [] ''u1'' ''a1'' ''now'' demo_db = Inr (r, demo_paid)"
    using demo_paid_call by blast
  from redelivery_changes_nothing [OF demo_db_reached demo_db_shape(2,3) _ this rtranclp.rtrancl_refl]
  show ?thesis using demo_db_shape(1) by (simp add: demo_event_def)
qed

text \<open>
  An order that was refunded, or that failed or was cancelled, keeps that status whatever comes
  later; a paid order stays paid or is refunded. So an order is granted at most once.
\<close>
theorem settled_order_is_final:
  assumes "bill_step\<^sup>*\<^sup>* empty_bill_db db" and "order_status oid db = Some s" and "bill_step\<^sup>*\<^sup>* db db'"
  shows "(s \<in> {Pay_Refunded, Pay_Failed, Pay_Cancelled} \<longrightarrow> order_status oid db' = Some s)
    \<and> (s = Pay_Succeeded \<longrightarrow> order_status oid db' \<in> {Some Pay_Succeeded, Some Pay_Refunded})"
proof (intro conjI impI)
  have ok: "bill_ok db" by (rule order_life.ok_steps [OF assms(1) bill_ok_empty])
  have stuck: "\<not> pay_allowed t u" if "t \<in> {Pay_Refunded, Pay_Failed, Pay_Cancelled}" for t u
  proof
    assume "pay_allowed t u"
    then obtain e where "u \<noteq> t" "u = next_status t e" by (auto simp: pay_allowed_def)
    with that show False by (cases e) auto
  qed
  show "s \<in> {Pay_Refunded, Pay_Failed, Pay_Cancelled} \<Longrightarrow> order_status oid db' = Some s"
    using order_life.final_stays [OF assms(3) ok assms(2)] stuck by blast
  assume s: "s = Pay_Succeeded"
  obtain t where t: "order_status oid db' = Some t" "pay_allowed\<^sup>*\<^sup>* s t"
    using order_life.travels [OF assms(3) ok assms(2)] by blast
  from t(2) s have "t \<in> {Pay_Succeeded, Pay_Refunded}"
  proof (induction rule: rtranclp_induct)
    case (step y z)
    then obtain e where "z = next_status y e" by (auto simp: pay_allowed_def)
    with step show ?case by (cases e) auto
  qed simp
  with t(1) show "order_status oid db' \<in> {Some Pay_Succeeded, Some Pay_Refunded}" by auto
qed

theorem settled_order_is_final_witness:
  "order_status ''order-1'' demo_paid = Some Pay_Succeeded \<and>
   {order_status ''order-1'' db |db. bill_step\<^sup>*\<^sup>* demo_paid db} \<subseteq> {Some Pay_Succeeded, Some Pay_Refunded}"
proof -
  have "order_status ''order-1'' demo_paid = Some Pay_Succeeded" by code_simp
  with settled_order_is_final [OF demo_paid_reached] show ?thesis by blast
qed

text \<open>What a refund does to the orders and the accounts.\<close>

lemma post_entry_frame:
  assumes "post_entry uid now a n k why db = Inr db'"
  shows "orders db' = orders db" and "\<exists>acc\<in>set (bill_accounts db). acc_id acc = c \<Longrightarrow> \<exists>acc\<in>set (bill_accounts db'). acc_id acc = c"
  using assms by (auto simp: post_entry_def Let_def bex_update_where if_distrib [of acc_id] cong: if_cong split: if_splits)

lemma bill_audit_frame:
  "bill_audit uid now act a b c db = Inr db' \<Longrightarrow> orders db' = orders db \<and> bill_accounts db' = bill_accounts db"
  by (auto simp: bill_audit_def split: if_splits)

lemma apply_refund_frame:
  assumes "apply_refund uid aid now ev o1 db = Inr db'"
  shows "orders db' = orders (set_order_status (pe_order ev) (\<lambda>s. s = Pay_Succeeded) Pay_Refunded now db)"
    and "\<exists>acc\<in>set (bill_accounts db'). acc_id acc = bo_account o1"
proof -
  obtain db3 where "post_entry uid now (bo_account o1) (- bo_grant o1) (entry_key (pe_provider ev) (pe_key ev) ''refund'') (''refund '' @ pe_order ev)
      ((set_order_status (pe_order ev) (\<lambda>s. s = Pay_Succeeded) Pay_Refunded now db)\<lparr>entitlements := put_entitlement (bo_account o1) ''free''
        (entitlements db), bill_accounts := ensure_account (bo_account o1) 0 (bill_accounts db)\<rparr>) = Inr db3"
    "orders db' = orders db3" "bill_accounts db' = bill_accounts db3"
    using assms by (auto simp: apply_refund_def Let_def split: sum.splits dest!: bill_audit_frame)
  with post_entry_frame [OF this(1)] account_ensured [of "bo_account o1" 0]
  show "orders db' = orders (set_order_status (pe_order ev) (\<lambda>s. s = Pay_Succeeded) Pay_Refunded now db)"
    "\<exists>acc\<in>set (bill_accounts db'). acc_id acc = bo_account o1" by simp_all
qed

lemma refund_frame:
  assumes "process_event ev body hs uid aid now db = Inr (r, db')" and "\<not> is_duplicate ev db"
    and "find_order (pe_order ev) db = Some o1" and "bo_status o1 = Pay_Succeeded" and "pe_status ev = Pay_Refunded"
    and "bill_ok db"
  shows "granted (bo_account o1) (orders db') = granted (bo_account o1) (orders db) - bo_grant o1"
    and "\<exists>acc\<in>set (bill_accounts db'). acc_id acc = bo_account o1"
proof -
  have "find (\<lambda>i. ib_provider i = pe_provider ev \<and> (ib_event i = pe_event ev \<or> ib_key i = pe_key ev)) (inbox db) = None"
    using assms(2) by (simp add: is_duplicate_def find_None_iff_set)
  with assms(1,3-5) obtain i db2 where db2: "apply_refund uid aid now ev o1 (db\<lparr>inbox := inbox db @ [i]\<rparr>) = Inr db2"
    "orders db' = orders db2" "bill_accounts db' = bill_accounts db2"
    by (auto simp: process_event_def apply_event_def map_sum_def split: if_splits sum.splits)
  have "unique_by bo_id (orders (db\<lparr>inbox := inbox db @ [i]\<rparr>))" "find_order (pe_order ev) (db\<lparr>inbox := inbox db @ [i]\<rparr>) = Some o1"
    using assms(3,6) by (simp_all add: bill_ok_def bill_keys_def find_order_def)
  from granted_set_order_status [OF this, of "bo_account o1" "\<lambda>s. s = Pay_Succeeded" Pay_Refunded now]
  show "granted (bo_account o1) (orders db') = granted (bo_account o1) (orders db) - bo_grant o1"
    using apply_refund_frame(1) [OF db2(1)] db2(2) assms(4) by simp
  show "\<exists>acc\<in>set (bill_accounts db'). acc_id acc = bo_account o1"
    using apply_refund_frame(2) [OF db2(1)] db2(3) by simp
qed

lemma insolvent:
  assumes "bill_ok db" and "\<exists>acc\<in>set (bill_accounts db). acc_id acc = a" and "granted a (orders db) < held a (reservations c)"
  shows "\<not> solvent (c\<lparr>accounts := bill_accounts db\<rparr>)"
proof -
  obtain acc where acc: "acc \<in> set (bill_accounts db)" "acc_id acc = a" using assms(2) by blast
  have "unique_by acc_id (bill_accounts db)" using assms(1) by (simp add: bill_ok_def bill_keys_def)
  then have "acc_balance acc = granted a (orders db)"
    using balance_of_eq acc bill_okD(4) [OF assms(1)] by metis
  with acc assms(3) have "\<not> held (acc_id acc) (reservations c) \<le> acc_balance acc" by simp
  with acc(1) show ?thesis by (auto simp: solvent_def)
qed

text \<open>
  The credit accounts are one table that the billing store and the credit ledger of the runs
  share, and a refund looks only at the balance: whenever the holds of an account exceed what the
  refund leaves, the refund goes through all the same and the ledger's solvency (every balance
  covers the units on hold) is lost.
\<close>
theorem refund_ignores_holds:
  assumes "bill_ok db" and "plain (pe_provider ev)" and "fresh_ids uid aid db" and "\<not> is_duplicate ev db"
    and "find_order (pe_order ev) db = Some o1" and "bo_status o1 = Pay_Succeeded" and "pe_status ev = Pay_Refunded"
    and "pe_amount ev \<in> {None, Some (bo_amount o1)}"
    and "accounts credits = bill_accounts db" and "solvent credits"
    and "granted (bo_account o1) (orders db) - bo_grant o1 < held (bo_account o1) (reservations credits)"
  shows "\<exists>r db'. process_event ev body hs uid aid now db = Inr (r, db') \<and> \<not> solvent (credits\<lparr>accounts := bill_accounts db'\<rparr>)"
proof -
  obtain r db' where d: "process_event ev body hs uid aid now db = Inr (r, db')" "bill_ok db'"
    using process_new [OF assms(1,2,4,5,8,3)] by blast
  from refund_frame [OF d(1) assms(4-7,1)] assms(11) insolvent [OF d(2)] d(1) show ?thesis by force
qed

definition demo_holds :: credit_db where
  "demo_holds = (case reserve ''t'' ''acct'' ''run-1'' 40 ''k'' ''u'' ''now'' (empty_credit_db\<lparr>accounts := bill_accounts demo_paid\<rparr>) of
     Inl _ \<Rightarrow> empty_credit_db | Inr (c, d) \<Rightarrow> d)"

theorem refund_ignores_holds_witness:
  "solvent demo_holds \<and> accounts demo_holds = bill_accounts demo_paid \<and> (\<exists>r db'.
     process_event (demo_event ''event-02'' Pay_Refunded) ''b'' [] ''u2'' ''a2'' ''later'' demo_paid = Inr (r, db')
     \<and> \<not> solvent (demo_holds\<lparr>accounts := bill_accounts db'\<rparr>))"
proof -
  have facts: "\<not> is_duplicate (demo_event ''event-02'' Pay_Refunded) demo_paid" "fresh_ids ''u2'' ''a2'' demo_paid"
    "accounts demo_holds = bill_accounts demo_paid" "solvent demo_holds"
    "(case find_order ''order-1'' demo_paid of None \<Rightarrow> False | Some o1 \<Rightarrow> bo_status o1 = Pay_Succeeded \<and> bo_amount o1 = 990
       \<and> granted (bo_account o1) (orders demo_paid) - bo_grant o1 < held (bo_account o1) (reservations demo_holds))"
    by code_simp+
  then obtain o1 where o1: "find_order ''order-1'' demo_paid = Some o1" "bo_status o1 = Pay_Succeeded" "bo_amount o1 = 990"
    "granted (bo_account o1) (orders demo_paid) - bo_grant o1 < held (bo_account o1) (reservations demo_holds)"
    by (auto split: option.splits)
  have "bill_ok demo_paid" by (rule order_life.ok_steps [OF demo_paid_reached bill_ok_empty])
  from refund_ignores_holds [OF this demo_db_shape(2) facts(2,1) _ o1(2) _ _ facts(3,4) o1(4)] o1 facts(3,4)
  show ?thesis by (simp add: demo_event_def)
qed

end
