(* ===== verification/Py_Value.thy ===== *)
theory Py_Value
  imports Json_Text
begin

text \<open>
  What the services do with decoded JSON: truth values, \<open>or\<close>, \<open>dict.get\<close>,
  \<open>str\<close>, \<open>int\<close>, \<open>isinstance\<close>, and the string methods they use. Rendering a
  float, a list or a dictionary with \<open>str\<close> is the parameter \<open>repr\<close>.
\<close>

section \<open>Values\<close>

fun truthy :: "json \<Rightarrow> bool" where
  "truthy JNull = False"
| "truthy (JBool b) = b"
| "truthy (JInt n) = (n \<noteq> 0)"
| "truthy (JNum q) = (q \<noteq> 0)"
| "truthy (JStr s) = (s \<noteq> [])"
| "truthy (JList l) = (l \<noteq> [])"
| "truthy (JObj d) = (d \<noteq> [])"

definition py_or :: "json \<Rightarrow> json \<Rightarrow> json" where
  "py_or a b = (if truthy a then a else b)"

definition jget :: "dict \<Rightarrow> string \<Rightarrow> json" where
  "jget d k = (case map_of d k of None \<Rightarrow> JNull | Some v \<Rightarrow> v)"

definition jget_default :: "dict \<Rightarrow> string \<Rightarrow> json \<Rightarrow> json" where
  "jget_default d k v = (case map_of d k of None \<Rightarrow> v | Some x \<Rightarrow> x)"

fun py_str :: "(json \<Rightarrow> string) \<Rightarrow> json \<Rightarrow> string" where
  "py_str repr JNull = ''None''"
| "py_str repr (JBool b) = (if b then ''True'' else ''False'')"
| "py_str repr (JInt n) = dec_int n"
| "py_str repr (JStr s) = s"
| "py_str repr v = repr v"

text \<open>\<open>str(a or b or ... or z)\<close>\<close>

definition first_str :: "(json \<Rightarrow> string) \<Rightarrow> json list \<Rightarrow> string" where
  "first_str repr vs = py_str repr (foldr py_or vs (JStr []))"

text \<open>\<open>isinstance(v, int)\<close>: a boolean is an integer.\<close>

fun as_int :: "json \<Rightarrow> int option" where
  "as_int (JInt n) = Some n"
| "as_int (JBool b) = Some (if b then 1 else 0)"
| "as_int _ = None"

text \<open>\<open>int(v)\<close>; a float is truncated toward zero.\<close>

fun py_int :: "json \<Rightarrow> exn + int" where
  "py_int (JInt n) = Inr n"
| "py_int (JBool b) = Inr (if b then 1 else 0)"
| "py_int (JNum q) = Inr (if q < 0 then - \<lfloor>- q\<rfloor> else \<lfloor>q\<rfloor>)"
| "py_int (JStr s) = (case parse_int s of None \<Rightarrow> Inl (ValueError ''invalid literal for int()'') | Some n \<Rightarrow> Inr n)"
| "py_int _ = Inl (TypeError ''int() argument must be a string or a number'')"

definition as_dict :: "json \<Rightarrow> dict option" where
  "as_dict v = (case v of JObj d \<Rightarrow> Some d | _ \<Rightarrow> None)"

text \<open>\<open>v if isinstance(v, dict) else d\<close>\<close>

definition dict_or :: "json \<Rightarrow> dict \<Rightarrow> dict" where
  "dict_or v d = (case v of JObj x \<Rightarrow> x | _ \<Rightarrow> d)"

section \<open>Default JSON text\<close>

text \<open>\<open>json.dumps(value, sort_keys=True)\<close> with the default separators.\<close>

fun spaced :: "string list \<Rightarrow> string" where
  "spaced [] = []"
| "spaced [x] = x"
| "spaced (x # xs) = x @ '', '' @ spaced xs"

fun json_dump :: "(rat \<Rightarrow> string) \<Rightarrow> json \<Rightarrow> string"
  and dump_list :: "(rat \<Rightarrow> string) \<Rightarrow> json list \<Rightarrow> string list"
  and dump_members :: "(rat \<Rightarrow> string) \<Rightarrow> dict \<Rightarrow> (string \<times> string) list" where
  "json_dump fr JNull = ''null''"
| "json_dump fr (JBool b) = (if b then ''true'' else ''false'')"
| "json_dump fr (JInt i) = dec_int i"
| "json_dump fr (JNum r) = fr r"
| "json_dump fr (JStr s) = json_string s"
| "json_dump fr (JList vs) = ''['' @ spaced (dump_list fr vs) @ '']''"
| "json_dump fr (JObj d) = ''{'' @ spaced (map snd (sort_key fst (dump_members fr d))) @ ''}''"
| "dump_list fr [] = []"
| "dump_list fr (v # vs) = json_dump fr v # dump_list fr vs"
| "dump_members fr [] = []"
| "dump_members fr ((k, v) # d) = (k, json_string k @ '': '' @ json_dump fr v) # dump_members fr d"

section \<open>Strings\<close>

fun contains_text :: "string \<Rightarrow> string \<Rightarrow> bool" where
  "contains_text [] p = (p = [])"
| "contains_text (c # s) p = (starts_with (c # s) p \<or> contains_text s p)"

definition rstrip_char :: "char \<Rightarrow> string \<Rightarrow> string" where
  "rstrip_char c s = rev (dropWhile (\<lambda>x. x = c) (rev s))"

text \<open>\<open>s.split(c)\<close> for one character\<close>

fun split_char :: "char \<Rightarrow> string \<Rightarrow> string list" where
  "split_char c [] = [[]]"
| "split_char c (x # s) = (if x = c then [] # split_char c s
     else case split_char c s of [] \<Rightarrow> [[x]] | w # ws \<Rightarrow> (x # w) # ws)"

definition replace_char :: "char \<Rightarrow> string \<Rightarrow> string \<Rightarrow> string" where
  "replace_char c r s = concat (map (\<lambda>x. if x = c then r else [x]) s)"

definition ascii :: "string \<Rightarrow> bool" where
  "ascii s \<longleftrightarrow> list_all (\<lambda>c. (of_char c :: nat) < 128) s"

lemma split_char_free: "c \<notin> set s \<Longrightarrow> split_char c s = [s]"
  by (induction s) auto

lemma split_char_append: "c \<notin> set s \<Longrightarrow> split_char c (s @ c # t) = s # split_char c t"
  by (induction s) auto

lemma split_char_nonempty [simp]: "split_char c s \<noteq> []"
  by (induction s) (auto split: list.splits)

text \<open>Splitting loses nothing.\<close>

lemma join_split_char: "concat (map (\<lambda>w. c # w) (split_char c s)) = c # s"
  by (induction s) (auto split: list.splits)

lemma first_str_Cons: "first_str repr (v # vs) = (if truthy v then py_str repr v else first_str repr vs)"
  by (simp add: first_str_def py_or_def)

lemma first_str_Nil: "first_str repr [] = []"
  by (simp add: first_str_def)

lemma dropWhile_keeps: "x \<in> set s \<Longrightarrow> \<not> P x \<Longrightarrow> x \<in> set (dropWhile P s)"
  by (induction s) auto

lemma blank_strip [simp]: "blank (strip s) = blank s"
proof -
  have "x \<in> set (strip s)" if "x \<in> set s" "\<not> is_space x" for x
    using that by (auto simp: strip_def intro!: dropWhile_keeps)
  moreover have "set (strip s) \<subseteq> set s"
    by (auto simp: strip_def dest!: set_dropWhileD)
  ultimately show ?thesis by (auto simp: blank_def list_all_iff)
qed

lemma starts_with_append [simp]: "starts_with (p @ s) p"
  by (simp add: starts_with_def)

end
