(* ===== verification/Base64.thy ===== *)
theory Base64
  imports Prelude
begin

text \<open>
  Python's \<open>base64.b64encode\<close> and \<open>b64decode(..., validate=True)\<close> on byte strings
  (lists of characters below 256): every character outside the alphabet, a length that is no
  multiple of four and padding before the end are errors. Decoding inverts encoding.
\<close>

definition b64_char :: "nat \<Rightarrow> char" where
  "b64_char n = char_of (if n < 26 then 65 + n else if n < 52 then 71 + n else if n < 62 then n - 4
     else if n = 62 then 43 else 47)"

definition b64_value :: "char \<Rightarrow> nat option" where
  "b64_value c = (let n = (of_char c :: nat) in
     if 65 \<le> n \<and> n \<le> 90 then Some (n - 65) else if 97 \<le> n \<and> n \<le> 122 then Some (n - 71)
     else if 48 \<le> n \<and> n \<le> 57 then Some (n + 4) else if n = 43 then Some 62 else if n = 47 then Some 63 else None)"

definition quad :: "nat \<Rightarrow> nat \<Rightarrow> nat \<Rightarrow> nat list" where
  "quad a b c = [a div 4, a mod 4 * 16 + b div 16, b mod 16 * 4 + c div 64, c mod 64]"

fun b64_encode :: "string \<Rightarrow> string" where
  "b64_encode [] = []"
| "b64_encode [a] = map b64_char (take 2 (quad (of_char a) 0 0)) @ ''==''"
| "b64_encode [a, b] = map b64_char (take 3 (quad (of_char a) (of_char b) 0)) @ ''=''"
| "b64_encode (a # b # c # s) = map b64_char (quad (of_char a) (of_char b) (of_char c)) @ b64_encode s"

definition unquad :: "nat \<Rightarrow> nat \<Rightarrow> nat \<Rightarrow> nat \<Rightarrow> string" where
  "unquad w x y z = [char_of (w * 4 + x div 16), char_of (x mod 16 * 16 + y div 4), char_of (y mod 4 * 64 + z)]"

fun b64_decode :: "string \<Rightarrow> string option" where
  "b64_decode [] = Some []"
| "b64_decode (p # q # r # t # s) =
     (case (b64_value p, b64_value q) of
        (Some w, Some x) \<Rightarrow>
          (if t = CHR ''='' \<and> s = []
           then (if r = CHR ''='' then Some (take 1 (unquad w x 0 0))
                 else map_option (\<lambda>y. take 2 (unquad w x y 0)) (b64_value r))
           else (case (b64_value r, b64_value t, b64_decode s) of
                   (Some y, Some z, Some u) \<Rightarrow> Some (unquad w x y z @ u)
                 | _ \<Rightarrow> None))
      | _ \<Rightarrow> None)"
| "b64_decode _ = None"

lemma b64_value_char: "n < 64 \<Longrightarrow> b64_value (b64_char n) = Some n"
  by (auto simp: b64_value_def b64_char_def Let_def)

lemma b64_value_punctuation: "b64_value CHR ''='' = None" "b64_value CHR '':'' = None"
  by (simp_all add: b64_value_def)

lemma b64_char_neq: "n < 64 \<Longrightarrow> b64_char n \<noteq> CHR ''=''" "n < 64 \<Longrightarrow> CHR '':'' \<noteq> b64_char n"
  using b64_value_char b64_value_punctuation by (metis option.distinct(1))+

lemma split_sum: "x < m \<Longrightarrow> (k * m + x) div m = k" "x < m \<Longrightarrow> (k * m + x) mod m = x" for x m k :: nat
  by simp_all

lemma div_below: "b < 256 \<Longrightarrow> b div 16 < (16::nat)" "b < 256 \<Longrightarrow> b div 64 < (4::nat)" "b < 256 \<Longrightarrow> b div 4 < (64::nat)"
  by (simp_all add: less_mult_imp_div_less)

lemma unquad_quad:
  assumes "a < 256" "b < 256" "c < 256"
  shows "unquad (a div 4) (a mod 4 * 16 + b div 16) (b mod 16 * 4 + c div 64) (c mod 64) =
    [char_of a, char_of b, char_of c]"
  unfolding unquad_def
  by (simp only: split_sum [OF div_below(1) [OF assms(2)]] split_sum [OF div_below(2) [OF assms(3)]] div_mult_mod_eq)

lemma quad_bounds:
  "a < 256 \<Longrightarrow> a div 4 < (64::nat)" "a mod 4 * 16 < (64::nat)"
  "b < 256 \<Longrightarrow> a mod 4 * 16 + b div 16 < (64::nat)" "b mod 16 * 4 < (64::nat)"
  "c < 256 \<Longrightarrow> b mod 16 * 4 + c div 64 < (64::nat)" "c mod 64 < (64::nat)"
proof -
  have m: "a mod 4 < 4" "b mod 16 < 16" by simp_all
  then show "a mod 4 * 16 < 64" "b mod 16 * 4 < 64" "c mod 64 < 64" by simp_all
  show "a < 256 \<Longrightarrow> a div 4 < 64" by (rule div_below(3))
  show "b < 256 \<Longrightarrow> a mod 4 * 16 + b div 16 < 64" using div_below(1) [of b] m(1) by linarith
  show "c < 256 \<Longrightarrow> b mod 16 * 4 + c div 64 < 64" using div_below(2) [of c] m(2) by linarith
qed

lemma b64_decode_encode: "b64_decode (b64_encode s) = Some s"
proof (induction s rule: b64_encode.induct)
  case (2 a)
  have "unquad (of_char a div 4) (of_char a mod 4 * 16) 0 0 = [a, char_of (0::nat), char_of (0::nat)]"
    using unquad_quad [of "of_char a" 0 0] by simp
  then show ?case by (simp add: quad_def b64_value_char quad_bounds)
next
  case (3 a b)
  have "unquad (of_char a div 4) (of_char a mod 4 * 16 + of_char b div 16) (of_char b mod 16 * 4) 0 = [a, b, char_of (0::nat)]"
    using unquad_quad [of "of_char a" "of_char b" 0] by simp
  then show ?case by (simp add: quad_def b64_value_char b64_char_neq quad_bounds)
next
  case (4 a b c s)
  have "unquad (of_char a div 4) (of_char a mod 4 * 16 + of_char b div 16) (of_char b mod 16 * 4 + of_char c div 64)
      (of_char c mod 64) = [a, b, c]"
    using unquad_quad [of "of_char a" "of_char b" "of_char c"] by simp
  with 4 show ?case by (simp add: quad_def b64_value_char b64_char_neq quad_bounds)
qed simp

lemma b64_encode_chars: "CHR '':'' \<notin> set (b64_encode s)"
  by (induction s rule: b64_encode.induct) (simp_all add: quad_def b64_char_neq quad_bounds)

lemma length_b64_encode: "length (b64_encode s) = 4 * ((length s + 2) div 3)"
proof (induction s rule: b64_encode.induct)
  case (4 a b c s)
  have "(Suc (Suc (Suc (length s))) + 2) div 3 = Suc ((length s + 2) div 3)" by presburger
  with 4 show ?case by (simp add: quad_def)
qed (simp_all add: quad_def)

lemma b64_encode_longer: "s \<noteq> [] \<Longrightarrow> length s < length (b64_encode s)"
proof -
  assume "s \<noteq> []"
  then have "0 < length s" by simp
  then show ?thesis unfolding length_b64_encode by presburger
qed

end
