(* ===== verification/Billing_Adapters.thy ===== *)
theory Billing_Adapters
  imports Billing_Store Py_Value Base64
begin

text \<open>
  The payment providers: \<open>services/billing/ports.py\<close>, \<open>adapters/\<close> and
  \<open>registry.py\<close>. An adapter is a record of the functions of the \<open>PaymentProvider\<close>
  protocol; the contract the billing service relies on is the locale \<open>payment_provider\<close>,
  interpreted by the mock, the Toss and the Lemon Squeezy adapter. Parameters, in \<open>pay_env\<close>:
  HMAC-SHA256, the JSON decoder (\<open>None\<close> when the bytes are no UTF-8 or no JSON),
  \<open>datetime.fromisoformat\<close>, \<open>str\<close> of floats and containers, and the network.
\<close>

section \<open>The environment and the helpers of adapters/base.py\<close>

type_synonym headers = "(string \<times> string) list"

record pay_env =
  hmac_raw :: "string \<Rightarrow> string \<Rightarrow> string"
  decode_json :: "string \<Rightarrow> json option"
  iso_time :: "string \<Rightarrow> string option"
  show_value :: "json \<Rightarrow> string"
  fetch :: "string \<Rightarrow> string \<Rightarrow> headers \<Rightarrow> json option \<Rightarrow> string option"

type_synonym requester = "string \<Rightarrow> string \<Rightarrow> headers \<Rightarrow> json option \<Rightarrow> exn + dict"

fun header :: "headers \<Rightarrow> string \<Rightarrow> string" where
  "header [] name = []"
| "header ((k, v) # hs) name = (if lower k = lower name then strip v else header hs name)"

definition parse_json :: "pay_env \<Rightarrow> string \<Rightarrow> exn + dict" where
  "parse_json env body = (case decode_json env body of
     None \<Rightarrow> Inl (InvalidWebhook ''webhook body is not valid JSON'')
   | Some (JObj d) \<Rightarrow> Inr d
   | Some _ \<Rightarrow> Inl (InvalidWebhook ''webhook body must be a JSON object''))"

definition parse_time :: "pay_env \<Rightarrow> string \<Rightarrow> json \<Rightarrow> exn + string" where
  "parse_time env now v = (case v of
     JStr s \<Rightarrow> (if s = [] then Inr now else case iso_time env (replace_char (CHR ''Z'') ''+00:00'' s) of
       None \<Rightarrow> Inl (InvalidWebhook ''webhook occurred_at is invalid'') | Some t \<Rightarrow> Inr t)
   | _ \<Rightarrow> Inr now)"

definition hex_text :: "string \<Rightarrow> string" where
  "hex_text s = concat (map (\<lambda>c. [hex_char (of_char c div 16), hex_char (of_char c mod 16)]) s)"

text \<open>
  \<open>hmac.compare_digest\<close> on two strings raises \<open>TypeError\<close> unless both are ASCII.
\<close>

definition verify_hmac :: "pay_env \<Rightarrow> string \<Rightarrow> string \<Rightarrow> string \<Rightarrow> exn + unit" where
  "verify_hmac env body secret supplied =
     (if secret = [] \<or> supplied = [] then Inl (InvalidWebhook ''webhook signature is missing'')
      else if \<not> ascii supplied then Inl (TypeError ''comparing strings with non-ASCII characters is not supported'')
      else if hex_text (hmac_raw env secret body) \<noteq> lower supplied then Inl (InvalidWebhook ''webhook signature is invalid'')
      else Inr ())"

definition json_request :: "pay_env \<Rightarrow> requester" where
  "json_request env verb url hs payload = (case fetch env verb url hs payload of
     None \<Rightarrow> Inl (RuntimeError ''payment provider request failed'')
   | Some data \<Rightarrow> parse_json env data)"

record checkout_request =
  cq_tenant :: string
  cq_order :: string
  cq_amount :: int
  cq_currency :: string
  cq_plan :: string
  cq_key :: string

record checkout_response =
  cs_provider :: string
  cs_reference :: string
  cs_url :: string
  cs_test :: bool
  cs_context :: dict

definition checkout_dict :: "checkout_response \<Rightarrow> dict" where
  "checkout_dict r = [(''provider'', JStr (cs_provider r)), (''provider_reference'', JStr (cs_reference r)),
     (''checkout_url'', JStr (cs_url r)), (''test_mode'', JBool (cs_test r)), (''checkout_context'', JObj (cs_context r))]"

definition generic_checkout_response :: "pay_env \<Rightarrow> string \<Rightarrow> dict \<Rightarrow> bool \<Rightarrow> exn + checkout_response" where
  "generic_checkout_response env provider v test =
     (let reference = first_str (show_value env) [jget v ''id'', jget v ''paymentKey'', jget v ''checkout_id''];
          url = first_str (show_value env) [jget v ''checkout_url'', jget v ''url'', jget v ''hosted_url'']
      in if reference = [] \<or> url = [] then Inl (RuntimeError ''provider checkout response is incomplete'')
         else Inr \<lparr>cs_provider = provider, cs_reference = reference, cs_url = url, cs_test = test, cs_context = []\<rparr>)"

definition normalized :: "string \<Rightarrow> string \<Rightarrow> string \<Rightarrow> pay_status \<Rightarrow> string \<Rightarrow> string \<Rightarrow> bool \<Rightarrow> string \<Rightarrow> int option \<Rightarrow>
    (string \<times> string) list \<Rightarrow> exn + pay_event" where
  "normalized provider eid etype status oid tm test ikey amount meta =
     (if eid = [] \<or> oid = [] then Inl (InvalidWebhook ''webhook identity is incomplete'')
      else let key = (if ikey = [] then eid else ikey);
               key' = (if length key < 8 then provider @ '':'' @ key else key)
           in make_pay_event \<lparr>pe_provider = provider, pe_event = eid, pe_type = (if etype = [] then ''payment.updated'' else etype),
                pe_status = status, pe_order = oid, pe_time = tm, pe_test = test, pe_key = key', pe_amount = amount,
                pe_metadata = meta\<rparr>)"

section \<open>Adapters\<close>

record adapter =
  ad_id :: string
  ad_test_only :: bool
  ad_capabilities :: "string list"
  ad_checkout :: "string \<Rightarrow> checkout_request \<Rightarrow> exn + checkout_response"
  ad_verify :: "string \<Rightarrow> string \<Rightarrow> headers \<Rightarrow> exn + pay_event"
  ad_reconcile :: "string \<Rightarrow> string \<Rightarrow> exn + pay_event"
  ad_confirm :: "string \<Rightarrow> int \<Rightarrow> bool"
  ad_transition :: "string \<Rightarrow> string \<Rightarrow> bool"
  ad_refund :: "string \<Rightarrow> int option \<Rightarrow> string"
  ad_confirm_event :: "(string \<Rightarrow> string \<Rightarrow> string \<Rightarrow> int \<Rightarrow> string \<Rightarrow> exn + pay_event) option"

subsection \<open>mock.py\<close>

definition mock_status :: "string \<Rightarrow> pay_status" where
  "mock_status value = (let v = upper value in
     if v \<in> {''DONE'', ''PAID'', ''SUCCEEDED''} then Pay_Succeeded
     else if v \<in> {''READY'', ''PENDING'', ''IN_PROGRESS''} then Pay_Pending
     else if v \<in> {''FAILED'', ''ABORTED''} then Pay_Failed
     else if v \<in> {''CANCELED'', ''CANCELLED''} then Pay_Cancelled
     else if v = ''REFUNDED'' then Pay_Refunded else Pay_Unknown)"

definition mock_checkout :: "string \<Rightarrow> checkout_request \<Rightarrow> exn + checkout_response" where
  "mock_checkout uid q = Inr \<lparr>cs_provider = ''mock'', cs_reference = ''mock-payment-'' @ uid,
     cs_url = ''https://mock.invalid/checkout/'' @ cq_order q, cs_test = True, cs_context = []\<rparr>"

definition mock_verify :: "pay_env \<Rightarrow> string \<Rightarrow> string \<Rightarrow> string \<Rightarrow> headers \<Rightarrow> exn + pay_event" where
  "mock_verify env secret now body hs =
     (case verify_hmac env body secret (header hs ''x-signature'') of Inl e \<Rightarrow> Inl e | Inr _ \<Rightarrow>
      case parse_json env body of Inl e \<Rightarrow> Inl e | Inr v \<Rightarrow>
      case parse_time env now (jget v ''occurred_at'') of Inl e \<Rightarrow> Inl e | Inr t \<Rightarrow>
        (let txt = first_str (show_value env) in
         normalized ''mock'' (txt [jget v ''event_id'', jget v ''id'']) (txt [jget v ''event_type'', JStr ''payment.updated''])
           (mock_status (txt [jget v ''status'', JStr ''unknown''])) (txt [jget v ''order_id'']) t
           (truthy (jget_default v ''test_mode'' (JBool True)))
           (txt [jget v ''idempotency_key'', jget v ''event_id'']) (as_int (jget v ''amount_minor'')) []))"

definition mock_reconcile :: "string \<Rightarrow> string \<Rightarrow> exn + pay_event" where
  "mock_reconcile now ref = normalized ''mock'' (''reconcile-'' @ ref) ''payment.reconciled'' Pay_Succeeded ref now True
     (''reconcile-'' @ ref) None []"

definition mock_adapter :: "pay_env \<Rightarrow> string \<Rightarrow> adapter" where
  "mock_adapter env secret = \<lparr>ad_id = ''mock'', ad_test_only = True,
     ad_capabilities = [''checkout.create'', ''payment.confirm'', ''subscription.transition'', ''refund.create'',
       ''webhook.verify'', ''event.reconcile''],
     ad_checkout = mock_checkout, ad_verify = mock_verify env secret, ad_reconcile = mock_reconcile,
     ad_confirm = (\<lambda>ref n. ref \<noteq> [] \<and> 0 < n), ad_transition = (\<lambda>ref s. ref \<noteq> [] \<and> s \<noteq> []),
     ad_refund = (\<lambda>ref n. ''mock-refund-'' @ ref), ad_confirm_event = None\<rparr>"

subsection \<open>toss.py\<close>

record toss =
  ts_secret :: string
  ts_webhook_secret :: string
  ts_base_url :: string
  ts_client_key :: string
  ts_checkout_url :: string
  ts_success_url :: string
  ts_fail_url :: string
  ts_test :: bool
  ts_request :: requester
  ts_verifier :: "(dict \<Rightarrow> bool) option"

definition opt_str :: "string option \<Rightarrow> string" where
  "opt_str s = (case s of None \<Rightarrow> [] | Some t \<Rightarrow> t)"

text \<open>\<open>TossPaymentsAdapter.__init__\<close>\<close>

definition make_toss :: "string option \<Rightarrow> string option \<Rightarrow> string \<Rightarrow> string option \<Rightarrow> string \<Rightarrow> string \<Rightarrow> string \<Rightarrow> bool \<Rightarrow>
    requester \<Rightarrow> (dict \<Rightarrow> bool) option \<Rightarrow> toss" where
  "make_toss secret webhook base client checkout success fail test req verifier =
     \<lparr>ts_secret = opt_str secret, ts_webhook_secret = (if opt_str webhook \<noteq> [] then opt_str webhook else opt_str secret),
      ts_base_url = rstrip_char (CHR ''/'') base, ts_client_key = opt_str client, ts_checkout_url = checkout,
      ts_success_url = success, ts_fail_url = fail, ts_test = test, ts_request = req, ts_verifier = verifier\<rparr>"

definition toss_status :: "string \<Rightarrow> pay_status" where
  "toss_status value = (let v = upper value in
     if v \<in> {''DONE'', ''PAID'', ''SUCCEEDED''} then Pay_Succeeded
     else if v \<in> {''READY'', ''IN_PROGRESS'', ''WAITING_FOR_DEPOSIT''} then Pay_Pending
     else if v \<in> {''FAILED'', ''ABORTED''} then Pay_Failed
     else if v \<in> {''CANCELED'', ''CANCELLED''} then Pay_Cancelled
     else if v = ''REFUNDED'' then Pay_Refunded else Pay_Unknown)"

definition toss_checkout :: "toss \<Rightarrow> string \<Rightarrow> checkout_request \<Rightarrow> exn + checkout_response" where
  "toss_checkout t uid q =
     (if ts_secret t = [] then Inl (RuntimeError ''Toss secret key is not configured'')
      else if ts_client_key t = [] then Inl (RuntimeError ''Toss client key is not configured'')
      else if cq_currency q \<noteq> ''KRW'' then Inl (ValueError ''Toss checkout currency must be KRW'')
      else if ts_success_url t = [] \<or> ts_fail_url t = [] then Inl (RuntimeError ''Toss success and fail URLs are not configured'')
      else Inr \<lparr>cs_provider = ''toss'', cs_reference = cq_order q, cs_url = ts_checkout_url t, cs_test = ts_test t,
        cs_context = [(''client_key'', JStr (ts_client_key t)), (''order_id'', JStr (cq_order q)), (''order_name'', JStr (cq_plan q)),
          (''amount'', JObj [(''value'', JInt (cq_amount q)), (''currency'', JStr (cq_currency q))]),
          (''success_url'', JStr (ts_success_url t)), (''fail_url'', JStr (ts_fail_url t))]\<rparr>)"

definition toss_confirm_event :: "pay_env \<Rightarrow> toss \<Rightarrow> string \<Rightarrow> string \<Rightarrow> string \<Rightarrow> int \<Rightarrow> string \<Rightarrow> exn + pay_event" where
  "toss_confirm_event env t now ref oid amount key =
     (if ts_secret t = [] then Inl (RuntimeError ''Toss secret key is not configured'')
      else case ts_request t ''POST'' (ts_base_url t @ ''/v1/payments/confirm'')
          [(''Authorization'', ''Basic '' @ b64_encode (ts_secret t @ '':'')), (''Content-Type'', ''application/json''), (''Idempotency-Key'', key)]
          (Some (JObj [(''paymentKey'', JStr ref), (''orderId'', JStr oid), (''amount'', JInt amount)])) of
        Inl e \<Rightarrow> Inl e
      | Inr v \<Rightarrow>
          (let txt = first_str (show_value env); mismatch = Inl (InvalidWebhook ''Toss confirmation does not match the pending order'') in
           if txt [jget v ''orderId''] \<noteq> oid then mismatch
           else case py_int (jget_default v ''totalAmount'' (JInt (-1))) of Inl e \<Rightarrow> Inl e | Inr n \<Rightarrow>
             if n \<noteq> amount then mismatch
             else case parse_time env now (py_or (jget v ''approvedAt'') (jget v ''requestedAt'')) of Inl e \<Rightarrow> Inl e | Inr tm \<Rightarrow>
               normalized ''toss'' (''confirm-'' @ ref) ''payment.confirmed'' (toss_status (txt [jget v ''status'', JStr ''unknown'']))
                 oid tm (ts_test t) key (Some amount) [(''payment_key'', ref)]))"

definition verify_official :: "pay_env \<Rightarrow> toss \<Rightarrow> string \<Rightarrow> headers \<Rightarrow> string \<Rightarrow> exn + unit" where
  "verify_official env t body hs signature =
     (let tm = header hs ''tosspayments-webhook-transmission-time'' in
      if tm = [] \<or> ts_webhook_secret t = [] then Inl (InvalidWebhook ''Toss signature headers are incomplete'')
      else let expected = b64_encode (hmac_raw env (ts_webhook_secret t) (body @ '':'' @ tm)) in
        if \<exists>item\<in>set (tl (split_char (CHR '':'') signature)). b64_decode item = Some expected then Inr ()
        else Inl (InvalidWebhook ''Toss webhook signature is invalid''))"

definition toss_authenticate :: "pay_env \<Rightarrow> toss \<Rightarrow> string \<Rightarrow> headers \<Rightarrow> dict \<Rightarrow> exn + unit" where
  "toss_authenticate env t body hs v =
     (let official = header hs ''tosspayments-webhook-signature'';
          signature = (if official \<noteq> [] then official else header hs ''x-signature'') in
      if signature \<noteq> [] then
        (if starts_with signature ''v1:'' then verify_official env t body hs signature
         else verify_hmac env body (ts_webhook_secret t) signature)
      else case ts_verifier t of
             None \<Rightarrow> Inl (InvalidWebhook ''Toss payment webhook requires provider status verification'')
           | Some f \<Rightarrow> (if f v then Inr () else Inl (InvalidWebhook ''Toss payment webhook requires provider status verification'')))"

definition toss_verify :: "pay_env \<Rightarrow> toss \<Rightarrow> string \<Rightarrow> string \<Rightarrow> headers \<Rightarrow> exn + pay_event" where
  "toss_verify env t now body hs =
     (case parse_json env body of Inl e \<Rightarrow> Inl e | Inr v \<Rightarrow>
      case toss_authenticate env t body hs v of Inl e \<Rightarrow> Inl e | Inr _ \<Rightarrow>
      case parse_time env now (py_or (jget v ''createdAt'') (jget v ''occurred_at'')) of Inl e \<Rightarrow> Inl e | Inr tm \<Rightarrow>
        (let txt = first_str (show_value env);
             data = dict_or (jget v ''data'') v;
             transmission = header hs ''tosspayments-webhook-transmission-id'';
             eid = txt [JStr transmission, jget v ''eventId'', jget v ''event_id'', jget data ''paymentKey'', jget data ''transactionKey''];
             key = (if transmission \<noteq> [] then transmission else txt [jget v ''idempotency_key'', JStr eid]);
             amount = py_or (jget data ''totalAmount'') (py_or (jget data ''amount'') (jget v ''amount_minor''))
         in normalized ''toss'' eid (txt [jget v ''eventType'', jget v ''event_type'', JStr ''payment.updated''])
              (toss_status (txt [jget data ''status'', jget v ''status'', JStr ''unknown'']))
              (txt [jget data ''orderId'', jget v ''order_id'']) tm (ts_test t) key (as_int amount) []))"

definition toss_reconcile :: "pay_env \<Rightarrow> toss \<Rightarrow> string \<Rightarrow> string \<Rightarrow> exn + pay_event" where
  "toss_reconcile env t now ref =
     (if ts_secret t = [] then Inl (RuntimeError ''Toss secret key is not configured'')
      else case ts_request t ''GET'' (ts_base_url t @ ''/v1/payments/'' @ ref) [] None of
        Inl e \<Rightarrow> Inl e
      | Inr v \<Rightarrow>
          (case parse_time env now (py_or (jget v ''approvedAt'') (jget v ''requestedAt'')) of Inl e \<Rightarrow> Inl e | Inr tm \<Rightarrow>
             (let txt = first_str (show_value env) in
              normalized ''toss'' (''reconcile-'' @ ref) ''payment.reconciled'' (toss_status (txt [jget v ''status'', JStr ''unknown'']))
                (txt [jget v ''orderId'']) tm (ts_test t) (''reconcile-'' @ ref) (as_int (jget v ''totalAmount'')) [])))"

definition toss_adapter :: "pay_env \<Rightarrow> toss \<Rightarrow> adapter" where
  "toss_adapter env t = \<lparr>ad_id = ''toss'', ad_test_only = False,
     ad_capabilities = [''checkout.create'', ''payment.confirm'', ''refund.create'', ''webhook.verify'', ''event.reconcile''],
     ad_checkout = toss_checkout t, ad_verify = toss_verify env t, ad_reconcile = toss_reconcile env t,
     ad_confirm = (\<lambda>ref n. ref \<noteq> [] \<and> 0 < n), ad_transition = (\<lambda>ref s. False),
     ad_refund = (\<lambda>ref n. ''refund-'' @ ref), ad_confirm_event = Some (toss_confirm_event env t)\<rparr>"

subsection \<open>lemon\_squeezy.py\<close>

record lemon =
  ls_api_key :: string
  ls_webhook_secret :: string
  ls_store :: string
  ls_variant :: string
  ls_redirect :: string
  ls_base_url :: string
  ls_test :: bool
  ls_request :: requester

text \<open>\<open>LemonSqueezyAdapter.__init__\<close>\<close>

definition make_lemon :: "string option \<Rightarrow> string \<Rightarrow> string option \<Rightarrow> string option \<Rightarrow> string \<Rightarrow> string \<Rightarrow> bool \<Rightarrow> requester \<Rightarrow> lemon" where
  "make_lemon api webhook store variant redirect base test req =
     \<lparr>ls_api_key = opt_str api, ls_webhook_secret = webhook, ls_store = opt_str store, ls_variant = opt_str variant,
      ls_redirect = redirect, ls_base_url = rstrip_char (CHR ''/'') base, ls_test = test, ls_request = req\<rparr>"

definition lemon_status :: "string \<Rightarrow> string \<Rightarrow> pay_status" where
  "lemon_status value etype = (let v = lower value in
     if v \<in> {''active'', ''paid'', ''completed'', ''success'', ''succeeded''} \<or> contains_text etype ''created'' then Pay_Succeeded
     else if v \<in> {''cancelled'', ''canceled'', ''expired'', ''failed'', ''past_due''} \<or> contains_text etype ''cancel'' \<or> contains_text etype ''expired''
     then (if v \<in> {''cancelled'', ''canceled''} \<or> contains_text etype ''cancel'' then Pay_Cancelled else Pay_Failed)
     else if v = ''refunded'' \<or> contains_text etype ''refund'' then Pay_Refunded
     else if v \<in> {''paused'', ''on_trial'', ''pending''} then Pay_Pending else Pay_Unknown)"

definition lemon_checkout_body :: "lemon \<Rightarrow> checkout_request \<Rightarrow> json" where
  "lemon_checkout_body l q = JObj [(''data'', JObj [(''type'', JStr ''checkouts''),
     (''attributes'', JObj ([(''test_mode'', JBool (ls_test l)), (''checkout_data'', JObj [(''custom'',
         JObj [(''order_id'', JStr (cq_order q)), (''tenant_id'', JStr (cq_tenant q))])])]
       @ (if ls_redirect l \<noteq> [] then [(''product_options'', JObj [(''redirect_url'', JStr (ls_redirect l))])] else []))),
     (''relationships'', JObj [(''store'', JObj [(''data'', JObj [(''type'', JStr ''stores''), (''id'', JStr (ls_store l))])]),
       (''variant'', JObj [(''data'', JObj [(''type'', JStr ''variants''), (''id'', JStr (ls_variant l))])])])])]"

definition lemon_checkout :: "pay_env \<Rightarrow> lemon \<Rightarrow> string \<Rightarrow> checkout_request \<Rightarrow> exn + checkout_response" where
  "lemon_checkout env l uid q =
     (if ls_api_key l = [] then Inl (RuntimeError ''Lemon Squeezy API key is not configured'')
      else if ls_store l = [] \<or> ls_variant l = [] then Inl (RuntimeError ''Lemon Squeezy store and variant IDs are not configured'')
      else case ls_request l ''POST'' (ls_base_url l @ ''/v1/checkouts'')
          [(''Authorization'', ''Bearer '' @ ls_api_key l), (''Accept'', ''application/vnd.api+json''),
           (''Content-Type'', ''application/vnd.api+json'')] (Some (lemon_checkout_body l q)) of
        Inl e \<Rightarrow> Inl e
      | Inr v \<Rightarrow> (let data = dict_or (jget v ''data'') v in
          generic_checkout_response env ''lemon-squeezy'' (dict_merge [(''id'', jget data ''id'')] (dict_or (jget data ''attributes'') []))
            (ls_test l)))"

definition lemon_verify :: "pay_env \<Rightarrow> lemon \<Rightarrow> string \<Rightarrow> string \<Rightarrow> headers \<Rightarrow> exn + pay_event" where
  "lemon_verify env l now body hs =
     (case verify_hmac env body (ls_webhook_secret l) (header hs ''x-signature'') of Inl e \<Rightarrow> Inl e | Inr _ \<Rightarrow>
      case parse_json env body of Inl e \<Rightarrow> Inl e | Inr v \<Rightarrow>
        (let txt = first_str (show_value env);
             meta = dict_or (jget v ''meta'') []; data = dict_or (jget v ''data'') []; attrs = dict_or (jget data ''attributes'') [] in
         if ls_store l \<noteq> [] \<and> txt [jget attrs ''store_id''] \<noteq> ls_store l
         then Inl (InvalidWebhook ''Lemon Squeezy store does not match the configured store'')
         else if ls_variant l \<noteq> [] \<and> txt [jget attrs ''variant_id''] \<noteq> ls_variant l
         then Inl (InvalidWebhook ''Lemon Squeezy variant does not match the configured variant'')
         else let custom = dict_or (jget meta ''custom_data'') [];
             etype = txt [jget meta ''event_name'', JStr (header hs ''x-event-name''), JStr ''subscription.updated''];
             eid = txt [jget data ''id'', jget meta ''event_id''];
             oid = txt [jget custom ''order_id'', jget custom ''orderId'', jget attrs ''order_id''];
             key = header hs ''x-event-id'' in
           case parse_time env now (py_or (jget attrs ''updated_at'') (jget attrs ''created_at'')) of Inl e \<Rightarrow> Inl e | Inr tm \<Rightarrow>
             normalized ''lemon-squeezy'' eid etype
               (lemon_status (txt [jget attrs ''status'', jget attrs ''status_formatted'', JStr etype]) etype)
               oid tm (ls_test l) (if key \<noteq> [] then key else eid) (as_int (jget attrs ''total'')) []))"

definition lemon_reconcile :: "lemon \<Rightarrow> string \<Rightarrow> string \<Rightarrow> exn + pay_event" where
  "lemon_reconcile l now ref = normalized ''lemon-squeezy'' (''reconcile-'' @ ref) ''subscription.reconciled'' Pay_Succeeded ref now
     (ls_test l) (''reconcile-'' @ ref) None []"

definition lemon_adapter :: "pay_env \<Rightarrow> lemon \<Rightarrow> adapter" where
  "lemon_adapter env l = \<lparr>ad_id = ''lemon-squeezy'', ad_test_only = False,
     ad_capabilities = [''checkout.create'', ''subscription.transition'', ''refund.create'', ''webhook.verify'', ''event.reconcile''],
     ad_checkout = lemon_checkout env l, ad_verify = lemon_verify env l, ad_reconcile = lemon_reconcile l,
     ad_confirm = (\<lambda>ref n. False), ad_transition = (\<lambda>ref s. ref \<noteq> [] \<and> s \<noteq> []),
     ad_refund = (\<lambda>ref n. ''refund-'' @ ref), ad_confirm_event = None\<rparr>"

section \<open>The contract of a provider\<close>

text \<open>
  What the billing service relies on: a webhook that is turned into an event was authentic, the
  event names its provider and is complete, and a confirmation answers for the payment, the order and
  the amount that were asked about.
\<close>

locale payment_provider =
  fixes A :: adapter
    and authentic :: "string \<Rightarrow> headers \<Rightarrow> bool"
  assumes plain_id: "plain (ad_id A)"
    and verified: "ad_verify A now body hs = Inr e \<Longrightarrow>
      authentic body hs \<and> pe_provider e = ad_id A \<and> pe_event e \<noteq> [] \<and> pe_order e \<noteq> [] \<and> 8 \<le> length (pe_key e)"
    and confirmed: "ad_confirm_event A = Some f \<Longrightarrow> f now ref oid n key = Inr e \<Longrightarrow>
      pe_provider e = ad_id A \<and> pe_event e = ''confirm-'' @ ref \<and> pe_order e = oid \<and> pe_amount e = Some n"

text \<open>The HMAC of the body under a configured secret.\<close>

definition signed :: "pay_env \<Rightarrow> string \<Rightarrow> string \<Rightarrow> string \<Rightarrow> bool" where
  "signed env secret body supplied \<longleftrightarrow> secret \<noteq> [] \<and> supplied \<noteq> [] \<and> lower supplied = hex_text (hmac_raw env secret body)"

definition officially_signed :: "pay_env \<Rightarrow> string \<Rightarrow> string \<Rightarrow> headers \<Rightarrow> string \<Rightarrow> bool" where
  "officially_signed env secret body hs signature \<longleftrightarrow> secret \<noteq> [] \<and>
     (\<exists>item\<in>set (tl (split_char (CHR '':'') signature)). b64_decode item =
        Some (b64_encode (hmac_raw env secret (body @ '':'' @ header hs ''tosspayments-webhook-transmission-time''))))"

definition toss_authentic :: "pay_env \<Rightarrow> toss \<Rightarrow> string \<Rightarrow> headers \<Rightarrow> bool" where
  "toss_authentic env t body hs \<longleftrightarrow>
     (\<exists>s. s \<in> {header hs ''tosspayments-webhook-signature'', header hs ''x-signature''} \<and>
        (signed env (ts_webhook_secret t) body s \<or> officially_signed env (ts_webhook_secret t) body hs s))
     \<or> (\<exists>f v. ts_verifier t = Some f \<and> parse_json env body = Inr v \<and> f v)"

lemma verify_hmac_signed: "verify_hmac env body secret supplied = Inr u \<Longrightarrow> signed env secret body supplied"
  by (auto simp: verify_hmac_def signed_def split: if_splits)

lemma normalized_Inr:
  assumes "normalized provider eid etype status oid tm test ikey amount meta = Inr e"
  shows "pe_provider e = provider" "pe_event e = eid" "pe_order e = oid" "pe_status e = status" "pe_amount e = amount"
    "pe_event e \<noteq> []" "pe_order e \<noteq> []" "8 \<le> length (pe_key e)"
  using assms by (auto simp: normalized_def make_pay_event_def Let_def split: if_splits)

lemma mock_verify_Inr:
  assumes "mock_verify env secret now body hs = Inr e"
  shows "signed env secret body (header hs ''x-signature'')" "pe_provider e = ''mock''" "pe_event e \<noteq> []" "pe_order e \<noteq> []"
    "8 \<le> length (pe_key e)"
  using assms by (auto simp: mock_verify_def Let_def split: sum.splits dest: verify_hmac_signed normalized_Inr)

lemma lemon_verify_Inr:
  assumes "lemon_verify env l now body hs = Inr e"
  shows "signed env (ls_webhook_secret l) body (header hs ''x-signature'')" "pe_provider e = ''lemon-squeezy''"
    "pe_event e \<noteq> []" "pe_order e \<noteq> []" "8 \<le> length (pe_key e)"
    "\<exists>v. parse_json env body = Inr v \<and> pe_event e = first_str (show_value env)
       [jget (dict_or (jget v ''data'') []) ''id'', jget (dict_or (jget v ''meta'') []) ''event_id'']"
proof -
  obtain v etype status oid tm key where v: "parse_json env body = Inr v"
    "verify_hmac env body (ls_webhook_secret l) (header hs ''x-signature'') = Inr ()"
    "normalized ''lemon-squeezy'' (first_str (show_value env)
       [jget (dict_or (jget v ''data'') []) ''id'', jget (dict_or (jget v ''meta'') []) ''event_id'']) etype status oid tm (ls_test l) key
       (as_int (jget (dict_or (jget (dict_or (jget v ''data'') []) ''attributes'') []) ''total'')) [] = Inr e"
    using assms by (auto simp: lemon_verify_def Let_def split: sum.splits if_splits)
  from normalized_Inr [OF v(3)] verify_hmac_signed [OF v(2)] v(1)
  show "signed env (ls_webhook_secret l) body (header hs ''x-signature'')" "pe_provider e = ''lemon-squeezy''"
    "pe_event e \<noteq> []" "pe_order e \<noteq> []" "8 \<le> length (pe_key e)"
    "\<exists>v. parse_json env body = Inr v \<and> pe_event e = first_str (show_value env)
       [jget (dict_or (jget v ''data'') []) ''id'', jget (dict_or (jget v ''meta'') []) ''event_id'']"
    by blast+
qed

lemma toss_authenticate_Inr:
  assumes "toss_authenticate env t body hs v = Inr u" and "parse_json env body = Inr v"
  shows "toss_authentic env t body hs"
  using assms by (auto simp: toss_authenticate_def toss_authentic_def verify_official_def officially_signed_def Let_def
      split: if_splits option.splits dest: verify_hmac_signed)

lemma toss_verify_Inr:
  assumes "toss_verify env t now body hs = Inr e"
  shows "toss_authentic env t body hs" "pe_provider e = ''toss''" "pe_event e \<noteq> []" "pe_order e \<noteq> []" "8 \<le> length (pe_key e)"
proof -
  obtain v u where "parse_json env body = Inr v" "toss_authenticate env t body hs v = Inr u"
    "\<exists>eid etype st oid tm test key n. normalized ''toss'' eid etype st oid tm test key n [] = Inr e"
    using assms by (auto simp: toss_verify_def Let_def split: sum.splits) blast
  then show "toss_authentic env t body hs" "pe_provider e = ''toss''" "pe_event e \<noteq> []" "pe_order e \<noteq> []" "8 \<le> length (pe_key e)"
    by (auto dest: toss_authenticate_Inr normalized_Inr)
qed

lemma toss_confirm_event_Inr:
  assumes "toss_confirm_event env t now ref oid n key = Inr e"
  shows "pe_provider e = ''toss''" "pe_event e = ''confirm-'' @ ref" "pe_order e = oid" "pe_amount e = Some n" "ts_secret t \<noteq> []"
  using assms by (auto simp: toss_confirm_event_def Let_def split: sum.splits if_splits dest: normalized_Inr)

lemma plain_ids: "plain ''mock''" "plain ''toss''" "plain ''lemon-squeezy''"
  by (simp_all add: plain_def)

interpretation mock_provider: payment_provider "mock_adapter env secret"
  "\<lambda>body hs. signed env secret body (header hs ''x-signature'')" for env secret
  by unfold_locales (auto simp: mock_adapter_def plain_ids dest: mock_verify_Inr)

interpretation lemon_provider: payment_provider "lemon_adapter env l"
  "\<lambda>body hs. signed env (ls_webhook_secret l) body (header hs ''x-signature'')" for env l
  by unfold_locales (auto simp: lemon_adapter_def plain_ids dest: lemon_verify_Inr(1-5))

interpretation toss_provider: payment_provider "toss_adapter env t" "toss_authentic env t" for env t
  by unfold_locales (auto simp: toss_adapter_def plain_ids dest: toss_verify_Inr toss_confirm_event_Inr)

section \<open>Events the adapters misread\<close>

text \<open>An environment for the examples: every body is the JSON object \<open>demo_body\<close>.\<close>

definition demo_env :: "dict \<Rightarrow> pay_env" where
  "demo_env d = \<lparr>hmac_raw = (\<lambda>k m. ''digest''), decode_json = (\<lambda>b. Some (JObj d)), iso_time = Some, show_value = (\<lambda>v. ''?''),
     fetch = (\<lambda>m u h p. None)\<rparr>"

lemma single_item: "tl (split_char (CHR '':'') (''v1:'' @ b64_encode d)) = [b64_encode d]"
  using split_char_append [of "CHR '':''" "''v1''" "b64_encode d"] split_char_free [OF b64_encode_chars, of d] by simp

text \<open>
  C17. A Toss webhook that carries the signature Toss documents, \<open>v1:\<close> and the base64 text of the
  HMAC-SHA256 digest of the body and the transmission time, is always refused: the code compares the
  decoded item with the base64 text of the digest, not with the digest.
\<close>
theorem documented_signature_is_refused:
  assumes "hmac_raw env (ts_webhook_secret t) (body @ '':'' @ header hs ''tosspayments-webhook-transmission-time'') = digest"
    and "digest \<noteq> []" and "header hs ''tosspayments-webhook-signature'' = ''v1:'' @ b64_encode digest"
    and "parse_json env body = Inr v"
  shows "\<exists>m. toss_verify env t now body hs = Inl (InvalidWebhook m)"
proof -
  have "Some digest \<noteq> Some (b64_encode digest)"
    using b64_encode_longer [OF assms(2)] by (metis less_irrefl option.inject)
  then have "\<exists>m. verify_official env t body hs (''v1:'' @ b64_encode digest) = Inl (InvalidWebhook m)"
    using assms(1) by (auto simp: verify_official_def Let_def single_item b64_decode_encode simp del: append_Cons)
  with assms(3,4) show ?thesis
    by (auto simp: toss_verify_def toss_authenticate_def Let_def simp del: append_Cons)
qed

definition demo_toss :: "pay_env \<Rightarrow> toss" where
  "demo_toss env = make_toss (Some ''sk'') (Some ''whsec'') ''https://api/'' (Some ''ck'') ''https://js'' ''https://ok'' ''https://no'' True
     (json_request env) None"

theorem documented_signature_is_refused_witness:
  "\<exists>m. toss_verify (demo_env []) (demo_toss (demo_env [])) ''now'' ''{}''
     [(''TossPayments-Webhook-Transmission-Time'', ''12:00''), (''TossPayments-Webhook-Signature'', ''v1:'' @ b64_encode ''digest'')]
     = Inl (InvalidWebhook m)"
proof (rule documented_signature_is_refused)
  show "hmac_raw (demo_env []) (ts_webhook_secret (demo_toss (demo_env []))) (''{}'' @ '':'' @ header
      [(''TossPayments-Webhook-Transmission-Time'', ''12:00''), (''TossPayments-Webhook-Signature'', ''v1:'' @ b64_encode ''digest'')]
      ''tosspayments-webhook-transmission-time'') = ''digest''" by (simp add: demo_env_def)
  show "header [(''TossPayments-Webhook-Transmission-Time'', ''12:00''), (''TossPayments-Webhook-Signature'', ''v1:'' @ b64_encode ''digest'')]
      ''tosspayments-webhook-signature'' = ''v1:'' @ b64_encode ''digest''" by code_simp
  show "parse_json (demo_env []) ''{}'' = Inr []" by code_simp
qed simp

text \<open>
  The Lemon Squeezy adapter reports a payment as succeeded for every event whose name contains
  \<open>created\<close>, whatever status the event carries: an \<open>order_created\<close> event of a failed or pending
  order is a paid order for the billing store.
\<close>
theorem created_event_counts_as_paid:
  assumes "lemon_verify env l now body hs = Inr e" and "parse_json env body = Inr v"
    and "jget v ''meta'' = JObj meta" and "jget meta ''event_name'' = JStr name" and "contains_text name ''created''"
  shows "pe_status e = Pay_Succeeded"
proof -
  have "name \<noteq> []" using assms(5) by (auto simp: starts_with_def)
  then have "first_str (show_value env) [jget meta ''event_name'', JStr (header hs ''x-event-name''), JStr ''subscription.updated''] = name"
    by (simp add: assms(4) first_str_Cons)
  then have "lemon_status s (first_str (show_value env) [jget (dict_or (jget v ''meta'') []) ''event_name'',
      JStr (header hs ''x-event-name''), JStr ''subscription.updated'']) = Pay_Succeeded" for s
    using assms(3,5) by (simp add: lemon_status_def dict_or_def)
  with assms(1,2) show ?thesis
    by (auto simp: lemon_verify_def Let_def split: sum.splits if_splits dest!: normalized_Inr(4))
qed

definition demo_lemon :: "pay_env \<Rightarrow> lemon" where
  "demo_lemon env = make_lemon (Some ''key'') ''whsec'' None None ''https://ok'' ''https://api'' True (json_request env)"

definition demo_lemon_body :: "string \<Rightarrow> string \<Rightarrow> dict" where
  "demo_lemon_body name status = [(''meta'', JObj [(''event_name'', JStr name), (''custom_data'', JObj [(''order_id'', JStr ''order-1'')])]),
     (''data'', JObj [(''id'', JStr ''ls-order-77''), (''attributes'', JObj [(''status'', JStr status), (''total'', JInt 990)])])]"

definition demo_signature :: headers where
  "demo_signature = [(''X-Signature'', hex_text ''digest'')]"

theorem created_event_counts_as_paid_witness:
  "\<exists>e. lemon_verify (demo_env (demo_lemon_body ''order_created'' ''failed'')) (demo_lemon (demo_env [])) ''now'' ''{}'' demo_signature = Inr e
     \<and> pe_status e = Pay_Succeeded"
proof -
  let ?env = "demo_env (demo_lemon_body ''order_created'' ''failed'')"
  obtain e where e: "lemon_verify ?env (demo_lemon (demo_env [])) ''now'' ''{}'' demo_signature = Inr e"
    by (rule value_obtain [where m = "lemon_verify ?env (demo_lemon (demo_env [])) ''now'' ''{}'' demo_signature" and Q = "\<lambda>_. True"])
      code_simp
  have "parse_json ?env ''{}'' = Inr (demo_lemon_body ''order_created'' ''failed'')" by (simp add: parse_json_def demo_env_def)
  from created_event_counts_as_paid [OF e this] e show ?thesis
    by (simp add: demo_lemon_body_def jget_def starts_with_def)
qed

end
