(* ===== verification/Billing_Service.thy ===== *)
theory Billing_Service
  imports Billing_Adapters
begin

text \<open>
  The provider registry and the billing service: \<open>services/billing/registry.py\<close> and
  \<open>service.py\<close>. The service is a client of a registry of payment providers and of the billing
  store; every method is the sequence of store transactions it runs, so an exception between two of
  them leaves the first one's effect.
\<close>

section \<open>The registry\<close>

type_synonym registry = "(string \<times> adapter) list"

definition live_providers :: "string list" where
  "live_providers = [''toss'', ''lemon-squeezy'']"

definition known_providers :: "string list" where
  "known_providers = ''mock'' # live_providers"

definition make_registry :: "registry \<Rightarrow> exn + registry" where
  "make_registry ps = (if \<exists>p\<in>set ps. fst p \<notin> set known_providers
     then Inl (ProviderConfigurationError ''unknown providers'') else Inr ps)"

definition get_provider :: "registry \<Rightarrow> string \<Rightarrow> exn + adapter" where
  "get_provider reg p = (case map_of reg p of None \<Rightarrow> Inl (UnknownProvider p) | Some a \<Rightarrow> Inr a)"

definition require_provider :: "registry \<Rightarrow> string \<Rightarrow> string \<Rightarrow> exn + adapter" where
  "require_provider reg p cap = (case get_provider reg p of Inl e \<Rightarrow> Inl e | Inr a \<Rightarrow>
     if cap \<noteq> [] \<and> cap \<notin> set (ad_capabilities a)
     then Inl (ProviderConfigurationError (p @ '' does not support '' @ cap)) else Inr a)"

definition build_registry :: "pay_env \<Rightarrow> string \<Rightarrow> string \<Rightarrow> adapter option \<Rightarrow> adapter option \<Rightarrow> adapter option \<Rightarrow> exn + registry" where
  "build_registry env environment selected mock toss lemon =
     (if selected \<notin> set known_providers then Inl (ProviderConfigurationError ''selected provider is not supported'')
      else let live = (case toss of None \<Rightarrow> [] | Some _ \<Rightarrow> [''toss'']) @ (case lemon of None \<Rightarrow> [] | Some _ \<Rightarrow> [''lemon-squeezy'']) in
        if 1 < length live then Inl (ProviderConfigurationError ''at most one live payment provider may be configured'')
        else if selected = ''mock'' \<and> live \<noteq> []
        then Inl (ProviderConfigurationError ''a live adapter cannot be configured while mock is selected'')
        else if environment = ''production'' \<and> selected = ''mock''
        then Inl (ProviderConfigurationError ''mock payments are not allowed in production'')
        else if selected \<in> set live_providers \<and> selected \<notin> set live
        then Inl (ProviderConfigurationError (''selected live provider is not configured: '' @ selected))
        else let mock' = (case mock of Some a \<Rightarrow> Some a | None \<Rightarrow> if selected = ''mock'' then Some (mock_adapter env ''mock-secret'') else None) in
          make_registry ((case mock' of None \<Rightarrow> [] | Some a \<Rightarrow> [(''mock'', a)])
            @ (case toss of None \<Rightarrow> [] | Some a \<Rightarrow> [(''toss'', a)])
            @ (case lemon of None \<Rightarrow> [] | Some a \<Rightarrow> [(''lemon-squeezy'', a)])))"

type_synonym settings = "(string \<times> string) list"

definition setting :: "settings \<Rightarrow> string \<Rightarrow> string \<Rightarrow> string" where
  "setting vs k d = (case map_of vs k of None \<Rightarrow> d | Some v \<Rightarrow> v)"

definition any_set :: "settings \<Rightarrow> string list \<Rightarrow> bool" where
  "any_set vs ks \<longleftrightarrow> (\<exists>k\<in>set ks. strip (setting vs k []) \<noteq> [])"

definition under_base :: "settings \<Rightarrow> string \<Rightarrow> string" where
  "under_base vs path = rstrip_char (CHR ''/'') (setting vs ''APP_BASE_URL'' []) @ path"

definition build_registry_from_environment :: "pay_env \<Rightarrow> settings \<Rightarrow> exn + registry" where
  "build_registry_from_environment env vs =
     (let environment = lower (strip (setting vs ''APP_ENV'' []));
          selected = lower (strip (setting vs ''PAYMENT_PROVIDER'' []));
          toss_configured = any_set vs [''TOSS_SECRET_KEY'', ''TOSS_WEBHOOK_SECRET''];
          lemon_configured = any_set vs [''LEMONSQUEEZY_API_KEY'', ''LEMONSQUEEZY_WEBHOOK_SECRET'']
      in if toss_configured \<and> lemon_configured
         then Inl (ProviderConfigurationError ''only one live payment provider may be configured'')
         else if selected = ''mock'' then
           (if toss_configured \<or> lemon_configured
            then Inl (ProviderConfigurationError ''live credentials are present while mock is selected'')
            else build_registry env environment selected (Some (mock_adapter env (setting vs ''MOCK_WEBHOOK_SECRET'' ''mock-secret''))) None None)
         else if selected = ''toss'' then
           build_registry env environment selected None
             (Some (toss_adapter env (make_toss (map_of vs ''TOSS_SECRET_KEY'') (map_of vs ''TOSS_WEBHOOK_SECRET'')
                ''https://api.tosspayments.com'' (map_of vs ''TOSS_CLIENT_KEY'')
                (setting vs ''TOSS_CHECKOUT_URL'' ''https://js.tosspayments.com/v2/standard'')
                (setting vs ''TOSS_SUCCESS_URL'' (under_base vs ''/payments/toss/success''))
                (setting vs ''TOSS_FAIL_URL'' (under_base vs ''/payments/toss/fail''))
                (environment \<noteq> ''production'') (json_request env) None))) None
         else if selected = ''lemon-squeezy'' then
           build_registry env environment selected None None
             (Some (lemon_adapter env (make_lemon (map_of vs ''LEMONSQUEEZY_API_KEY'')
                (if setting vs ''LEMONSQUEEZY_WEBHOOK_SECRET'' [] \<noteq> [] then setting vs ''LEMONSQUEEZY_WEBHOOK_SECRET'' []
                 else setting vs ''LEMONSQUEEZY_API_KEY'' [])
                (map_of vs ''LEMONSQUEEZY_STORE_ID'') (map_of vs ''LEMONSQUEEZY_VARIANT_ID'')
                (setting vs ''LEMONSQUEEZY_REDIRECT_URL'' (under_base vs ''/payments/lemon-squeezy/success''))
                ''https://api.lemonsqueezy.com'' (environment \<noteq> ''production'') (json_request env))))
         else Inl (ProviderConfigurationError ''selected provider is not supported''))"

section \<open>The service\<close>

record billing_service =
  bs_providers :: registry
  bs_active :: string

definition make_billing_service :: "registry \<Rightarrow> string \<Rightarrow> exn + billing_service" where
  "make_billing_service reg active = (case require_provider reg active ''checkout.create'' of
     Inl e \<Rightarrow> Inl e | Inr _ \<Rightarrow> Inr \<lparr>bs_providers = reg, bs_active = active\<rparr>)"

definition checkout_of :: "create_order \<Rightarrow> checkout_request" where
  "checkout_of r = \<lparr>cq_tenant = co_tenant r, cq_order = co_id r, cq_amount = co_amount r, cq_currency = co_currency r,
     cq_plan = co_plan r, cq_key = co_key r\<rparr>"

definition create_order_call :: "billing_service \<Rightarrow> create_order \<Rightarrow> string \<Rightarrow> string \<Rightarrow> string \<Rightarrow> bill_db \<Rightarrow>
    (exn + checkout_response) \<times> bill_db" where
  "create_order_call svc req uid now now' db =
     (case require_provider (bs_providers svc) (bs_active svc) ''checkout.create'' of Inl e \<Rightarrow> (Inl e, db) | Inr a \<Rightarrow>
        and_then (atomically (create_pending_order req (bs_active svc) now) db)
          (\<lambda>_ db. case ad_checkout a uid (checkout_of req) of Inl e \<Rightarrow> (Inl e, db) | Inr c \<Rightarrow>
             and_then (atomically (attach_checkout (co_id req) (bs_active svc) (cs_reference c) now') db)
               (\<lambda>_ db. (Inr c, db))))"

definition receive_webhook :: "billing_service \<Rightarrow> string \<Rightarrow> string \<Rightarrow> headers \<Rightarrow> string \<Rightarrow> string \<Rightarrow> string \<Rightarrow> string \<Rightarrow> bill_db \<Rightarrow>
    (exn + processing_result) \<times> bill_db" where
  "receive_webhook svc p body hs tm uid aid now db =
     (if p \<noteq> bs_active svc then (Inl (ValueError ''webhook provider is not enabled in this environment''), db)
      else case require_provider (bs_providers svc) p ''webhook.verify'' of Inl e \<Rightarrow> (Inl e, db) | Inr a \<Rightarrow>
        case ad_verify a tm body hs of Inl e \<Rightarrow> (Inl e, db) | Inr ev \<Rightarrow>
          atomically (process_event ev body hs uid aid now) db)"

definition confirm_payment :: "(rat \<Rightarrow> string) \<Rightarrow> billing_service \<Rightarrow> string \<Rightarrow> string \<Rightarrow> int \<Rightarrow> string \<Rightarrow> string \<Rightarrow> string \<Rightarrow> string \<Rightarrow> string \<Rightarrow>
    bill_db \<Rightarrow> (exn + processing_result) \<times> bill_db" where
  "confirm_payment fr svc oid ref amount key tm uid aid now db =
     (case get_order oid db of Inl e \<Rightarrow> (Inl e, db) | Inr ord \<Rightarrow>
      if bo_provider ord \<noteq> Some (bs_active svc) \<or> bo_amount ord \<noteq> amount
      then (Inl (ValueError ''payment confirmation does not match the pending order''), db)
      else if bo_status ord = Pay_Succeeded
      then (Inr \<lparr>pr_provider = bs_active svc, pr_event = ''confirm-'' @ ref, pr_applied = False, pr_status = ''succeeded''\<rparr>, db)
      else case require_provider (bs_providers svc) (bs_active svc) ''payment.confirm'' of Inl e \<Rightarrow> (Inl e, db) | Inr a \<Rightarrow>
        case ad_confirm_event a of
          None \<Rightarrow> (Inl (ValueError ''active payment provider requires webhook completion''), db)
        | Some f \<Rightarrow> (case f tm ref oid amount key of Inl e \<Rightarrow> (Inl e, db) | Inr ev \<Rightarrow>
            atomically (process_event ev (json_dump fr (JObj (pay_event_dict ev))) [(''x-confirmation-idempotency-key'', key)] uid aid now) db))"

section \<open>The registry holds one provider\<close>

lemma make_registry_Inr: "make_registry ps = Inr reg \<Longrightarrow> reg = ps"
  by (simp add: make_registry_def split: if_splits)

text \<open>What the environment can select.\<close>

inductive configured :: "pay_env \<Rightarrow> string \<Rightarrow> adapter \<Rightarrow> bool" where
  use_mock: "configured env ''mock'' (mock_adapter env secret)"
| use_toss: "ts_verifier t = None \<Longrightarrow> configured env ''toss'' (toss_adapter env t)"
| use_lemon: "configured env ''lemon-squeezy'' (lemon_adapter env l)"

lemma build_registry_single:
  "build_registry env e ''mock'' (Some a) None None = Inr reg \<Longrightarrow> reg = [(''mock'', a)] \<and> e \<noteq> ''production''"
  "build_registry env e ''toss'' None (Some a) None = Inr reg \<Longrightarrow> reg = [(''toss'', a)]"
  "build_registry env e ''lemon-squeezy'' None None (Some a) = Inr reg \<Longrightarrow> reg = [(''lemon-squeezy'', a)]"
  by (auto simp: build_registry_def known_providers_def live_providers_def split: if_splits dest: make_registry_Inr)

lemma environment_registry:
  assumes "build_registry_from_environment env vs = Inr reg"
  defines "p \<equiv> lower (strip (setting vs ''PAYMENT_PROVIDER'' []))"
  shows "\<exists>a. reg = [(p, a)] \<and> configured env p a \<and> (p = ''mock'' \<longrightarrow> lower (strip (setting vs ''APP_ENV'' [])) \<noteq> ''production'')"
proof -
  have v: "ts_verifier (make_toss a b c d e f g h r None) = None" for a b c d e f g h r
    by (simp add: make_toss_def)
  consider (m) "p = ''mock''" | (t) "p = ''toss''" | (l) "p = ''lemon-squeezy''"
    using assms(1) unfolding build_registry_from_environment_def p_def [symmetric] by (auto simp: Let_def split: if_splits)
  then show ?thesis
    using assms(1) unfolding build_registry_from_environment_def p_def [symmetric]
    by cases (auto simp: Let_def split: if_splits dest!: build_registry_single intro: configured.intros v)
qed

text \<open>
  The registry built from the environment holds exactly one provider, the selected one, and its
  adapter carries that name; the test-only mock is never there in production.
\<close>
theorem environment_selects_one_provider:
  assumes "build_registry_from_environment env vs = Inr reg"
  shows "\<exists>a. reg = [(lower (strip (setting vs ''PAYMENT_PROVIDER'' [])), a)]
    \<and> ad_id a = lower (strip (setting vs ''PAYMENT_PROVIDER'' []))
    \<and> (lower (strip (setting vs ''APP_ENV'' [])) = ''production'' \<longrightarrow> \<not> ad_test_only a)"
proof -
  obtain a where a: "reg = [(lower (strip (setting vs ''PAYMENT_PROVIDER'' [])), a)]"
    "configured env (lower (strip (setting vs ''PAYMENT_PROVIDER'' []))) a"
    "lower (strip (setting vs ''PAYMENT_PROVIDER'' [])) = ''mock'' \<Longrightarrow> lower (strip (setting vs ''APP_ENV'' [])) \<noteq> ''production''"
    using environment_registry [OF assms] by blast
  from a(2) have "ad_id a = lower (strip (setting vs ''PAYMENT_PROVIDER'' []))"
    "ad_test_only a \<Longrightarrow> lower (strip (setting vs ''PAYMENT_PROVIDER'' [])) = ''mock''"
    by (cases; simp add: mock_adapter_def toss_adapter_def lemon_adapter_def)+
  with a show ?thesis by blast
qed

definition demo_settings :: settings where
  "demo_settings = [(''APP_ENV'', ''production''), (''PAYMENT_PROVIDER'', '' Toss ''), (''TOSS_SECRET_KEY'', ''sk''),
     (''TOSS_CLIENT_KEY'', ''ck''), (''APP_BASE_URL'', ''https://app/'')]"

lemma demo_settings_provider: "lower (strip (setting demo_settings ''PAYMENT_PROVIDER'' [])) = ''toss''"
  "lower (strip (setting demo_settings ''APP_ENV'' [])) = ''production''"
  by code_simp+

definition demo_shop :: "pay_env \<Rightarrow> toss" where
  "demo_shop env = make_toss (Some ''sk'') None ''https://api.tosspayments.com'' (Some ''ck'')
     ''https://js.tosspayments.com/v2/standard'' ''https://app/payments/toss/success'' ''https://app/payments/toss/fail''
     False (json_request env) None"

lemma demo_registry:
  "build_registry_from_environment env demo_settings = Inr [(''toss'', toss_adapter env (demo_shop env))]"
proof -
  have "any_set demo_settings [''TOSS_SECRET_KEY'', ''TOSS_WEBHOOK_SECRET'']"
    "\<not> any_set demo_settings [''LEMONSQUEEZY_API_KEY'', ''LEMONSQUEEZY_WEBHOOK_SECRET'']"
    "map_of demo_settings ''TOSS_SECRET_KEY'' = Some ''sk''" "map_of demo_settings ''TOSS_WEBHOOK_SECRET'' = None"
    "map_of demo_settings ''TOSS_CLIENT_KEY'' = Some ''ck''"
    "setting demo_settings ''TOSS_CHECKOUT_URL'' ''https://js.tosspayments.com/v2/standard'' = ''https://js.tosspayments.com/v2/standard''"
    "setting demo_settings ''TOSS_SUCCESS_URL'' (under_base demo_settings ''/payments/toss/success'') = ''https://app/payments/toss/success''"
    "setting demo_settings ''TOSS_FAIL_URL'' (under_base demo_settings ''/payments/toss/fail'') = ''https://app/payments/toss/fail''"
    by code_simp+
  then show ?thesis
    by (simp add: build_registry_from_environment_def demo_settings_provider build_registry_def make_registry_def
        known_providers_def live_providers_def demo_shop_def)
qed

theorem environment_selects_one_provider_witness:
  "\<exists>a. build_registry_from_environment (demo_env []) demo_settings = Inr [(''toss'', a)] \<and> \<not> ad_test_only a"
  using environment_selects_one_provider [OF demo_registry [of "demo_env []"]] demo_registry
  by (auto simp: demo_settings_provider)

section \<open>Only authentic webhooks reach the store\<close>

lemma atomically_unchanged: "snd (atomically body db) \<noteq> db \<Longrightarrow> \<exists>x. body db = Inr (x, snd (atomically body db))"
  by (auto simp: atomically_def split: sum.splits)

lemma create_order_step:
  assumes "0 \<le> co_grant req"
  shows "bill_step\<^sup>*\<^sup>* db (snd (create_order_call svc req uid now now' db))"
proof -
  have pending: "bill_step\<^sup>*\<^sup>* d d'" if "atomically (create_pending_order req p w) d = (r, d')" for p w d r d'
    using that assms by (auto simp: atomically_def split: sum.splits intro: bill_step.do_order)
  have attach: "bill_step\<^sup>*\<^sup>* d d'" if "atomically (attach_checkout oid p c w) d = (r, d')" for oid p c w d r d'
    using that by (auto simp: atomically_def split: sum.splits intro: bill_step.do_checkout)
  have "yields (\<lambda>_ d'. bill_step\<^sup>*\<^sup>* db d') (\<lambda>_ d'. bill_step\<^sup>*\<^sup>* db d') (create_order_call svc req uid now now' db)"
    by (auto simp: create_order_call_def yields_def and_then_def split: sum.splits prod.splits dest!: pending attach)
  then show ?thesis by (rule yields_snd)
qed

inductive service_step :: "(rat \<Rightarrow> string) \<Rightarrow> billing_service \<Rightarrow> bill_db \<Rightarrow> bill_db \<Rightarrow> bool" for fr svc where
  call_create: "make_create_order r0 = Inr req \<Longrightarrow> service_step fr svc db (snd (create_order_call svc req uid now now' db))"
| call_webhook: "fresh_ids uid aid db \<Longrightarrow> service_step fr svc db (snd (receive_webhook svc p body hs tm uid aid now db))"
| call_confirm: "fresh_ids uid aid db \<Longrightarrow> service_step fr svc db (snd (confirm_payment fr svc oid ref n key tm uid aid now db))"

context payment_provider
begin

lemma webhook_authentic:
  assumes "bs_providers svc = [(bs_active svc, A)]" and "snd (receive_webhook svc p body hs tm uid aid now db) \<noteq> db"
  shows "p = bs_active svc \<and> authentic body hs"
proof -
  have p: "p = bs_active svc" using assms(2) by (auto simp: receive_webhook_def split: if_splits)
  moreover obtain ev where "ad_verify A tm body hs = Inr ev"
    using assms p by (auto simp: receive_webhook_def require_provider_def get_provider_def split: sum.splits if_splits)
  ultimately show ?thesis using verified by blast
qed

text \<open>Every call on the service is a sequence of steps of the store.\<close>

lemma webhook_step:
  assumes "bs_providers svc = [(bs_active svc, A)]" and "fresh_ids uid aid db"
  shows "bill_step\<^sup>*\<^sup>* db (snd (receive_webhook svc p body hs tm uid aid now db))"
proof (cases "snd (receive_webhook svc p body hs tm uid aid now db) = db")
  case False
  then have p: "p = bs_active svc" by (auto simp: receive_webhook_def split: if_splits)
  with False obtain ev where ev: "ad_verify A tm body hs = Inr ev"
    "receive_webhook svc p body hs tm uid aid now db = atomically (process_event ev body hs uid aid now) db"
    using assms(1) by (auto simp: receive_webhook_def require_provider_def get_provider_def split: sum.splits if_splits)
  with False obtain r db' where "process_event ev body hs uid aid now db = Inr (r, db')"
    "snd (receive_webhook svc p body hs tm uid aid now db) = db'"
    using atomically_unchanged by metis
  then show ?thesis
    using bill_step.do_event [OF _ assms(2), of ev] verified [OF ev(1)] plain_id by (metis r_into_rtranclp)
qed simp

lemma confirm_step:
  assumes "bs_providers svc = [(bs_active svc, A)]" and "fresh_ids uid aid db"
  shows "bill_step\<^sup>*\<^sup>* db (snd (confirm_payment fr svc oid ref n key tm uid aid now db))"
proof (cases "snd (confirm_payment fr svc oid ref n key tm uid aid now db) = db")
  case False
  then obtain f ev where f: "ad_confirm_event A = Some f" "f tm ref oid n key = Inr ev"
    "snd (confirm_payment fr svc oid ref n key tm uid aid now db) = snd (atomically (process_event ev
      (json_dump fr (JObj (pay_event_dict ev))) [(''x-confirmation-idempotency-key'', key)] uid aid now) db)"
    using assms(1)
    by (auto simp: confirm_payment_def require_provider_def get_provider_def split: sum.splits if_splits option.splits)
  with False obtain r db' where "process_event ev (json_dump fr (JObj (pay_event_dict ev)))
      [(''x-confirmation-idempotency-key'', key)] uid aid now db = Inr (r, db')"
    "snd (confirm_payment fr svc oid ref n key tm uid aid now db) = db'"
    using atomically_unchanged by metis
  then show ?thesis
    using bill_step.do_event [OF _ assms(2), of ev] confirmed [OF f(1,2)] plain_id by (metis r_into_rtranclp)
qed simp

lemma service_step_steps:
  "service_step fr svc db db' \<Longrightarrow> bs_providers svc = [(bs_active svc, A)] \<Longrightarrow> bill_step\<^sup>*\<^sup>* db db'"
  by (induction rule: service_step.induct)
    (auto intro: webhook_step confirm_step create_order_step simp: make_create_order_def split: if_splits)

text \<open>A confirmation that was taken once changes nothing when it is repeated.\<close>

lemma confirm_recorded:
  assumes reg: "bs_providers svc = [(bs_active svc, A)]" and db: "bill_step\<^sup>*\<^sup>* empty_bill_db db" and ids: "fresh_ids uid aid db"
    and first: "confirm_payment fr svc oid ref n key tm uid aid now db = (Inr r, db1)" and applied: "pr_applied r"
    and later: "bill_step\<^sup>*\<^sup>* db1 db2"
  shows "snd (confirm_payment fr' svc oid ref n key' tm' uid' aid' now' db2) = db2"
proof (rule ccontr)
  assume changed: "snd (confirm_payment fr' svc oid ref n key' tm' uid' aid' now' db2) \<noteq> db2"
  have ok: "bill_ok db" by (rule order_life.ok_steps [OF db bill_ok_empty])
  obtain f ev b h where f: "ad_confirm_event A = Some f" "f tm ref oid n key = Inr ev"
    "process_event ev b h uid aid now db = Inr (r, db1)"
    using first applied reg
    by (auto simp: confirm_payment_def require_provider_def get_provider_def atomically_def
        split: sum.splits if_splits option.splits)
  then have "\<not> is_duplicate ev db"
    using applied process_duplicate [of ev db b h uid aid now] by auto
  then have "recorded ev db1"
    using process_event_recorded [OF f(3) ok _ ids] confirmed [OF f(1,2)] plain_id by simp
  then have rec: "recorded ev db2" by (rule bill_steps_recorded [OF later])
  from changed obtain ev' b' h' where ev': "f tm' ref oid n key' = Inr ev'"
    "snd (atomically (process_event ev' b' h' uid' aid' now') db2) \<noteq> db2"
    using reg f(1)
    by (auto simp: confirm_payment_def require_provider_def get_provider_def split: sum.splits if_splits option.splits)
  have "is_duplicate ev' db2"
    using recorded_duplicate [OF rec, of ev'] confirmed [OF f(1,2)] confirmed [OF f(1) ev'(1)] by simp
  from process_duplicate [OF this, of b' h' uid' aid' now'] ev'(2) show False by (auto simp: atomically_def)
qed

end

text \<open>The three adapters inherit these facts through their interpretations.\<close>

lemma configured_steps:
  "configured env p a \<Longrightarrow> service_step fr svc db db' \<Longrightarrow> bs_providers svc = [(bs_active svc, a)] \<Longrightarrow> bill_step\<^sup>*\<^sup>* db db'"
  by (induction rule: configured.induct)
    (rule mock_provider.service_step_steps toss_provider.service_step_steps lemon_provider.service_step_steps; assumption)+

lemma service_of_environment:
  assumes "build_registry_from_environment env vs = Inr reg" and "make_billing_service reg active = Inr svc"
  shows "\<exists>a. configured env active a \<and> bs_providers svc = [(bs_active svc, a)] \<and> bs_active svc = active"
proof -
  obtain p a where "reg = [(p, a)]" "configured env p a" using environment_registry [OF assms(1)] by blast
  with assms(2) show ?thesis
    by (auto simp: make_billing_service_def require_provider_def get_provider_def split: if_splits)
qed

lemma configured_authentic:
  assumes "configured env p a" and "bs_providers svc = [(bs_active svc, a)]"
    and "snd (receive_webhook svc q body hs tm uid aid now db) \<noteq> db"
  shows "q = bs_active svc \<and> (\<exists>name secret. name \<in> {''x-signature'', ''tosspayments-webhook-signature''}
    \<and> (signed env secret body (header hs name) \<or> officially_signed env secret body hs (header hs name)))"
  using assms
proof (induction rule: configured.induct)
  case (use_mock env secret)
  from mock_provider.webhook_authentic [OF this] show ?case by blast
next
  case (use_toss t env)
  from toss_provider.webhook_authentic [OF use_toss(2,3)] use_toss(1) show ?case by (auto simp: toss_authentic_def)
next
  case (use_lemon env l)
  from lemon_provider.webhook_authentic [OF this] show ?case by blast
qed

section \<open>Correctness of the service\<close>

definition demo_service :: "pay_env \<Rightarrow> billing_service" where
  "demo_service env = \<lparr>bs_providers = [(''toss'', toss_adapter env (demo_shop env))], bs_active = ''toss''\<rparr>"

lemma demo_service_made: "make_billing_service [(''toss'', toss_adapter env (demo_shop env))] ''toss'' = Inr (demo_service env)"
  by (simp add: make_billing_service_def require_provider_def get_provider_def toss_adapter_def demo_service_def)

text \<open>
  In a deployment built from its environment, whatever orders, webhooks and confirmations the
  service receives (failed calls included), every balance stays the sum of the credits of the paid
  orders and is never negative.
\<close>
theorem service_conserves_credits:
  assumes "build_registry_from_environment env vs = Inr reg" and "make_billing_service reg active = Inr svc"
    and "(service_step fr svc)\<^sup>*\<^sup>* empty_bill_db db"
  shows "bill_balance a db = granted a (orders db) \<and> 0 \<le> bill_balance a db"
proof -
  obtain p ad where ad: "configured env p ad" "bs_providers svc = [(bs_active svc, ad)]"
    using service_of_environment [OF assms(1,2)] by blast
  from assms(3) have "bill_step\<^sup>*\<^sup>* empty_bill_db db"
    by (induction rule: rtranclp_induct) (auto dest: configured_steps [OF ad(1) _ ad(2)])
  then have "bill_ok db" by (rule order_life.ok_steps [OF _ bill_ok_empty])
  from bill_okD [OF this] show ?thesis by (simp add: bill_balance_of granted_nonneg)
qed

theorem service_conserves_credits_witness:
  "\<exists>db. (service_step (\<lambda>_. []) (demo_service (demo_env [])))\<^sup>*\<^sup>* empty_bill_db db \<and> orders db \<noteq> []
     \<and> bill_balance ''acct'' db = granted ''acct'' (orders db)"
proof -
  let ?svc = "demo_service (demo_env [])"
  let ?db = "snd (create_order_call ?svc demo_order ''u'' ''now'' ''then'' empty_bill_db)"
  have "make_create_order demo_order = Inr demo_order" by code_simp
  then have step: "(service_step (\<lambda>_. []) ?svc)\<^sup>*\<^sup>* empty_bill_db ?db"
    by (intro r_into_rtranclp service_step.call_create)
  moreover have "orders ?db \<noteq> []"
    by (simp add: create_order_call_def demo_service_def require_provider_def get_provider_def toss_adapter_def toss_checkout_def
        demo_order_def checkout_of_def create_pending_order_def find_order_def empty_bill_db_def atomically_def Let_def)
  ultimately show ?thesis
    using service_conserves_credits [OF demo_registry demo_service_made step, of "''acct''"] by blast
qed


definition demo_toss_body :: dict where
  "demo_toss_body = [(''data'', JObj [(''paymentKey'', JStr ''pay-00001''), (''orderId'', JStr ''order-1''), (''status'', JStr ''DONE''),
     (''totalAmount'', JInt 990)])]"

lemma demo_webhook:
  "\<exists>r db. receive_webhook (demo_service (demo_env demo_toss_body)) ''toss'' ''{}'' demo_signature ''now'' ''u1'' ''a1'' ''now'' demo_db = (Inr r, db)
     \<and> db \<noteq> demo_db"
proof -
  let ?env = "demo_env demo_toss_body"
  obtain ev where ev: "toss_verify ?env (demo_shop ?env) ''now'' ''{}'' demo_signature = Inr ev"
    "pe_order ev = ''order-1''" "pe_amount ev = Some 990" "pe_provider ev = ''toss''"
    by (rule value_obtain [where m = "toss_verify ?env (demo_shop ?env) ''now'' ''{}'' demo_signature"
          and Q = "\<lambda>e. pe_order e = ''order-1'' \<and> pe_amount e = Some 990 \<and> pe_provider e = ''toss''"]) (code_simp, blast)
  have "inbox demo_db = []" by code_simp
  then have new: "\<not> is_duplicate ev demo_db" by (simp add: is_duplicate_def)
  obtain o1 where o1: "find_order ''order-1'' demo_db = Some o1" "bo_amount o1 = 990"
    by (rule value_obtain [where m = "case find_order ''order-1'' demo_db of None \<Rightarrow> Inl (KeyError []) | Some o1 \<Rightarrow> Inr o1"
      and Q = "\<lambda>o1. bo_amount o1 = 990"]) (code_simp, auto split: option.splits)
  have "plain (pe_provider ev)" "find_order (pe_order ev) demo_db = Some o1" "pe_amount ev \<in> {None, Some (bo_amount o1)}"
    using o1 ev plain_ids(2) by simp_all
  from process_new [OF demo_db_ok this(1) new this(2,3) demo_db_shape(3)]
  obtain r db where db: "process_event ev ''{}'' demo_signature ''u1'' ''a1'' ''now'' demo_db = Inr (r, db)" "recorded ev db"
    by blast
  with recorded_duplicate [OF db(2), of ev] new have "db \<noteq> demo_db" by auto
  with db ev show ?thesis
    by (simp add: receive_webhook_def demo_service_def require_provider_def get_provider_def toss_adapter_def atomically_def)
qed


lemma configured_confirm_recorded:
  "configured env p ad \<Longrightarrow> bs_providers svc = [(bs_active svc, ad)] \<Longrightarrow> bill_step\<^sup>*\<^sup>* empty_bill_db db \<Longrightarrow> fresh_ids uid aid db \<Longrightarrow>
   confirm_payment fr svc oid ref n key tm uid aid now db = (Inr r, db1) \<Longrightarrow> pr_applied r \<Longrightarrow> bill_step\<^sup>*\<^sup>* db1 db2 \<Longrightarrow>
   snd (confirm_payment fr' svc oid ref n key' tm' uid' aid' now' db2) = db2"
  by (induction rule: configured.induct)
    (rule mock_provider.confirm_recorded toss_provider.confirm_recorded lemon_provider.confirm_recorded; assumption)+

text \<open>
  A browser may repeat a confirmation: once a confirmation was applied, confirming the same
  payment of the same order again, at any later time and under any idempotency key, leaves the store
  as it is, also when the order has been refunded in between.
\<close>
theorem confirm_retry_is_free:
  assumes "build_registry_from_environment env vs = Inr reg" and "make_billing_service reg active = Inr svc"
    and "bill_step\<^sup>*\<^sup>* empty_bill_db db" and "fresh_ids uid aid db"
    and "confirm_payment fr svc oid ref n key tm uid aid now db = (Inr r, db1)" and "pr_applied r"
    and "bill_step\<^sup>*\<^sup>* db1 db2"
  shows "snd (confirm_payment fr' svc oid ref n key' tm' uid' aid' now' db2) = db2"
proof -
  obtain ad where ad: "configured env active ad" "bs_providers svc = [(bs_active svc, ad)]"
    using service_of_environment [OF assms(1,2)] by blast
  from configured_confirm_recorded [OF ad assms(3-7)] show ?thesis .
qed

definition demo_online :: pay_env where
  "demo_online = (demo_env [(''orderId'', JStr ''order-1''), (''totalAmount'', JInt 990), (''status'', JStr ''DONE'')])
     \<lparr>fetch := (\<lambda>m u h p. Some ''{}'')\<rparr>"

definition demo_toss_db :: bill_db where
  "demo_toss_db = (case create_pending_order demo_order ''toss'' ''now'' empty_bill_db of Inl _ \<Rightarrow> empty_bill_db | Inr (x, db) \<Rightarrow> db)"

lemma demo_toss_db_reached: "bill_step\<^sup>*\<^sup>* empty_bill_db demo_toss_db"
proof -
  obtain x db where x: "create_pending_order demo_order ''toss'' ''now'' empty_bill_db = Inr (x, db)"
    by (rule run_obtain [where m = "create_pending_order demo_order ''toss'' ''now'' empty_bill_db" and Q = "\<lambda>_ _. True"]) code_simp
  moreover have "0 \<le> co_grant demo_order" by (simp add: demo_order_def)
  ultimately have "bill_step empty_bill_db db" by (blast intro: bill_step.do_order)
  with x show ?thesis by (simp add: demo_toss_db_def r_into_rtranclp)
qed

lemma demo_confirmation:
  "\<exists>r db. confirm_payment (\<lambda>_. []) (demo_service demo_online) ''order-1'' ''pay-1'' 990 ''confirm-key'' ''now'' ''u1'' ''a1'' ''now'' demo_toss_db
     = (Inr r, db) \<and> pr_applied r"
proof -
  obtain ev where ev: "toss_confirm_event demo_online (demo_shop demo_online) ''now'' ''pay-1'' ''order-1'' 990 ''confirm-key'' = Inr ev"
    and p: "case process_event ev (json_dump (\<lambda>_. []) (JObj (pay_event_dict ev))) [(''x-confirmation-idempotency-key'', ''confirm-key'')] ''u1'' ''a1'' ''now''
      demo_toss_db of Inl e \<Rightarrow> False | Inr (r, db) \<Rightarrow> pr_applied r"
    by (rule value_obtain [where m = "toss_confirm_event demo_online (demo_shop demo_online) ''now'' ''pay-1'' ''order-1'' 990 ''confirm-key''"
       and Q = "\<lambda>ev. case process_event ev (json_dump (\<lambda>_. []) (JObj (pay_event_dict ev))) [(''x-confirmation-idempotency-key'', ''confirm-key'')]
         ''u1'' ''a1'' ''now'' demo_toss_db of Inl e \<Rightarrow> False | Inr (r, db) \<Rightarrow> pr_applied r"]) (code_simp, blast)
  obtain o1 where o1: "get_order ''order-1'' demo_toss_db = Inr o1" "bo_provider o1 = Some ''toss''" "bo_amount o1 = 990" "bo_status o1 = Pay_Pending"
    by (rule value_obtain [where m = "get_order ''order-1'' demo_toss_db"
      and Q = "\<lambda>o1. bo_provider o1 = Some ''toss'' \<and> bo_amount o1 = 990 \<and> bo_status o1 = Pay_Pending"]) (code_simp, blast)
  with ev p show ?thesis
    by (auto simp: confirm_payment_def demo_service_def require_provider_def get_provider_def toss_adapter_def atomically_def
        split: sum.splits prod.splits)
qed

theorem confirm_retry_is_free_witness:
  "\<exists>r db. confirm_payment (\<lambda>_. []) (demo_service demo_online) ''order-1'' ''pay-1'' 990 ''confirm-key'' ''now'' ''u1'' ''a1'' ''now'' demo_toss_db
     = (Inr r, db) \<and> snd (confirm_payment (\<lambda>_. []) (demo_service demo_online) ''order-1'' ''pay-1'' 990 ''key-2'' ''t'' ''u2'' ''a2'' ''t'' db) = db"
proof -
  obtain r db where d: "confirm_payment (\<lambda>_. []) (demo_service demo_online) ''order-1'' ''pay-1'' 990 ''confirm-key'' ''now'' ''u1'' ''a1'' ''now''
     demo_toss_db = (Inr r, db)" "pr_applied r"
    using demo_confirmation by blast
  have "fresh_ids ''u1'' ''a1'' demo_toss_db" by code_simp
  from confirm_retry_is_free [OF demo_registry demo_service_made demo_toss_db_reached this d rtranclp.rtrancl_refl] d show ?thesis by blast
qed

text \<open>
  C19. The Lemon Squeezy adapter takes the id of the resource for the id of the event, so of several
  events of one resource (an order that is created and later refunded) only the first ever acts: the
  later ones are answered as redeliveries.
\<close>
theorem later_event_of_resource_is_dropped:
  assumes "bill_step\<^sup>*\<^sup>* empty_bill_db db" and "fresh_ids uid aid db"
    and "lemon_verify env l tm body hs = Inr ev" and "parse_json env body = Inr v"
    and "lemon_verify env l tm' body' hs' = Inr ev'" and "parse_json env body' = Inr v'"
    and "jget v ''data'' = JObj d" and "jget v' ''data'' = JObj d'" and "jget d ''id'' = JStr rid" and "jget d' ''id'' = JStr rid" and "rid \<noteq> []"
    and "\<not> is_duplicate ev db" and "process_event ev b h uid aid now db = Inr (r, db1)" and "bill_step\<^sup>*\<^sup>* db1 db2"
  shows "\<exists>r'. process_event ev' b' h' uid' aid' now' db2 = Inr (r', db2) \<and> \<not> pr_applied r'"
proof (rule process_duplicate)
  have "pe_event ev = rid" "pe_event ev' = rid"
    using lemon_verify_Inr(6) [OF assms(3)] lemon_verify_Inr(6) [OF assms(5)] assms(4,6-11)
    by (auto simp: dict_or_def first_str_Cons)
  moreover have "recorded ev db1"
    using process_event_recorded [OF assms(13) order_life.ok_steps [OF assms(1) bill_ok_empty] _ assms(2,12)]
      lemon_verify_Inr(2) [OF assms(3)] plain_ids(3) by simp
  ultimately show "is_duplicate ev' db2"
    using recorded_duplicate [OF bill_steps_recorded [OF assms(14)], of ev ev'] lemon_verify_Inr(2) [OF assms(3)] lemon_verify_Inr(2) [OF assms(5)]
    by simp
qed

definition demo_lemon_env :: pay_env where
  "demo_lemon_env = (demo_env [])\<lparr>decode_json := (\<lambda>b. Some (JObj (if b = ''paid'' then demo_lemon_body ''order_created'' ''paid''
     else demo_lemon_body ''order_refunded'' ''refunded'')))\<rparr>"

theorem later_event_of_resource_is_dropped_witness:
  "\<exists>ev' db1 r'. lemon_verify demo_lemon_env (demo_lemon demo_lemon_env) ''now'' ''refunded'' demo_signature = Inr ev' \<and> pe_status ev' = Pay_Refunded
     \<and> order_status ''order-1'' db1 = Some Pay_Succeeded
     \<and> process_event ev' ''refunded'' [] ''u2'' ''a2'' ''then'' db1 = Inr (r', db1) \<and> \<not> pr_applied r'"
proof -
  let ?env = demo_lemon_env and ?l = "demo_lemon demo_lemon_env"
  obtain ev where ev: "lemon_verify ?env ?l ''now'' ''paid'' demo_signature = Inr ev" "pe_order ev = ''order-1''"
    "pe_status ev = Pay_Succeeded" "pe_amount ev = Some 990"
    by (rule value_obtain [where m = "lemon_verify ?env ?l ''now'' ''paid'' demo_signature"
      and Q = "\<lambda>e. pe_order e = ''order-1'' \<and> pe_status e = Pay_Succeeded \<and> pe_amount e = Some 990"]) (code_simp, blast)
  obtain ev' where ev': "lemon_verify ?env ?l ''now'' ''refunded'' demo_signature = Inr ev'" "pe_status ev' = Pay_Refunded"
    by (rule value_obtain [where m = "lemon_verify ?env ?l ''now'' ''refunded'' demo_signature"
      and Q = "\<lambda>e. pe_status e = Pay_Refunded"]) (code_simp, blast)
  have parse: "parse_json ?env ''paid'' = Inr (demo_lemon_body ''order_created'' ''paid'')"
    "parse_json ?env ''refunded'' = Inr (demo_lemon_body ''order_refunded'' ''refunded'')"
    by (simp_all add: parse_json_def demo_lemon_env_def demo_env_def)
  have "inbox demo_db = []" by code_simp
  then have new: "\<not> is_duplicate ev demo_db" by (simp add: is_duplicate_def)
  obtain o1 where o1: "find_order ''order-1'' demo_db = Some o1" "bo_amount o1 = 990" "bo_status o1 = Pay_Pending"
    by (rule value_obtain [where m = "case find_order ''order-1'' demo_db of None \<Rightarrow> Inl (KeyError []) | Some o1 \<Rightarrow> Inr o1"
      and Q = "\<lambda>o1. bo_amount o1 = 990 \<and> bo_status o1 = Pay_Pending"]) (code_simp, auto split: option.splits)
  have "plain (pe_provider ev)" "find_order (pe_order ev) demo_db = Some o1" "pe_amount ev \<in> {None, Some (bo_amount o1)}"
    using o1 ev lemon_verify_Inr(2) [OF ev(1)] plain_ids(3) by simp_all
  from process_new [OF demo_db_ok this(1) new this(2,3) demo_db_shape(3), of "''b''" "[]" "''now''"]
  obtain r db1 where db1: "process_event ev ''b'' [] ''u1'' ''a1'' ''now'' demo_db = Inr (r, db1)" "order_status ''order-1'' db1 = Some Pay_Succeeded"
    using o1 ev(2,3) by auto
  from later_event_of_resource_is_dropped [OF demo_db_reached demo_db_shape(3) ev(1) parse(1) ev'(1) parse(2) _ _ _ _ _ new db1(1) rtranclp.rtrancl_refl]
  have "\<exists>r'. process_event ev' ''refunded'' [] ''u2'' ''a2'' ''then'' db1 = Inr (r', db1) \<and> \<not> pr_applied r'"
    by (simp add: demo_lemon_body_def jget_def)
  with ev' db1(2) show ?thesis by blast
qed

text \<open>
  An order that is requested again under its idempotency key with another amount keeps its old amount,
  while the checkout is made for the new one.
\<close>
lemma changed_amount_is_not_refused:
  assumes "require_provider (bs_providers svc) (bs_active svc) ''checkout.create'' = Inr a"
    and "find (\<lambda>r. bo_key r = co_key req) (orders db) = Some r" and "bo_id r = co_id req" and "find_order (co_id req) db = Some r"
    and "ad_checkout a uid (checkout_of req) = Inr c"
  shows "\<exists>db' r'. create_order_call svc req uid now now' db = (Inr c, db') \<and> find_order (co_id req) db' = Some r' \<and> bo_amount r' = bo_amount r"
  using assms by (auto simp: create_order_call_def create_pending_order_def attach_checkout_def find_order_def atomically_def Let_def
      find_update_where_same)

end
