(* ===== verification/Identity.thy ===== *)
theory Identity
  imports Py_Value Lifecycle
begin

text \<open>
  Identity and tenancy: \<open>services/identity_tenant/boundary.py\<close>, \<open>google_provider.py\<close>
  and \<open>routes.py\<close>. The state is the pending OAuth transactions and the boundary's
  dictionaries (users, tenants, memberships, linked Google subjects, e-mail index). Instants are
  integers; the type checks of the code on values that are typed here (\<open>isinstance(x, str)\<close> and
  the like) disappear. Parameters: \<open>datetime.fromisoformat\<close>, \<open>float\<close> of a
  string, \<open>str\<close> of floats and containers, and the network.
\<close>

section \<open>OAuth transactions\<close>

definition google_issuer :: string where
  "google_issuer = ''https://accounts.google.com''"

definition required_text :: "string \<Rightarrow> string \<Rightarrow> exn + string" where
  "required_text v field = (if blank v then Inl (ValueError (field @ '' is required'')) else Inr (strip v))"

record google_identity =
  gi_subject :: string
  gi_email :: string
  gi_verified :: bool
  gi_issuer :: string
  gi_name :: "string option"

record oauth_callback =
  oc_state :: string
  oc_code :: string
  oc_issuer :: string
  oc_redirect :: string

record oauth_txn =
  ot_state :: string
  ot_issuer :: string
  ot_redirect :: string
  ot_expires :: int

type_synonym oauth_store = "(string \<times> oauth_txn) list"

definition begin_txn :: "string \<Rightarrow> string \<Rightarrow> int \<Rightarrow> string \<Rightarrow> oauth_store \<Rightarrow> exn + oauth_store" where
  "begin_txn state redirect expires issuer st =
     (case required_text state ''state'' of Inl e \<Rightarrow> Inl e | Inr s \<Rightarrow>
      if map_of st s \<noteq> None then Inl (OAuthCallbackError ''oauth transaction already exists'')
      else case required_text issuer ''issuer'' of Inl e \<Rightarrow> Inl e | Inr i \<Rightarrow>
      case required_text redirect ''redirect_uri'' of Inl e \<Rightarrow> Inl e | Inr r \<Rightarrow>
        Inr (AList.update s \<lparr>ot_state = s, ot_issuer = i, ot_redirect = r, ot_expires = expires\<rparr> st))"

definition peek_txn :: "string \<Rightarrow> oauth_store \<Rightarrow> oauth_txn option" where
  "peek_txn s st = (if s = [] then None else map_of st s)"

definition consume_txn :: "string \<Rightarrow> oauth_store \<Rightarrow> oauth_txn option \<times> oauth_store" where
  "consume_txn s st = (if s = [] then (None, st) else (map_of st s, AList.delete s st))"

text \<open>\<open>hmac.compare_digest\<close> on strings\<close>

definition same_digest :: "string \<Rightarrow> string \<Rightarrow> exn + bool" where
  "same_digest a b = (if ascii a \<and> ascii b then Inr (a = b)
     else Inl (TypeError ''comparing strings with non-ASCII characters is not supported''))"

definition validate_callback :: "string list \<Rightarrow> int \<Rightarrow> oauth_callback \<Rightarrow> oauth_store \<Rightarrow> (exn + oauth_txn) \<times> oauth_store" where
  "validate_callback allowed now cb st =
     (if blank (oc_code cb) then (Inl (OAuthCallbackError ''invalid oauth callback''), st)
      else case peek_txn (oc_state cb) st of
        None \<Rightarrow> (Inl (OAuthCallbackError ''invalid or replayed oauth state''), st)
      | Some t \<Rightarrow>
          (if ot_expires t \<le> now then (Inl (OAuthCallbackError ''expired oauth transaction''), snd (consume_txn (oc_state cb) st))
           else case same_digest (oc_issuer cb) (ot_issuer t) of Inl e \<Rightarrow> (Inl e, st) | Inr b \<Rightarrow>
             if \<not> b then (Inl (OAuthCallbackError ''oauth issuer mismatch''), st)
             else if oc_redirect cb \<notin> set allowed then (Inl (OAuthCallbackError ''oauth redirect uri is not allowed''), st)
             else case same_digest (oc_redirect cb) (ot_redirect t) of Inl e \<Rightarrow> (Inl e, st) | Inr b \<Rightarrow>
               if \<not> b then (Inl (OAuthCallbackError ''oauth redirect uri mismatch''), st) else (Inr t, st)))"

definition validate_identity :: "google_identity \<Rightarrow> exn + unit" where
  "validate_identity g =
     (if gi_issuer g \<noteq> google_issuer then Inl (OAuthCallbackError ''provider issuer mismatch'')
      else if blank (gi_subject g) \<or> blank (gi_email g) then Inl (OAuthCallbackError ''provider identity is incomplete'')
      else if \<not> gi_verified g then Inl (OAuthCallbackError ''provider email is not verified'')
      else Inr ())"

text \<open>The last step of both entry points: the state is consumed, or was consumed by another request.\<close>

definition finish_callback :: "oauth_callback \<Rightarrow> google_identity \<Rightarrow> oauth_store \<Rightarrow> (exn + google_identity) \<times> oauth_store" where
  "finish_callback cb g st =
     (case validate_identity g of Inl e \<Rightarrow> (Inl e, st) | Inr _ \<Rightarrow>
        case consume_txn (oc_state cb) st of
          (None, st') \<Rightarrow> (Inl (OAuthCallbackError ''invalid or replayed oauth state''), st')
        | (Some _, st') \<Rightarrow> (Inr g, st'))"

definition validate :: "string list \<Rightarrow> int \<Rightarrow> oauth_callback \<Rightarrow> google_identity \<Rightarrow> oauth_store \<Rightarrow>
    (exn + google_identity) \<times> oauth_store" where
  "validate allowed now cb g st = and_then (validate_callback allowed now cb st) (\<lambda>_ st. finish_callback cb g st)"

definition validate_and_exchange :: "string list \<Rightarrow> int \<Rightarrow> oauth_callback \<Rightarrow> (string \<Rightarrow> string \<Rightarrow> exn + google_identity) \<Rightarrow>
    oauth_store \<Rightarrow> (exn + google_identity) \<times> oauth_store" where
  "validate_and_exchange allowed now cb exchange st =
     and_then (validate_callback allowed now cb st)
       (\<lambda>t st. case exchange (oc_code cb) (ot_redirect t) of
          Inl _ \<Rightarrow> (Inl (OAuthCallbackError ''provider exchange failed''), st)
        | Inr g \<Rightarrow> finish_callback cb g st)"

section \<open>The Google client\<close>

record google_env =
  g_fetch :: "string \<Rightarrow> string \<Rightarrow> (string \<times> string) list \<Rightarrow> (string \<times> string) list option \<Rightarrow> string option"
  g_json :: "string \<Rightarrow> json option"
  g_float :: "string \<Rightarrow> rat option"
  g_show :: "json \<Rightarrow> string"

text \<open>
  \<open>urllib.parse.urlencode\<close> on ASCII text: \<open>quote_plus\<close> keeps letters, digits and
  \<open>_ . - ~\<close>, writes a blank as \<open>+\<close> and every other byte as \<open>%XX\<close>.
\<close>

definition quote_char :: "char \<Rightarrow> string" where
  "quote_char c = (let n = (of_char c :: nat) in
     if (65 \<le> n \<and> n \<le> 90) \<or> (97 \<le> n \<and> n \<le> 122) \<or> (48 \<le> n \<and> n \<le> 57) \<or> c \<in> set ''_.-~'' then [c]
     else if c = CHR '' '' then ''+''
     else CHR ''%'' # map upper_char [hex_char (n div 16), hex_char (n mod 16)])"

definition quote_plus :: "string \<Rightarrow> string" where
  "quote_plus s = concat (map quote_char s)"

fun urlencode :: "(string \<times> string) list \<Rightarrow> string" where
  "urlencode [] = []"
| "urlencode [(k, v)] = quote_plus k @ ''='' @ quote_plus v"
| "urlencode ((k, v) # ps) = quote_plus k @ ''='' @ quote_plus v @ ''&'' @ urlencode ps"

definition google_request_json :: "google_env \<Rightarrow> string \<Rightarrow> string \<Rightarrow> (string \<times> string) list \<Rightarrow> (string \<times> string) list option \<Rightarrow> exn + dict" where
  "google_request_json env verb url hs form =
     (case g_fetch env verb url hs form of None \<Rightarrow> Inl (RuntimeError ''Google provider request failed'') | Some body \<Rightarrow>
      case g_json env body of
        None \<Rightarrow> Inl (RuntimeError ''Google provider request failed'')
      | Some (JObj d) \<Rightarrow> (if map_of d ''error'' \<noteq> None then Inl (RuntimeError ''Google provider rejected the request'') else Inr d)
      | Some _ \<Rightarrow> Inl (RuntimeError ''Google provider response is invalid''))"

record google_client =
  gc_id :: string
  gc_secret :: string
  gc_redirect :: string
  gc_request :: "string \<Rightarrow> string \<Rightarrow> (string \<times> string) list \<Rightarrow> (string \<times> string) list option \<Rightarrow> exn + dict"

definition authorization_url :: "google_client \<Rightarrow> string \<Rightarrow> exn + string" where
  "authorization_url c state =
     (if blank state then Inl (ValueError ''oauth state is required'')
      else Inr (''https://accounts.google.com/o/oauth2/v2/auth?'' @ urlencode
        [(''client_id'', gc_id c), (''redirect_uri'', gc_redirect c), (''response_type'', ''code''),
         (''scope'', ''openid email profile''), (''state'', state), (''access_type'', ''online''), (''prompt'', ''select_account'')]))"

text \<open>\<open>float(expiry)\<close>\<close>

definition py_float :: "google_env \<Rightarrow> json \<Rightarrow> rat option" where
  "py_float env v = (case v of JInt n \<Rightarrow> Some (of_int n) | JBool b \<Rightarrow> Some (if b then 1 else 0) | JNum q \<Rightarrow> Some q
     | JStr s \<Rightarrow> g_float env s | _ \<Rightarrow> None)"

text \<open>The claims of the id token, checked against this client.\<close>

definition check_claims :: "google_env \<Rightarrow> google_client \<Rightarrow> rat \<Rightarrow> dict \<Rightarrow> exn + string" where
  "check_claims env c now claims =
     (let txt = \<lambda>k. first_str (g_show env) [jget claims k] in
      if txt ''iss'' \<notin> {google_issuer, ''accounts.google.com''} then Inl (RuntimeError ''Google issuer is invalid'')
      else if txt ''aud'' \<noteq> gc_id c \<or> txt ''sub'' = [] then Inl (RuntimeError ''Google audience or subject is invalid'')
      else case py_float env (jget claims ''exp'') of
        None \<Rightarrow> Inl (RuntimeError ''Google ID token expiry is invalid'')
      | Some e \<Rightarrow> if e \<le> now then Inl (RuntimeError ''Google ID token is expired'') else Inr (txt ''sub''))"

definition to_identity :: "google_env \<Rightarrow> string \<Rightarrow> dict \<Rightarrow> dict \<Rightarrow> exn + google_identity" where
  "to_identity env subject claims info =
     (let email = py_or (jget info ''email'') (jget claims ''email'');
          v = jget_default info ''email_verified'' (jget claims ''email_verified'');
          verified = (case v of JStr s \<Rightarrow> JBool (lower s = ''true'') | _ \<Rightarrow> v)
      in case (email, verified) of
           (JStr m, JBool b) \<Rightarrow> Inr \<lparr>gi_subject = subject, gi_email = m, gi_verified = b, gi_issuer = google_issuer,
              gi_name = Some (first_str (g_show env) [jget info ''name'', jget claims ''name'', JStr ''Google user''])\<rparr>
         | _ \<Rightarrow> Inl (RuntimeError ''Google verified email is missing''))"

definition exchange_code :: "google_env \<Rightarrow> google_client \<Rightarrow> rat \<Rightarrow> string \<Rightarrow> string \<Rightarrow> exn + google_identity" where
  "exchange_code env c now code redirect =
     (if redirect \<noteq> gc_redirect c then Inl (RuntimeError ''Google redirect URI mismatch'')
      else case gc_request c ''POST'' ''https://oauth2.googleapis.com/token''
          [(''Accept'', ''application/json''), (''Content-Type'', ''application/x-www-form-urlencoded'')]
          (Some [(''code'', code), (''client_id'', gc_id c), (''client_secret'', gc_secret c), (''redirect_uri'', redirect),
            (''grant_type'', ''authorization_code'')]) of
        Inl e \<Rightarrow> Inl e
      | Inr token \<Rightarrow>
          (case jget token ''access_token'' of JStr access \<Rightarrow>
             (if access = [] then Inl (RuntimeError ''Google access token is missing'')
              else case jget token ''id_token'' of JStr idt \<Rightarrow>
                (if idt = [] then Inl (RuntimeError ''Google ID token is missing'')
                 else case gc_request c ''GET'' (''https://oauth2.googleapis.com/tokeninfo?'' @ urlencode [(''id_token'', idt)])
                     [(''Accept'', ''application/json'')] None of
                   Inl e \<Rightarrow> Inl e
                 | Inr claims \<Rightarrow>
                     (case check_claims env c now claims of Inl e \<Rightarrow> Inl e | Inr subject \<Rightarrow>
                      case gc_request c ''GET'' ''https://openidconnect.googleapis.com/v1/userinfo''
                          [(''Accept'', ''application/json''), (''Authorization'', ''Bearer '' @ access)] None of
                        Inl e \<Rightarrow> Inl e
                      | Inr info \<Rightarrow> to_identity env subject claims info))
              | _ \<Rightarrow> Inl (RuntimeError ''Google ID token is missing''))
           | _ \<Rightarrow> Inl (RuntimeError ''Google access token is missing'')))"

section \<open>Users, tenants and roles\<close>

datatype role = Owner | Admin | Member

fun role_permissions :: "role \<Rightarrow> string list" where
  "role_permissions Owner = [''tenant.read'', ''tenant.member.read'', ''tenant.member.manage'', ''admin.users.read'',
     ''admin.plans.write'', ''admin.credits.write'']"
| "role_permissions Admin = [''tenant.read'', ''tenant.member.read'', ''admin.users.read'', ''admin.plans.write'', ''admin.credits.write'']"
| "role_permissions Member = [''tenant.read'']"

record user_record =
  us_id :: string
  us_email :: string
  us_name :: "string option"
  us_status :: string
  us_roles :: "string list"

record membership =
  mb_user :: string
  mb_tenant :: string
  mb_role :: role

record tenant_boundary =
  tb_users :: "(string \<times> user_record) list"
  tb_tenants :: "(string \<times> string) list"
  tb_members :: "((string \<times> string) \<times> membership) list"
  tb_subjects :: "((string \<times> string) \<times> string) list"
  tb_emails :: "(string \<times> string) list"

definition empty_boundary :: tenant_boundary where
  "empty_boundary = \<lparr>tb_users = [], tb_tenants = [], tb_members = [], tb_subjects = [], tb_emails = []\<rparr>"

definition add_user :: "string \<Rightarrow> string \<Rightarrow> string option \<Rightarrow> string list \<Rightarrow> tenant_boundary \<Rightarrow> exn + (user_record \<times> tenant_boundary)" where
  "add_user uid email name roles b =
     (case required_text uid ''user_id'' of Inl e \<Rightarrow> Inl e | Inr u \<Rightarrow>
      case required_text email ''email'' of Inl e \<Rightarrow> Inl e | Inr m0 \<Rightarrow>
        (let m = lower m0 in
         if map_of (tb_users b) u \<noteq> None \<or> map_of (tb_emails b) m \<noteq> None then Inl (ValueError ''user already exists'')
         else let user = \<lparr>us_id = u, us_email = m, us_name = name, us_status = ''active'', us_roles = roles\<rparr> in
           Inr (user, b\<lparr>tb_users := AList.update u user (tb_users b), tb_emails := AList.update m u (tb_emails b)\<rparr>)))"

definition add_tenant :: "string \<Rightarrow> string \<Rightarrow> tenant_boundary \<Rightarrow> exn + tenant_boundary" where
  "add_tenant tid name b =
     (case required_text tid ''tenant_id'' of Inl e \<Rightarrow> Inl e | Inr t \<Rightarrow>
      case required_text name ''name'' of Inl e \<Rightarrow> Inl e | Inr n \<Rightarrow>
        if map_of (tb_tenants b) t \<noteq> None then Inl (ValueError ''tenant already exists'')
        else Inr (b\<lparr>tb_tenants := AList.update t n (tb_tenants b)\<rparr>))"

definition add_membership :: "string \<Rightarrow> string \<Rightarrow> role \<Rightarrow> tenant_boundary \<Rightarrow> exn + (membership \<times> tenant_boundary)" where
  "add_membership uid tid r b =
     (if map_of (tb_users b) uid = None \<or> map_of (tb_tenants b) tid = None
      then Inl (ValueError ''membership references unknown identity or tenant'')
      else let m = \<lparr>mb_user = uid, mb_tenant = tid, mb_role = r\<rparr> in
        Inr (m, b\<lparr>tb_members := AList.update (uid, tid) m (tb_members b)\<rparr>))"

text \<open>An empty user id is falsy and so counts as not linked; none is ever stored.\<close>

definition link_google_identity :: "google_identity \<Rightarrow> string option \<Rightarrow> bool \<Rightarrow> string \<Rightarrow> tenant_boundary \<Rightarrow>
    exn + (string \<times> tenant_boundary)" where
  "link_google_identity g authenticated confirm uid b =
     (let key = (gi_issuer g, gi_subject g);
          fresh = ''google-'' @ uid;
          link = (\<lambda>u b. b\<lparr>tb_subjects := AList.update key u (tb_subjects b)\<rparr>);
          existing = (case map_of (tb_emails b) (lower (gi_email g)) of None \<Rightarrow> [] | Some u \<Rightarrow> u);
          linked = (case map_of (tb_subjects b) key of None \<Rightarrow> [] | Some u \<Rightarrow> u)
      in if linked \<noteq> [] then Inr (linked, b)
         else if existing \<noteq> [] then
           (if authenticated \<noteq> Some existing \<or> \<not> confirm
            then Inl (AccountCollision ''explicit authenticated account linking is required'')
            else Inr (existing, link existing b))
         else case add_user fresh (gi_email g) (gi_name g) [] b of
                Inl e \<Rightarrow> Inl e
              | Inr (_, b') \<Rightarrow> Inr (fresh, link fresh b'))"

section \<open>Sessions and authorization\<close>

datatype session_value = SV_Json json | SV_Time int | SV_Map "(string \<times> session_value) list"

fun sv_truthy :: "session_value \<Rightarrow> bool" where
  "sv_truthy (SV_Json v) = truthy v"
| "sv_truthy (SV_Time t) = True"
| "sv_truthy (SV_Map m) = (m \<noteq> [])"

definition sv_or :: "session_value \<Rightarrow> session_value \<Rightarrow> session_value" where
  "sv_or a b = (if sv_truthy a then a else b)"

definition sv_get :: "(string \<times> session_value) list \<Rightarrow> string \<Rightarrow> session_value" where
  "sv_get m k = (case map_of m k of None \<Rightarrow> SV_Json JNull | Some v \<Rightarrow> v)"

fun as_mapping :: "session_value \<Rightarrow> (string \<times> session_value) list option" where
  "as_mapping (SV_Map m) = Some m"
| "as_mapping (SV_Json (JObj d)) = Some (map (\<lambda>(k, v). (k, SV_Json v)) d)"
| "as_mapping _ = None"

fun sv_text :: "session_value \<Rightarrow> string option" where
  "sv_text (SV_Json (JStr s)) = Some s"
| "sv_text _ = None"

definition unauthenticated :: "exn + 'a" where
  "unauthenticated = Inl (AuthenticationRequired ''unauthenticated'')"

fun parse_expiry :: "(string \<Rightarrow> int option) \<Rightarrow> session_value \<Rightarrow> exn + int" where
  "parse_expiry iso_utc (SV_Time t) = Inr t"
| "parse_expiry iso_utc (SV_Json (JStr s)) = (case iso_utc (replace_char (CHR ''Z'') ''+00:00'' s) of None \<Rightarrow> unauthenticated | Some t \<Rightarrow> Inr t)"
| "parse_expiry iso_utc _ = unauthenticated"

record auth_session =
  as_id :: string
  as_user :: string
  as_tenant :: "string option"
  as_expires :: int

definition from_better_auth :: "(string \<Rightarrow> int option) \<Rightarrow> (string \<times> session_value) list \<Rightarrow> exn + auth_session" where
  "from_better_auth iso_utc payload =
     (case (as_mapping (case map_of payload ''session'' of None \<Rightarrow> SV_Map payload | Some v \<Rightarrow> v),
            as_mapping (case map_of payload ''user'' of None \<Rightarrow> SV_Map [] | Some v \<Rightarrow> v)) of
        (Some s, Some u) \<Rightarrow>
          (let sid = sv_or (sv_get s ''id'') (sv_get s ''sessionId'');
               uid = sv_or (sv_get s ''userId'') (sv_get u ''id'');
               tid = sv_or (sv_get s ''activeOrganizationId'') (sv_or (sv_get s ''organizationId'') (sv_get s ''activeTenantId''));
               expiry = sv_or (sv_get s ''expiresAt'') (sv_get s ''expires_at'')
           in case (sv_text sid, sv_text uid) of
                (Some i, Some w) \<Rightarrow>
                  (if blank i \<or> blank w then unauthenticated
                   else case parse_expiry iso_utc expiry of Inl e \<Rightarrow> Inl e | Inr t \<Rightarrow>
                     Inr \<lparr>as_id = i, as_user = w, as_tenant = (case sv_text tid of Some x \<Rightarrow> if x = [] then None else Some x | None \<Rightarrow> None),
                          as_expires = t\<rparr>)
              | _ \<Rightarrow> unauthenticated)
      | _ \<Rightarrow> unauthenticated)"

record request_context =
  rc_user :: string
  rc_session :: string
  rc_tenant :: "string option"
  rc_roles :: "string list"

datatype session_input = No_Session | Resolved auth_session | Payload "(string \<times> session_value) list"

definition authenticate :: "(string \<Rightarrow> int option) \<Rightarrow> int \<Rightarrow> session_input \<Rightarrow> tenant_boundary \<Rightarrow> exn + request_context" where
  "authenticate iso_utc now s b =
     (case (case s of No_Session \<Rightarrow> unauthenticated | Resolved r \<Rightarrow> Inr r | Payload p \<Rightarrow> from_better_auth iso_utc p) of
        Inl e \<Rightarrow> Inl e
      | Inr r \<Rightarrow>
          (if as_expires r \<le> now then unauthenticated
           else case map_of (tb_users b) (as_user r) of
             None \<Rightarrow> unauthenticated
           | Some u \<Rightarrow> (if us_status u \<noteq> ''active'' then unauthenticated
               else Inr \<lparr>rc_user = us_id u, rc_session = as_id r, rc_tenant = as_tenant r, rc_roles = us_roles u\<rparr>)))"

definition super_admin :: string where
  "super_admin = ''super_admin''"

definition require_tenant :: "request_context \<Rightarrow> string \<Rightarrow> tenant_boundary \<Rightarrow> exn + membership" where
  "require_tenant ctx tid b =
     (if map_of (tb_tenants b) tid = None then Inl (AuthorizationDenied ''tenant access denied'')
      else if rc_tenant ctx \<notin> {None, Some [], Some tid} \<and> super_admin \<notin> set (rc_roles ctx)
      then Inl (AuthorizationDenied ''tenant access denied'')
      else case map_of (tb_members b) (rc_user ctx, tid) of
        Some m \<Rightarrow> Inr m
      | None \<Rightarrow> (if super_admin \<notin> set (rc_roles ctx) then Inl (AuthorizationDenied ''tenant access denied'')
                 else Inr \<lparr>mb_user = rc_user ctx, mb_tenant = tid, mb_role = Owner\<rparr>))"

definition require_permission :: "request_context \<Rightarrow> string \<Rightarrow> string \<Rightarrow> tenant_boundary \<Rightarrow> exn + membership" where
  "require_permission ctx tid p b =
     (case require_tenant ctx tid b of Inl e \<Rightarrow> Inl e | Inr m \<Rightarrow>
        if super_admin \<in> set (rc_roles ctx) then Inr m
        else if p \<notin> set (role_permissions (mb_role m)) then Inl (AuthorizationDenied ''permission denied'') else Inr m)"

definition require_admin :: "request_context \<Rightarrow> string \<Rightarrow> string \<Rightarrow> tenant_boundary \<Rightarrow> exn + membership" where
  "require_admin ctx tid p b =
     (if \<not> starts_with p ''admin.'' then Inl (ValueError ''admin permission must use the admin namespace'')
      else require_permission ctx tid p b)"

definition get_user :: "string \<Rightarrow> tenant_boundary \<Rightarrow> exn + user_record" where
  "get_user uid b = (case map_of (tb_users b) uid of None \<Rightarrow> Inl (AuthorizationDenied ''user access denied'') | Some u \<Rightarrow> Inr u)"

definition memberships_for_tenant :: "string \<Rightarrow> tenant_boundary \<Rightarrow> exn + membership list" where
  "memberships_for_tenant tid b = (if map_of (tb_tenants b) tid = None then Inl (AuthorizationDenied ''tenant access denied'')
     else Inr (filter (\<lambda>m. mb_tenant m = tid) (map snd (tb_members b))))"

section \<open>Route checks\<close>

definition route_tenant :: "(string \<Rightarrow> int option) \<Rightarrow> int \<Rightarrow> session_input \<Rightarrow> string \<Rightarrow> tenant_boundary \<Rightarrow> exn + request_context" where
  "route_tenant iso_utc now s tid b = (case authenticate iso_utc now s b of Inl e \<Rightarrow> Inl e | Inr ctx \<Rightarrow>
     case require_tenant ctx tid b of Inl e \<Rightarrow> Inl e | Inr _ \<Rightarrow> Inr ctx)"

definition route_admin :: "(string \<Rightarrow> int option) \<Rightarrow> int \<Rightarrow> session_input \<Rightarrow> string \<Rightarrow> string \<Rightarrow> tenant_boundary \<Rightarrow> exn + request_context" where
  "route_admin iso_utc now s tid p b = (case authenticate iso_utc now s b of Inl e \<Rightarrow> Inl e | Inr ctx \<Rightarrow>
     case require_admin ctx tid p b of Inl e \<Rightarrow> Inl e | Inr _ \<Rightarrow> Inr ctx)"

section \<open>A sign-in is verified and happens once\<close>

lemma validate_callback_store: "snd (validate_callback allowed now cb st) \<in> {st, AList.delete (oc_state cb) st}"
  by (auto simp: validate_callback_def consume_txn_def peek_txn_def split: option.splits sum.splits if_splits)

lemma validate_callback_Inr:
  assumes "validate_callback allowed now cb st = (Inr t, st')"
  shows "st' = st" "map_of st (oc_state cb) = Some t" "oc_state cb \<noteq> []" "now < ot_expires t" "oc_issuer cb = ot_issuer t"
    "oc_redirect cb = ot_redirect t" "oc_redirect cb \<in> set allowed"
proof -
  have d: "same_digest a b = Inr c \<Longrightarrow> c = (a = b)" for a b c
    by (simp add: same_digest_def split: if_splits)
  obtain u where u: "peek_txn (oc_state cb) st = Some u"
    using assms by (auto simp: validate_callback_def split: option.splits if_splits)
  then have n: "\<not> ot_expires u \<le> now"
    using assms by (auto simp: validate_callback_def split: if_splits)
  obtain b c where bc: "same_digest (oc_issuer cb) (ot_issuer u) = Inr b" "b" "same_digest (oc_redirect cb) (ot_redirect u) = Inr c" "c"
    "oc_redirect cb \<in> set allowed" "t = u" "st' = st"
    using assms u n by (auto simp: validate_callback_def split: sum.splits if_splits)
  show "st' = st" "map_of st (oc_state cb) = Some t" "oc_state cb \<noteq> []" "now < ot_expires t" "oc_issuer cb = ot_issuer t"
    "oc_redirect cb = ot_redirect t" "oc_redirect cb \<in> set allowed"
    using u n bc d [OF bc(1)] d [OF bc(3)] by (auto simp: peek_txn_def split: if_splits)
qed

lemma finish_callback_Inr:
  assumes "finish_callback cb g st = (Inr g', st')"
  shows "g' = g" "map_of st (oc_state cb) \<noteq> None" "st' = AList.delete (oc_state cb) st" "validate_identity g = Inr ()"
  using assms by (auto simp: finish_callback_def consume_txn_def split: option.splits sum.splits if_splits prod.splits)

lemma finish_callback_store: "snd (finish_callback cb g st) \<in> {st, AList.delete (oc_state cb) st}"
  by (auto simp: finish_callback_def consume_txn_def split: option.splits sum.splits if_splits prod.splits)

text \<open>
  The requests of all browsers, interleaved: a transaction is begun, a callback is checked, and,
  after the exchange at the provider, finished. \<open>finished\<close> collects the states that signed in.
\<close>

inductive oauth_step :: "string list \<Rightarrow> oauth_store \<times> string list \<Rightarrow> oauth_store \<times> string list \<Rightarrow> bool" for allowed where
  oauth_check: "oauth_step allowed (st, used) (snd (validate_callback allowed now cb st), used)"
| oauth_finish: "finish_callback cb g st = (Inr g', st') \<Longrightarrow> oauth_step allowed (st, used) (st', used @ [oc_state cb])"
| oauth_refused: "finish_callback cb g st = (Inl e, st') \<Longrightarrow> oauth_step allowed (st, used) (st', used)"
| oauth_begin: "s \<notin> set used \<Longrightarrow> begin_txn state redirect expires issuer st = Inr st' \<Longrightarrow> s = strip state \<Longrightarrow> oauth_step allowed (st, used) (st', used)"

definition signed_in_once :: "oauth_store \<times> string list \<Rightarrow> bool" where
  "signed_in_once c \<longleftrightarrow> distinct (snd c) \<and> (\<forall>s\<in>set (snd c). map_of (fst c) s = None)"

lemma oauth_step_once: "oauth_step allowed c c' \<Longrightarrow> signed_in_once c \<Longrightarrow> signed_in_once c'"
proof (induction rule: oauth_step.induct)
  case (oauth_check st used now cb)
  then show ?case
    using validate_callback_store [of allowed now cb st] by (auto simp: signed_in_once_def delete_conv')
next
  case (oauth_finish cb g st g' st' used)
  from finish_callback_Inr [OF oauth_finish(1)] oauth_finish(2) show ?case by (auto simp: signed_in_once_def delete_conv')
next
  case (oauth_refused cb g st e st' used)
  then show ?case
    using finish_callback_store [of cb g st] by (auto simp: signed_in_once_def delete_conv')
next
  case (oauth_begin s used state redirect expires issuer st st')
  then show ?case
    by (auto simp: signed_in_once_def begin_txn_def required_text_def update_conv' split: sum.splits if_splits)
qed

lemma oauth_steps_once: "(oauth_step allowed)\<^sup>*\<^sup>* c c' \<Longrightarrow> signed_in_once c \<Longrightarrow> signed_in_once c'"
  by (induction rule: rtranclp_induct) (auto intro: oauth_step_once)


definition demo_identity :: google_identity where
  "demo_identity = \<lparr>gi_subject = ''sub-1'', gi_email = ''Ann@example.test'', gi_verified = True, gi_issuer = google_issuer, gi_name = None\<rparr>"

definition demo_callback :: oauth_callback where
  "demo_callback = \<lparr>oc_state = ''state-1'', oc_code = ''code'', oc_issuer = google_issuer, oc_redirect = ''https://app/cb''\<rparr>"

definition demo_oauth :: oauth_store where
  "demo_oauth = [(''state-1'', \<lparr>ot_state = ''state-1'', ot_issuer = google_issuer, ot_redirect = ''https://app/cb'', ot_expires = 10\<rparr>)]"

lemma demo_oauth_calls:
  "begin_txn ''state-1'' ''https://app/cb'' 10 google_issuer [] = Inr demo_oauth"
  "finish_callback demo_callback demo_identity demo_oauth = (Inr demo_identity, [])"
  "strip ''state-1'' = ''state-1''"
  by code_simp+



definition demo_google_env :: google_env where
  "demo_google_env = \<lparr>g_fetch = (\<lambda>m u h f. None), g_json = (\<lambda>b. None), g_float = (\<lambda>s. None), g_show = (\<lambda>v. [])\<rparr>"

definition demo_google :: google_client where
  "demo_google = \<lparr>gc_id = ''client'', gc_secret = ''secret'', gc_redirect = ''https://app/cb'',
     gc_request = (\<lambda>verb url hs form. Inr (if verb = ''POST'' then [(''access_token'', JStr ''a''), (''id_token'', JStr ''i'')]
       else [(''iss'', JStr google_issuer), (''aud'', JStr ''client''), (''sub'', JStr ''sub-1''), (''exp'', JInt 100),
             (''email'', JStr ''Ann@example.test''), (''email_verified'', JStr ''TRUE'')]))\<rparr>"


section \<open>Accounts and access\<close>

lemma add_user_Inr:
  assumes "add_user uid email name roles b = Inr (u, b')"
  shows "map_of (tb_users b) (us_id u) = None" "us_id u = strip uid" "tb_subjects b' = tb_subjects b"
    "map_of (tb_users b') = (map_of (tb_users b))(us_id u \<mapsto> u)" "us_roles u = roles"
  using assms by (auto simp: add_user_def required_text_def Let_def update_conv' split: if_splits)

lemma strip_google: "strip (''google-'' @ uid) = ''google-'' @ uid \<or> blank uid \<or> is_space (last uid)"
proof (cases "blank uid \<or> is_space (last uid)")
  case False
  then have "uid \<noteq> []" "\<not> is_space (last uid)" by auto
  then obtain w c where "uid = w @ [c]" "\<not> is_space c" by (metis append_butlast_last_id)
  then show ?thesis by (simp add: strip_def is_space_def)
qed blast


definition demo_boundary :: tenant_boundary where
  "demo_boundary = \<lparr>tb_users = [(''ann'', \<lparr>us_id = ''ann'', us_email = ''ann@example.test'', us_name = None, us_status = ''active'', us_roles = []\<rparr>),
      (''bob'', \<lparr>us_id = ''bob'', us_email = ''bob@example.test'', us_name = None, us_status = ''active'', us_roles = []\<rparr>)],
     tb_tenants = [(''a'', ''A''), (''b'', ''B'')],
     tb_members = [((''ann'', ''a''), \<lparr>mb_user = ''ann'', mb_tenant = ''a'', mb_role = Admin\<rparr>),
       ((''bob'', ''a''), \<lparr>mb_user = ''bob'', mb_tenant = ''a'', mb_role = Member\<rparr>),
       ((''bob'', ''b''), \<lparr>mb_user = ''bob'', mb_tenant = ''b'', mb_role = Admin\<rparr>)],
     tb_subjects = [], tb_emails = [(''ann@example.test'', ''ann''), (''bob@example.test'', ''bob'')]\<rparr>"


text \<open>What the boundary promises: whom it lets act on a tenant.\<close>

definition may :: "tenant_boundary \<Rightarrow> request_context \<Rightarrow> string \<Rightarrow> string \<Rightarrow> bool" where
  "may b ctx tid p \<longleftrightarrow> map_of (tb_tenants b) tid \<noteq> None \<and>
     (super_admin \<in> set (rc_roles ctx) \<or>
      (rc_tenant ctx \<in> {None, Some [], Some tid} \<and>
       (\<exists>m. map_of (tb_members b) (rc_user ctx, tid) = Some m \<and> p \<in> set (role_permissions (mb_role m)))))"

lemma require_permission_iff: "(\<exists>m. require_permission ctx tid p b = Inr m) \<longleftrightarrow> may b ctx tid p"
  by (auto simp: require_permission_def require_tenant_def may_def split: option.splits if_splits)

lemma require_permission_denied: "require_permission ctx tid p b = Inl e \<Longrightarrow> \<exists>m. e = AuthorizationDenied m"
  by (auto simp: require_permission_def require_tenant_def split: option.splits if_splits sum.splits)


definition demo_session :: "string \<Rightarrow> string \<Rightarrow> session_input" where
  "demo_session u t = Payload [(''session'', SV_Map [(''id'', SV_Json (JStr ''s1'')), (''userId'', SV_Json (JStr u)),
     (''activeOrganizationId'', SV_Json (JStr t)), (''expiresAt'', SV_Time 100)])]"


end
