(* ===== verification/Admin_Operations.thy ===== *)
theory Admin_Operations
  imports Identity Credit_Ledger
begin

text \<open>
  Privileged operations: \<open>services/admin_operations/service.py\<close>. Entitlements and credits are
  ports, the records \<open>entitlement_port\<close> and \<open>ledger_port\<close>; what the operations rely
  on is the locale \<open>admin_ledger\<close>, interpreted by the in-memory ledger and by the adapter
  \<open>LocalAdminCreditLedger\<close> of \<open>foundation/local_runtime.py\<close> over the durable credit
  ledger. An exception after a mutation leaves the mutation in place, so every operation returns
  its outcome together with the state.
\<close>

section \<open>Ports and adapters\<close>

record 'e entitlement_port =
  ep_plan :: "string \<Rightarrow> 'e \<Rightarrow> string"
  ep_transition :: "string \<Rightarrow> string \<Rightarrow> string \<Rightarrow> 'e \<Rightarrow> exn + 'e"

text \<open>The adjustment gets the hex digits of two fresh uuids and the time.\<close>

record 'l ledger_port =
  lp_balance :: "string \<Rightarrow> 'l \<Rightarrow> int"
  lp_adjust :: "string \<Rightarrow> int \<Rightarrow> string \<Rightarrow> string \<times> string \<Rightarrow> string \<Rightarrow> 'l \<Rightarrow> exn + (int \<times> 'l)"

record plans =
  pl_plans :: "(string \<times> string) list"
  pl_calls :: "(string \<times> string \<times> string) list"

definition current_plan :: "string \<Rightarrow> plans \<Rightarrow> string" where
  "current_plan u p = (case map_of (pl_plans p) u of None \<Rightarrow> ''free'' | Some x \<Rightarrow> x)"

definition transition_plan :: "string \<Rightarrow> string \<Rightarrow> string \<Rightarrow> plans \<Rightarrow> exn + plans" where
  "transition_plan u plan why p = (if plan \<notin> {''free'', ''pro'', ''team'', ''enterprise''} then Inl (ValueError ''unsupported plan'')
     else Inr (p\<lparr>pl_calls := pl_calls p @ [(u, plan, why)], pl_plans := AList.update u plan (pl_plans p)\<rparr>))"

definition memory_entitlements :: "plans entitlement_port" where
  "memory_entitlements = \<lparr>ep_plan = current_plan, ep_transition = transition_plan\<rparr>"

record balances =
  bl_balances :: "(string \<times> int) list"
  bl_calls :: "(string \<times> int \<times> string) list"

definition current_balance :: "string \<Rightarrow> balances \<Rightarrow> int" where
  "current_balance u b = (case map_of (bl_balances b) u of None \<Rightarrow> 0 | Some n \<Rightarrow> n)"

definition adjust_memory :: "string \<Rightarrow> int \<Rightarrow> string \<Rightarrow> balances \<Rightarrow> exn + (int \<times> balances)" where
  "adjust_memory u n why b = (if n = 0 then Inl (ValueError ''credit adjustment must be a non-zero integer'')
     else let b' = b\<lparr>bl_calls := bl_calls b @ [(u, n, why)], bl_balances := AList.update u (current_balance u b + n) (bl_balances b)\<rparr>
       in Inr (current_balance u b', b'))"

definition memory_ledger :: "balances ledger_port" where
  "memory_ledger = \<lparr>lp_balance = current_balance, lp_adjust = (\<lambda>u n why ids now. adjust_memory u n why)\<rparr>"

text \<open>\<open>LocalAdminCreditLedger\<close>\<close>

definition account_of :: "(string \<times> string) list \<Rightarrow> string \<Rightarrow> string" where
  "account_of accs u = (case map_of accs u of None \<Rightarrow> u | Some a \<Rightarrow> a)"

definition adjust_local :: "(string \<times> string) list \<Rightarrow> string \<Rightarrow> int \<Rightarrow> string \<Rightarrow> string \<times> string \<Rightarrow> string \<Rightarrow> credit_db \<Rightarrow>
    exn + (int \<times> credit_db)" where
  "adjust_local accs u n why ids now db =
     adjust (account_of accs u) n (''admin-'' @ u @ ''-'' @ fst ids) why (snd ids) now db"

definition local_ledger :: "(string \<times> string) list \<Rightarrow> credit_db ledger_port" where
  "local_ledger accs = \<lparr>lp_balance = (\<lambda>u. available (account_of accs u)), lp_adjust = adjust_local accs\<rparr>"

section \<open>State and audit log\<close>

definition admin_reason :: "string \<Rightarrow> exn + string" where
  "admin_reason v = (if blank v then Inl (ReasonRequired ''a non-empty reason is required'')
     else if 500 < length (strip v) then Inl (ReasonRequired ''reason is too long'') else Inr (strip v))"

record audit_event =
  ae_id :: string
  ae_time :: string
  ae_actor :: string
  ae_tenant :: string
  ae_action :: string
  ae_target_type :: string
  ae_target :: string
  ae_reason :: string
  ae_before :: dict
  ae_after :: dict
  ae_source :: string
  ae_correlation :: string

definition append_audit :: "audit_event \<Rightarrow> audit_event list \<Rightarrow> exn + audit_event list" where
  "append_audit e evs = (if \<exists>x\<in>set evs. ae_id x = ae_id e then Inl (ValueError ''audit event id already exists'')
     else if blank (ae_reason e) \<or> ae_before e = [] \<or> ae_after e = [] then Inl (ValueError ''audit event is incomplete'')
     else Inr (evs @ [e]))"

record admin_view =
  av_user :: string
  av_email :: string
  av_status :: string
  av_tenant :: string
  av_plan :: string
  av_balance :: int

record admin_result =
  ar_action :: string
  ar_target :: string
  ar_before :: dict
  ar_after :: dict
  ar_audit :: string

record ('e, 'l) admin =
  ad_identity :: tenant_boundary
  ad_entitlements :: "'e entitlement_port"
  ad_ledger :: "'l ledger_port"

record ('e, 'l) admin_state =
  as_plans :: 'e
  as_credits :: 'l
  as_audit :: "audit_event list"
  as_results :: "((string \<times> string) \<times> admin_result) list"

text \<open>What a request carries besides its target, and the fresh identifiers it draws.\<close>

record admin_call =
  ac_reason :: string
  ac_source :: string
  ac_correlation :: string
  ac_key :: "string option"
  ac_audit_id :: string
  ac_ids :: "string \<times> string"
  ac_now :: string

section \<open>Operations\<close>

definition admin_target :: "('e, 'l) admin \<Rightarrow> request_context \<Rightarrow> string \<Rightarrow> string \<Rightarrow> string \<Rightarrow> exn + unit" where
  "admin_target A ctx tid u p =
     (case require_admin ctx tid p (ad_identity A) of Inl e \<Rightarrow> Inl e | Inr _ \<Rightarrow>
      case memberships_for_tenant tid (ad_identity A) of Inl e \<Rightarrow> Inl e | Inr ms \<Rightarrow>
        if \<exists>m\<in>set ms. mb_user m = u then Inr () else Inl (AuthorizationDenied ''target access denied''))"

definition admin_snapshot :: "('e, 'l) admin \<Rightarrow> string \<Rightarrow> string \<Rightarrow> ('e, 'l) admin_state \<Rightarrow> exn + dict" where
  "admin_snapshot A tid u s = (case get_user u (ad_identity A) of Inl e \<Rightarrow> Inl e | Inr r \<Rightarrow>
     Inr [(''tenant_id'', JStr tid), (''user_id'', JStr (us_id r)), (''status'', JStr (us_status r)),
       (''plan'', JStr (ep_plan (ad_entitlements A) u (as_plans s))),
       (''credit_balance'', JInt (lp_balance (ad_ledger A) u (as_credits s)))])"

definition admin_finish :: "string \<Rightarrow> request_context \<Rightarrow> string \<Rightarrow> string \<Rightarrow> string \<Rightarrow> admin_call \<Rightarrow> dict \<Rightarrow> dict \<Rightarrow>
    ('e, 'l) admin_state \<Rightarrow> (exn + admin_result) \<times> ('e, 'l) admin_state" where
  "admin_finish action ctx tid u why c before after s =
     (let e = \<lparr>ae_id = ''audit-'' @ ac_audit_id c, ae_time = ac_now c, ae_actor = rc_user ctx, ae_tenant = tid, ae_action = action,
        ae_target_type = ''user'', ae_target = u, ae_reason = why, ae_before = before, ae_after = after, ae_source = ac_source c,
        ae_correlation = ac_correlation c\<rparr>;
        r = \<lparr>ar_action = action, ar_target = u, ar_before = before, ar_after = after, ar_audit = ae_id e\<rparr>
      in case append_audit e (as_audit s) of Inl x \<Rightarrow> (Inl x, s) | Inr evs \<Rightarrow>
        (Inr r, s\<lparr>as_audit := evs, as_results := (case ac_key c of
           None \<Rightarrow> as_results s
         | Some k \<Rightarrow> if k = [] then as_results s else AList.update (action, k) r (as_results s))\<rparr>))"

definition recorded_result :: "string \<Rightarrow> admin_call \<Rightarrow> ('e, 'l) admin_state \<Rightarrow> admin_result option" where
  "recorded_result action c s = (case ac_key c of None \<Rightarrow> None | Some k \<Rightarrow> if k = [] then None else map_of (as_results s) (action, k))"

text \<open>The common course of \<open>change_plan\<close> and \<open>adjust_credits\<close> around their mutation.\<close>

definition admin_mutation :: "('e, 'l) admin \<Rightarrow> string \<Rightarrow> string \<Rightarrow> (string \<Rightarrow> ('e, 'l) admin_state \<Rightarrow> exn + ('e, 'l) admin_state) \<Rightarrow>
    request_context \<Rightarrow> string \<Rightarrow> string \<Rightarrow> admin_call \<Rightarrow> ('e, 'l) admin_state \<Rightarrow> (exn + admin_result) \<times> ('e, 'l) admin_state" where
  "admin_mutation A action p mutate ctx tid u c s =
     (case admin_target A ctx tid u p of Inl e \<Rightarrow> (Inl e, s) | Inr _ \<Rightarrow>
      case admin_reason (ac_reason c) of Inl e \<Rightarrow> (Inl e, s) | Inr why \<Rightarrow>
      case recorded_result action c s of Some r \<Rightarrow> (Inr r, s) | None \<Rightarrow>
      case admin_snapshot A tid u s of Inl e \<Rightarrow> (Inl e, s) | Inr before \<Rightarrow>
      case mutate why s of Inl e \<Rightarrow> (Inl e, s) | Inr s1 \<Rightarrow>
      case admin_snapshot A tid u s1 of Inl e \<Rightarrow> (Inl e, s1) | Inr after \<Rightarrow>
        admin_finish action ctx tid u why c before after s1)"

definition change_plan :: "('e, 'l) admin \<Rightarrow> request_context \<Rightarrow> string \<Rightarrow> string \<Rightarrow> string \<Rightarrow> admin_call \<Rightarrow> ('e, 'l) admin_state \<Rightarrow>
    (exn + admin_result) \<times> ('e, 'l) admin_state" where
  "change_plan A ctx tid u plan c s = admin_mutation A ''plan.change'' ''admin.plans.write''
     (\<lambda>why s. case ep_transition (ad_entitlements A) u plan why (as_plans s) of Inl e \<Rightarrow> Inl e | Inr e' \<Rightarrow> Inr (s\<lparr>as_plans := e'\<rparr>))
     ctx tid u c s"

definition adjust_credits :: "('e, 'l) admin \<Rightarrow> request_context \<Rightarrow> string \<Rightarrow> string \<Rightarrow> int \<Rightarrow> admin_call \<Rightarrow> ('e, 'l) admin_state \<Rightarrow>
    (exn + admin_result) \<times> ('e, 'l) admin_state" where
  "adjust_credits A ctx tid u n c s = admin_mutation A ''credits.adjust'' ''admin.credits.write''
     (\<lambda>why s. case lp_adjust (ad_ledger A) u n why (ac_ids c) (ac_now c) (as_credits s) of Inl e \<Rightarrow> Inl e
        | Inr (b, l) \<Rightarrow> Inr (s\<lparr>as_credits := l\<rparr>))
     ctx tid u c s"

definition to_view :: "('e, 'l) admin \<Rightarrow> string \<Rightarrow> ('e, 'l) admin_state \<Rightarrow> string \<Rightarrow> user_record \<Rightarrow> admin_view" where
  "to_view A tid s u r = \<lparr>av_user = us_id r, av_email = us_email r, av_status = us_status r, av_tenant = tid,
     av_plan = ep_plan (ad_entitlements A) u (as_plans s), av_balance = lp_balance (ad_ledger A) u (as_credits s)\<rparr>"

definition admin_get_user :: "('e, 'l) admin \<Rightarrow> request_context \<Rightarrow> string \<Rightarrow> string \<Rightarrow> ('e, 'l) admin_state \<Rightarrow> exn + admin_view" where
  "admin_get_user A ctx tid u s =
     (case admin_target A ctx tid u ''admin.users.read'' of Inl e \<Rightarrow> Inl e | Inr _ \<Rightarrow>
      case get_user u (ad_identity A) of Inl e \<Rightarrow> Inl e | Inr r \<Rightarrow> Inr (to_view A tid s u r))"

fun collect_users :: "('e, 'l) admin \<Rightarrow> string \<Rightarrow> ('e, 'l) admin_state \<Rightarrow> string \<Rightarrow> membership list \<Rightarrow> exn + admin_view list" where
  "collect_users A tid s needle [] = Inr []"
| "collect_users A tid s needle (m # ms) =
     (case get_user (mb_user m) (ad_identity A) of Inl e \<Rightarrow> Inl e | Inr r \<Rightarrow>
      case collect_users A tid s needle ms of Inl e \<Rightarrow> Inl e | Inr vs \<Rightarrow>
        Inr (if needle \<noteq> [] \<and> \<not> contains_text (lower (us_id r)) needle \<and> \<not> contains_text (lower (us_email r)) needle then vs
             else to_view A tid s (us_id r) r # vs))"

definition search_users :: "('e, 'l) admin \<Rightarrow> request_context \<Rightarrow> string \<Rightarrow> string \<Rightarrow> int \<Rightarrow> int \<Rightarrow> ('e, 'l) admin_state \<Rightarrow> exn + admin_view list" where
  "search_users A ctx tid query page psize s =
     (case require_admin ctx tid ''admin.users.read'' (ad_identity A) of Inl e \<Rightarrow> Inl e | Inr _ \<Rightarrow>
      if page < 1 \<or> psize < 1 \<or> 100 < psize then Inl (ValueError ''invalid pagination'')
      else case memberships_for_tenant tid (ad_identity A) of Inl e \<Rightarrow> Inl e | Inr ms \<Rightarrow>
      case collect_users A tid s (lower (strip query)) ms of Inl e \<Rightarrow> Inl e | Inr vs \<Rightarrow>
        Inr (take (nat psize) (drop (nat ((page - 1) * psize)) vs)))"

section \<open>The contract of a ledger\<close>

text \<open>
  What the operations rely on: an adjustment that returns moves the account of the user by exactly
  the amount, and so the balance of every user who shares that account, and of nobody else.
\<close>

locale admin_ledger =
  fixes P :: "'l ledger_port"
    and account :: "string \<Rightarrow> string"
    and linv :: "'l \<Rightarrow> bool"
    and lfresh :: "string \<Rightarrow> string \<times> string \<Rightarrow> 'l \<Rightarrow> bool"
  assumes adjust_linv: "linv l \<Longrightarrow> lp_adjust P u n why ids now l = Inr (b, l') \<Longrightarrow> linv l'"
    and adjust_balance: "linv l \<Longrightarrow> lfresh u ids l \<Longrightarrow> lp_adjust P u n why ids now l = Inr (b, l') \<Longrightarrow>
      lp_balance P v l' = lp_balance P v l + (if account v = account u then n else 0)"

interpretation in_memory: admin_ledger memory_ledger "\<lambda>u. u" "\<lambda>_. True" "\<lambda>_ _ _. True"
  by unfold_locales (auto simp: memory_ledger_def adjust_memory_def current_balance_def Let_def update_conv' split: if_splits)

lemma available_balance: "keys_ok db \<Longrightarrow> available a db = balance_of a (accounts db) - held a (reservations db)"
proof -
  assume k: "keys_ok db"
  show ?thesis
  proof (cases "find_account a (accounts db)")
    case None
    then have "a \<notin> acc_id ` set (accounts db)" by (auto simp: find_account_def find_None_iff_set)
    then have "held a (reservations db) = 0"
      using k by (intro held_zero) (auto simp: keys_ok_def)
    with None show ?thesis by (simp add: available_def balance_of_def)
  qed (simp add: available_def balance_of_def)
qed

lemma adjust_available:
  assumes "credit_inv db" and "\<forall>j\<in>set (adjustments db). adj_key j \<noteq> key" and "adjust a n key why uid now db = Inr (b, db')"
  shows "available c db' = available c db + (if c = a then n else 0)"
  using assms(3)
proof (cases rule: adjust_InrE)
  case (replay j)
  with assms(2) show ?thesis by (auto dest: find_SomeD)
next
  case (fresh accs j)
  have k: "keys_ok db" using assms(1) by (simp add: credit_inv_def)
  then have u: "unique_by acc_id accs" by (simp add: fresh(2) unique_ensure_account keys_ok_def)
  obtain acc where acc: "acc \<in> set accs" "acc_id acc = a" and upd: "accounts db' = add_balance a n accs"
    using credit_as_add [OF u fresh(3)] fresh(7) by auto
  have "keys_ok db'" using adjust_inv [OF assms(1,3)] by (simp add: credit_inv_def)
  moreover have "reservations db' = reservations db" using fresh(7) by simp
  ultimately show ?thesis
    using acc by (auto simp: available_balance k upd balance_of_add_balance fresh(2) balance_of_ensure_zero)
qed

definition unused_key :: "(string \<times> string) list \<Rightarrow> string \<Rightarrow> string \<times> string \<Rightarrow> credit_db \<Rightarrow> bool" where
  "unused_key accs u ids db \<longleftrightarrow> (\<forall>j\<in>set (adjustments db). adj_key j \<noteq> ''admin-'' @ u @ ''-'' @ fst ids)"

interpretation durable: admin_ledger "local_ledger accs" "account_of accs" credit_inv "unused_key accs" for accs
proof (unfold_locales, goal_cases)
  case (1 l u n why ids now b l')
  then show ?case by (auto simp: local_ledger_def adjust_local_def intro: adjust_inv)
next
  case (2 l u ids n why now b l' v)
  then show ?case
    using adjust_available [of l "''admin-'' @ u @ ''-'' @ fst ids" "account_of accs u" n why "snd ids" now b l' "account_of accs v"]
    by (simp add: local_ledger_def adjust_local_def unused_key_def del: append_Cons)
qed

section \<open>Correctness\<close>

lemma require_admin_may: "require_admin ctx tid p b = Inr m \<Longrightarrow> may b ctx tid p"
  using require_permission_iff [of ctx tid p b] by (auto simp: require_admin_def split: if_splits)

lemma admin_target_Inr:
  assumes "admin_target A ctx tid u p = Inr x"
  shows "may (ad_identity A) ctx tid p" "\<exists>m\<in>set (map snd (tb_members (ad_identity A))). mb_tenant m = tid \<and> mb_user m = u"
  using assms by (auto simp: admin_target_def memberships_for_tenant_def split: sum.splits if_splits dest: require_admin_may)

lemma admin_finish_fresh:
  assumes "\<forall>e\<in>set (as_audit s). ae_id e \<noteq> ''audit-'' @ ac_audit_id c" and "\<not> blank why" and "before \<noteq> []" and "after \<noteq> []"
  shows "\<exists>r e res. admin_finish action ctx tid u why c before after s = (Inr r, s\<lparr>as_audit := as_audit s @ [e], as_results := res\<rparr>)
    \<and> ae_actor e = rc_user ctx \<and> ae_tenant e = tid \<and> ae_action e = action \<and> ae_target e = u \<and> ae_reason e = why
    \<and> ae_before e = before \<and> ae_after e = after \<and> ar_before r = before \<and> ar_after r = after \<and> ar_target r = u"
proof -
  have "\<not> (\<exists>e\<in>set (as_audit s). ae_id e = ''audit-'' @ ac_audit_id c)" using assms(1) by blast
  with assms(2-4) show ?thesis by (auto simp: admin_finish_def append_audit_def Let_def simp del: append_Cons)
qed

lemma admin_snapshot_Inr:
  assumes "admin_snapshot A tid u s = Inr d"
  shows "d \<noteq> []" "map_of d ''credit_balance'' = Some (JInt (lp_balance (ad_ledger A) u (as_credits s)))"
    "map_of d ''plan'' = Some (JStr (ep_plan (ad_entitlements A) u (as_plans s)))"
  using assms by (auto simp: admin_snapshot_def split: sum.splits)

lemma admin_snapshot_total: "admin_snapshot A tid u s = Inr d \<Longrightarrow> \<exists>d'. admin_snapshot A tid u s' = Inr d'"
  by (auto simp: admin_snapshot_def split: sum.splits)

definition keeps_audit :: "(string \<Rightarrow> ('e, 'l) admin_state \<Rightarrow> exn + ('e, 'l) admin_state) \<Rightarrow> bool" where
  "keeps_audit f \<longleftrightarrow> (\<forall>why s s1. f why s = Inr s1 \<longrightarrow> as_audit s1 = as_audit s)"

text \<open>The outcomes of a privileged mutation whose audit identifier is new.\<close>

lemma admin_mutation_cases:
  assumes "admin_mutation A action p mutate ctx tid u c s = (r, s')"
    and "\<forall>e\<in>set (as_audit s). ae_id e \<noteq> ''audit-'' @ ac_audit_id c"
    and "keeps_audit mutate"
  obtains (refused) e where "r = Inl e" "s' = s"
  | (replayed) x where "r = Inr x" "s' = s" "recorded_result action c s = Some x" "admin_target A ctx tid u p = Inr ()"
  | (performed) x e s1 res where "r = Inr x" "s' = s1\<lparr>as_audit := as_audit s @ [e], as_results := res\<rparr>"
      "mutate (ae_reason e) s = Inr s1" "admin_target A ctx tid u p = Inr ()" "recorded_result action c s = None"
      "\<not> blank (ae_reason e)" "ae_actor e = rc_user ctx" "ae_tenant e = tid" "ae_action e = action" "ae_target e = u"
      "admin_snapshot A tid u s = Inr (ae_before e)" "admin_snapshot A tid u s1 = Inr (ae_after e)"
      "ar_before x = ae_before e" "ar_after x = ae_after e" "ar_target x = u"
proof (cases "admin_target A ctx tid u p")
  case (Inl e)
  with assms(1) show thesis by (auto simp: admin_mutation_def intro: refused)
next
  case t: (Inr x)
  show thesis
  proof (cases "admin_reason (ac_reason c)")
    case (Inl e)
    with assms(1) t show thesis by (auto simp: admin_mutation_def intro: refused)
  next
    case why: (Inr why)
    then have nb: "\<not> blank why"
      by (auto simp: admin_reason_def split: if_splits)
    show thesis
    proof (cases "recorded_result action c s")
      case (Some x)
      with assms(1) t why show thesis by (auto simp: admin_mutation_def intro: replayed)
    next
      case new: None
      show thesis
      proof (cases "admin_snapshot A tid u s")
        case (Inl e)
        with assms(1) t why new show thesis by (auto simp: admin_mutation_def intro: refused)
      next
        case before: (Inr before)
        show thesis
        proof (cases "mutate why s")
          case (Inl e)
          with assms(1) t why new before show thesis by (auto simp: admin_mutation_def intro: refused)
        next
          case m: (Inr s1)
          obtain after where after: "admin_snapshot A tid u s1 = Inr after" using admin_snapshot_total [OF before] by blast
          have "\<forall>e\<in>set (as_audit s1). ae_id e \<noteq> ''audit-'' @ ac_audit_id c" using assms(2,3) m by (metis keeps_audit_def)
          from admin_finish_fresh [OF this nb admin_snapshot_Inr(1) [OF before] admin_snapshot_Inr(1) [OF after]]
          obtain y e res where "admin_finish action ctx tid u why c before after s1 = (Inr y, s1\<lparr>as_audit := as_audit s1 @ [e], as_results := res\<rparr>)"
            "ae_actor e = rc_user ctx" "ae_tenant e = tid" "ae_action e = action" "ae_target e = u" "ae_reason e = why"
            "ae_before e = before" "ae_after e = after" "ar_before y = before" "ar_after y = after" "ar_target y = u" by blast
          moreover have "as_audit s1 = as_audit s" using assms(3) m by (auto simp: keeps_audit_def)
          ultimately show thesis using assms(1) t why new before m after nb
            by (intro performed [where x = y and ?s1.0 = s1 and e = e and res = res]) (auto simp: admin_mutation_def)
        qed
      qed
    qed
  qed
qed

lemma change_plan_mutation:
  "keeps_audit (\<lambda>why s. case ep_transition (ad_entitlements A) u plan why (as_plans s) of Inl e \<Rightarrow> Inl e | Inr e' \<Rightarrow> Inr (s\<lparr>as_plans := e'\<rparr>))"
  by (auto simp: keeps_audit_def split: sum.splits)

lemma adjust_mutation:
  "keeps_audit (\<lambda>why s. case lp_adjust (ad_ledger A) u n why ids now (as_credits s) of Inl e \<Rightarrow> Inl e | Inr (b, l) \<Rightarrow> Inr (s\<lparr>as_credits := l\<rparr>))"
  by (auto simp: keeps_audit_def split: sum.splits)

inductive admin_calls :: "('e, 'l) admin \<Rightarrow> request_context \<Rightarrow> string \<Rightarrow> string \<Rightarrow> ('e, 'l) admin_state \<Rightarrow> exn + admin_result \<Rightarrow>
    ('e, 'l) admin_state \<Rightarrow> bool" for A ctx tid u s where
  call_plan: "\<forall>e\<in>set (as_audit s). ae_id e \<noteq> ''audit-'' @ ac_audit_id c \<Longrightarrow>
     change_plan A ctx tid u plan c s = (r, s') \<Longrightarrow> admin_calls A ctx tid u s r s'"
| call_credits: "\<forall>e\<in>set (as_audit s). ae_id e \<noteq> ''audit-'' @ ac_audit_id c \<Longrightarrow>
     adjust_credits A ctx tid u n c s = (r, s') \<Longrightarrow> admin_calls A ctx tid u s r s'"

text \<open>
  C24. No privileged change goes without its record. Whatever plan change or credit adjustment an
  administrator asks for (over any entitlement store and ledger, with a new audit identifier): either
  nothing changes at all, or the actor may do it in that tenant, the target is a member of the
  tenant, and exactly one audit event is appended that names the actor, the tenant, the target and
  a non-empty reason.
\<close>
theorem no_unaudited_change:
  assumes "admin_calls A ctx tid u s r s'"
  shows "s' = s \<or> (\<exists>e p. as_audit s' = as_audit s @ [e] \<and> ae_actor e = rc_user ctx \<and> ae_tenant e = tid \<and> ae_target e = u
    \<and> \<not> blank (ae_reason e) \<and> p \<in> {''admin.plans.write'', ''admin.credits.write''} \<and> may (ad_identity A) ctx tid p
    \<and> (\<exists>m\<in>set (map snd (tb_members (ad_identity A))). mb_tenant m = tid \<and> mb_user m = u))"
  using assms
proof (induction rule: admin_calls.induct)
  case (call_plan c plan r s')
  from call_plan(2) [unfolded change_plan_def] call_plan(1) change_plan_mutation show ?case
  proof (cases rule: admin_mutation_cases)
    case (performed x e s1 res)
    with admin_target_Inr [OF performed(4)] show ?thesis by (intro disjI2 exI [of _ e] exI [of _ "''admin.plans.write''"]) simp
  qed auto
next
  case (call_credits c n r s')
  from call_credits(2) [unfolded adjust_credits_def] call_credits(1) adjust_mutation show ?case
  proof (cases rule: admin_mutation_cases)
    case (performed x e s1 res)
    with admin_target_Inr [OF performed(4)] show ?thesis by (intro disjI2 exI [of _ e] exI [of _ "''admin.credits.write''"]) simp
  qed auto
qed

definition demo_admin :: "(plans, credit_db) admin" where
  "demo_admin = \<lparr>ad_identity = demo_boundary, ad_entitlements = memory_entitlements, ad_ledger = local_ledger [(''bob'', ''acct'')]\<rparr>"

definition demo_admin_state :: "(plans, credit_db) admin_state" where
  "demo_admin_state = \<lparr>as_plans = \<lparr>pl_plans = [], pl_calls = []\<rparr>, as_credits = demo_ledger, as_audit = [], as_results = []\<rparr>"

definition demo_ctx :: "string \<Rightarrow> string \<Rightarrow> request_context" where
  "demo_ctx u t = \<lparr>rc_user = u, rc_session = ''s1'', rc_tenant = Some t, rc_roles = []\<rparr>"

definition demo_call :: admin_call where
  "demo_call = \<lparr>ac_reason = '' goodwill '', ac_source = ''admin-api'', ac_correlation = ''c'', ac_key = Some ''key-1'', ac_audit_id = ''ff'',
     ac_ids = (''0a'', ''0b''), ac_now = ''now''\<rparr>"

lemma demo_adjusted:
  "\<exists>r s'. adjust_credits demo_admin (demo_ctx ''ann'' ''a'') ''a'' ''bob'' 7 demo_call demo_admin_state = (Inr r, s') \<and> s' \<noteq> demo_admin_state"
proof -
  obtain r s' where "adjust_credits demo_admin (demo_ctx ''ann'' ''a'') ''a'' ''bob'' 7 demo_call demo_admin_state = (Inr r, s')"
    "length (as_audit s') = 1"
    by (rule call_obtain [where m = "adjust_credits demo_admin (demo_ctx ''ann'' ''a'') ''a'' ''bob'' 7 demo_call demo_admin_state"
      and Q = "\<lambda>r s'. length (as_audit s') = 1"]) code_simp
  then show ?thesis by (intro exI conjI) (auto simp: demo_admin_state_def)
qed

lemma demo_audit_new: "\<forall>e\<in>set (as_audit demo_admin_state). ae_id e \<noteq> ''audit-'' @ ac_audit_id demo_call"
  by (simp add: demo_admin_state_def)

theorem no_unaudited_change_witness:
  "\<exists>r s' e. adjust_credits demo_admin (demo_ctx ''ann'' ''a'') ''a'' ''bob'' 7 demo_call demo_admin_state = (Inr r, s') \<and> as_audit s' = [e]
     \<and> ae_actor e = ''ann''"
proof -
  obtain r s' where d: "adjust_credits demo_admin (demo_ctx ''ann'' ''a'') ''a'' ''bob'' 7 demo_call demo_admin_state = (Inr r, s')"
    "s' \<noteq> demo_admin_state" using demo_adjusted by blast
  from no_unaudited_change [OF call_credits [OF demo_audit_new d(1)]] d show ?thesis
    by (auto simp: demo_admin_state_def demo_ctx_def)
qed

text \<open>The adjustment itself, over any ledger that keeps the contract.\<close>

context admin_ledger
begin

lemma adjusted_exactly:
  assumes "ad_ledger A = P" and "linv (as_credits s)" and "lfresh u (ac_ids c) (as_credits s)"
    and "\<forall>e\<in>set (as_audit s). ae_id e \<noteq> ''audit-'' @ ac_audit_id c" and "recorded_result ''credits.adjust'' c s = None"
    and "adjust_credits A ctx tid u n c s = (Inr r, s')"
  shows "linv (as_credits s')"
    and "lp_balance P v (as_credits s') = lp_balance P v (as_credits s) + (if account v = account u then n else 0)"
    and "map_of (ar_before r) ''credit_balance'' = Some (JInt (lp_balance P u (as_credits s)))"
    and "map_of (ar_after r) ''credit_balance'' = Some (JInt (lp_balance P u (as_credits s) + n))"
proof -
  from assms(6) [unfolded adjust_credits_def] assms(4) adjust_mutation
  have "linv (as_credits s') \<and> lp_balance P v (as_credits s') = lp_balance P v (as_credits s) + (if account v = account u then n else 0)
    \<and> map_of (ar_before r) ''credit_balance'' = Some (JInt (lp_balance P u (as_credits s)))
    \<and> map_of (ar_after r) ''credit_balance'' = Some (JInt (lp_balance P u (as_credits s) + n))" for v
  proof (cases rule: admin_mutation_cases)
    case (performed x e s1 res)
    then obtain b l where l: "lp_adjust P u n (ae_reason e) (ac_ids c) (ac_now c) (as_credits s) = Inr (b, l)" "s1 = s\<lparr>as_credits := l\<rparr>"
      using assms(1) by (auto split: sum.splits)
    from performed(1) have "x = r" by simp
    with performed(2,13,14) l(2) admin_snapshot_Inr(2) [OF performed(11)] admin_snapshot_Inr(2) [OF performed(12)]
      adjust_linv [OF assms(2) l(1)] adjust_balance [OF assms(2,3) l(1)] assms(1)
    show ?thesis by simp
  qed (use assms(5) in auto)
  then show "linv (as_credits s')"
    "lp_balance P v (as_credits s') = lp_balance P v (as_credits s) + (if account v = account u then n else 0)"
    "map_of (ar_before r) ''credit_balance'' = Some (JInt (lp_balance P u (as_credits s)))"
    "map_of (ar_after r) ''credit_balance'' = Some (JInt (lp_balance P u (as_credits s) + n))" by blast+
qed

end

text \<open>
  A credit adjustment through the durable ledger moves the available credits of the target's
  account by exactly the amount and of no other account, keeps the ledger's invariant, and reports
  the true balances before and after.
\<close>
theorem credits_adjusted_exactly:
  assumes "ad_ledger A = local_ledger accs" and "credit_inv (as_credits s)" and "unused_key accs u (ac_ids c) (as_credits s)"
    and "\<forall>e\<in>set (as_audit s). ae_id e \<noteq> ''audit-'' @ ac_audit_id c" and "recorded_result ''credits.adjust'' c s = None"
    and "adjust_credits A ctx tid u n c s = (Inr r, s')"
  shows "credit_inv (as_credits s')
    \<and> available (account_of accs v) (as_credits s') =
        available (account_of accs v) (as_credits s) + (if account_of accs v = account_of accs u then n else 0)
    \<and> map_of (ar_before r) ''credit_balance'' = Some (JInt (available (account_of accs u) (as_credits s)))
    \<and> map_of (ar_after r) ''credit_balance'' = Some (JInt (available (account_of accs u) (as_credits s) + n))"
  using durable.adjusted_exactly [OF assms] by (simp_all add: local_ledger_def)

theorem credits_adjusted_exactly_witness:
  "\<exists>r s'. adjust_credits demo_admin (demo_ctx ''ann'' ''a'') ''a'' ''bob'' 7 demo_call demo_admin_state = (Inr r, s')
     \<and> map_of (ar_before r) ''credit_balance'' = Some (JInt 3) \<and> available ''acct'' (as_credits s') = 10"
proof -
  obtain r s' where d: "adjust_credits demo_admin (demo_ctx ''ann'' ''a'') ''a'' ''bob'' 7 demo_call demo_admin_state = (Inr r, s')"
    using demo_adjusted by blast
  have facts: "ad_ledger demo_admin = local_ledger [(''bob'', ''acct'')]" "credit_inv (as_credits demo_admin_state)"
    "unused_key [(''bob'', ''acct'')] ''bob'' (ac_ids demo_call) (as_credits demo_admin_state)"
    "recorded_result ''credits.adjust'' demo_call demo_admin_state = None" "account_of [(''bob'', ''acct'')] ''bob'' = ''acct''"
    using demo_ledger_inv
    by (simp add: demo_admin_def, simp add: demo_admin_state_def, simp add: demo_admin_state_def unused_key_def demo_ledger_def,
        simp add: demo_admin_state_def recorded_result_def demo_call_def, simp add: account_of_def)
  have "available ''acct'' demo_ledger = 3" by code_simp
  with credits_adjusted_exactly [OF facts(1-3) demo_audit_new facts(4) d, of "''bob''"] d facts(5)
  show ?thesis by (simp add: demo_admin_state_def)
qed

text \<open>
  The results of earlier calls are kept by action and key alone: an administrator of one tenant who
  happens to use a key of another tenant gets that tenant's result, and the adjustment is not made.
\<close>
lemma replay_ignores_tenant:
  assumes "admin_target A ctx tid u ''admin.credits.write'' = Inr ()" and "\<not> blank (ac_reason c)" and "length (strip (ac_reason c)) \<le> 500"
    and "ac_key c = Some k" and "k \<noteq> []" and "map_of (as_results s) (''credits.adjust'', k) = Some x"
  shows "adjust_credits A ctx tid u n c s = (Inr x, s)"
  using assms by (simp add: adjust_credits_def admin_mutation_def admin_reason_def recorded_result_def)

end
