(* ===== verification/Kernel_Redaction.thy ===== *)
theory Kernel_Redaction
  imports Redaction Py_Value
begin

text \<open>
  The redaction the kernel store applies before it persists anything:
  \<open>agent_platform/redaction.py\<close>, and the JSON columns of \<open>agent_platform/storage.py\<close>
  (\<open>_safe_json\<close>, \<open>_bounded_text\<close>). A pattern that begins with \<open>\b\<close> matches only
  after a character that is no word character; \<open>sub_bounded\<close> is its \<open>re.sub\<close>. Text
  is over code points below 256.
\<close>

section \<open>Patterns with word boundaries\<close>

text \<open>\<open>\w\<close>: letters, digits, the underscore, and the alphanumeric characters of Latin-1.\<close>

definition word_char :: "char \<Rightarrow> bool" where
  "word_char c \<longleftrightarrow> (let n = (of_char c :: nat) in
     is_letter c \<or> is_digit c \<or> n = 95 \<or> n \<in> {170, 178, 179, 181, 185, 186, 188, 189, 190} \<or> (192 \<le> n \<and> n \<noteq> 215 \<and> n \<noteq> 247))"

definition word_at :: "string \<Rightarrow> bool" where
  "word_at s = (case s of [] \<Rightarrow> False | c # _ \<Rightarrow> word_char c)"

fun sub_bounded :: "matcher \<Rightarrow> bool \<Rightarrow> string \<Rightarrow> string" where
  "sub_bounded m inside [] = []"
| "sub_bounded m inside (c # cs) = (case (if inside then None else m (c # cs)) of
     Some (rep, n) \<Rightarrow> rep @ sub_bounded m (word_char (last (take n (c # cs)))) (drop (n - 1) cs)
   | None \<Rightarrow> c # sub_bounded m (word_char c) cs)"

text \<open>\<open>(?i)\b(sk|pk)-[A-Za-z0-9_-]{8,}\b\<close>: the longest run of key characters that ends at a boundary.\<close>

fun longest_key :: "string \<Rightarrow> nat \<Rightarrow> nat option" where
  "longest_key s 0 = None"
| "longest_key s (Suc k) = (if 8 \<le> Suc k \<and> word_char (s ! k) \<noteq> word_at (drop (Suc k) s) then Some (Suc k) else longest_key s k)"

definition match_key :: matcher where
  "match_key s = (if prefix_ci ''sk-'' s \<or> prefix_ci ''pk-'' s
     then (case longest_key (drop 3 s) (length (takeWhile key_char (drop 3 s))) of
        None \<Rightarrow> None | Some n \<Rightarrow> Some (''[REDACTED_KEY]'', 3 + n)) else None)"

definition separator :: "string \<Rightarrow> string option" where
  "separator s = (case dropWhile is_space s of [] \<Rightarrow> None
     | c # cs \<Rightarrow> if c = CHR '':'' \<or> c = CHR ''='' then Some (dropWhile is_space cs) else None)"

text \<open>\<open>(?i)\b(?:authorization|...|api[_-]?key)\s*[:=]\s*[^\s,;}]+\<close>\<close>

definition match_credential :: "string \<Rightarrow> matcher" where
  "match_credential w s = (if prefix_ci w s
     then (case separator (drop (length w) s) of None \<Rightarrow> None
        | Some v \<Rightarrow> if takeWhile value_char v = [] then None
            else Some (''[REDACTED_CREDENTIAL]'', length s - length (dropWhile value_char v)))
     else None)"

text \<open>\<open>\b(?:card(?:_number)?|ssn)\s*[:=]\s*\d{4,}\b\<close>\<close>

definition match_sensitive :: "string \<Rightarrow> matcher" where
  "match_sensitive w s = (if prefix_ci w s
     then (case separator (drop (length w) s) of None \<Rightarrow> None
        | Some v \<Rightarrow> if length (takeWhile is_digit v) < 4 \<or> word_at (dropWhile is_digit v) then None
            else Some (''[REDACTED_SENSITIVE]'', length s - length (dropWhile is_digit v)))
     else None)"

fun first_match :: "matcher list \<Rightarrow> matcher" where
  "first_match [] s = None"
| "first_match (m # ms) s = (case m s of Some r \<Rightarrow> Some r | None \<Rightarrow> first_match ms s)"

definition kernel_redact_text :: "string \<Rightarrow> string" where
  "kernel_redact_text s =
     sub_bounded (first_match (map match_sensitive [''card_number'', ''card'', ''ssn''])) False
       (sub_bounded (first_match (map match_credential [''authorization'', ''password'', ''passwd'', ''secret'', ''token'',
           ''api_key'', ''api-key'', ''apikey''])) False
         (sub_bounded match_key False s))"

fun redact_json :: "json \<Rightarrow> json"
  and redact_list :: "json list \<Rightarrow> json list"
  and redact_dict :: "dict \<Rightarrow> dict" where
  "redact_json (JStr s) = JStr (kernel_redact_text s)"
| "redact_json (JObj d) = JObj (redact_dict d)"
| "redact_json (JList l) = JList (redact_list l)"
| "redact_json JNull = JNull"
| "redact_json (JBool b) = JBool b"
| "redact_json (JInt n) = JInt n"
| "redact_json (JNum q) = JNum q"
| "redact_list [] = []"
| "redact_list (v # vs) = redact_json v # redact_list vs"
| "redact_dict [] = []"
| "redact_dict ((k, v) # d) = (k, redact_json v) # redact_dict d"

section \<open>JSON columns\<close>

text \<open>
  A JSON column is the text that is stored and what \<open>json.loads\<close> makes of it: a text that was
  cut at the limit is no JSON any more.
\<close>

record cell =
  cell_text :: string
  cell_value :: "json option"

definition max_json_chars :: int where
  "max_json_chars = 256000"

definition bounded_text :: "int \<Rightarrow> string \<Rightarrow> string" where
  "bounded_text limit s = (if int (length s) \<le> limit then s else take (nat limit) s @ CHR 0x0A # ''[TRUNCATED]'')"

definition safe_json :: "(rat \<Rightarrow> string) \<Rightarrow> json \<Rightarrow> cell" where
  "safe_json fr v = (let t = json_dump fr (redact_json v) in
     \<lparr>cell_text = bounded_text max_json_chars t,
      cell_value = (if int (length t) \<le> max_json_chars then Some (redact_json v) else None)\<rparr>)"

definition load_json :: "cell \<Rightarrow> exn + json" where
  "load_json c = (case cell_value c of None \<Rightarrow> Inl (ValueError ''JSONDecodeError'') | Some v \<Rightarrow> Inr v)"

definition load_dict :: "cell \<Rightarrow> exn + dict" where
  "load_dict c = (case load_json c of Inl e \<Rightarrow> Inl e | Inr (JObj d) \<Rightarrow> Inr d | Inr _ \<Rightarrow> Inl (TypeError ''not a mapping''))"

lemma load_safe_json:
  "load_json (safe_json fr v) = (if int (length (json_dump fr (redact_json v))) \<le> max_json_chars then Inr (redact_json v)
     else Inl (ValueError ''JSONDecodeError''))"
  by (simp add: load_json_def safe_json_def Let_def)

end
