(* ===== verification/Kernel_Store.thy ===== *)
theory Kernel_Store
  imports Kernel_Redaction Lifecycle
begin

text \<open>
  The product run ledger and its repository-scoped review projection:
  \<open>agent_platform/storage.py\<close> and the records of \<open>agent_platform/contracts.py\<close> it
  stores. Parameters, in \<open>kernel_env\<close>: SHA-256, the rendering of floats and the reading of an
  ISO instant. One clock reading stands for the readings of one operation. The statements of a
  method that opens no transaction are committed one by one, so such a method returns its outcome
  together with the store.
\<close>

record kernel_env =
  ke_sha :: "string \<Rightarrow> string"
  ke_float :: "rat \<Rightarrow> string"
  ke_instant :: "string \<Rightarrow> int option"

section \<open>Repository snapshots\<close>

text \<open>The keys of a repository mapping that the code reads; the outer option of the commit is the presence of its key.\<close>

record repository_map =
  rm_id :: "string option"
  rm_root :: "string option"
  rm_path :: "string option"
  rm_name :: "string option"
  rm_branch :: "string option"
  rm_commit :: "string option option"
  rm_head :: "string option"
  rm_dirty :: bool
  rm_capabilities :: "string list"

record source_snapshot =
  sn_id :: "string option"
  sn_path :: "string option"
  sn_name :: "string option"
  sn_branch :: "string option"
  sn_commit :: "string option"
  sn_dirty :: bool
  sn_capabilities :: "string list"

definition given :: "string option \<Rightarrow> bool" where
  "given s \<longleftrightarrow> (case s of None \<Rightarrow> False | Some t \<Rightarrow> t \<noteq> [])"

definition text_or_empty :: "string option \<Rightarrow> string" where
  "text_or_empty s = (case s of None \<Rightarrow> [] | Some t \<Rightarrow> t)"

definition snapshot_of :: "repository_map option \<Rightarrow> source_snapshot" where
  "snapshot_of src = (case src of
     None \<Rightarrow> \<lparr>sn_id = None, sn_path = None, sn_name = None, sn_branch = None, sn_commit = None, sn_dirty = False, sn_capabilities = []\<rparr>
   | Some r \<Rightarrow> \<lparr>sn_id = rm_id r, sn_path = rm_path r, sn_name = rm_name r, sn_branch = rm_branch r,
       sn_commit = (case rm_commit r of None \<Rightarrow> rm_head r | Some c \<Rightarrow> c), sn_dirty = rm_dirty r, sn_capabilities = rm_capabilities r\<rparr>)"

definition opt_json :: "string option \<Rightarrow> json" where
  "opt_json s = (case s of None \<Rightarrow> JNull | Some t \<Rightarrow> JStr t)"

definition snapshot_dict :: "source_snapshot \<Rightarrow> dict" where
  "snapshot_dict s = [(''repository_id'', opt_json (sn_id s)), (''canonical_path'', opt_json (sn_path s)), (''name'', opt_json (sn_name s)),
     (''branch'', opt_json (sn_branch s)), (''commit'', opt_json (sn_commit s)), (''dirty'', JBool (sn_dirty s)),
     (''capabilities'', JList (map JStr (sn_capabilities s)))]"

text \<open>\<open>_snapshot_changed\<close>: some of identity, branch and commit is known on both sides and differs.\<close>

definition differs :: "string option \<Rightarrow> string option \<Rightarrow> bool" where
  "differs a b \<longleftrightarrow> a \<noteq> b \<and> a \<noteq> None \<and> b \<noteq> None"

definition snapshot_changed :: "string option \<times> string option \<times> string option \<Rightarrow> source_snapshot \<Rightarrow> bool" where
  "snapshot_changed l s = (case l of (i, b, c) \<Rightarrow> differs i (sn_id s) \<or> differs b (sn_branch s) \<or> differs c (sn_commit s))"

section \<open>Tables\<close>

datatype kernel_state = Queued | Running | Waiting_Approval | Plan_Only | Verified | Quota_Paused | Budget_Exceeded | Failed | Rejected

fun kernel_state_name :: "kernel_state \<Rightarrow> string" where
  "kernel_state_name Queued = ''queued''"
| "kernel_state_name Running = ''running''"
| "kernel_state_name Waiting_Approval = ''waiting_approval''"
| "kernel_state_name Plan_Only = ''plan_only''"
| "kernel_state_name Verified = ''verified''"
| "kernel_state_name Quota_Paused = ''quota_paused''"
| "kernel_state_name Budget_Exceeded = ''budget_exceeded''"
| "kernel_state_name Failed = ''failed''"
| "kernel_state_name Rejected = ''rejected''"

text \<open>\<open>_ALLOWED\<close>\<close>

fun kernel_allowed :: "kernel_state \<Rightarrow> kernel_state list" where
  "kernel_allowed Queued = [Running, Failed, Rejected]"
| "kernel_allowed Running = [Waiting_Approval, Plan_Only, Verified, Quota_Paused, Budget_Exceeded, Failed, Rejected]"
| "kernel_allowed Waiting_Approval = [Running, Rejected, Failed]"
| "kernel_allowed _ = []"

record product_run =
  kr_id :: string
  kr_tenant :: string
  kr_key :: string
  kr_hash :: string
  kr_mode :: string
  kr_state :: kernel_state
  kr_seq :: int
  kr_error :: "string option"
  kr_approval :: "string option"
  kr_result :: cell
  kr_created :: string
  kr_updated :: string
  kr_proposal :: "string option"
  kr_repository :: "string option"
  kr_branch :: "string option"
  kr_commit :: "string option"
  kr_dirty :: bool
  kr_trace :: "string option"

record product_event =
  kv_id :: string
  kv_run :: string
  kv_tenant :: string
  kv_seq :: int
  kv_event :: string
  kv_payload :: cell
  kv_created :: string

record graph_checkpoint =
  gk_run :: string
  gk_tenant :: string
  gk_node :: string
  gk_state :: cell
  gk_updated :: string

record usage_row =
  ku_run :: string
  ku_call :: string
  ku_payload :: cell

record approval_row =
  ka_id :: string
  ka_run :: string
  ka_tenant :: string
  ka_scopes :: "string list"
  ka_issued :: string
  ka_expires :: string
  ka_consumed :: bool
  ka_proposal :: "string option"
  ka_repository :: "string option"
  ka_branch :: "string option"
  ka_commit :: "string option"
  ka_plan :: "string option"

record report_row =
  rr_run :: string
  rr_tenant :: string
  rr_report :: cell
  rr_created :: string

record repository_row =
  ry_tenant :: string
  ry_id :: string
  ry_root :: "string option"
  ry_path :: string
  ry_name :: string
  ry_branch :: string
  ry_commit :: string
  ry_dirty :: bool
  ry_capabilities :: cell
  ry_created :: string
  ry_updated :: string

record proposal_row =
  pp_id :: string
  pp_tenant :: string
  pp_repository :: string
  pp_branch :: string
  pp_commit :: string
  pp_dirty :: bool
  pp_key :: string
  pp_hash :: string
  pp_text :: string
  pp_digest :: string
  pp_state :: string
  pp_stale :: bool
  pp_stale_reason :: "string option"
  pp_latest :: "string option"
  pp_created :: string
  pp_updated :: string

record proposal_run_row =
  px_run :: string
  px_proposal :: string
  px_tenant :: string
  px_repository :: string
  px_branch :: string
  px_commit :: string
  px_key :: string
  px_requirements :: cell
  px_plan :: "cell option"
  px_created :: string
  px_updated :: string

record evidence_row =
  ek_id :: string
  ek_run :: string
  ek_proposal :: string
  ek_tenant :: string
  ek_requirement :: string
  ek_path :: string
  ek_start :: int
  ek_end :: int
  ek_hash :: string
  ek_symbol :: "string option"
  ek_authorized :: bool
  ek_valid :: bool
  ek_stale :: bool
  ek_stale_reason :: "string option"
  ek_commit :: string

record plan_row =
  pn_id :: string
  pn_run :: string
  pn_proposal :: string
  pn_tenant :: string
  pn_plan :: cell
  pn_digest :: string
  pn_created :: string

record proposal_approval_row =
  pa_id :: string
  pa_run :: string
  pa_proposal :: string
  pa_tenant :: string
  pa_repository :: string
  pa_branch :: string
  pa_commit :: string
  pa_plan :: string
  pa_scopes :: "string list"
  pa_status :: string
  pa_created :: string
  pa_updated :: string

record verification_row =
  vr_run :: string
  vr_proposal :: string
  vr_tenant :: string
  vr_report :: cell
  vr_status :: string
  vr_stale :: bool
  vr_created :: string
  vr_updated :: string

record artifact_row =
  af_id :: string
  af_run :: string
  af_proposal :: string
  af_tenant :: string
  af_kind :: string
  af_path :: "string option"
  af_digest :: string
  af_metadata :: cell
  af_created :: string

record trace_row =
  tr_run :: string
  tr_proposal :: string
  tr_tenant :: string
  tr_trace :: "string option"
  tr_provider :: string
  tr_project :: "string option"
  tr_url :: "string option"
  tr_status :: string
  tr_created :: string
  tr_updated :: string

record kernel_db =
  k_runs :: "product_run list"
  k_events :: "product_event list"
  k_checkpoints :: "graph_checkpoint list"
  k_usage :: "usage_row list"
  k_approvals :: "approval_row list"
  k_reports :: "report_row list"
  k_repositories :: "repository_row list"
  k_proposals :: "proposal_row list"
  k_proposal_runs :: "proposal_run_row list"
  k_evidence :: "evidence_row list"
  k_plans :: "plan_row list"
  k_proposal_approvals :: "proposal_approval_row list"
  k_verifications :: "verification_row list"
  k_artifacts :: "artifact_row list"
  k_traces :: "trace_row list"

definition empty_kernel :: kernel_db where
  "empty_kernel = \<lparr>k_runs = [], k_events = [], k_checkpoints = [], k_usage = [], k_approvals = [], k_reports = [], k_repositories = [],
     k_proposals = [], k_proposal_runs = [], k_evidence = [], k_plans = [], k_proposal_approvals = [], k_verifications = [],
     k_artifacts = [], k_traces = []\<rparr>"

text \<open>\<open>INSERT OR REPLACE\<close>: the rows with the same key are deleted, the new one is appended.\<close>

definition replace_row :: "('r \<Rightarrow> 'k) \<Rightarrow> 'r \<Rightarrow> 'r list \<Rightarrow> 'r list" where
  "replace_row key r t = filter (\<lambda>q. key q \<noteq> key r) t @ [r]"

section \<open>The run ledger\<close>

record lifecycle_view =
  lv_id :: string
  lv_tenant :: string
  lv_key :: string
  lv_state :: kernel_state
  lv_mode :: string
  lv_seq :: int
  lv_error :: "string option"
  lv_approval :: "string option"
  lv_result :: dict
  lv_proposal :: "string option"
  lv_repository :: "string option"
  lv_branch :: "string option"
  lv_commit :: "string option"
  lv_trace :: "string option"

text \<open>\<open>_run\<close>\<close>

definition to_lifecycle :: "product_run \<Rightarrow> exn + lifecycle_view" where
  "to_lifecycle r = (case load_dict (kr_result r) of Inl e \<Rightarrow> Inl e | Inr d \<Rightarrow>
     Inr \<lparr>lv_id = kr_id r, lv_tenant = kr_tenant r, lv_key = kr_key r, lv_state = kr_state r, lv_mode = kr_mode r, lv_seq = kr_seq r,
       lv_error = kr_error r, lv_approval = kr_approval r, lv_result = d, lv_proposal = kr_proposal r, lv_repository = kr_repository r,
       lv_branch = kr_branch r, lv_commit = kr_commit r, lv_trace = kr_trace r\<rparr>)"

definition find_product_run :: "string \<Rightarrow> kernel_db \<Rightarrow> product_run option" where
  "find_product_run rid db = find (\<lambda>r. kr_id r = rid) (k_runs db)"

definition owned_row :: "string \<Rightarrow> string \<Rightarrow> kernel_db \<Rightarrow> exn + product_run" where
  "owned_row rid t db = (case find_product_run rid db of
     None \<Rightarrow> Inl (TenantScopeError ''run is not visible to this tenant'')
   | Some r \<Rightarrow> if kr_tenant r \<noteq> t then Inl (TenantScopeError ''run is not visible to this tenant'') else Inr r)"

definition owned_proposal :: "string \<Rightarrow> string \<Rightarrow> kernel_db \<Rightarrow> exn + proposal_row" where
  "owned_proposal pid t db = (case find (\<lambda>p. pp_id p = pid) (k_proposals db) of
     None \<Rightarrow> Inl (TenantScopeError ''proposal is not visible to this tenant'')
   | Some p \<Rightarrow> if pp_tenant p \<noteq> t then Inl (TenantScopeError ''proposal is not visible to this tenant'') else Inr p)"

definition tenant_for_run :: "string \<Rightarrow> kernel_db \<Rightarrow> exn + string" where
  "tenant_for_run rid db = (case find_product_run rid db of None \<Rightarrow> Inl (TenantScopeError ''run is not visible'') | Some r \<Rightarrow> Inr (kr_tenant r))"

text \<open>\<open>_append_event_locked\<close>: the primary key is a new uuid, \<open>UNIQUE(run_id, sequence)\<close> may refuse the row.\<close>

definition append_product_event :: "kernel_env \<Rightarrow> string \<Rightarrow> string \<Rightarrow> string \<Rightarrow> int \<Rightarrow> string \<Rightarrow> dict \<Rightarrow> string \<Rightarrow> kernel_db \<Rightarrow> exn + kernel_db" where
  "append_product_event env uid rid t n event payload now db =
     (if \<exists>e\<in>set (k_events db). kv_id e = ''event-'' @ uid \<or> (kv_run e = rid \<and> kv_seq e = n)
      then Inl (IntegrityError ''product_events'')
      else Inr (db\<lparr>k_events := k_events db @ [\<lparr>kv_id = ''event-'' @ uid, kv_run = rid, kv_tenant = t, kv_seq = n, kv_event = event,
        kv_payload = safe_json (ke_float env) (JObj payload), kv_created = now\<rparr>]\<rparr>))"

record run_request =
  rq_run :: string
  rq_tenant :: string
  rq_key :: string
  rq_mode :: string
  rq_payload :: dict
  rq_proposal :: "string option"
  rq_repository :: "repository_map option"
  rq_trace :: "string option"

definition request_hash :: "kernel_env \<Rightarrow> dict \<Rightarrow> string" where
  "request_hash env d = ke_sha env (cell_text (safe_json (ke_float env) (JObj d)))"

definition run_request_hash :: "kernel_env \<Rightarrow> run_request \<Rightarrow> string" where
  "run_request_hash env q = request_hash env (AList.update ''repository_snapshot'' (JObj (snapshot_dict (snapshot_of (rq_repository q)))) (rq_payload q))"

text \<open>The link of a new run to its proposal; \<open>proposal_runs.repository_id\<close> is \<open>NOT NULL\<close>.\<close>

definition link_proposal_run :: "run_request \<Rightarrow> source_snapshot \<Rightarrow> string \<Rightarrow> kernel_db \<Rightarrow> exn + kernel_db" where
  "link_proposal_run q sn now db =
     (if \<not> given (rq_proposal q) then Inr db
      else case sn_id sn of None \<Rightarrow> Inl (IntegrityError ''proposal_runs.repository_id'') | Some repo \<Rightarrow>
        let pid = text_or_empty (rq_proposal q) in
        Inr (db\<lparr>k_proposal_runs := replace_row px_run \<lparr>px_run = rq_run q, px_proposal = pid, px_tenant = rq_tenant q, px_repository = repo,
             px_branch = text_or_empty (sn_branch sn), px_commit = text_or_empty (sn_commit sn), px_key = rq_key q,
             px_requirements = \<lparr>cell_text = ''[]'', cell_value = Some (JList [])\<rparr>, px_plan = None, px_created = now, px_updated = now\<rparr>
             (k_proposal_runs db),
           k_proposals := update_where (\<lambda>p. pp_id p = pid \<and> pp_tenant p = rq_tenant q)
             (\<lambda>p. p\<lparr>pp_latest := Some (rq_run q), pp_updated := now\<rparr>) (k_proposals db)\<rparr>))"

definition check_proposal :: "run_request \<Rightarrow> kernel_db \<Rightarrow> exn + unit" where
  "check_proposal q db =
     (let sn = snapshot_of (rq_repository q) in
      if given (rq_proposal q)
      then (case owned_proposal (text_or_empty (rq_proposal q)) (rq_tenant q) db of Inl e \<Rightarrow> Inl e | Inr p \<Rightarrow>
        if given (sn_id sn) \<and> sn_id sn \<noteq> Some (pp_repository p)
        then Inl (TenantScopeError ''proposal repository does not match the requested repository'') else Inr ())
      else Inr ())"

definition create_product_run :: "kernel_env \<Rightarrow> run_request \<Rightarrow> string \<Rightarrow> string \<Rightarrow> kernel_db \<Rightarrow> exn + (lifecycle_view \<times> kernel_db)" where
  "create_product_run env q uid now db =
     (let sn = snapshot_of (rq_repository q) in
      case check_proposal q db of
        Inl e \<Rightarrow> Inl e
      | Inr _ \<Rightarrow>
          (case find (\<lambda>r. kr_tenant r = rq_tenant q \<and> kr_key r = rq_key q) (k_runs db) of
             Some r \<Rightarrow> (if kr_hash r \<noteq> run_request_hash env q
                        then Inl (IdempotencyConflict ''idempotency key was reused with different input'')
                        else map_sum id (\<lambda>v. (v, db)) (to_lifecycle r))
           | None \<Rightarrow>
               (if find_product_run (rq_run q) db \<noteq> None then Inl (IntegrityError ''product_runs.run_id'')
                else let row = \<lparr>kr_id = rq_run q, kr_tenant = rq_tenant q, kr_key = rq_key q, kr_hash = run_request_hash env q,
                       kr_mode = rq_mode q, kr_state = Queued, kr_seq = 1, kr_error = None, kr_approval = None,
                       kr_result = \<lparr>cell_text = ''{}'', cell_value = Some (JObj [])\<rparr>, kr_created = now, kr_updated = now,
                       kr_proposal = rq_proposal q, kr_repository = sn_id sn, kr_branch = sn_branch sn, kr_commit = sn_commit sn,
                       kr_dirty = sn_dirty sn, kr_trace = rq_trace q\<rparr>
                     in case append_product_event env uid (rq_run q) (rq_tenant q) 1 ''run.queued''
                          (dict_merge [(''mode'', JStr (rq_mode q))] (snapshot_dict sn)) now (db\<lparr>k_runs := k_runs db @ [row]\<rparr>) of
                       Inl e \<Rightarrow> Inl e
                     | Inr db1 \<Rightarrow> (case link_proposal_run q sn now db1 of Inl e \<Rightarrow> Inl e | Inr db2 \<Rightarrow>
                         case find_product_run (rq_run q) db2 of None \<Rightarrow> Inl (TypeError ''row is None'')
                         | Some r \<Rightarrow> map_sum id (\<lambda>v. (v, db2)) (to_lifecycle r)))))"

definition get_product_run :: "string \<Rightarrow> string \<Rightarrow> kernel_db \<Rightarrow> exn + lifecycle_view" where
  "get_product_run rid t db = (case owned_row rid t db of Inl e \<Rightarrow> Inl e | Inr r \<Rightarrow> to_lifecycle r)"

definition kernel_transition :: "kernel_env \<Rightarrow> string \<Rightarrow> string \<Rightarrow> kernel_state \<Rightarrow> dict \<Rightarrow> string option \<Rightarrow> string \<Rightarrow> string \<Rightarrow> kernel_db \<Rightarrow>
    exn + (lifecycle_view \<times> kernel_db)" where
  "kernel_transition env rid t st payload err uid now db =
     (case owned_row rid t db of Inl e \<Rightarrow> Inl e | Inr row \<Rightarrow>
      if st \<notin> set (kernel_allowed (kr_state row))
      then Inl (ValueError (kernel_state_name (kr_state row) @ '' -> '' @ kernel_state_name st @ '' is not allowed''))
      else let n = kr_seq row + 1; safe = redact_dict payload in
        case append_product_event env uid rid t n ''run.state_changed''
            (dict_merge [(''state'', JStr (kernel_state_name st))] safe) now db of
          Inl e \<Rightarrow> Inl e
        | Inr db1 \<Rightarrow>
            (case load_dict (kr_result row) of Inl e \<Rightarrow> Inl e | Inr old \<Rightarrow>
             let approval = (case jget payload ''approval_id'' of JStr a \<Rightarrow> Some a | _ \<Rightarrow> kr_approval row);
                 db2 = db1\<lparr>k_runs := update_where (\<lambda>r. kr_id r = rid)
                   (\<lambda>r. r\<lparr>kr_state := st, kr_seq := n, kr_error := err, kr_approval := approval,
                      kr_result := safe_json (ke_float env) (JObj (dict_merge old safe)), kr_updated := now\<rparr>) (k_runs db1)\<rparr>;
                 db3 = (if given (kr_proposal row) then db2\<lparr>k_proposals := update_where
                     (\<lambda>p. Some (pp_id p) = kr_proposal row \<and> pp_tenant p = t)
                     (\<lambda>p. p\<lparr>pp_state := kernel_state_name st, pp_updated := now\<rparr>) (k_proposals db2)\<rparr> else db2)
             in case find_product_run rid db3 of None \<Rightarrow> Inl (TypeError ''row is None'')
                | Some r \<Rightarrow> map_sum id (\<lambda>v. (v, db3)) (to_lifecycle r)))"

definition append_kernel_event :: "kernel_env \<Rightarrow> string \<Rightarrow> string \<Rightarrow> string \<Rightarrow> dict \<Rightarrow> string \<Rightarrow> string \<Rightarrow> kernel_db \<Rightarrow> exn + (unit \<times> kernel_db)" where
  "append_kernel_event env rid t event payload uid now db =
     (case owned_row rid t db of Inl e \<Rightarrow> Inl e | Inr row \<Rightarrow>
      case append_product_event env uid rid t (kr_seq row + 1) event payload now db of Inl e \<Rightarrow> Inl e | Inr db1 \<Rightarrow>
        Inr ((), db1\<lparr>k_runs := update_where (\<lambda>r. kr_id r = rid) (\<lambda>r. r\<lparr>kr_seq := kr_seq row + 1, kr_updated := now\<rparr>) (k_runs db1)\<rparr>))"

text \<open>\<open>json.loads\<close> of every payload raises on the first that was cut.\<close>

fun load_payloads :: "product_event list \<Rightarrow> exn + (string \<times> int \<times> string \<times> json) list" where
  "load_payloads [] = Inr []"
| "load_payloads (e # es) = (case load_json (kv_payload e) of Inl x \<Rightarrow> Inl x | Inr v \<Rightarrow>
     case load_payloads es of Inl x \<Rightarrow> Inl x | Inr vs \<Rightarrow> Inr ((kv_id e, kv_seq e, kv_event e, v) # vs))"

definition events_of :: "kernel_db \<Rightarrow> string \<Rightarrow> product_event list" where
  "events_of db rid = filter (\<lambda>e. kv_run e = rid) (k_events db)"

text \<open>\<open>events\<close>: the rows of a run are inserted in the order of their sequence numbers.\<close>

definition kernel_events :: "string \<Rightarrow> string \<Rightarrow> kernel_db \<Rightarrow> exn + (string \<times> int \<times> string \<times> json) list" where
  "kernel_events rid t db = (case get_product_run rid t db of Inl e \<Rightarrow> Inl e | Inr _ \<Rightarrow> load_payloads (events_of db rid))"

definition save_graph_checkpoint :: "kernel_env \<Rightarrow> string \<Rightarrow> string \<Rightarrow> string \<Rightarrow> dict \<Rightarrow> string \<Rightarrow> kernel_db \<Rightarrow> exn + (unit \<times> kernel_db)" where
  "save_graph_checkpoint env rid t node st now db =
     (case owned_row rid t db of Inl e \<Rightarrow> Inl e | Inr _ \<Rightarrow>
        let c = safe_json (ke_float env) (redact_json (JObj st)) in
        Inr ((), db\<lparr>k_checkpoints := (if \<exists>k\<in>set (k_checkpoints db). gk_run k = rid
          then update_where (\<lambda>k. gk_run k = rid) (\<lambda>k. k\<lparr>gk_node := node, gk_state := c, gk_updated := now\<rparr>) (k_checkpoints db)
          else k_checkpoints db @ [\<lparr>gk_run = rid, gk_tenant = t, gk_node = node, gk_state = c, gk_updated = now\<rparr>])\<rparr>))"

definition graph_checkpoint_of :: "string \<Rightarrow> string \<Rightarrow> kernel_db \<Rightarrow> exn + (string \<times> json) option" where
  "graph_checkpoint_of rid t db = (case get_product_run rid t db of Inl e \<Rightarrow> Inl e | Inr _ \<Rightarrow>
     case find (\<lambda>k. gk_run k = rid) (k_checkpoints db) of None \<Rightarrow> Inr None
     | Some k \<Rightarrow> (case load_json (gk_state k) of Inl e \<Rightarrow> Inl e | Inr v \<Rightarrow> Inr (Some (gk_node k, v))))"

record usage =
  us_run :: string
  us_call :: string
  us_phase :: string
  us_input :: int
  us_output :: int
  us_total :: int
  us_estimated :: bool
  us_cached :: bool
  us_expansion :: int
  us_decision :: string
  us_retry :: bool

definition usage_dict :: "usage \<Rightarrow> dict" where
  "usage_dict u = [(''run_id'', JStr (us_run u)), (''call_id'', JStr (us_call u)), (''phase'', JStr (us_phase u)),
     (''input_tokens'', JInt (us_input u)), (''output_tokens'', JInt (us_output u)), (''total_tokens'', JInt (us_total u)),
     (''estimated'', JBool (us_estimated u)), (''cache_hit'', JBool (us_cached u)), (''retrieval_expansion'', JInt (us_expansion u)),
     (''budget_decision'', JStr (us_decision u)), (''retry'', JBool (us_retry u))]"

definition record_usage :: "kernel_env \<Rightarrow> usage \<Rightarrow> string option \<Rightarrow> kernel_db \<Rightarrow> exn + (unit \<times> kernel_db)" where
  "record_usage env u t db =
     (case (if given t then Inr (text_or_empty t) else tenant_for_run (us_run u) db) of Inl e \<Rightarrow> Inl e | Inr tenant \<Rightarrow>
      case owned_row (us_run u) tenant db of Inl e \<Rightarrow> Inl e | Inr _ \<Rightarrow>
        let c = safe_json (ke_float env) (JObj (usage_dict u)) in
        case find (\<lambda>x. ku_run x = us_run u \<and> ku_call x = us_call u) (k_usage db) of
          None \<Rightarrow> Inr ((), db\<lparr>k_usage := k_usage db @ [\<lparr>ku_run = us_run u, ku_call = us_call u, ku_payload = c\<rparr>]\<rparr>)
        | Some x \<Rightarrow> (if cell_text (ku_payload x) \<noteq> cell_text c
            then Inl (IdempotencyConflict ''usage call id was reused with different usage'') else Inr ((), db)))"

section \<open>Approvals\<close>

record approval_token =
  at_id :: string
  at_run :: string
  at_tenant :: string
  at_scopes :: "string list"
  at_issued :: string
  at_expires :: string
  at_consumed :: bool
  at_repository :: "string option"
  at_branch :: "string option"
  at_commit :: "string option"
  at_plan :: "string option"
  at_proposal :: "string option"

definition to_token :: "approval_row \<Rightarrow> approval_token" where
  "to_token a = \<lparr>at_id = ka_id a, at_run = ka_run a, at_tenant = ka_tenant a, at_scopes = ka_scopes a, at_issued = ka_issued a,
     at_expires = ka_expires a, at_consumed = ka_consumed a, at_repository = ka_repository a, at_branch = ka_branch a,
     at_commit = ka_commit a, at_plan = ka_plan a, at_proposal = ka_proposal a\<rparr>"

definition issue_approval :: "string \<Rightarrow> string \<Rightarrow> string list \<Rightarrow> string \<Rightarrow> string option \<Rightarrow> string \<Rightarrow> string \<Rightarrow> kernel_db \<Rightarrow>
    (exn + approval_token) \<times> kernel_db" where
  "issue_approval rid t scopes expires plan uid now db =
     (case owned_row rid t db of Inl e \<Rightarrow> (Inl e, db) | Inr row \<Rightarrow>
        let bound = (if given plan then plan
              else map_option pn_digest (find (\<lambda>p. pn_run p = rid \<and> pn_tenant p = t) (k_plans db)));
            tid = ''approval-'' @ uid;
            a = \<lparr>ka_id = tid, ka_run = rid, ka_tenant = t, ka_scopes = scopes, ka_issued = now, ka_expires = expires, ka_consumed = False,
              ka_proposal = kr_proposal row, ka_repository = kr_repository row, ka_branch = kr_branch row, ka_commit = kr_commit row,
              ka_plan = bound\<rparr>
        in if given (kr_repository row) \<and> \<not> given bound
           then (Inl (InvalidApproval ''local repository approvals must bind a plan digest''), db)
           else if \<exists>x\<in>set (k_approvals db). ka_id x = tid then (Inl (IntegrityError ''approvals.token_id''), db)
           else let db1 = db\<lparr>k_approvals := k_approvals db @ [a]\<rparr> in
             if \<not> given (kr_proposal row) then (Inr (to_token a), db1)
             else (case (kr_repository row, kr_branch row, kr_commit row) of
                     (Some r, Some b, Some c) \<Rightarrow>
                       (if \<exists>x\<in>set (k_proposal_approvals db1). pa_id x = tid then (Inl (IntegrityError ''proposal_approvals.token_id''), db1)
                        else (Inr (to_token a), db1\<lparr>k_proposal_approvals := k_proposal_approvals db1 @ [\<lparr>pa_id = tid, pa_run = rid,
                          pa_proposal = text_or_empty (kr_proposal row), pa_tenant = t, pa_repository = r, pa_branch = b, pa_commit = c,
                          pa_plan = text_or_empty bound, pa_scopes = scopes, pa_status = ''issued'', pa_created = now, pa_updated = now\<rparr>]\<rparr>))
                   | _ \<Rightarrow> (Inl (IntegrityError ''proposal_approvals''), db1)))"

text \<open>The approval issued last; rows are inserted in the order they are issued.\<close>

definition approval_for_run :: "string \<Rightarrow> string \<Rightarrow> kernel_db \<Rightarrow> exn + approval_token option" where
  "approval_for_run rid t db = (case owned_row rid t db of Inl e \<Rightarrow> Inl e | Inr _ \<Rightarrow>
     Inr (map_option to_token (find (\<lambda>a. ka_run a = rid \<and> ka_tenant a = t) (rev (k_approvals db)))))"

text \<open>The guards of \<open>consume_approval\<close> in their order; \<open>now_instant\<close> is the current instant.\<close>

definition approval_error :: "kernel_env \<Rightarrow> string \<Rightarrow> string \<Rightarrow> string \<Rightarrow> repository_map option \<Rightarrow> string option \<Rightarrow> int \<Rightarrow> approval_row \<Rightarrow> exn option" where
  "approval_error env rid t scope repo plan now_instant a =
     (if ka_run a \<noteq> rid \<or> ka_tenant a \<noteq> t \<or> ka_consumed a then Some (InvalidApproval ''approval token is invalid or already consumed'')
      else if scope \<notin> set (ka_scopes a) then Some (InvalidApproval ''approval token does not grant the requested scope'')
      else case ke_instant env (ka_expires a) of None \<Rightarrow> Some (ValueError ''Invalid isoformat string'') | Some i \<Rightarrow>
        if i \<le> now_instant then Some (InvalidApproval ''approval token is expired'')
        else if given (ka_repository a) \<and> repo = None then Some (InvalidApproval ''approval repository binding is required'')
        else if given (ka_repository a) \<and> (snapshot_changed (ka_repository a, ka_branch a, ka_commit a) (snapshot_of repo)
            \<or> \<not> given (ka_repository a) \<or> \<not> given (ka_branch a) \<or> \<not> given (ka_commit a))
        then Some (InvalidApproval ''approval is stale for the current repository commit'')
        else if given (ka_plan a) \<and> (\<not> given plan \<or> plan \<noteq> ka_plan a) then Some (InvalidApproval ''approval is bound to a different plan'')
        else if given plan \<and> \<not> given (ka_plan a) then Some (InvalidApproval ''approval is missing its plan binding'')
        else None)"

definition consume_approval :: "kernel_env \<Rightarrow> string \<Rightarrow> string \<Rightarrow> string \<Rightarrow> string \<Rightarrow> repository_map option \<Rightarrow> string option \<Rightarrow> int \<Rightarrow> string \<Rightarrow>
    kernel_db \<Rightarrow> exn + (approval_token \<times> kernel_db)" where
  "consume_approval env tid rid t scope repo plan now_instant now db =
     (case find (\<lambda>a. ka_id a = tid) (k_approvals db) of
        None \<Rightarrow> Inl (InvalidApproval ''approval token is invalid or already consumed'')
      | Some a \<Rightarrow> (case approval_error env rid t scope repo plan now_instant a of Some e \<Rightarrow> Inl e | None \<Rightarrow>
          Inr (to_token (a\<lparr>ka_consumed := True\<rparr>), db\<lparr>k_approvals := update_where (\<lambda>x. ka_id x = tid) (\<lambda>x. x\<lparr>ka_consumed := True\<rparr>) (k_approvals db),
            k_proposal_approvals := update_where (\<lambda>x. pa_id x = tid \<and> pa_tenant x = t)
              (\<lambda>x. x\<lparr>pa_status := ''consumed'', pa_updated := now\<rparr>) (k_proposal_approvals db)\<rparr>)))"

section \<open>Repositories and proposals\<close>

definition repository_view :: "repository_row \<Rightarrow> exn + repository_row \<times> json list" where
  "repository_view r = (case load_json (ry_capabilities r) of Inl e \<Rightarrow> Inl e | Inr (JList l) \<Rightarrow> Inr (r, l) | Inr _ \<Rightarrow> Inl (TypeError ''tuple''))"

definition get_repository :: "string \<Rightarrow> string \<Rightarrow> kernel_db \<Rightarrow> exn + repository_row \<times> json list" where
  "get_repository t i db = (case find (\<lambda>r. ry_tenant r = t \<and> ry_id r = i) (k_repositories db) of
     None \<Rightarrow> Inl (TenantScopeError ''repository is not visible to this tenant'') | Some r \<Rightarrow> repository_view r)"

definition put_repository :: "kernel_env \<Rightarrow> string \<Rightarrow> string \<Rightarrow> repository_map \<Rightarrow> string \<Rightarrow> repository_row list \<Rightarrow> repository_row list" where
  "put_repository env t i m now rows =
     (let sn = snapshot_of (Some m);
          c = safe_json (ke_float env) (JList (map JStr (sn_capabilities sn)));
          fill = (\<lambda>r. r\<lparr>ry_root := rm_root m, ry_path := text_or_empty (sn_path sn), ry_name := text_or_empty (sn_name sn),
             ry_branch := text_or_empty (sn_branch sn), ry_commit := text_or_empty (sn_commit sn), ry_dirty := sn_dirty sn,
             ry_capabilities := c, ry_updated := now\<rparr>)
      in if \<exists>r\<in>set rows. ry_tenant r = t \<and> ry_id r = i
         then update_where (\<lambda>r. ry_tenant r = t \<and> ry_id r = i) fill rows
         else rows @ [fill \<lparr>ry_tenant = t, ry_id = i, ry_root = None, ry_path = [], ry_name = [], ry_branch = [], ry_commit = [],
           ry_dirty = False, ry_capabilities = c, ry_created = now, ry_updated = now\<rparr>])"

definition register_repository :: "kernel_env \<Rightarrow> string \<Rightarrow> repository_map \<Rightarrow> string \<Rightarrow> kernel_db \<Rightarrow>
    (exn + repository_row \<times> json list) \<times> kernel_db" where
  "register_repository env t m now db =
     (if \<not> given (rm_id m) then (Inl (ValueError ''repository_id is required''), db)
      else let i = text_or_empty (rm_id m); db1 = db\<lparr>k_repositories := put_repository env t i m now (k_repositories db)\<rparr> in
        (get_repository t i db1, db1))"

definition max_proposal_chars :: int where
  "max_proposal_chars = 32000"

definition safe_proposal :: "string \<Rightarrow> string" where
  "safe_proposal s = bounded_text max_proposal_chars (kernel_redact_text s)"

definition proposal_hash :: "kernel_env \<Rightarrow> string \<Rightarrow> string \<Rightarrow> repository_map \<Rightarrow> string" where
  "proposal_hash env text mode m = request_hash env [(''proposal'', JStr (safe_proposal text)), (''mode'', JStr mode),
     (''repository'', JObj (snapshot_dict (snapshot_of (Some m))))]"

definition create_proposal :: "kernel_env \<Rightarrow> string \<Rightarrow> repository_map \<Rightarrow> string \<Rightarrow> string \<Rightarrow> string \<Rightarrow> string \<Rightarrow> string \<Rightarrow> kernel_db \<Rightarrow>
    (exn + proposal_row) \<times> kernel_db" where
  "create_proposal env t m text mode key uid now db =
     (if blank text then (Inl (ValueError ''proposal must be non-empty''), db)
      else if blank key then (Inl (ValueError ''idempotency_key must be non-empty''), db)
      else let sn = snapshot_of (Some m); i = text_or_empty (sn_id sn); b = text_or_empty (sn_branch sn); c = text_or_empty (sn_commit sn);
          pid = ''proposal-'' @ uid in
        if i = [] \<or> b = [] \<or> c = [] then (Inl (ValueError ''repository snapshot is incomplete''), db)
        else and_then (register_repository env t m now db)
          (\<lambda>_ db. case find (\<lambda>p. pp_tenant p = t \<and> pp_repository p = i \<and> pp_key p = key) (k_proposals db) of
             Some p \<Rightarrow> (if pp_hash p \<noteq> proposal_hash env text mode m
               then Inl (IdempotencyConflict ''idempotency key was reused with different input'') else Inr p, db)
           | None \<Rightarrow>
               (if \<exists>p\<in>set (k_proposals db). pp_id p = pid then (Inl (IntegrityError ''proposals.proposal_id''), db)
                else let p = \<lparr>pp_id = pid, pp_tenant = t, pp_repository = i, pp_branch = b, pp_commit = c, pp_dirty = sn_dirty sn, pp_key = key,
                    pp_hash = proposal_hash env text mode m, pp_text = safe_proposal text, pp_digest = ke_sha env (safe_proposal text),
                    pp_state = ''created'', pp_stale = False, pp_stale_reason = None, pp_latest = None, pp_created = now, pp_updated = now\<rparr>
                  in (Inr p, db\<lparr>k_proposals := k_proposals db @ [p]\<rparr>))))"

definition proposal_input :: "string \<Rightarrow> string \<Rightarrow> kernel_db \<Rightarrow> exn + string" where
  "proposal_input pid t db = map_sum id pp_text (owned_proposal pid t db)"

text \<open>What a revalidation may be told about one piece of evidence.\<close>

record evidence_check =
  ec_id :: "string option"
  ec_path :: "string option"
  ec_hash :: "string option"
  ec_valid :: bool
  ec_authorized :: bool

definition changed_reason :: string where
  "changed_reason = ''repository commit or branch changed; re-analysis required''"

definition hash_reason :: string where
  "hash_reason = ''evidence hash no longer matches the repository''"

definition check_evidence :: "string \<Rightarrow> string \<Rightarrow> evidence_check \<Rightarrow> evidence_row list \<Rightarrow> evidence_row list" where
  "check_evidence rid t c rows =
     (if given (ec_id c) then update_where (\<lambda>e. Some (ek_id e) = ec_id c \<and> ek_tenant e = t)
        (\<lambda>e. e\<lparr>ek_stale := (\<not> ec_valid c \<or> \<not> ec_authorized c \<or> ec_hash c = None),
           ek_stale_reason := (if \<not> ec_valid c then Some hash_reason else None), ek_valid := ec_valid c, ek_authorized := ec_authorized c\<rparr>) rows
      else if given (ec_path c) then update_where (\<lambda>e. ek_run e = rid \<and> Some (ek_path e) = ec_path c \<and> ek_tenant e = t)
        (\<lambda>e. e\<lparr>ek_stale := True, ek_stale_reason := Some hash_reason\<rparr>) rows
      else rows)"

definition revalidate_proposal :: "kernel_env \<Rightarrow> string \<Rightarrow> string \<Rightarrow> repository_map \<Rightarrow> evidence_check list option \<Rightarrow> string \<Rightarrow> kernel_db \<Rightarrow>
    (exn + bool) \<times> kernel_db" where
  "revalidate_proposal env pid t m checks now db =
     (case owned_proposal pid t db of Inl e \<Rightarrow> (Inl e, db) | Inr p \<Rightarrow>
      let cur = snapshot_of (Some m) in
      if sn_id cur \<noteq> Some (pp_repository p) then (Inl (TenantScopeError ''repository identity mismatch''), db)
      else let changed = snapshot_changed (Some (pp_repository p), Some (pp_branch p), Some (pp_commit p)) cur;
          live = given (pp_latest p); rid = text_or_empty (pp_latest p);
          db1 = (if \<not> live then db
            else if changed then db\<lparr>
              k_evidence := update_where (\<lambda>e. ek_run e = rid \<and> ek_tenant e = t)
                (\<lambda>e. e\<lparr>ek_stale := True, ek_stale_reason := Some changed_reason\<rparr>) (k_evidence db),
              k_verifications := update_where (\<lambda>v. vr_run v = rid \<and> vr_tenant v = t) (\<lambda>v. v\<lparr>vr_stale := True, vr_updated := now\<rparr>) (k_verifications db)\<rparr>
            else db\<lparr>k_evidence := fold (check_evidence rid t) (case checks of None \<Rightarrow> [] | Some cs \<Rightarrow> cs) (k_evidence db)\<rparr>);
          stale = (live \<and> (changed \<or> (\<exists>e\<in>set (k_evidence db1). ek_run e = rid \<and> ek_tenant e = t \<and> ek_stale e)));
          db2 = db1\<lparr>k_proposals := update_where (\<lambda>q. pp_id q = pid \<and> pp_tenant q = t)
            (\<lambda>q. q\<lparr>pp_stale := stale, pp_stale_reason := (if changed then Some changed_reason else if stale then Some hash_reason else None),
               pp_state := (if stale then ''stale'' else pp_state q), pp_updated := now\<rparr>) (k_proposals db1)\<rparr>
        in if \<not> live then (Inr stale, db2)
           else case get_product_run rid t db2 of Inl e \<Rightarrow> (Inl e, db2) | Inr v \<Rightarrow>
             (Inr stale, if \<not> stale then db2 else db2\<lparr>k_runs := update_where (\<lambda>r. kr_id r = rid \<and> kr_tenant r = t)
               (\<lambda>r. r\<lparr>kr_result := safe_json (ke_float env) (JObj (dict_merge (lv_result v) [(''stale_evidence'', JBool True),
                    (''verification_blocked'', JBool True), (''stale_reason'', JStr (if changed then changed_reason else hash_reason))])),
                  kr_updated := now\<rparr>) (k_runs db2)\<rparr>))"

section \<open>Reports and outputs\<close>

text \<open>\<open>save_report\<close>; the payload is the dictionary the method builds from the report.\<close>

definition save_report :: "kernel_env \<Rightarrow> string \<Rightarrow> string \<Rightarrow> string \<Rightarrow> dict \<Rightarrow> bool \<Rightarrow> string \<Rightarrow> kernel_db \<Rightarrow> (exn + unit) \<times> kernel_db" where
  "save_report env rid t status payload stale now db =
     (case get_product_run rid t db of Inl e \<Rightarrow> (Inl e, db) | Inr _ \<Rightarrow>
        let c = safe_json (ke_float env) (JObj payload);
            db1 = db\<lparr>k_reports := replace_row rr_run \<lparr>rr_run = rid, rr_tenant = t, rr_report = c, rr_created = now\<rparr> (k_reports db)\<rparr>
        in (Inr (), case find (\<lambda>r. kr_id r = rid \<and> kr_tenant r = t) (k_runs db1) of None \<Rightarrow> db1
          | Some r \<Rightarrow> (if \<not> given (kr_proposal r) then db1
              else db1\<lparr>k_verifications := replace_row vr_run \<lparr>vr_run = rid, vr_proposal = text_or_empty (kr_proposal r), vr_tenant = t,
                vr_report = c, vr_status = status, vr_stale = stale,
                vr_created = (case find (\<lambda>v. vr_run v = rid) (k_verifications db1) of None \<Rightarrow> now | Some v \<Rightarrow> vr_created v),
                vr_updated = now\<rparr> (k_verifications db1)\<rparr>)))"

definition get_report :: "string \<Rightarrow> string \<Rightarrow> kernel_db \<Rightarrow> exn + json option" where
  "get_report rid t db = (case get_product_run rid t db of Inl e \<Rightarrow> Inl e | Inr _ \<Rightarrow>
     case find (\<lambda>r. rr_run r = rid) (k_reports db) of None \<Rightarrow> Inr None
     | Some r \<Rightarrow> (case load_json (rr_report r) of Inl e \<Rightarrow> Inl e | Inr v \<Rightarrow> Inr (Some v)))"

definition record_artifact :: "kernel_env \<Rightarrow> string \<Rightarrow> string \<Rightarrow> string \<Rightarrow> string \<Rightarrow> string \<Rightarrow> string option \<Rightarrow> dict \<Rightarrow> string \<Rightarrow> kernel_db \<Rightarrow>
    exn + (unit \<times> kernel_db)" where
  "record_artifact env aid rid t kind digest path meta now db =
     (case owned_row rid t db of Inl e \<Rightarrow> Inl e | Inr r \<Rightarrow>
        if \<not> given (kr_proposal r) then Inr ((), db)
        else Inr ((), db\<lparr>k_artifacts := replace_row af_id \<lparr>af_id = aid, af_run = rid, af_proposal = text_or_empty (kr_proposal r), af_tenant = t,
          af_kind = kind, af_path = path, af_digest = digest, af_metadata = safe_json (ke_float env) (JObj meta), af_created = now\<rparr>
          (k_artifacts db)\<rparr>))"

definition save_trace :: "string \<Rightarrow> string \<Rightarrow> string option \<Rightarrow> string \<Rightarrow> string option \<Rightarrow> string option \<Rightarrow> string \<Rightarrow> string \<Rightarrow> kernel_db \<Rightarrow>
    exn + (unit \<times> kernel_db)" where
  "save_trace rid t trace provider project url status now db =
     (case owned_row rid t db of Inl e \<Rightarrow> Inl e | Inr r \<Rightarrow>
        if \<not> given (kr_proposal r) then Inr ((), db)
        else Inr ((), db\<lparr>k_traces := replace_row tr_run \<lparr>tr_run = rid, tr_proposal = text_or_empty (kr_proposal r), tr_tenant = t, tr_trace = trace,
            tr_provider = provider, tr_project = project, tr_url = url, tr_status = status,
            tr_created = (case find (\<lambda>x. tr_run x = rid) (k_traces db) of None \<Rightarrow> now | Some x \<Rightarrow> tr_created x), tr_updated = now\<rparr> (k_traces db),
          k_runs := update_where (\<lambda>x. kr_id x = rid \<and> kr_tenant x = t) (\<lambda>x. x\<lparr>kr_trace := trace, kr_updated := now\<rparr>) (k_runs db)\<rparr>))"

record evidence_item =
  ei_requirement :: string
  ei_path :: string
  ei_start :: int
  ei_end :: int
  ei_hash :: string
  ei_symbol :: "string option"
  ei_authorized :: bool
  ei_valid :: bool

definition evidence_name :: "string \<Rightarrow> nat \<Rightarrow> string" where
  "evidence_name rid i = rid @ '':evidence:'' @ dec_nat i"

text \<open>The inserts one after the other; a primary key that is taken stops the loop.\<close>

fun insert_evidence :: "string \<Rightarrow> string \<Rightarrow> string \<Rightarrow> string \<Rightarrow> nat \<Rightarrow> evidence_item list \<Rightarrow> evidence_row list \<Rightarrow> (exn + unit) \<times> evidence_row list" where
  "insert_evidence rid pid t commit i [] rows = (Inr (), rows)"
| "insert_evidence rid pid t commit i (x # xs) rows =
     (if \<exists>e\<in>set rows. ek_id e = evidence_name rid i then (Inl (IntegrityError ''evidence_snapshots.evidence_id''), rows)
      else insert_evidence rid pid t commit (i + 1) xs (rows @ [\<lparr>ek_id = evidence_name rid i, ek_run = rid, ek_proposal = pid, ek_tenant = t,
        ek_requirement = ei_requirement x, ek_path = ei_path x, ek_start = ei_start x, ek_end = ei_end x, ek_hash = ei_hash x,
        ek_symbol = ei_symbol x, ek_authorized = ei_authorized x, ek_valid = ei_valid x, ek_stale = False, ek_stale_reason = None,
        ek_commit = commit\<rparr>]))"

definition save_plan :: "kernel_env \<Rightarrow> string \<Rightarrow> string \<Rightarrow> string \<Rightarrow> dict \<Rightarrow> string \<Rightarrow> plan_row list \<Rightarrow> plan_row list" where
  "save_plan env rid pid t plan now rows =
     (let i = py_str (\<lambda>_. []) (jget_default plan ''plan_id'' (JStr (''plan-'' @ rid))); c = safe_json (ke_float env) (JObj plan) in
      replace_row pn_id \<lparr>pn_id = i, pn_run = rid, pn_proposal = pid, pn_tenant = t, pn_plan = c, pn_digest = ke_sha env (cell_text c),
        pn_created = (case find (\<lambda>p. pn_id p = i) rows of None \<Rightarrow> now | Some p \<Rightarrow> pn_created p)\<rparr> rows)"

definition save_outputs_report :: "kernel_env \<Rightarrow> string \<Rightarrow> string \<Rightarrow> string \<Rightarrow> dict \<Rightarrow> string \<Rightarrow> verification_row list \<Rightarrow> verification_row list" where
  "save_outputs_report env rid pid t report now rows =
     replace_row vr_run \<lparr>vr_run = rid, vr_proposal = pid, vr_tenant = t, vr_report = safe_json (ke_float env) (JObj report),
       vr_status = py_str (\<lambda>_. []) (jget_default report ''status'' (JStr ''unknown'')), vr_stale = False,
       vr_created = (case find (\<lambda>v. vr_run v = rid) rows of None \<Rightarrow> now | Some v \<Rightarrow> vr_created v), vr_updated = now\<rparr> rows"

definition save_proposal_outputs :: "kernel_env \<Rightarrow> string \<Rightarrow> string \<Rightarrow> string \<Rightarrow> json list \<Rightarrow> evidence_item list \<Rightarrow> dict option \<Rightarrow> dict option \<Rightarrow>
    repository_map \<Rightarrow> string \<Rightarrow> kernel_db \<Rightarrow> (exn + unit) \<times> kernel_db" where
  "save_proposal_outputs env pid rid t reqs evidence plan report m now db =
     (case owned_proposal pid t db of Inl e \<Rightarrow> (Inl e, db) | Inr p \<Rightarrow>
      if pp_latest p \<noteq> Some rid then (Inl (TenantScopeError ''proposal run is not current''), db)
      else let sn = snapshot_of (Some m);
          rows0 = filter (\<lambda>e. \<not> (ek_run e = rid \<and> ek_tenant e = t)) (k_evidence db);
          db1 = db\<lparr>k_proposal_runs := update_where (\<lambda>x. px_run x = rid \<and> px_tenant x = t)
            (\<lambda>x. x\<lparr>px_requirements := safe_json (ke_float env) (JList reqs),
               px_plan := map_option (\<lambda>d. safe_json (ke_float env) (JObj d)) plan, px_updated := now\<rparr>) (k_proposal_runs db)\<rparr>
        in case insert_evidence rid pid t (text_or_empty (sn_commit sn)) 0 evidence rows0 of
             (Inl e, rows) \<Rightarrow> (Inl e, db1\<lparr>k_evidence := rows\<rparr>)
           | (Inr _, rows) \<Rightarrow>
               (Inr (), db1\<lparr>k_evidence := rows,
                  k_plans := (case plan of None \<Rightarrow> k_plans db | Some d \<Rightarrow> save_plan env rid pid t d now (k_plans db)),
                  k_verifications := (case report of None \<Rightarrow> k_verifications db | Some d \<Rightarrow> save_outputs_report env rid pid t d now (k_verifications db)),
                  k_proposals := update_where (\<lambda>q. pp_id q = pid \<and> pp_tenant q = t)
                    (\<lambda>q. q\<lparr>pp_stale := False, pp_stale_reason := None, pp_updated := now\<rparr>) (k_proposals db)\<rparr>))"

end
