(* ===== verification/Kernel_Ledger.thy ===== *)
theory Kernel_Ledger
  imports Kernel_Store
begin

text \<open>
  The lifecycle of product runs: every method of the kernel store as a step, the invariant of the run
  ledger, and the second interpretations of the contracts of \<open>Lifecycle\<close>.
\<close>

section \<open>Frames\<close>

definition core :: "product_run \<Rightarrow> string \<times> kernel_state \<times> int" where
  "core r = (kr_id r, kr_state r, kr_seq r)"

definition same_ledger :: "kernel_db \<Rightarrow> kernel_db \<Rightarrow> bool" where
  "same_ledger db db' \<longleftrightarrow> k_events db' = k_events db \<and> map core (k_runs db') = map core (k_runs db)"

lemma same_ledger_refl [simp]: "same_ledger db db"
  by (simp add: same_ledger_def)

lemma same_ledger_same: "k_events db' = k_events db \<Longrightarrow> k_runs db' = k_runs db \<Longrightarrow> same_ledger db db'"
  by (simp add: same_ledger_def)

lemma core_update_where: "(\<And>r. core (f r) = core r) \<Longrightarrow> map core (update_where P f t) = map core t"
  by (induction t) auto

lemma find_core: "map_option core (find (\<lambda>r. kr_id r = rid) t) = find (\<lambda>c. fst c = rid) (map core t)"
  by (induction t) (auto simp: core_def)

lemma same_ledger_find:
  assumes "same_ledger db db'"
  shows "map_option core (find_product_run rid db') = map_option core (find_product_run rid db)"
  using assms by (simp add: same_ledger_def find_product_run_def find_core)

lemma save_graph_checkpoint_frame: "save_graph_checkpoint env rid t node st now db = Inr (u, db') \<Longrightarrow> same_ledger db db'"
  by (auto simp: save_graph_checkpoint_def Let_def split: sum.splits intro!: same_ledger_same)

lemma record_usage_frame: "record_usage env x t db = Inr (u, db') \<Longrightarrow> same_ledger db db'"
  by (auto simp: record_usage_def Let_def split: sum.splits option.splits if_splits intro!: same_ledger_same)

lemma issue_approval_frame: "same_ledger db (snd (issue_approval rid t scopes until plan uid now db))"
  by (auto simp: issue_approval_def Let_def split: sum.splits option.splits intro!: same_ledger_same)

lemma consume_approval_frame: "consume_approval env tid rid t sc repo plan i now db = Inr (a, db') \<Longrightarrow> same_ledger db db'"
  by (auto simp: consume_approval_def split: option.splits intro!: same_ledger_same)

lemma register_repository_frame: "same_ledger db (snd (register_repository env t m now db))"
  by (auto simp: register_repository_def Let_def intro!: same_ledger_same)

lemma create_proposal_frame: "same_ledger db (snd (create_proposal env t m text mode key uid now db))"
  by (auto simp: create_proposal_def register_repository_def and_then_def Let_def split: option.splits sum.splits intro!: same_ledger_same)

lemma revalidate_frame: "same_ledger db (snd (revalidate_proposal env pid t m checks now db))"
proof -
  have c: "core (r\<lparr>kr_result := x, kr_updated := y\<rparr>) = core r" for r x y by (simp add: core_def)
  show ?thesis
    by (simp add: revalidate_proposal_def Let_def same_ledger_def core_update_where [OF c] split: sum.split)
qed

lemma save_report_frame: "same_ledger db (snd (save_report env rid t status payload stale now db))"
  by (auto simp: save_report_def Let_def split: sum.splits option.splits intro!: same_ledger_same)

lemma record_artifact_frame: "record_artifact env aid rid t kind dg path meta now db = Inr (u, db') \<Longrightarrow> same_ledger db db'"
  by (auto simp: record_artifact_def split: sum.splits if_splits intro!: same_ledger_same)

lemma save_trace_frame: "save_trace rid t trace prov proj url status now db = Inr (u, db') \<Longrightarrow> same_ledger db db'"
proof -
  have c: "core (r\<lparr>kr_trace := x, kr_updated := y\<rparr>) = core r" for r x y by (simp add: core_def)
  show "save_trace rid t trace prov proj url status now db = Inr (u, db') \<Longrightarrow> same_ledger db db'"
    by (auto simp: save_trace_def same_ledger_def core_update_where [OF c] split: sum.splits if_splits)
qed

lemma save_outputs_frame: "same_ledger db (snd (save_proposal_outputs env pid rid t reqs ev plan report m now db))"
  by (auto simp: save_proposal_outputs_def Let_def split: sum.splits prod.splits intro!: same_ledger_same)

section \<open>Steps\<close>

inductive kernel_step :: "kernel_env \<Rightarrow> kernel_db \<Rightarrow> kernel_db \<Rightarrow> bool" for env where
  k_create: "create_product_run env q uid now db = Inr (v, db') \<Longrightarrow> kernel_step env db db'"
| k_move: "kernel_transition env rid t st payload err uid now db = Inr (v, db') \<Longrightarrow> kernel_step env db db'"
| k_append: "append_kernel_event env rid t event payload uid now db = Inr (u, db') \<Longrightarrow> kernel_step env db db'"
| k_checkpoint: "save_graph_checkpoint env rid t node ck now db = Inr (u, db') \<Longrightarrow> kernel_step env db db'"
| k_use: "record_usage env x tn db = Inr (u, db') \<Longrightarrow> kernel_step env db db'"
| k_issue: "kernel_step env db (snd (issue_approval rid t scopes expires plan uid now db))"
| k_consume: "consume_approval env tid rid t sc repo plan i now db = Inr (a, db') \<Longrightarrow> kernel_step env db db'"
| k_register: "kernel_step env db (snd (register_repository env t m now db))"
| k_propose: "kernel_step env db (snd (create_proposal env t m text mode key uid now db))"
| k_revalidate: "kernel_step env db (snd (revalidate_proposal env pid t m checks now db))"
| k_report: "kernel_step env db (snd (save_report env rid t status payload stale now db))"
| k_artifact: "record_artifact env aid rid t kind dg path payload now db = Inr (u, db') \<Longrightarrow> kernel_step env db db'"
| k_trace: "save_trace rid t trace prov proj url status now db = Inr (u, db') \<Longrightarrow> kernel_step env db db'"
| k_outputs: "kernel_step env db (snd (save_proposal_outputs env pid rid t reqs ev planned reported m now db))"

definition kernel_ok :: "kernel_db \<Rightarrow> bool" where
  "kernel_ok db \<longleftrightarrow> unique_by kr_id (k_runs db) \<and>
     (\<forall>e\<in>set (k_events db). \<exists>r\<in>set (k_runs db). kr_id r = kv_run e)"

lemma kernel_ok_empty: "kernel_ok empty_kernel"
  by (simp add: kernel_ok_def empty_kernel_def)

lemma ids_of_core: "map core t' = map core t \<Longrightarrow> map kr_id t' = map kr_id t"
proof -
  assume "map core t' = map core t"
  then have "map fst (map core t') = map fst (map core t)" by simp
  then show ?thesis by (simp add: core_def comp_def)
qed

lemma same_ledger_ok: "same_ledger db db' \<Longrightarrow> kernel_ok db \<Longrightarrow> kernel_ok db'"
proof -
  assume s: "same_ledger db db'" and ok: "kernel_ok db"
  have m: "map kr_id (k_runs db') = map kr_id (k_runs db)" using s unfolding same_ledger_def by (intro ids_of_core) blast
  then have "kr_id ` set (k_runs db') = kr_id ` set (k_runs db)" by (metis set_map)
  then have "(\<exists>r\<in>set (k_runs db'). kr_id r = i) = (\<exists>r\<in>set (k_runs db). kr_id r = i)" for i
    by (metis (no_types, lifting) imageE imageI)
  with s ok m show ?thesis by (simp add: kernel_ok_def unique_by_def same_ledger_def)
qed

lemma append_product_event_Inr:
  assumes "append_product_event env uid rid t n event payload now db = Inr db'"
  shows "\<exists>e. db' = db\<lparr>k_events := k_events db @ [e]\<rparr> \<and> kv_run e = rid \<and> kv_seq e = n \<and> kv_tenant e = t"
proof -
  let ?e = "\<lparr>kv_id = ''event-'' @ uid, kv_run = rid, kv_tenant = t, kv_seq = n, kv_event = event,
    kv_payload = safe_json (ke_float env) (JObj payload), kv_created = now\<rparr>"
  have "db\<lparr>k_events := k_events db @ [?e]\<rparr> = db'"
    using assms unfolding append_product_event_def by (simp only: sum.inject sum.distinct split: if_splits)
  then have "db' = db\<lparr>k_events := k_events db @ [?e]\<rparr>" by (rule sym)
  then show ?thesis by (intro exI [of _ ?e]) simp
qed

lemma find_row_update:
  "find_product_run q (db\<lparr>k_runs := update_where (\<lambda>r. kr_id r = rid) f (k_runs db)\<rparr>) =
   map_option (\<lambda>r. if kr_id r = rid then f r else r) (find_product_run q db)" if "\<And>r. kr_id (f r) = kr_id r"
  using that by (simp add: find_product_run_def find_update_where_same)

text \<open>What the three methods that write the ledger do to it.\<close>

lemma kernel_transition_Inr:
  assumes "kernel_transition env rid t st payload err uid now db = Inr (v, db')"
  shows "\<exists>row e f. find_product_run rid db = Some row \<and> kr_tenant row = t \<and> st \<in> set (kernel_allowed (kr_state row))
    \<and> k_events db' = k_events db @ [e] \<and> kv_run e = rid \<and> kv_seq e = kr_seq row + 1
    \<and> k_runs db' = update_where (\<lambda>r. kr_id r = rid) f (k_runs db) \<and> (\<forall>r. core (f r) = (kr_id r, st, kr_seq row + 1))"
proof -
  obtain row where row: "find_product_run rid db = Some row" "kr_tenant row = t" "st \<in> set (kernel_allowed (kr_state row))"
    using assms by (auto simp: kernel_transition_def owned_row_def split: option.splits if_splits)
  then obtain db1 where db1: "append_product_event env uid rid t (kr_seq row + 1) ''run.state_changed''
      (dict_merge [(''state'', JStr (kernel_state_name st))] (redact_dict payload)) now db = Inr db1"
    using assms by (auto simp: kernel_transition_def owned_row_def Let_def split: sum.splits)
  from append_product_event_Inr [OF this] obtain e where e: "db1 = db\<lparr>k_events := k_events db @ [e]\<rparr>" "kv_run e = rid" "kv_seq e = kr_seq row + 1"
    by blast
  obtain old where "load_dict (kr_result row) = Inr old"
    using assms row db1 by (auto simp: kernel_transition_def owned_row_def Let_def split: sum.splits)
  define f :: "product_run \<Rightarrow> product_run" where "f r = r\<lparr>kr_state := st, kr_seq := kr_seq row + 1, kr_error := err,
      kr_approval := (case jget payload ''approval_id'' of JStr a \<Rightarrow> Some a | _ \<Rightarrow> kr_approval row),
      kr_result := safe_json (ke_float env) (JObj (dict_merge old (redact_dict payload))), kr_updated := now\<rparr>" for r
  have f: "core (f r) = (kr_id r, st, kr_seq row + 1)" for r by (simp add: f_def core_def)
  let ?db2 = "db1\<lparr>k_runs := update_where (\<lambda>r. kr_id r = rid) f (k_runs db1)\<rparr>"
  let ?db3 = "if given (kr_proposal row) then ?db2\<lparr>k_proposals := update_where
      (\<lambda>p. Some (pp_id p) = kr_proposal row \<and> pp_tenant p = t)
      (\<lambda>p. p\<lparr>pp_state := kernel_state_name st, pp_updated := now\<rparr>) (k_proposals ?db2)\<rparr> else ?db2"
  have fe: "f = (\<lambda>r. r\<lparr>kr_state := st, kr_seq := kr_seq row + 1, kr_error := err,
      kr_approval := (case jget payload ''approval_id'' of JStr a \<Rightarrow> Some a | _ \<Rightarrow> kr_approval row),
      kr_result := safe_json (ke_float env) (JObj (dict_merge old (redact_dict payload))), kr_updated := now\<rparr>)"
    by (rule ext) (simp add: f_def)
  have own: "owned_row rid t db = Inr row" using row by (simp add: owned_row_def)
  have "(case find_product_run rid ?db3 of None \<Rightarrow> Inl (TypeError ''row is None'')
      | Some r \<Rightarrow> map_sum id (\<lambda>v. (v, ?db3)) (to_lifecycle r)) = Inr (v, db')"
    using assms row(3) db1 \<open>load_dict (kr_result row) = Inr old\<close> unfolding kernel_transition_def own Let_def fe by simp
  then have "db' = ?db3" by (auto simp: map_sum_def split: option.splits sum.splits)
  then have "k_runs db' = update_where (\<lambda>r. kr_id r = rid) f (k_runs db) \<and> k_events db' = k_events db @ [e]"
    using e(1) by simp
  with f have "\<exists>f. k_runs db' = update_where (\<lambda>r. kr_id r = rid) f (k_runs db) \<and> k_events db' = k_events db @ [e]
      \<and> (\<forall>r. core (f r) = (kr_id r, st, kr_seq row + 1))" by blast
  with row e show ?thesis by auto
qed

lemma append_kernel_event_Inr:
  assumes "append_kernel_event env rid t event payload uid now db = Inr (u, db')"
  shows "\<exists>row e f. find_product_run rid db = Some row \<and> k_events db' = k_events db @ [e] \<and> kv_run e = rid \<and> kv_seq e = kr_seq row + 1
    \<and> k_runs db' = update_where (\<lambda>r. kr_id r = rid) f (k_runs db) \<and> (\<forall>r. core (f r) = (kr_id r, kr_state r, kr_seq row + 1))"
proof -
  obtain row where row: "find_product_run rid db = Some row" "owned_row rid t db = Inr row"
    using assms by (auto simp: append_kernel_event_def owned_row_def split: option.splits if_splits)
  then obtain db1 where db1: "append_product_event env uid rid t (kr_seq row + 1) event payload now db = Inr db1"
    "db' = db1\<lparr>k_runs := update_where (\<lambda>r. kr_id r = rid) (\<lambda>r. r\<lparr>kr_seq := kr_seq row + 1, kr_updated := now\<rparr>) (k_runs db1)\<rparr>"
    using assms by (auto simp: append_kernel_event_def split: sum.splits)
  from append_product_event_Inr [OF this(1)] obtain e where e: "db1 = db\<lparr>k_events := k_events db @ [e]\<rparr>" "kv_run e = rid" "kv_seq e = kr_seq row + 1"
    by blast
  show ?thesis
    by (rule exI [of _ row], rule exI [of _ e], rule exI [of _ "\<lambda>r. r\<lparr>kr_seq := kr_seq row + 1, kr_updated := now\<rparr>"])
      (simp add: row db1(2) e core_def)
qed

lemma create_product_run_Inr:
  assumes "create_product_run env q uid now db = Inr (v, db')"
  shows "db' = db \<or> (\<exists>row e. find_product_run (rq_run q) db = None \<and> kr_id row = rq_run q \<and> kr_seq row = 1 \<and> kr_state row = Queued
    \<and> k_runs db' = k_runs db @ [row] \<and> k_events db' = k_events db @ [e] \<and> kv_run e = rq_run q \<and> kv_seq e = 1)"
proof (cases "find (\<lambda>r. kr_tenant r = rq_tenant q \<and> kr_key r = rq_key q) (k_runs db)")
  case (Some r)
  with assms show ?thesis
    by (auto simp: create_product_run_def Let_def map_sum_def split: sum.splits if_splits)
next
  case None
  let ?sn = "snapshot_of (rq_repository q)"
  define row where "row = \<lparr>kr_id = rq_run q, kr_tenant = rq_tenant q, kr_key = rq_key q, kr_hash = run_request_hash env q,
    kr_mode = rq_mode q, kr_state = Queued, kr_seq = 1, kr_error = None, kr_approval = None,
    kr_result = \<lparr>cell_text = ''{}'', cell_value = Some (JObj [])\<rparr>, kr_created = now, kr_updated = now,
    kr_proposal = rq_proposal q, kr_repository = sn_id ?sn, kr_branch = sn_branch ?sn, kr_commit = sn_commit ?sn,
    kr_dirty = sn_dirty ?sn, kr_trace = rq_trace q\<rparr>"
  let ?app = "append_product_event env uid (rq_run q) (rq_tenant q) 1 ''run.queued''
    (dict_merge [(''mode'', JStr (rq_mode q))] (snapshot_dict ?sn)) now (db\<lparr>k_runs := k_runs db @ [row]\<rparr>)"
  have ok: "check_proposal q db = Inr ()" using assms by (auto simp: create_product_run_def Let_def split: sum.splits)
  have new: "find_product_run (rq_run q) db = None"
    using assms None ok by (auto simp: create_product_run_def Let_def split: if_splits)
  have r: "(case ?app of Inl e \<Rightarrow> Inl e | Inr db1 \<Rightarrow> (case link_proposal_run q ?sn now db1 of Inl e \<Rightarrow> Inl e | Inr db2 \<Rightarrow>
      case find_product_run (rq_run q) db2 of None \<Rightarrow> Inl (TypeError ''row is None'')
      | Some r \<Rightarrow> map_sum id (\<lambda>v. (v, db2)) (to_lifecycle r))) = Inr (v, db')"
    using assms None ok new unfolding create_product_run_def Let_def row_def by simp
  from r obtain db1 where db1: "?app = Inr db1" "link_proposal_run q ?sn now db1 = Inr db'"
    by (auto simp: map_sum_def split: sum.splits option.splits)
  from append_product_event_Inr [OF db1(1)] obtain e where e: "db1 = db\<lparr>k_runs := k_runs db @ [row], k_events := k_events db @ [e]\<rparr>"
    "kv_run e = rq_run q" "kv_seq e = 1" by auto
  have "k_runs db' = k_runs db1" "k_events db' = k_events db1"
    using db1(2) by (auto simp: link_proposal_run_def Let_def split: if_splits option.splits)
  with e new show ?thesis by (intro disjI2 exI [of _ row] exI [of _ e]) (simp add: row_def)
qed

text \<open>Every step: the ledger is as it was, or one run was created, or one run got its next event.\<close>

lemma kernel_step_cases:
  assumes "kernel_step env db db'"
  obtains (same) "same_ledger db db'"
  | (created) row e where "find_product_run (kr_id row) db = None" "kr_seq row = 1" "kr_state row = Queued"
      "k_runs db' = k_runs db @ [row]" "k_events db' = k_events db @ [e]" "kv_run e = kr_id row" "kv_seq e = 1"
  | (event) row e f st where "find_product_run (kr_id row) db = Some row" "k_events db' = k_events db @ [e]" "kv_run e = kr_id row"
      "kv_seq e = kr_seq row + 1" "k_runs db' = update_where (\<lambda>r. kr_id r = kr_id row) f (k_runs db)"
      "\<And>r. core (f r) = (kr_id r, st r, kr_seq row + 1)" "st row = kr_state row \<or> st row \<in> set (kernel_allowed (kr_state row))"
  using assms
proof (induction rule: kernel_step.induct)
  case (k_create q uid now db v db')
  from create_product_run_Inr [OF k_create(1)] show ?case
  proof
    assume "db' = db"
    then show ?thesis by (intro k_create(2)) simp
  next
    assume "\<exists>row e. find_product_run (rq_run q) db = None \<and> kr_id row = rq_run q \<and> kr_seq row = 1 \<and> kr_state row = Queued
      \<and> k_runs db' = k_runs db @ [row] \<and> k_events db' = k_events db @ [e] \<and> kv_run e = rq_run q \<and> kv_seq e = 1"
    then obtain row e where "find_product_run (kr_id row) db = None" "kr_seq row = 1" "kr_state row = Queued"
      "k_runs db' = k_runs db @ [row]" "k_events db' = k_events db @ [e]" "kv_run e = kr_id row" "kv_seq e = 1" by metis
    then show ?thesis by (rule k_create(3))
  qed
next
  case (k_move rid t st payload err uid now db v db')
  from kernel_transition_Inr [OF k_move(1)] obtain row e f where h: "find_product_run rid db = Some row"
    "st \<in> set (kernel_allowed (kr_state row))" "k_events db' = k_events db @ [e]" "kv_run e = rid" "kv_seq e = kr_seq row + 1"
    "k_runs db' = update_where (\<lambda>r. kr_id r = rid) f (k_runs db)" "\<And>r. core (f r) = (kr_id r, st, kr_seq row + 1)" by blast
  have "kr_id row = rid" using h(1) by (auto simp: find_product_run_def dest: find_SomeD)
  with h show ?case by (intro k_move(4) [of row e f "\<lambda>_. st"]) auto
next
  case (k_append rid t event payload uid now db u db')
  from append_kernel_event_Inr [OF k_append(1)] obtain row e f where h: "find_product_run rid db = Some row"
    "k_events db' = k_events db @ [e]" "kv_run e = rid" "kv_seq e = kr_seq row + 1"
    "k_runs db' = update_where (\<lambda>r. kr_id r = rid) f (k_runs db)" "\<And>r. core (f r) = (kr_id r, kr_state r, kr_seq row + 1)" by blast
  have "kr_id row = rid" using h(1) by (auto simp: find_product_run_def dest: find_SomeD)
  with h show ?case by (intro k_append(4) [of row e f kr_state]) auto
qed (blast intro: save_graph_checkpoint_frame record_usage_frame issue_approval_frame consume_approval_frame register_repository_frame
    create_proposal_frame revalidate_frame save_report_frame record_artifact_frame save_trace_frame save_outputs_frame)+

lemma find_run_id: "find_product_run rid db = Some r \<Longrightarrow> r \<in> set (k_runs db) \<and> kr_id r = rid"
  by (auto simp: find_product_run_def dest: find_SomeD)

lemma core_id: "core (f r) = (kr_id r, s, n) \<Longrightarrow> kr_id (f r) = kr_id r"
  by (simp add: core_def)

lemma kernel_step_ok:
  assumes "kernel_step env db db'" and "kernel_ok db"
  shows "kernel_ok db'"
  using assms(1)
proof (cases rule: kernel_step_cases)
  case same
  with assms(2) show ?thesis by (auto intro: same_ledger_ok)
next
  case (created row e)
  with assms(2) show ?thesis
    by (auto simp: kernel_ok_def unique_by_append find_product_run_def find_None_iff_set)
next
  case (event row e f st)
  have id: "kr_id (f r) = kr_id r" for r using event(6) by (rule core_id)
  have "unique_by kr_id (k_runs db')" using assms(2) by (simp add: kernel_ok_def event(5) unique_by_update_where id)
  moreover have "\<forall>x\<in>set (k_events db'). \<exists>r\<in>set (k_runs db'). kr_id r = kv_run x"
    using assms(2) find_run_id [OF event(1)]
    by (auto simp: kernel_ok_def event(2,3,5) bex_update_where if_distrib [of kr_id] id cong: if_cong)
  ultimately show ?thesis by (simp add: kernel_ok_def)
qed

definition product_state :: "kernel_db \<Rightarrow> string \<Rightarrow> kernel_state option" where
  "product_state db rid = map_option kr_state (find_product_run rid db)"

definition product_seq :: "kernel_db \<Rightarrow> string \<Rightarrow> int option" where
  "product_seq db rid = map_option kr_seq (find_product_run rid db)"

lemma by_core:
  "product_state db rid = map_option (\<lambda>c. fst (snd c)) (map_option core (find_product_run rid db))"
  "product_seq db rid = map_option (\<lambda>c. snd (snd c)) (map_option core (find_product_run rid db))"
  by (cases "find_product_run rid db"; simp add: product_state_def product_seq_def core_def)+

lemma find_updated:
  assumes "k_runs db' = update_where (\<lambda>r. kr_id r = rid) f (k_runs db)" and "\<And>r. kr_id (f r) = kr_id r"
  shows "find_product_run q db' = map_option (\<lambda>r. if q = rid then f r else r) (find_product_run q db)"
proof (cases "find_product_run q db")
  case (Some r)
  with assms find_run_id [OF Some] show ?thesis by (simp add: find_product_run_def find_update_where_same)
qed (use assms in \<open>simp add: find_product_run_def find_update_where_same\<close>)

interpretation kernel_life: lifecycle product_state "kernel_step env" "\<lambda>s t. t \<in> set (kernel_allowed s)" kernel_ok for env
proof (unfold_locales, goal_cases)
  case (1 d d')
  then show ?case by (blast intro: kernel_step_ok)
next
  case (2 d d' k s)
  from 2(2) show ?case
  proof (cases rule: kernel_step_cases)
    case same
    then have "product_state d' k = product_state d k" by (simp add: by_core same_ledger_find)
    with 2(3) show ?thesis by simp
  next
    case (created row e)
    from 2(3) obtain r where "find_product_run k d = Some r" "kr_state r = s" by (auto simp: product_state_def)
    then have "product_state d' k = Some s" by (simp add: product_state_def find_product_run_def created(4) find_append)
    then show ?thesis by simp
  next
    case (event row e f st)
    have id: "kr_id (f r) = kr_id r" for r using event(6) by (rule core_id)
    have st: "kr_state (f r) = st r" for r using event(6) by (simp add: core_def)
    from find_updated [OF event(5) id, of k] 2(3) event(1,7) st show ?thesis
      by (auto simp: product_state_def split: if_splits)
  qed
qed

interpretation kernel_log: sequenced_log product_seq events_of kv_seq "kernel_step env" kernel_ok for env
proof (unfold_locales, goal_cases)
  case (1 d d')
  then show ?case by (blast intro: kernel_step_ok)
next
  case (2 d k)
  then show ?case
    by (auto simp: product_seq_def find_product_run_def find_None_iff_set kernel_ok_def events_of_def filter_empty_conv)
next
  case (3 d d' k)
  from 3(2) show ?case
  proof (cases rule: kernel_step_cases)
    case same
    then have "product_seq d' k = product_seq d k" by (simp add: by_core same_ledger_find)
    with same show ?thesis by (simp add: events_of_def same_ledger_def)
  next
    case (created row e)
    show ?thesis
    proof (cases "k = kr_id row")
      case True
      then have "product_seq d k = None" "product_seq d' k = Some 1"
        using created by (simp_all add: product_seq_def find_product_run_def find_append)
      then show ?thesis using True created by (intro disjI2 exI [of _ e]) (simp add: events_of_def)
    next
      case False
      then have "product_seq d' k = product_seq d k"
        by (simp add: product_seq_def find_product_run_def created(4) find_append split: option.split)
      then show ?thesis using False created by (intro disjI1) (simp add: events_of_def)
    qed
  next
    case (event row e f st)
    have id: "kr_id (f r) = kr_id r" for r using event(6) by (rule core_id)
    have sq: "kr_seq (f r) = kr_seq row + 1" for r using event(6) by (simp add: core_def)
    note up = find_updated [OF event(5) id, of k]
    show ?thesis
    proof (cases "k = kr_id row")
      case True
      then show ?thesis using event(1-4) up sq
        by (intro disjI2 exI [of _ e]) (simp add: events_of_def product_seq_def)
    next
      case False
      then show ?thesis using event(2,3) up by (intro disjI1) (simp add: events_of_def product_seq_def option.map_ident)
    qed
  qed
qed

section \<open>Correctness of the ledger\<close>

text \<open>Two calls of an example: a run that is queued and started.\<close>

definition demo_kernel_env :: kernel_env where
  "demo_kernel_env = \<lparr>ke_sha = (\<lambda>s. s), ke_float = (\<lambda>q. []), ke_instant = (\<lambda>s. Some 100)\<rparr>"

definition demo_run :: run_request where
  "demo_run = \<lparr>rq_run = ''run-1'', rq_tenant = ''t'', rq_key = ''k'', rq_mode = ''verify'', rq_payload = [], rq_proposal = None,
     rq_repository = None, rq_trace = None\<rparr>"

definition demo_kernel :: kernel_db where
  "demo_kernel = (case create_product_run demo_kernel_env demo_run ''u1'' ''now'' empty_kernel of Inl _ \<Rightarrow> empty_kernel | Inr (v, db) \<Rightarrow>
     (case kernel_transition demo_kernel_env ''run-1'' ''t'' Failed [] (Some ''boom'') ''u2'' ''now'' db of Inl _ \<Rightarrow> empty_kernel | Inr (w, db') \<Rightarrow> db'))"

lemma demo_kernel_reached: "(kernel_step demo_kernel_env)\<^sup>*\<^sup>* empty_kernel demo_kernel"
  "product_state demo_kernel ''run-1'' = Some Failed" "product_seq demo_kernel ''run-1'' = Some 2"
proof -
  obtain v db where v: "create_product_run demo_kernel_env demo_run ''u1'' ''now'' empty_kernel = Inr (v, db)"
    and q: "case kernel_transition demo_kernel_env ''run-1'' ''t'' Failed [] (Some ''boom'') ''u2'' ''now'' db of Inl e \<Rightarrow> False | Inr (w, db') \<Rightarrow> True"
    by (rule run_obtain [where m = "create_product_run demo_kernel_env demo_run ''u1'' ''now'' empty_kernel"
      and Q = "\<lambda>v db. case kernel_transition demo_kernel_env ''run-1'' ''t'' Failed [] (Some ''boom'') ''u2'' ''now'' db of Inl e \<Rightarrow> False | Inr (w, db') \<Rightarrow> True"])
      code_simp
  obtain w db' where w: "kernel_transition demo_kernel_env ''run-1'' ''t'' Failed [] (Some ''boom'') ''u2'' ''now'' db = Inr (w, db')"
    using q by (auto split: sum.splits)
  have "demo_kernel = db'" by (simp add: demo_kernel_def v w)
  then show "(kernel_step demo_kernel_env)\<^sup>*\<^sup>* empty_kernel demo_kernel"
    using k_create [OF v] k_move [OF w] by simp
  show "product_state demo_kernel ''run-1'' = Some Failed" "product_seq demo_kernel ''run-1'' = Some 2" by code_simp+
qed

text \<open>
  A product run that was verified, planned, rejected, failed or stopped by its quota or budget
  keeps that state whatever calls follow on the kernel store, proposal and approval calls included.
\<close>
theorem finished_product_run_is_final:
  assumes "(kernel_step env)\<^sup>*\<^sup>* empty_kernel db" and "product_state db rid = Some s" and "kernel_allowed s = []"
    and "(kernel_step env)\<^sup>*\<^sup>* db db'"
  shows "product_state db' rid = Some s"
  using kernel_life.final_stays [OF assms(4) kernel_life.ok_steps [OF assms(1) kernel_ok_empty] assms(2)] assms(3) by simp

theorem finished_product_run_is_final_witness:
  "(kernel_step demo_kernel_env)\<^sup>*\<^sup>* empty_kernel demo_kernel \<and> product_state demo_kernel ''run-1'' = Some Failed"
  using finished_product_run_is_final [OF demo_kernel_reached(1,2) _ rtranclp.rtrancl_refl] demo_kernel_reached(1) by simp

text \<open>
  The event log of every product run is numbered 1, 2, ... without gaps up to the run's sequence
  column, and is only appended to.
\<close>
theorem product_log_is_gap_free:
  assumes "(kernel_step env)\<^sup>*\<^sup>* empty_kernel db" and "product_seq db rid = Some n" and "(kernel_step env)\<^sup>*\<^sup>* db db'"
  shows "map kv_seq (events_of db rid) = [1..n] \<and> (\<exists>es. events_of db' rid = events_of db rid @ es)"
proof
  have ok: "kernel_ok db" by (rule kernel_life.ok_steps [OF assms(1) kernel_ok_empty])
  have "kernel_log.contiguous empty_kernel"
    by (simp add: kernel_log.contiguous_def product_seq_def events_of_def empty_kernel_def find_product_run_def)
  then have "kernel_log.contiguous db"
    using kernel_log.contiguous_steps [OF assms(1) kernel_ok_empty] by blast
  with assms(2) show "map kv_seq (events_of db rid) = [1..n]"
    by (simp add: kernel_log.contiguous_def)
  show "\<exists>es. events_of db' rid = events_of db rid @ es"
    by (rule kernel_log.append_only [OF assms(3) ok])
qed

theorem product_log_is_gap_free_witness:
  "(kernel_step demo_kernel_env)\<^sup>*\<^sup>* empty_kernel demo_kernel \<and> map kv_seq (events_of demo_kernel ''run-1'') = [1..2]"
  using product_log_is_gap_free [OF demo_kernel_reached(1,3) rtranclp.rtrancl_refl] demo_kernel_reached(1) by blast

section \<open>Approvals\<close>

definition spent :: "string \<Rightarrow> kernel_db \<Rightarrow> bool" where
  "spent tid db \<longleftrightarrow> (\<exists>a. find (\<lambda>a. ka_id a = tid) (k_approvals db) = Some a \<and> ka_consumed a)"

lemma append_product_event_approvals:
  "append_product_event env uid rid t n event payload now db = Inr db' \<Longrightarrow> k_approvals db' = k_approvals db"
  by (drule append_product_event_Inr) auto

lemma link_proposal_approvals: "link_proposal_run q sn now db = Inr db' \<Longrightarrow> k_approvals db' = k_approvals db"
  by (auto simp: link_proposal_run_def Let_def split: if_splits option.splits)

lemma create_product_run_approvals:
  "create_product_run env q uid now db = Inr (v, db') \<Longrightarrow> k_approvals db' = k_approvals db"
  by (auto simp: create_product_run_def Let_def map_sum_def split: sum.splits option.splits if_splits
      dest!: append_product_event_approvals link_proposal_approvals)

lemma kernel_transition_approvals:
  "kernel_transition env rid t st payload err uid now db = Inr (v, db') \<Longrightarrow> k_approvals db' = k_approvals db"
  by (auto simp: kernel_transition_def Let_def map_sum_def split: sum.splits option.splits if_splits
      dest!: append_product_event_approvals)

lemma append_kernel_event_approvals:
  "append_kernel_event env rid t event payload uid now db = Inr (u, db') \<Longrightarrow> k_approvals db' = k_approvals db"
  by (auto simp: append_kernel_event_def split: sum.splits dest!: append_product_event_approvals)

lemma other_approvals:
  "save_graph_checkpoint env rid t node st now db = Inr (u, db') \<Longrightarrow> k_approvals db' = k_approvals db"
  "record_usage env x tn db = Inr (u, db') \<Longrightarrow> k_approvals db' = k_approvals db"
  "k_approvals (snd (register_repository env t m now db)) = k_approvals db"
  "k_approvals (snd (create_proposal env t m text mode key uid now db)) = k_approvals db"
  "k_approvals (snd (revalidate_proposal env pid t m checks now db)) = k_approvals db"
  "k_approvals (snd (save_report env rid t status payload stale now db)) = k_approvals db"
  "record_artifact env aid rid t kind dg path payload now db = Inr (u, db') \<Longrightarrow> k_approvals db' = k_approvals db"
  "save_trace rid t trace prov proj url status now db = Inr (u, db') \<Longrightarrow> k_approvals db' = k_approvals db"
  "k_approvals (snd (save_proposal_outputs env pid rid t reqs ev planned reported m now db)) = k_approvals db"
  by (auto simp: save_graph_checkpoint_def record_usage_def register_repository_def create_proposal_def and_then_def revalidate_proposal_def
      save_report_def record_artifact_def save_trace_def save_proposal_outputs_def Let_def split: sum.splits option.splits if_splits prod.splits)

lemma spent_same: "k_approvals db' = k_approvals db \<Longrightarrow> spent tid db \<Longrightarrow> spent tid db'"
  by (simp add: spent_def)

lemma spent_step: "kernel_step env db db' \<Longrightarrow> spent tid db \<Longrightarrow> spent tid db'"
proof (induction rule: kernel_step.induct)
  case (k_issue db rid t scopes expires plan uid now)
  have "k_approvals (snd (issue_approval rid t scopes expires plan uid now db)) = k_approvals db \<or>
      (\<exists>a. k_approvals (snd (issue_approval rid t scopes expires plan uid now db)) = k_approvals db @ [a])"
    by (auto simp: issue_approval_def Let_def split: sum.splits option.splits)
  with k_issue show ?case by (auto simp: spent_def find_append)
next
  case (k_consume tid' rid t sc repo plan i now db a db')
  then have "k_approvals db' = update_where (\<lambda>x. ka_id x = tid') (\<lambda>x. x\<lparr>ka_consumed := True\<rparr>) (k_approvals db)"
    by (auto simp: consume_approval_def split: option.splits)
  moreover obtain x where "find (\<lambda>a. ka_id a = tid) (k_approvals db) = Some x" "ka_consumed x"
    using k_consume(2) by (auto simp: spent_def)
  ultimately show ?case
    by (auto simp: spent_def find_update_where_same intro!: exI [of _ "if ka_id x = tid' then x\<lparr>ka_consumed := True\<rparr> else x"])
qed (blast intro: spent_same create_product_run_approvals kernel_transition_approvals append_kernel_event_approvals other_approvals)+

lemma spent_steps: "(kernel_step env)\<^sup>*\<^sup>* db db' \<Longrightarrow> spent tid db \<Longrightarrow> spent tid db'"
  by (induction rule: rtranclp_induct) (auto intro: spent_step)

lemma consume_spends: "consume_approval env tid rid t sc repo plan i now db = Inr (a, db') \<Longrightarrow> spent tid db'"
proof -
  assume c: "consume_approval env tid rid t sc repo plan i now db = Inr (a, db')"
  then obtain x where x: "find (\<lambda>a. ka_id a = tid) (k_approvals db) = Some x"
    "k_approvals db' = update_where (\<lambda>x. ka_id x = tid) (\<lambda>x. x\<lparr>ka_consumed := True\<rparr>) (k_approvals db)"
    by (auto simp: consume_approval_def split: option.splits)
  have "find (\<lambda>a. ka_id a = tid) (k_approvals db') = Some (x\<lparr>ka_consumed := True\<rparr>)"
    using x find_SomeD [OF x(1)] by (simp add: find_update_where_same)
  then show ?thesis by (simp add: spent_def)
qed

lemma spent_refused: "spent tid db \<Longrightarrow> \<exists>m. consume_approval env tid rid t sc repo plan i now db = Inl (InvalidApproval m)"
  by (auto simp: spent_def consume_approval_def approval_error_def)

text \<open>
  C25. An approval is good for one use of what was approved: a token is consumed only for its own run
  and tenant, for a scope it grants, before it expires, on the repository, branch and commit it was
  issued for and with the plan it was bound to; and once consumed it is refused for ever, whatever
  calls come in between.
\<close>
theorem approval_is_used_once:
  assumes "consume_approval env tid rid t sc repo plan i now db = Inr (a, db1)" and "(kernel_step env)\<^sup>*\<^sup>* db1 db2"
  shows "(\<exists>row. row \<in> set (k_approvals db) \<and> ka_id row = tid \<and> ka_run row = rid \<and> ka_tenant row = t \<and> \<not> ka_consumed row
      \<and> sc \<in> set (ka_scopes row) \<and> (\<exists>until. ke_instant env (ka_expires row) = Some until \<and> i < until)
      \<and> (given (ka_repository row) \<longrightarrow> repo \<noteq> None \<and> \<not> snapshot_changed (ka_repository row, ka_branch row, ka_commit row) (snapshot_of repo))
      \<and> (given (ka_plan row) \<longrightarrow> plan = ka_plan row))
    \<and> (\<exists>m. consume_approval env' tid rid' t' sc' repo' plan' i' now' db2 = Inl (InvalidApproval m))"
proof
  obtain row where row: "find (\<lambda>a. ka_id a = tid) (k_approvals db) = Some row" "approval_error env rid t sc repo plan i row = None"
    using assms(1) by (auto simp: consume_approval_def split: option.splits)
  have "row \<in> set (k_approvals db)" "ka_id row = tid" using find_SomeD [OF row(1)] by auto
  moreover have "ka_run row = rid \<and> ka_tenant row = t \<and> \<not> ka_consumed row \<and> sc \<in> set (ka_scopes row)
      \<and> (\<exists>until. ke_instant env (ka_expires row) = Some until \<and> i < until)
      \<and> (given (ka_repository row) \<longrightarrow> repo \<noteq> None \<and> \<not> snapshot_changed (ka_repository row, ka_branch row, ka_commit row) (snapshot_of repo))
      \<and> (given (ka_plan row) \<longrightarrow> plan = ka_plan row)"
    using row(2) unfolding approval_error_def by (auto split: if_splits option.splits)
  ultimately show "\<exists>row. row \<in> set (k_approvals db) \<and> ka_id row = tid \<and> ka_run row = rid \<and> ka_tenant row = t \<and> \<not> ka_consumed row
      \<and> sc \<in> set (ka_scopes row) \<and> (\<exists>until. ke_instant env (ka_expires row) = Some until \<and> i < until)
      \<and> (given (ka_repository row) \<longrightarrow> repo \<noteq> None \<and> \<not> snapshot_changed (ka_repository row, ka_branch row, ka_commit row) (snapshot_of repo))
      \<and> (given (ka_plan row) \<longrightarrow> plan = ka_plan row)" by blast
  show "\<exists>m. consume_approval env' tid rid' t' sc' repo' plan' i' now' db2 = Inl (InvalidApproval m)"
    by (rule spent_refused [OF spent_steps [OF assms(2) consume_spends [OF assms(1)]]])
qed

definition demo_approved :: kernel_db where
  "demo_approved = snd (issue_approval ''run-1'' ''t'' [''deliver''] ''later'' None ''u9'' ''now'' demo_kernel)"

theorem approval_is_used_once_witness:
  "\<exists>a db m. consume_approval demo_kernel_env ''approval-u9'' ''run-1'' ''t'' ''deliver'' None None 5 ''now'' demo_approved = Inr (a, db)
     \<and> consume_approval demo_kernel_env ''approval-u9'' ''run-1'' ''t'' ''deliver'' None None 5 ''now'' db = Inl (InvalidApproval m)"
proof -
  obtain a db where "consume_approval demo_kernel_env ''approval-u9'' ''run-1'' ''t'' ''deliver'' None None 5 ''now'' demo_approved = Inr (a, db)"
    by (rule run_obtain [where m = "consume_approval demo_kernel_env ''approval-u9'' ''run-1'' ''t'' ''deliver'' None None 5 ''now'' demo_approved"
      and Q = "\<lambda>_ _. True"]) code_simp
  from approval_is_used_once [OF this rtranclp.rtrancl_refl] this show ?thesis by blast
qed

section \<open>Stored JSON\<close>

lemma find_replace_row: "key r = k \<Longrightarrow> find (\<lambda>q. key q = k) (replace_row key r t) = Some r"
proof -
  assume k: "key r = k"
  have "find (\<lambda>q. key q = k) (filter (\<lambda>q. key q \<noteq> key r) t) = None" using k by (auto simp: find_None_iff_set)
  then show ?thesis using k by (simp add: replace_row_def find_append)
qed

lemma save_report_Inr:
  assumes "save_report env rid t status payload stale now db = (Inr u, db')"
  shows "k_runs db' = k_runs db" and "k_reports db' = replace_row rr_run \<lparr>rr_run = rid, rr_tenant = t,
      rr_report = safe_json (ke_float env) (JObj payload), rr_created = now\<rparr> (k_reports db)"
  using assms by (auto simp: save_report_def Let_def split: sum.splits option.splits if_splits)

text \<open>
  A release report that was saved is read back as the redacted report when its text keeps within
  256000 characters; when it is longer the stored text is cut, and reading the report raises for
  ever after, though saving it succeeded.
\<close>
theorem saved_report_reads_back:
  assumes "save_report env rid t status payload stale now db = (Inr u, db')"
  shows "get_report rid t db' = (if int (length (json_dump (ke_float env) (redact_json (JObj payload)))) \<le> max_json_chars
    then Inr (Some (redact_json (JObj payload))) else Inl (ValueError ''JSONDecodeError''))"
proof -
  obtain v where v: "get_product_run rid t db = Inr v"
    using assms by (auto simp: save_report_def split: sum.splits)
  have s: "k_runs db' = k_runs db"
    "find (\<lambda>r. rr_run r = rid) (k_reports db') = Some \<lparr>rr_run = rid, rr_tenant = t, rr_report = safe_json (ke_float env) (JObj payload), rr_created = now\<rparr>"
    using save_report_Inr [OF assms] find_replace_row [of rr_run "\<lparr>rr_run = rid, rr_tenant = t,
      rr_report = safe_json (ke_float env) (JObj payload), rr_created = now\<rparr>" rid] by simp_all
  have "get_product_run rid t db' = Inr v"
    using v s(1) by (simp add: get_product_run_def owned_row_def find_product_run_def)
  with s(2) show ?thesis by (simp add: get_report_def load_safe_json)
qed

theorem saved_report_reads_back_witness:
  "\<exists>db'. save_report demo_kernel_env ''run-1'' ''t'' ''failed'' [(''reason'', JStr ''token: abc'')] False ''now'' demo_kernel = (Inr (), db')
     \<and> get_report ''run-1'' ''t'' db' = Inr (Some (JObj [(''reason'', JStr ''[REDACTED_CREDENTIAL]'')]))"
proof -
  obtain u db' where c: "save_report demo_kernel_env ''run-1'' ''t'' ''failed'' [(''reason'', JStr ''token: abc'')] False ''now'' demo_kernel = (Inr u, db')"
    by (rule call_obtain [where m = "save_report demo_kernel_env ''run-1'' ''t'' ''failed'' [(''reason'', JStr ''token: abc'')] False ''now'' demo_kernel"
      and Q = "\<lambda>_ _. True"]) code_simp
  have "redact_json (JObj [(''reason'', JStr ''token: abc'')]) = JObj [(''reason'', JStr ''[REDACTED_CREDENTIAL]'')]"
    "int (length (json_dump (ke_float demo_kernel_env) (JObj [(''reason'', JStr ''[REDACTED_CREDENTIAL]'')]))) \<le> max_json_chars"
    by code_simp+
  with saved_report_reads_back [OF c] c show ?thesis by simp
qed

text \<open>
  A proposal that has not been run yet is reported as not stale when its repository has moved on,
  while the reason for being stale is recorded.
\<close>
lemma unrun_proposal_is_not_stale:
  assumes "owned_proposal pid t db = Inr p" and "\<not> given (pp_latest p)" and "sn_id (snapshot_of (Some m)) = Some (pp_repository p)"
    and "snapshot_changed (Some (pp_repository p), Some (pp_branch p), Some (pp_commit p)) (snapshot_of (Some m))"
  shows "\<exists>db' q. revalidate_proposal env pid t m checks now db = (Inr False, db') \<and> owned_proposal pid t db' = Inr q
    \<and> \<not> pp_stale q \<and> pp_stale_reason q = Some changed_reason"
proof -
  have f: "find (\<lambda>q. pp_id q = pid) (k_proposals db) = Some p" "pp_tenant p = t"
    using assms(1) by (auto simp: owned_proposal_def split: option.splits if_splits)
  then show ?thesis
    using assms find_SomeD [OF f(1)]
    by (simp add: revalidate_proposal_def Let_def owned_proposal_def find_update_where_same)
qed

end
