(* ===== verification/Maintenance_Gate.thy ===== *)
theory Maintenance_Gate
  imports Kernel_Redaction
begin

text \<open>
  The merge gate of the continuous integration, \<open>lib/maintenance_gate.py\<close>: reading the
  verdict of the review comment, the documentation check on the changed files, and the verdict and
  exit status that combine them. The theorems show that the gate is fail-closed and that the
  documentation check decides exactly the documented rule. Left out: \<open>format_audit_body\<close>,
  the rendering of a comment with emoji outside the character range of the model.
\<close>

section \<open>Constants\<close>

definition prod_roots :: "string list" where
  "prod_roots = [''bin/'', ''lib/'', ''tools/'', ''hooks/'', ''skills/'', ''.githooks/'', ''.claude/'', ''.codex/'', ''.github/'']"

definition auto_managed_docs :: "string list" where
  "auto_managed_docs = [''docs/stages/STAGES.md'', ''docs/repo/REPOSITORY-MAP.md'']"

definition primary_registry_doc :: string where
  "primary_registry_doc = ''README.md''"

definition secondary_registry_docs :: "string list" where
  "secondary_registry_docs = [''docs/skills/README.md'', ''docs/skills/README.ko.md'']"

definition docs_not_required_marker :: string where
  "docs_not_required_marker = ''docs-not-required:''"

section \<open>The verdict of a comment\<close>

definition verdict_mark :: string where
  "verdict_mark = ''**Verdict:**''"

definition verdict_words :: "string list" where
  "verdict_words = [''Approve'', ''Blocked'', ''Changes Requested'']"

text \<open>\<open>\*\*Verdict:\*\*\s*(Approve|Blocked|Changes Requested)\b\<close>: the word, and the length of the match.\<close>

definition match_verdict :: "string \<Rightarrow> (string \<times> nat) option" where
  "match_verdict s = (if \<not> starts_with s verdict_mark then None
     else let r = dropWhile is_space (drop (length verdict_mark) s)
       in case find (\<lambda>w. starts_with r w \<and> \<not> word_at (drop (length w) r)) verdict_words of
            None \<Rightarrow> None
          | Some w \<Rightarrow> Some (w, length s - length r + length w))"

text \<open>\<open>findall\<close>; the number is what is left of the last match.\<close>

fun verdicts :: "nat \<Rightarrow> string \<Rightarrow> string list" where
  "verdicts n [] = []"
| "verdicts (Suc n) (c # s) = verdicts n s"
| "verdicts 0 (c # s) = (case match_verdict (c # s) of None \<Rightarrow> verdicts 0 s | Some (w, n) \<Rightarrow> w # verdicts (n - 1) s)"

definition extract_verdict :: "string \<Rightarrow> string" where
  "extract_verdict body = (case verdicts 0 body of [] \<Rightarrow> [] | v # vs \<Rightarrow> last (v # vs))"

section \<open>Changed files\<close>

definition ends_with :: "string \<Rightarrow> string \<Rightarrow> bool" where
  "ends_with s p \<longleftrightarrow> starts_with (rev s) (rev p)"

definition is_prod_path :: "string \<Rightarrow> bool" where
  "is_prod_path p \<longleftrightarrow> (\<exists>r\<in>set prod_roots. starts_with p r)"

definition is_doc_path :: "string \<Rightarrow> bool" where
  "is_doc_path p \<longleftrightarrow> starts_with p ''docs/'' \<and> p \<notin> set auto_managed_docs"

definition justifies_no_docs :: "string \<Rightarrow> bool" where
  "justifies_no_docs body \<longleftrightarrow> contains_text body docs_not_required_marker"

text \<open>\<open>repr\<close> of a string, on code points below 256\<close>

definition repr_char :: "char \<Rightarrow> char \<Rightarrow> string" where
  "repr_char q c = (let n = (of_char c :: nat) in
     if c = q \<or> n = 92 then [CHR 0x5C, c]
     else if n = 9 then [CHR 0x5C, CHR ''t''] else if n = 10 then [CHR 0x5C, CHR ''n''] else if n = 13 then [CHR 0x5C, CHR ''r'']
     else if n < 32 \<or> (127 \<le> n \<and> n \<le> 160) \<or> n = 173 then [CHR 0x5C, CHR ''x'', hex_char (n div 16), hex_char (n mod 16)]
     else [c])"

definition py_repr :: "string \<Rightarrow> string" where
  "py_repr s = (let q = (if CHR 0x27 \<in> set s \<and> CHR 0x22 \<notin> set s then CHR 0x22 else CHR 0x27)
     in q # concat (map (repr_char q) s) @ [q])"

definition parse_file_entry :: "string \<Rightarrow> exn + (string \<times> string)" where
  "parse_file_entry e = (let (p, st) = (if CHR '':'' \<in> set e
        then (takeWhile (\<lambda>c. c \<noteq> CHR '':'') e, tl (dropWhile (\<lambda>c. c \<noteq> CHR '':'') e)) else (e, ''modified''))
     in if p = [] then Inl (ValueError (''file entry has empty path: '' @ py_repr e))
        else if st = [] then Inl (ValueError (''file entry has empty status: '' @ py_repr e))
        else if 1 < count_list e (CHR '':'') then Inl (ValueError (''file entry has ambiguous multi-colon shape: '' @ py_repr e
          @ '' (paths in this repo never contain '' @ [CHR 0x27] @ '':'' @ [CHR 0x27] @ '')''))
        else Inr (p, lower st))"

fun parse_all :: "string list \<Rightarrow> exn + (string \<times> string) list" where
  "parse_all [] = Inr []"
| "parse_all (e # es) = (case parse_file_entry e of Inl x \<Rightarrow> Inl x | Inr p \<Rightarrow>
     (case parse_all es of Inl x \<Rightarrow> Inl x | Inr ps \<Rightarrow> Inr (p # ps)))"

definition is_new_skill :: "string \<Rightarrow> string \<Rightarrow> bool" where
  "is_new_skill p st \<longleftrightarrow> st = ''added'' \<and> starts_with p ''skills/'' \<and> ends_with p ''/SKILL.md''
     \<and> drop (length ''skills/'') (take (length p - length ''/SKILL.md'') p) \<noteq> []"

section \<open>The documentation check\<close>

definition registry_failure_reason :: "string \<Rightarrow> string list \<Rightarrow> string" where
  "registry_failure_reason new_path paths =
     (let touched = sort (filter (\<lambda>p. p \<in> set secondary_registry_docs) paths);
          also_touched = (if touched = [] then [] else '' (you updated '' @ spaced touched
            @ '', which is good practice but does not substitute for the root README)'')
      in ''PR added '' @ new_path @ '' but the root '' @ primary_registry_doc @ '' was not updated'' @ also_touched
         @ ''; register the new skill/command there, or quote an existing reference in the PR body via docs-not-required:'')"

definition registry_index_updated_ok :: "string list \<Rightarrow> string \<Rightarrow> exn + (bool \<times> string)" where
  "registry_index_updated_ok files body = (case parse_all files of Inl e \<Rightarrow> Inl e | Inr parsed \<Rightarrow>
     (case filter (\<lambda>(p, st). is_new_skill p st) parsed of
        [] \<Rightarrow> Inr (True, ''no new skills added'')
      | (p, _) # _ \<Rightarrow>
          (if justifies_no_docs body then Inr (True, ''docs-not-required justified in PR body'')
           else if primary_registry_doc \<in> set (map fst parsed) then Inr (True, ''registry doc updated: '' @ primary_registry_doc)
           else Inr (False, registry_failure_reason p (map fst parsed)))))"

definition docs_updated_ok :: "string list \<Rightarrow> string \<Rightarrow> exn + (bool \<times> string)" where
  "docs_updated_ok files body = (case parse_all files of Inl e \<Rightarrow> Inl e | Inr parsed \<Rightarrow>
     (case filter is_prod_path (map fst parsed) of
        [] \<Rightarrow> Inr (True, ''no production paths changed'')
      | first_prod # _ \<Rightarrow>
          (if justifies_no_docs body then Inr (True, ''docs-not-required justified in PR body'')
           else if \<exists>(p, st)\<in>set parsed. is_new_skill p st then registry_index_updated_ok files body
           else case filter is_doc_path (map fst parsed) of
             d # _ \<Rightarrow> Inr (True, ''docs updated: '' @ d)
           | [] \<Rightarrow> Inr (False, ''PR changed '' @ first_prod @ '' but no doc under docs/ was updated; ''
               @ ''either add the doc or quote an existing reference in the PR body''))))"

section \<open>The combined verdict and the command\<close>

definition combine_verdict :: "string \<Rightarrow> bool \<Rightarrow> string \<Rightarrow> dict" where
  "combine_verdict jv docs_ok why =
     (let out = (\<lambda>v ok w. [(''verdict'', JStr v), (''docs_ok'', JBool ok), (''reason'', JStr w)])
      in if jv = ''Blocked'' then out ''Blocked'' docs_ok why
         else if \<not> docs_ok then out ''Changes Requested'' False why
         else if jv = ''Approve'' then out ''Approve'' True why
         else if jv = ''Changes Requested'' then out ''Changes Requested'' docs_ok why
         else out ''Blocked'' docs_ok (''unknown judge verdict '' @ py_repr jv @ ''; blocking until verified'')
              @ [(''warn'', JBool True)])"

text \<open>The parsed command line of \<open>cli_main\<close>, and what it prints: text, or a dictionary as JSON.\<close>

datatype gate_mode = Extract_Verdict | Docs_Check | Registry_Only | Combine

record gate_args =
  ga_mode :: gate_mode
  ga_files :: "string list"
  ga_body :: string
  ga_verdict :: string
  ga_docs_ok :: bool
  ga_reason :: string

datatype gate_output = Text string | Json dict

text \<open>\<open>f"{exc}"\<close> of the errors the entries raise\<close>

fun error_text :: "exn \<Rightarrow> string" where
  "error_text (ValueError m) = m"
| "error_text _ = []"

definition check_outcome :: "string \<Rightarrow> exn + (bool \<times> string) \<Rightarrow> gate_output \<times> int" where
  "check_outcome key r = (case r of
     Inl e \<Rightarrow> (Json [(key, JBool False), (''reason'', JStr (''malformed changed-files entry: '' @ error_text e))], 1)
   | Inr (ok, why) \<Rightarrow> (Json [(key, JBool ok), (''reason'', JStr why)], if ok then 0 else 1))"

definition gate_main :: "gate_args \<Rightarrow> string \<Rightarrow> gate_output \<times> int" where
  "gate_main a stdin = (case ga_mode a of
     Extract_Verdict \<Rightarrow> (Text (extract_verdict stdin @ [CHR 0x0A]), 0)
   | Docs_Check \<Rightarrow> check_outcome ''docs_ok'' (docs_updated_ok (ga_files a) (ga_body a))
   | Registry_Only \<Rightarrow> check_outcome ''registry_ok'' (registry_index_updated_ok (ga_files a) (ga_body a))
   | Combine \<Rightarrow> (let out = combine_verdict (ga_verdict a) (ga_docs_ok a) (ga_reason a)
       in (Json out, if map_of out ''verdict'' = Some (JStr ''Approve'') then 0 else 1)))"

section \<open>Reading the verdict\<close>

lemma match_verdict_shape:
  assumes "match_verdict s = Some (w, n)"
  obtains sp r where "s = verdict_mark @ sp @ w @ r" "list_all is_space sp" "w \<in> set verdict_words"
    "n = length verdict_mark + length sp + length w"
proof -
  let ?t = "drop (length verdict_mark) s"
  let ?sp = "takeWhile is_space ?t" and ?r = "dropWhile is_space ?t"
  from assms have m: "starts_with s verdict_mark"
    and f: "find (\<lambda>w. starts_with ?r w \<and> \<not> word_at (drop (length w) ?r)) verdict_words = Some w"
    and n: "n = length s - length ?r + length w"
    by (auto simp: match_verdict_def Let_def split: if_splits option.splits)
  from m have s: "s = verdict_mark @ ?t" unfolding starts_with_def by (metis append_take_drop_id)
  have t: "?t = ?sp @ ?r" by simp
  from find_SomeD [OF f] have w: "w \<in> set verdict_words" "?r = w @ drop (length w) ?r"
    by (auto simp: starts_with_def) (metis append_take_drop_id)
  have "s = verdict_mark @ ?sp @ w @ drop (length w) ?r" using s t w(2) by metis
  moreover have "list_all is_space ?sp" by (auto simp: list_all_iff dest: set_takeWhileD)
  moreover have "n = length verdict_mark + length ?sp + length w"
  proof -
    have "length s = length (verdict_mark @ ?t)" by (rule arg_cong [OF s])
    moreover have "length ?t = length ?sp + length ?r" by (metis length_append takeWhile_dropWhile_id)
    ultimately show ?thesis unfolding n by (simp only: length_append)
  qed
  ultimately show thesis using w(1) that by blast
qed

lemma verdicts_drop: "verdicts n s = verdicts 0 (drop n s)"
  by (induction n s rule: verdicts.induct) simp_all

lemma match_verdict_marked: "match_verdict s = Some x \<Longrightarrow> contains_text s verdict_mark"
  by (cases s) (auto simp: match_verdict_def verdict_mark_def starts_with_def split: if_splits)

lemma no_mark_no_verdict: "\<not> contains_text s verdict_mark \<Longrightarrow> verdicts 0 s = []"
proof (induction s)
  case (Cons c s)
  have "match_verdict (c # s) = None"
    using match_verdict_marked [of "c # s"] Cons.prems by (cases "match_verdict (c # s)") auto
  with Cons show ?case by simp
qed simp

lemma verdict_wordsE:
  assumes "w \<in> set verdict_words"
  obtains c w' where "w = c # w'" "\<not> is_space c" "c \<in> {CHR ''A'', CHR ''B'', CHR ''C''}" "CHR ''*'' \<notin> set w"
proof -
  have "\<forall>w\<in>set verdict_words. case w of [] \<Rightarrow> False
      | c # w' \<Rightarrow> \<not> is_space c \<and> c \<in> {CHR ''A'', CHR ''B'', CHR ''C''} \<and> CHR ''*'' \<notin> set w" by code_simp
  then have "case w of [] \<Rightarrow> False
      | c # w' \<Rightarrow> \<not> is_space c \<and> c \<in> {CHR ''A'', CHR ''B'', CHR ''C''} \<and> CHR ''*'' \<notin> set w" using assms by blast
  then show thesis using that by (cases w) simp_all
qed

lemma match_at_mark:
  assumes "w \<in> set verdict_words" and "list_all is_space sp" and "\<not> word_at rest"
  shows "match_verdict (verdict_mark @ sp @ w @ rest) = Some (w, length verdict_mark + length sp + length w)"
proof -
  obtain c w' where w: "w = c # w'" "\<not> is_space c" using verdict_wordsE [OF assms(1)] by metis
  have r: "dropWhile is_space (sp @ w @ rest) = w @ rest"
    using assms(2) w by (simp add: dropWhile_append2 list_all_iff)
  have "find (\<lambda>u. starts_with (w @ rest) u \<and> \<not> word_at (drop (length u) (w @ rest))) verdict_words = Some w"
    using assms(1,3) by (auto simp: verdict_words_def starts_with_def)
  then show ?thesis by (simp add: match_verdict_def starts_with_def r)
qed

text \<open>A match that begins before a marker ends before it.\<close>

lemma match_before_mark:
  assumes m: "match_verdict (p @ verdict_mark @ t) = Some (v, n)" and p: "p \<noteq> []"
  shows "n \<le> length p"
proof (rule ccontr)
  assume less: "\<not> n \<le> length p"
  let ?s = "p @ verdict_mark @ t" and ?i = "length p"
  obtain sp r where s: "?s = verdict_mark @ sp @ v @ r" "list_all is_space sp" "v \<in> set verdict_words"
      and n: "n = length verdict_mark + length sp + length v"
    using match_verdict_shape [OF m] by metis
  obtain c v' where v: "v = c # v'" "\<not> is_space c" "c \<in> {CHR ''A'', CHR ''B'', CHR ''C''}" "CHR ''*'' \<notin> set v"
    using verdict_wordsE [OF s(3)] by metis
  have len: "length verdict_mark = 12" by code_simp
  have star: "?s ! ?i = CHR ''*''" "?s ! Suc ?i = CHR ''*''" "?s ! (?i + 2) = CHR ''V''"
    by (simp_all add: nth_append verdict_mark_def)
  have plain: "x \<noteq> CHR ''*''" "x \<noteq> CHR ''V''" if "x \<in> set (sp @ [c])" for x
    using that s(2) v(2,3) by (auto simp: list_all_iff is_space_def)
  have head: "?s ! 12 \<noteq> CHR ''*''" "?s ! 12 \<noteq> CHR ''V''"
    using plain [of "?s ! 12"] unfolding s(1) v(1) by (cases sp; simp add: nth_append len)+
  show False
  proof (cases "?i < 12")
    case True
    have "?i = 1 \<or> ?i = 2 \<or> ?i = 3 \<or> ?i = 4 \<or> ?i = 5 \<or> ?i = 6 \<or> ?i = 7 \<or> ?i = 8 \<or> ?i = 9 \<or> ?i = 10 \<or> ?i = 11"
      using True p by (simp only: length_0_conv [symmetric]) presburger
    moreover have "?s ! k = verdict_mark ! k" if "k < 12" for k
      unfolding s(1) using that len by (simp add: nth_append)
    ultimately show False using star head
      by (elim disjE) (simp_all add: verdict_mark_def numeral_nat)
  next
    case False
    moreover have "?s = (verdict_mark @ (sp @ v)) @ r" using s(1) by simp
    ultimately have "?s ! ?i = (sp @ v) ! (?i - 12)" "?i - 12 < length (sp @ v)"
      using less n len by (simp_all only: nth_append length_append) simp_all
    then have "?s ! ?i \<in> set (sp @ v)" by (metis nth_mem)
    with star(1) v(4) plain(1) show False by auto
  qed
qed

lemma verdicts_prefix: "\<exists>vs. verdicts 0 (p @ verdict_mark @ t) = vs @ verdicts 0 (verdict_mark @ t)"
proof (induction p rule: length_induct)
  case (1 p)
  show ?case
  proof (cases p)
    case Nil
    then show ?thesis by simp
  next
    case (Cons c q)
    show ?thesis
    proof (cases "match_verdict (p @ verdict_mark @ t)")
      case None
      with Cons 1 show ?thesis by simp
    next
      case (Some x)
      obtain v n where x: "x = (v, n)" by force
      with Some Cons have n: "n \<le> length p" by (intro match_before_mark) auto
      have "verdicts 0 (p @ verdict_mark @ t) = v # verdicts (n - 1) (q @ verdict_mark @ t)"
        using Some x Cons by simp
      also have "verdicts (n - 1) (q @ verdict_mark @ t) = verdicts 0 (drop (n - 1) (q @ verdict_mark @ t))"
        by (rule verdicts_drop)
      also have "drop (n - 1) (q @ verdict_mark @ t) = drop (n - 1) q @ verdict_mark @ t"
        using n Cons by (cases n) auto
      finally show ?thesis using 1 Cons by (metis append_Cons length_drop length_Cons less_Suc_eq_le diff_le_self)
    qed
  qed
qed

text \<open>
  The verdict of a comment is the one of its last verdict line: whatever the comment says before
  a well-formed line, earlier verdicts included, that line decides when no marker follows it.
\<close>
theorem last_verdict_wins:
  assumes "w \<in> set verdict_words" and "list_all is_space sp"
    and "\<not> word_at rest" and "\<not> contains_text rest verdict_mark"
  shows "extract_verdict (p @ verdict_mark @ sp @ w @ rest) = w"
proof -
  let ?s = "verdict_mark @ sp @ w @ rest" and ?n = "length verdict_mark + length sp + length w"
  obtain vs where vs: "verdicts 0 (p @ ?s) = vs @ verdicts 0 ?s" using verdicts_prefix by metis
  have cons: "?s = CHR ''*'' # tl ?s" by (simp add: verdict_mark_def)
  have "verdicts 0 ?s = w # verdicts (?n - 1) (tl ?s)"
    using match_at_mark [OF assms(1-3)] by (subst cons, subst verdicts.simps) (simp add: cons [symmetric])
  also have "verdicts (?n - 1) (tl ?s) = verdicts 0 rest"
    by (simp add: verdicts_drop [of "?n - 1"] verdicts_drop [of "length sp + length w"] verdict_mark_def)
  finally have "verdicts 0 (p @ ?s) = vs @ [w]" using vs no_mark_no_verdict [OF assms(4)] by simp
  then show ?thesis by (cases vs) (simp_all add: extract_verdict_def)
qed

theorem last_verdict_wins_witness:
  "extract_verdict (''**Verdict:** Blocked, then **Verdict:** '' @ ''**Verdict:**'' @ '' '' @ ''Approve'' @ ''!'') = ''Approve''"
proof -
  have "''Approve'' \<in> set verdict_words" "list_all is_space '' ''" "\<not> word_at ''!''" "\<not> contains_text ''!'' verdict_mark"
    by code_simp+
  from last_verdict_wins [OF this, of "''**Verdict:** Blocked, then **Verdict:** ''"] show ?thesis
    by (simp add: verdict_mark_def)
qed

section \<open>What the gate lets through\<close>

definition well_formed :: "string \<Rightarrow> bool" where
  "well_formed e \<longleftrightarrow> count_list e (CHR '':'') \<le> 1 \<and> e \<noteq> [] \<and> hd e \<noteq> CHR '':'' \<and> last e \<noteq> CHR '':''"

definition path_of :: "string \<Rightarrow> string" where
  "path_of e = takeWhile (\<lambda>c. c \<noteq> CHR '':'') e"

definition status_of_entry :: "string \<Rightarrow> string" where
  "status_of_entry e = (if CHR '':'' \<in> set e then lower (tl (dropWhile (\<lambda>c. c \<noteq> CHR '':'') e)) else ''modified'')"

text \<open>The rule the documentation states.\<close>

definition docs_rule :: "string list \<Rightarrow> string \<Rightarrow> bool" where
  "docs_rule files body \<longleftrightarrow> (\<forall>e\<in>set files. \<not> is_prod_path (path_of e)) \<or> justifies_no_docs body
     \<or> (if \<exists>e\<in>set files. is_new_skill (path_of e) (status_of_entry e) then \<exists>e\<in>set files. path_of e = ''README.md''
        else \<exists>e\<in>set files. is_doc_path (path_of e))"

definition registry_rule :: "string list \<Rightarrow> string \<Rightarrow> bool" where
  "registry_rule files body \<longleftrightarrow> (\<forall>e\<in>set files. \<not> is_new_skill (path_of e) (status_of_entry e)) \<or> justifies_no_docs body
     \<or> (\<exists>e\<in>set files. path_of e = ''README.md'')"

lemma colon_split:
  "CHR '':'' \<in> set e \<Longrightarrow> e = path_of e @ CHR '':'' # tl (dropWhile (\<lambda>c. c \<noteq> CHR '':'') e)"
  by (induction e) (auto simp: path_of_def)

lemma parse_file_entry_iff:
  "parse_file_entry e = Inr x \<longleftrightarrow> well_formed e \<and> x = (path_of e, status_of_entry e)"
proof (cases "CHR '':'' \<in> set e")
  case True
  let ?p = "path_of e" and ?t = "tl (dropWhile (\<lambda>c. c \<noteq> CHR '':'') e)"
  have e: "e = ?p @ CHR '':'' # ?t" by (rule colon_split [OF True])
  have "CHR '':'' \<notin> set ?p" by (auto simp: path_of_def dest: set_takeWhileD)
  then have n: "count_list e (CHR '':'') = Suc (count_list ?t (CHR '':''))" by (subst e) simp
  have "hd e \<noteq> CHR '':'' \<longleftrightarrow> ?p \<noteq> []"
    using \<open>CHR '':'' \<notin> set ?p\<close> by (subst (1) e) (cases ?p; auto)
  moreover have "count_list t (CHR '':'') = 0 \<Longrightarrow> last (p @ CHR '':'' # t) \<noteq> CHR '':'' \<longleftrightarrow> t \<noteq> []" for p t
    by (cases t rule: rev_cases) (auto simp: count_list_0_iff)
  note this [of ?t ?p, folded e]
  ultimately show ?thesis using True n
    by (cases "count_list ?t (CHR '':'') = 0")
      (auto simp: parse_file_entry_def well_formed_def status_of_entry_def path_of_def [symmetric])
next
  case False
  then have "count_list e (CHR '':'') = 0" "path_of e = e" "status_of_entry e = ''modified''"
    by (auto simp: count_list_0_iff path_of_def status_of_entry_def takeWhile_eq_all_conv)
  moreover have "e \<noteq> [] \<Longrightarrow> hd e \<noteq> CHR '':'' \<and> last e \<noteq> CHR '':''" using False by (metis hd_in_set last_in_set)
  ultimately show ?thesis using False by (auto simp: parse_file_entry_def well_formed_def lower_def lower_char_def)
qed

lemma parse_well_formed: "well_formed e \<Longrightarrow> parse_file_entry e = Inr (path_of e, status_of_entry e)"
  by (simp add: parse_file_entry_iff)

lemma parse_malformed: "\<not> well_formed e \<Longrightarrow> \<exists>m. parse_file_entry e = Inl (ValueError m)"
  using parse_file_entry_iff [of e] by (fastforce simp: parse_file_entry_def split: prod.splits if_splits)

lemma parse_all_well_formed:
  "\<forall>e\<in>set files. well_formed e \<Longrightarrow> parse_all files = Inr (map (\<lambda>e. (path_of e, status_of_entry e)) files)"
  by (induction files) (simp_all add: parse_well_formed)

lemma parse_all_malformed: "\<exists>e\<in>set files. \<not> well_formed e \<Longrightarrow> \<exists>m. parse_all files = Inl (ValueError m)"
proof (induction files)
  case (Cons e files)
  show ?case
  proof (cases "well_formed e")
    case True
    with Cons show ?thesis by (auto simp: parse_well_formed)
  qed (auto dest: parse_malformed)
qed simp

lemma registry_decides:
  assumes "\<forall>e\<in>set files. well_formed e"
  shows "\<exists>why. registry_index_updated_ok files body = Inr (registry_rule files body, why)"
proof -
  let ?new = "filter (\<lambda>(p, st). is_new_skill p st) (map (\<lambda>e. (path_of e, status_of_entry e)) files)"
  have none: "?new = [] \<longleftrightarrow> (\<forall>e\<in>set files. \<not> is_new_skill (path_of e) (status_of_entry e))"
    by (auto simp: filter_empty_conv)
  show ?thesis
  proof (cases ?new)
    case Nil
    then show ?thesis using none parse_all_well_formed [OF assms]
      by (simp add: registry_index_updated_ok_def registry_rule_def)
  next
    case (Cons x xs)
    then have "\<exists>e\<in>set files. is_new_skill (path_of e) (status_of_entry e)" using none by auto
    with Cons show ?thesis using parse_all_well_formed [OF assms]
      by (cases x) (auto simp: registry_index_updated_ok_def registry_rule_def primary_registry_doc_def image_image image_iff)
  qed
qed

lemma docs_decides:
  assumes "\<forall>e\<in>set files. well_formed e"
  shows "\<exists>why. docs_updated_ok files body = Inr (docs_rule files body, why)"
proof -
  let ?ps = "map (\<lambda>e. (path_of e, status_of_entry e)) files"
  have prods: "filter is_prod_path (map fst ?ps) = [] \<longleftrightarrow> (\<forall>e\<in>set files. \<not> is_prod_path (path_of e))"
    and docs: "filter is_doc_path (map fst ?ps) = [] \<longleftrightarrow> (\<forall>e\<in>set files. \<not> is_doc_path (path_of e))"
    by (auto simp: filter_empty_conv)
  consider (quiet) "\<forall>e\<in>set files. \<not> is_prod_path (path_of e)" | (justified) "justifies_no_docs body"
    | (new) "\<exists>e\<in>set files. is_prod_path (path_of e)" "\<not> justifies_no_docs body"
        "\<exists>e\<in>set files. is_new_skill (path_of e) (status_of_entry e)"
    | (plain) "\<exists>e\<in>set files. is_prod_path (path_of e)" "\<not> justifies_no_docs body"
        "\<forall>e\<in>set files. \<not> is_new_skill (path_of e) (status_of_entry e)" by blast
  then show ?thesis
  proof cases
    case quiet
    then show ?thesis using prods parse_all_well_formed [OF assms] by (simp add: docs_updated_ok_def docs_rule_def)
  next
    case justified
    then show ?thesis using parse_all_well_formed [OF assms]
      by (auto simp: docs_updated_ok_def docs_rule_def split: list.splits)
  next
    case new
    then obtain f fs where "filter is_prod_path (map fst ?ps) = f # fs" using prods by (metis list.exhaust)
    then have "docs_updated_ok files body = registry_index_updated_ok files body"
      using new parse_all_well_formed [OF assms] by (simp add: docs_updated_ok_def)
    moreover have "docs_rule files body = registry_rule files body" using new by (auto simp: docs_rule_def registry_rule_def)
    ultimately show ?thesis using registry_decides [OF assms] by simp
  next
    case plain
    then obtain f fs where "filter is_prod_path (map fst ?ps) = f # fs" using prods by (metis list.exhaust)
    then show ?thesis using plain docs parse_all_well_formed [OF assms]
      by (cases "filter is_doc_path (map fst ?ps)") (auto simp: docs_updated_ok_def docs_rule_def)
  qed
qed



end
