(* ===== verification/Control_Auth.thy ===== *)
theory Control_Auth
  imports Redaction Billing_Adapters
begin

text \<open>
  The tenant authentication of the control plane, \<open>services/control_api/auth.py\<close>: signed bearer
  tokens, and the tenant header of the local mode. \<open>hmac_raw\<close>, \<open>decode_json\<close> and
  \<open>show_value\<close> of \<open>pay_env\<close> are HMAC-SHA256, \<open>json.loads\<close> on bytes and
  \<open>str\<close> of floats and containers. \<open>AuthenticationError\<close> is a \<open>PermissionError\<close>.
\<close>

section \<open>URL-safe base 64\<close>

definition urlsafe :: "char \<Rightarrow> char" where
  "urlsafe c = (if c = CHR ''+'' then CHR ''-'' else if c = CHR ''/'' then CHR ''_'' else c)"

definition from_urlsafe :: "char \<Rightarrow> char" where
  "from_urlsafe c = (if c = CHR ''-'' then CHR ''+'' else if c = CHR ''_'' then CHR ''/'' else c)"

definition url_encode :: "string \<Rightarrow> string" where
  "url_encode s = rstrip_char (CHR ''='') (map urlsafe (b64_encode s))"

text \<open>
  \<open>binascii.a2b_base64\<close> without strict mode: characters outside the alphabet are skipped, complete
  padding ends the data. The numbers are the position in the group, the bits left over, and the padding.
\<close>

fun a2b :: "nat \<Rightarrow> nat \<Rightarrow> nat \<Rightarrow> string \<Rightarrow> string option" where
  "a2b q l p [] = (if q = 0 then Some [] else None)"
| "a2b q l p (c # s) =
     (if c = CHR ''='' then (if 2 \<le> q \<and> 4 \<le> q + (p + 1) then Some [] else a2b q l (if 2 \<le> q then p + 1 else p) s)
      else case b64_value c of
        None \<Rightarrow> a2b q l p s
      | Some v \<Rightarrow>
          (if q = 0 then a2b 1 v 0 s
           else if q = 1 then map_option (\<lambda>t. char_of (l * 4 + v div 16) # t) (a2b 2 (v mod 16) 0 s)
           else if q = 2 then map_option (\<lambda>t. char_of (l * 16 + v div 4) # t) (a2b 3 (v mod 4) 0 s)
           else map_option (\<lambda>t. char_of (l * 64 + v) # t) (a2b 0 0 0 s)))"

definition padding :: "nat \<Rightarrow> string" where
  "padding n = replicate (nat ((- int n) mod 4)) (CHR ''='')"

definition url_decode :: "string \<Rightarrow> string option" where
  "url_decode v = (if \<not> ascii v then None else a2b 0 0 0 (map from_urlsafe (v @ padding (length v))))"

section \<open>The authenticator\<close>

record authenticator =
  au_secret :: "string option"
  au_local :: bool
  au_ttl :: int

definition make_authenticator :: "string option \<Rightarrow> bool \<Rightarrow> int \<Rightarrow> exn + authenticator" where
  "make_authenticator secret local ttl = (case secret of
     Some s \<Rightarrow> if length s < 16 then Inl (ValueError ''CONTROL_API_TOKEN_SECRET must be at least 16 bytes'')
       else Inr \<lparr>au_secret = secret, au_local = local, au_ttl = ttl\<rparr>
   | None \<Rightarrow> Inr \<lparr>au_secret = secret, au_local = local, au_ttl = ttl\<rparr>)"

text \<open>\<open>^[A-Za-z0-9][A-Za-z0-9._:-]{0,127}$\<close>\<close>

definition alnum :: "char \<Rightarrow> bool" where
  "alnum c \<longleftrightarrow> is_letter c \<or> is_digit c"

definition tenant_text :: "string \<Rightarrow> bool" where
  "tenant_text t = (case t of [] \<Rightarrow> False
     | c # s \<Rightarrow> alnum c \<and> length s \<le> 127 \<and> list_all (\<lambda>c. alnum c \<or> c \<in> {CHR ''.'', CHR ''_'', CHR '':'', CHR ''-''}) s)"

definition validate_tenant :: "string \<Rightarrow> exn + unit" where
  "validate_tenant t = (if tenant_text t then Inr () else Inl (PermissionError ''invalid tenant identifier''))"

text \<open>\<open>json.dumps({"tenant_id": ..., "exp": ...}, separators=(",", ":"))\<close>\<close>

definition token_payload :: "string \<Rightarrow> int \<Rightarrow> string" where
  "token_payload tenant expires = ''{'' @ json_string ''tenant_id'' @ '':'' @ json_string tenant @ '','' @ json_string ''exp'' @ '':''
     @ dec_int expires @ ''}''"

definition token_signature :: "pay_env \<Rightarrow> string \<Rightarrow> string \<Rightarrow> string" where
  "token_signature env secret payload = hex_text (hmac_raw env secret payload)"

definition issue :: "pay_env \<Rightarrow> authenticator \<Rightarrow> string \<Rightarrow> int \<Rightarrow> exn + string" where
  "issue env a tenant now = (case validate_tenant tenant of Inl e \<Rightarrow> Inl e | Inr _ \<Rightarrow>
     (case au_secret a of
        Some (c # s) \<Rightarrow> (let p = url_encode (token_payload tenant (now + au_ttl a))
          in Inr (''Bearer '' @ p @ ''.'' @ token_signature env (c # s) p))
      | _ \<Rightarrow> Inl (PermissionError ''signed tokens require CONTROL_API_TOKEN_SECRET'')))"

definition bad_token :: exn where
  "bad_token = PermissionError ''invalid bearer token''"

text \<open>The \<open>try\<close> block: what it raises itself passes, any other listed exception becomes \<open>bad_token\<close>.\<close>

definition token_tenant :: "pay_env \<Rightarrow> json option \<Rightarrow> int \<Rightarrow> exn + string" where
  "token_tenant env payload now = (case payload of
     Some (JObj d) \<Rightarrow>
       (case (map_of d ''tenant_id'', map_of d ''exp'') of
          (Some t, Some x) \<Rightarrow>
            (case py_int x of
               Inl _ \<Rightarrow> Inl bad_token
             | Inr expires \<Rightarrow> if expires \<le> now then Inl (PermissionError ''bearer token expired'')
                 else Inr (py_str (show_value env) t))
        | _ \<Rightarrow> Inl bad_token)
   | _ \<Rightarrow> Inl bad_token)"

definition read_token :: "pay_env \<Rightarrow> string \<Rightarrow> string \<Rightarrow> int \<Rightarrow> exn + string" where
  "read_token env secret token now =
     (if CHR ''.'' \<notin> set token then Inl bad_token
      else let p = takeWhile (\<lambda>c. c \<noteq> CHR ''.'') token; sig = tl (dropWhile (\<lambda>c. c \<noteq> CHR ''.'') token)
        in if \<not> ascii sig \<or> token_signature env secret p \<noteq> sig then Inl bad_token
           else token_tenant env (Option.bind (url_decode p) (decode_json env)) now)"

definition given_text :: "string option \<Rightarrow> bool" where
  "given_text v \<longleftrightarrow> v \<noteq> None \<and> v \<noteq> Some []"

definition authenticate_tenant :: "pay_env \<Rightarrow> authenticator \<Rightarrow> string option \<Rightarrow> string option \<Rightarrow> int \<Rightarrow> exn + string" where
  "authenticate_tenant env a authorization hd_tenant now =
     (if given_text (au_secret a)
      then (if \<not> given_text authorization \<or> \<not> starts_with (the authorization) ''Bearer ''
            then Inl (PermissionError ''signed bearer authentication is required'')
            else case read_token env (the (au_secret a)) (strip (drop 7 (the authorization))) now of
              Inl e \<Rightarrow> Inl e
            | Inr t \<Rightarrow> (case validate_tenant t of Inl e \<Rightarrow> Inl e
                | Inr _ \<Rightarrow> if given_text hd_tenant \<and> hd_tenant \<noteq> Some t
                    then Inl (PermissionError ''tenant header does not match bearer token'') else Inr t))
      else if \<not> au_local a then Inl (PermissionError ''CONTROL_API_TOKEN_SECRET is not configured'')
      else if \<not> given_text hd_tenant then Inl (PermissionError ''X-Tenant-ID is required for Local Lite'')
      else case validate_tenant (the hd_tenant) of Inl e \<Rightarrow> Inl e | Inr _ \<Rightarrow> Inr (the hd_tenant))"

section \<open>Decoding inverts encoding\<close>

lemma from_urlsafe: "b64_value c \<noteq> None \<Longrightarrow> from_urlsafe (urlsafe c) = c"
  by (auto simp: from_urlsafe_def urlsafe_def b64_value_def)

lemma b64_shape:
  "\<exists>d k. b64_encode s = d @ replicate k (CHR ''='') \<and> (\<forall>c\<in>set d. b64_value c \<noteq> None) \<and> k = nat ((- int (length d)) mod 4)
    \<and> (s \<noteq> [] \<longrightarrow> d \<noteq> [])"
proof (induction s rule: b64_encode.induct)
  case 1
  show ?case by (intro exI [of _ "[]"] exI [of _ 0]) simp
next
  case (2 a)
  show ?case by (intro exI [of _ "map b64_char (take 2 (quad (of_char a) 0 0))"] exI [of _ 2])
      (auto simp: quad_def b64_value_char quad_bounds numeral_2_eq_2)
next
  case (3 a b)
  show ?case by (intro exI [of _ "map b64_char (take 3 (quad (of_char a) (of_char b) 0))"] exI [of _ 1])
      (auto simp: quad_def b64_value_char quad_bounds)
next
  case (4 a b c s)
  then obtain d k where d: "b64_encode s = d @ replicate k (CHR ''='')" "\<forall>c\<in>set d. b64_value c \<noteq> None"
      "k = nat ((- int (length d)) mod 4)" by blast
  have "nat ((- int (length (map b64_char (quad (of_char a) (of_char b) (of_char c)) @ d))) mod 4) = k"
  proof -
    have "(- 4 - x) mod 4 = - x mod (4::int)" for x by presburger
    then show ?thesis unfolding d(3) by (simp add: quad_def)
  qed
  with d show ?case
    by (intro exI [of _ "map b64_char (quad (of_char a) (of_char b) (of_char c)) @ d"] exI [of _ k])
      (auto simp: quad_def b64_value_char quad_bounds)
qed

lemma a2b_encode: "a2b 0 0 0 (b64_encode s) = Some s"
proof (induction s rule: b64_encode.induct)
  case (2 a)
  have "unquad (of_char a div 4) (of_char a mod 4 * 16) 0 0 = [a, char_of (0::nat), char_of (0::nat)]"
    using unquad_quad [of "of_char a" 0 0] by simp
  then show ?case by (simp add: quad_def b64_value_char b64_char_neq quad_bounds unquad_def)
next
  case (3 a b)
  have "unquad (of_char a div 4) (of_char a mod 4 * 16 + of_char b div 16) (of_char b mod 16 * 4) 0 = [a, b, char_of (0::nat)]"
    using unquad_quad [of "of_char a" "of_char b" 0] by simp
  then show ?case by (simp add: quad_def b64_value_char b64_char_neq quad_bounds unquad_def)
next
  case (4 a b c s)
  have "unquad (of_char a div 4) (of_char a mod 4 * 16 + of_char b div 16) (of_char b mod 16 * 4 + of_char c div 64)
      (of_char c mod 64) = [a, b, c]"
    using unquad_quad [of "of_char a" "of_char b" "of_char c"] by simp
  with 4 show ?case by (simp add: quad_def b64_value_char b64_char_neq quad_bounds unquad_def)
qed simp

lemma rstrip_padding: "c \<notin> set d \<Longrightarrow> rstrip_char c (d @ replicate k c) = d"
proof -
  assume c: "c \<notin> set d"
  have "dropWhile (\<lambda>x. x = c) (replicate k c @ rev d) = rev d"
    using c by (induction k) (cases "rev d", auto simp: rev_swap)
  then show ?thesis by (simp add: rstrip_char_def)
qed

text \<open>The characters a token is made of.\<close>

definition url_char :: "char \<Rightarrow> bool" where
  "url_char c \<longleftrightarrow> c \<noteq> CHR ''.'' \<and> c \<noteq> CHR ''='' \<and> \<not> is_space c \<and> (of_char c :: nat) < 128"

lemma url_char_urlsafe: "b64_value c \<noteq> None \<Longrightarrow> url_char (urlsafe c)"
  by (auto simp: url_char_def urlsafe_def is_space_def b64_value_def Let_def split: if_splits)

lemma url_encode_shape:
  obtains d where "url_encode s = map urlsafe d" "\<forall>c\<in>set d. b64_value c \<noteq> None"
    "b64_encode s = d @ padding (length d)" "s \<noteq> [] \<Longrightarrow> d \<noteq> []"
proof -
  from b64_shape [of s] obtain d k where d: "b64_encode s = d @ replicate k (CHR ''='')"
      "\<forall>c\<in>set d. b64_value c \<noteq> None" "k = nat ((- int (length d)) mod 4)" "s \<noteq> [] \<longrightarrow> d \<noteq> []" by blast
  have "CHR ''='' \<notin> set (map urlsafe d)" using d(2) url_char_urlsafe by (fastforce simp: url_char_def)
  then have "url_encode s = map urlsafe d"
    unfolding url_encode_def d(1) by (simp add: rstrip_padding urlsafe_def [of "CHR ''=''"] map_replicate)
  with d show thesis by (intro that) (auto simp: padding_def)
qed

lemma url_encode_chars: "c \<in> set (url_encode s) \<Longrightarrow> url_char c"
  using url_encode_shape [of s] url_char_urlsafe by (metis (no_types, lifting) in_set_conv_nth length_map nth_map nth_mem)

lemma url_decode_encode: "url_decode (url_encode s) = Some s"
proof -
  obtain d where d: "url_encode s = map urlsafe d" "\<forall>c\<in>set d. b64_value c \<noteq> None" "b64_encode s = d @ padding (length d)"
    using url_encode_shape by metis
  have "ascii (url_encode s)" using url_encode_chars [of _ s] by (auto simp: ascii_def list_all_iff url_char_def)
  moreover have "map from_urlsafe (map urlsafe d) = d" using d(2) from_urlsafe by (induction d) auto
  moreover have "map from_urlsafe (padding n) = padding n" for n
    by (simp add: padding_def map_replicate from_urlsafe_def)
  ultimately show ?thesis using d a2b_encode [of s] by (simp add: url_decode_def)
qed

lemma hex_text_ascii: "ascii (hex_text s)" "\<not> is_space c \<or> c \<notin> set (hex_text s)"
proof -
  have h: "(of_char (hex_char d) :: nat) < 128 \<and> \<not> is_space (hex_char d)" if "d < 16" for d
    using that by (auto simp: hex_char_def is_space_def Let_def)
  have "(of_char c :: nat) < 256" for c :: char by (metis of_char_mod_256 mod_less_divisor zero_less_numeral)
  then have d: "(of_char c :: nat) div 16 < 16" "(of_char c :: nat) mod 16 < 16" for c :: char
    by (simp_all add: less_mult_imp_div_less)
  show "ascii (hex_text s)" "\<not> is_space c \<or> c \<notin> set (hex_text s)"
    using h d by (auto simp: ascii_def hex_text_def list_all_iff)
qed

section \<open>Tokens\<close>

lemma issue_Inr:
  assumes "issue env a tenant now = Inr tok"
  obtains secret where "au_secret a = Some secret" "secret \<noteq> []" "tenant_text tenant"
    "tok = ''Bearer '' @ url_encode (token_payload tenant (now + au_ttl a)) @ ''.''
       @ token_signature env secret (url_encode (token_payload tenant (now + au_ttl a)))"
  using assms by (auto simp: issue_def validate_tenant_def Let_def split: sum.splits if_splits option.splits list.splits)

lemma strip_keeps: "(\<And>c. c \<in> set s \<Longrightarrow> \<not> is_space c) \<Longrightarrow> strip s = s"
  unfolding strip_def by (metis dropWhile_eq_self_iff hd_in_set rev_rev_ident set_rev)

lemma cut_at: "c \<notin> set p \<Longrightarrow> takeWhile (\<lambda>x. x \<noteq> c) (p @ c # t) = p" "c \<notin> set p \<Longrightarrow> dropWhile (\<lambda>x. x \<noteq> c) (p @ c # t) = c # t"
  by (induction p) auto

text \<open>
  C27. A token that was issued for a tenant authenticates exactly that tenant until it expires, with no
  tenant header or with that tenant's header: encoding, signature and expiry are read back as they were
  written. The decoder is assumed to read the payload back.
\<close>
theorem issued_token_authenticates:
  assumes "issue env a tenant now = Inr tok" and "later < now + au_ttl a" and "hd_tenant \<in> {None, Some [], Some tenant}"
    and "decode_json env (token_payload tenant (now + au_ttl a)) =
      Some (JObj [(''tenant_id'', JStr tenant), (''exp'', JInt (now + au_ttl a))])"
  shows "authenticate_tenant env a (Some tok) hd_tenant later = Inr tenant"
proof -
  obtain secret where i: "au_secret a = Some secret" "secret \<noteq> []" "tenant_text tenant"
    and tok: "tok = ''Bearer '' @ url_encode (token_payload tenant (now + au_ttl a)) @ ''.''
       @ token_signature env secret (url_encode (token_payload tenant (now + au_ttl a)))"
    using issue_Inr [OF assms(1)] by metis
  let ?p = "url_encode (token_payload tenant (now + au_ttl a))"
  let ?t = "?p @ ''.'' @ token_signature env secret ?p"
  have dot: "CHR ''.'' \<notin> set ?p" using url_encode_chars [of "CHR ''.''"] by (auto simp: url_char_def)
  have "strip ?t = ?t"
    using url_encode_chars hex_text_ascii(2)
    by (intro strip_keeps) (auto simp: url_char_def token_signature_def is_space_def [of "CHR ''.''"])
  moreover have "takeWhile (\<lambda>c. c \<noteq> CHR ''.'') ?t = ?p" "tl (dropWhile (\<lambda>c. c \<noteq> CHR ''.'') ?t) = token_signature env secret ?p"
    using cut_at [OF dot] by simp_all
  then have "read_token env secret ?t later = Inr tenant"
    using assms(2,4) hex_text_ascii(1) by (simp add: read_token_def token_tenant_def Let_def url_decode_encode token_signature_def)
  ultimately show ?thesis
    using i assms(3) tok by (auto simp: authenticate_tenant_def given_text_def validate_tenant_def starts_with_def)
qed

definition demo_auth_env :: pay_env where
  "demo_auth_env = \<lparr>hmac_raw = (\<lambda>k m. take 2 (k @ m)),
     decode_json = (\<lambda>b. if b = token_payload ''acme'' 160 then Some (JObj [(''tenant_id'', JStr ''acme''), (''exp'', JInt 160)]) else None),
     iso_time = (\<lambda>_. None), show_value = (\<lambda>_. []), fetch = (\<lambda>_ _ _ _. None)\<rparr>"

definition demo_auth :: authenticator where
  "demo_auth = \<lparr>au_secret = Some ''0123456789abcdef'', au_local = False, au_ttl = 60\<rparr>"

theorem issued_token_authenticates_witness:
  "\<exists>tok. issue demo_auth_env demo_auth ''acme'' 100 = Inr tok \<and> authenticate_tenant demo_auth_env demo_auth (Some tok) None 159 = Inr ''acme''"
proof -
  obtain tok where tok: "issue demo_auth_env demo_auth ''acme'' 100 = Inr tok"
    by (rule value_obtain [where m = "issue demo_auth_env demo_auth ''acme'' 100" and Q = "\<lambda>_. True"]) code_simp
  have "au_ttl demo_auth = 60" "decode_json demo_auth_env (token_payload ''acme'' 160) =
      Some (JObj [(''tenant_id'', JStr ''acme''), (''exp'', JInt 160)])"
    by (simp_all add: demo_auth_def demo_auth_env_def)
  then show ?thesis using issued_token_authenticates [OF tok, of 159 None] tok by simp
qed

lemma token_tenant_Inr:
  assumes "token_tenant env v now = Inr t"
  shows "\<exists>d x expires. v = Some (JObj d) \<and> map_of d ''exp'' = Some x \<and> py_int x = Inr expires \<and> now < expires
    \<and> map_option (py_str (show_value env)) (map_of d ''tenant_id'') = Some t"
  using assms by (auto simp: token_tenant_def split: option.splits json.splits sum.splits if_splits)

lemma token_tenant_Inl: "token_tenant env v now = Inl e \<Longrightarrow> \<exists>m. e = PermissionError m"
  by (auto simp: token_tenant_def bad_token_def split: option.splits json.splits sum.splits if_splits)

text \<open>A token with a valid signature whose payload names the tenant and has not expired.\<close>

definition signed_token :: "pay_env \<Rightarrow> string \<Rightarrow> string \<Rightarrow> int \<Rightarrow> string \<Rightarrow> bool" where
  "signed_token env k tok now t \<longleftrightarrow> (\<exists>p d x expires. tok = p @ ''.'' @ token_signature env k p
     \<and> Option.bind (url_decode p) (decode_json env) = Some (JObj d) \<and> map_of d ''exp'' = Some x \<and> py_int x = Inr expires
     \<and> now < expires \<and> map_option (py_str (show_value env)) (map_of d ''tenant_id'') = Some t)"

lemma cut_back: "c \<in> set s \<Longrightarrow> s = takeWhile (\<lambda>x. x \<noteq> c) s @ c # tl (dropWhile (\<lambda>x. x \<noteq> c) s)"
  by (induction s) auto

lemma read_token_signed:
  assumes "read_token env k tok now = Inr t"
  shows "signed_token env k tok now t"
proof -
  let ?p = "takeWhile (\<lambda>c. c \<noteq> CHR ''.'') tok"
  have dot: "CHR ''.'' \<in> set tok" and s: "tl (dropWhile (\<lambda>c. c \<noteq> CHR ''.'') tok) = token_signature env k ?p"
    and t: "token_tenant env (Option.bind (url_decode ?p) (decode_json env)) now = Inr t"
    using assms by (simp_all add: read_token_def Let_def split: if_splits)
  have "tok = ?p @ ''.'' @ token_signature env k ?p" using cut_back [OF dot] s by simp
  with token_tenant_Inr [OF t] show ?thesis unfolding signed_token_def by blast
qed

lemma read_token_Inl: "read_token env k tok now = Inl e \<Longrightarrow> \<exists>m. e = PermissionError m"
  using token_tenant_Inl by (auto simp: read_token_def bad_token_def Let_def split: if_splits)

text \<open>
  Where a secret is configured, a request enters a tenant only with a token whose signature is the
  keyed digest of its payload, whose payload names that tenant and has not expired, and whose header, if
  present, agrees; a request that does not enter gets an authentication error and nothing else.
\<close>
theorem tenant_needs_signature:
  assumes "given_text (au_secret a)"
  shows "(authenticate_tenant env a authorization hd_tenant now = Inr t \<longrightarrow>
      signed_token env (the (au_secret a)) (strip (drop 7 (the authorization))) now t
      \<and> tenant_text t \<and> hd_tenant \<in> {None, Some [], Some t})
    \<and> (authenticate_tenant env a authorization hd_tenant now = Inl e \<longrightarrow> (\<exists>m. e = PermissionError m))"
  using assms by (auto simp: authenticate_tenant_def validate_tenant_def given_text_def split: if_splits sum.splits
      dest: read_token_signed read_token_Inl)

theorem tenant_needs_signature_witness:
  "given_text (au_secret demo_auth) \<and> authenticate_tenant demo_auth_env demo_auth (Some ''Bearer e30.00'') None 5 \<noteq> Inr ''acme''"
proof -
  have g: "given_text (au_secret demo_auth)" by (simp add: given_text_def demo_auth_def)
  have "strip (drop 7 ''Bearer e30.00'') = ''e30.00''" by code_simp
  moreover have "\<not> signed_token demo_auth_env ''0123456789abcdef'' ''e30.00'' 5 ''acme''"
  proof
    assume "signed_token demo_auth_env ''0123456789abcdef'' ''e30.00'' 5 ''acme''"
    then obtain p where e: "p @ ''.'' @ token_signature demo_auth_env ''0123456789abcdef'' p = ''e30.00''"
      unfolding signed_token_def by metis
    have "token_signature demo_auth_env ''0123456789abcdef'' p = ''3031''"
      by (simp add: token_signature_def demo_auth_env_def) code_simp
    with e show False by (cases p rule: rev_cases) (auto simp: append_eq_Cons_conv)
  qed
  moreover have "the (au_secret demo_auth) = ''0123456789abcdef''" by (simp add: demo_auth_def)
  ultimately show ?thesis
    using tenant_needs_signature [OF g, of demo_auth_env "Some ''Bearer e30.00''" None 5 "''acme''"] g by auto
qed

end
