(* ===== verification/Delivery.thy ===== *)
theory Delivery
  imports Kernel_Redaction
begin

text \<open>
  The context cache (\<open>agent_platform/cache.py\<close>), the signed delivery requests
  (\<open>services/delivery_gateway/gateway.py\<close>) and the review artifacts
  (\<open>services/delivery_gateway/artifact.py\<close>). Parameters: SHA-256 and HMAC-SHA256 as functions to
  hex digests, and the rendering of floats.
\<close>

record digest_env =
  dg_sha :: "string \<Rightarrow> string"
  dg_hmac :: "string \<Rightarrow> string \<Rightarrow> string"
  dg_float :: "rat \<Rightarrow> string"

section \<open>The context cache\<close>

record cache_lookup =
  cl_key :: string
  cl_value :: dict
  cl_hit :: bool

type_synonym context_cache = "(string \<times> dict) list"

definition context_text :: "digest_env \<Rightarrow> dict \<Rightarrow> string" where
  "context_text env ctx = json_text (dg_float env) (JObj (redact_dict ctx))"

definition key_for :: "digest_env \<Rightarrow> dict \<Rightarrow> string" where
  "key_for env ctx = dg_sha env (context_text env ctx)"

definition get_or_put :: "digest_env \<Rightarrow> dict \<Rightarrow> context_cache \<Rightarrow> cache_lookup \<times> context_cache" where
  "get_or_put env ctx cache = (let k = key_for env ctx in case map_of cache k of
     Some v \<Rightarrow> (\<lparr>cl_key = k, cl_value = v, cl_hit = True\<rparr>, cache)
   | None \<Rightarrow> (let safe = redact_dict ctx in
       (\<lparr>cl_key = k, cl_value = safe, cl_hit = False\<rparr>, AList.update k safe cache)))"

fun serve_all :: "digest_env \<Rightarrow> dict list \<Rightarrow> context_cache \<Rightarrow> cache_lookup list \<times> context_cache" where
  "serve_all env [] cache = ([], cache)"
| "serve_all env (ctx # cs) cache = (let (l, c1) = get_or_put env ctx cache; (ls, c2) = serve_all env cs c1 in (l # ls, c2))"

text \<open>Every entry is filed under the digest of its own text.\<close>

definition filed :: "digest_env \<Rightarrow> context_cache \<Rightarrow> bool" where
  "filed env cache \<longleftrightarrow> (\<forall>(k, v)\<in>set cache. \<exists>ctx. v = redact_dict ctx \<and> k = key_for env ctx)"

lemma get_or_put_filed:
  assumes "filed env cache"
  shows "filed env (snd (get_or_put env ctx cache))"
proof -
  have "set (AList.update k v cache) \<subseteq> insert (k, v) (set cache)" for k v
    by (induction cache) auto
  with assms show ?thesis
    by (fastforce simp: get_or_put_def filed_def Let_def split: option.splits)
qed

lemma get_or_put_text:
  assumes "filed env cache" and "inj (dg_sha env)"
  shows "json_text (dg_float env) (JObj (cl_value (fst (get_or_put env ctx cache)))) = context_text env ctx"
proof (cases "map_of cache (key_for env ctx)")
  case (Some v)
  then obtain c where "v = redact_dict c" "key_for env ctx = key_for env c"
    using assms(1) by (fastforce simp: filed_def dest: map_of_SomeD)
  then have "context_text env ctx = context_text env c" using assms(2) by (auto simp: key_for_def dest: injD)
  with Some \<open>v = redact_dict c\<close> show ?thesis by (simp add: get_or_put_def context_text_def)
qed (simp add: get_or_put_def context_text_def Let_def)

text \<open>
  C28. The cache is transparent: serving any sequence of contexts through it gives, context by context,
  the text that redacting each context on its own gives, and it is a hit exactly when the same text was
  served before. The digest is assumed to have no collisions.
\<close>
theorem cache_is_transparent:
  assumes "inj (dg_sha env)"
  shows "map (\<lambda>l. json_text (dg_float env) (JObj (cl_value l))) (fst (serve_all env cs [])) = map (context_text env) cs
    \<and> map cl_hit (fst (serve_all env cs [])) = map (\<lambda>i. context_text env (cs ! i) \<in> context_text env ` set (take i cs)) [0..<length cs]"
proof -
  define seen where "seen cache T \<longleftrightarrow> filed env cache \<and> (\<forall>t. map_of cache (dg_sha env t) \<noteq> None \<longleftrightarrow> t \<in> T)" for cache T
  have step: "seen (snd (get_or_put env ctx cache)) (insert (context_text env ctx) T)
      \<and> (cl_hit (fst (get_or_put env ctx cache)) \<longleftrightarrow> context_text env ctx \<in> T)" if "seen cache T" for ctx cache T
  proof -
    have m: "map_of cache (key_for env ctx) \<noteq> None \<longleftrightarrow> context_text env ctx \<in> T" and "filed env cache"
      using that by (simp_all add: seen_def key_for_def)
    moreover have "dg_sha env t = key_for env ctx \<longleftrightarrow> t = context_text env ctx" for t
      using injD [OF assms] by (auto simp: key_for_def)
    ultimately show ?thesis using that get_or_put_filed [of env cache ctx]
      by (cases "map_of cache (key_for env ctx)")
        (auto simp: seen_def get_or_put_def Let_def update_conv' insert_absorb)
  qed
  have "map (\<lambda>l. json_text (dg_float env) (JObj (cl_value l))) (fst (serve_all env cs cache)) = map (context_text env) cs
      \<and> map cl_hit (fst (serve_all env cs cache)) =
        map (\<lambda>i. context_text env (cs ! i) \<in> T \<union> context_text env ` set (take i cs)) [0..<length cs]"
    if "seen cache T" for cs cache T
    using that
  proof (induction cs arbitrary: cache T)
    case (Cons ctx cs)
    obtain l c1 where l: "get_or_put env ctx cache = (l, c1)" by force
    have s: "seen c1 (insert (context_text env ctx) T)" "cl_hit l \<longleftrightarrow> context_text env ctx \<in> T"
      using step [OF Cons.prems, of ctx] l by simp_all
    have t: "json_text (dg_float env) (JObj (cl_value l)) = context_text env ctx"
      using get_or_put_text [of env cache ctx] Cons.prems assms l by (simp add: seen_def)
    have "[0..<length (ctx # cs)] = 0 # map Suc [0..<length cs]" by (simp add: upt_conv_Cons map_Suc_upt del: upt_Suc)
    with Cons.IH [OF s(1)] s(2) t l show ?case by (auto simp: split_beta simp del: upt_Suc json_text.simps)
  qed simp
  from this [of "[]" "{}" cs] show ?thesis by (simp add: seen_def filed_def)
qed

theorem cache_is_transparent_witness:
  "map cl_hit (fst (serve_all \<lparr>dg_sha = (\<lambda>s. s), dg_hmac = (\<lambda>k m. k @ m), dg_float = (\<lambda>_. [])\<rparr>
     [[(''q'', JStr ''token: abc'')], [(''q'', JStr ''token: xyz'')]] [])) = [False, True]"
proof -
  let ?env = "\<lparr>dg_sha = (\<lambda>s. s), dg_hmac = (\<lambda>k m. k @ m), dg_float = (\<lambda>_. [])\<rparr> :: digest_env"
  have same: "context_text ?env [(''q'', JStr ''token: abc'')] = context_text ?env [(''q'', JStr ''token: xyz'')]" by code_simp
  have "inj (dg_sha ?env)" by simp
  from cache_is_transparent [OF this, of "[[(''q'', JStr ''token: abc'')], [(''q'', JStr ''token: xyz'')]]"] same
  show ?thesis by (simp add: upt_rec)
qed

section \<open>Signed delivery requests\<close>

record delivery_request =
  dr_id :: string
  dr_run :: string
  dr_tenant :: string
  dr_artifact :: string
  dr_action :: string
  dr_approval :: string
  dr_signature :: string

record signed_request =
  sd_request :: delivery_request
  sd_digest :: string

text \<open>\<open>DeliveryGateway.__init__\<close>: the gateway is its key.\<close>

definition make_gateway :: "string \<Rightarrow> exn + string" where
  "make_gateway key = (if key = [] then Inl (ValueError ''delivery signing key must be supplied explicitly'') else Inr key)"

definition delivery_body :: "digest_env \<Rightarrow> string \<Rightarrow> string \<Rightarrow> string \<Rightarrow> string \<Rightarrow> string \<Rightarrow> string \<Rightarrow> string" where
  "delivery_body env rid run tenant artifact action approval = json_text (dg_float env) (JObj
     [(''request_id'', JStr rid), (''run_id'', JStr run), (''tenant_id'', JStr tenant), (''artifact_hash'', JStr artifact),
      (''action'', JStr action), (''approval_token_id'', JStr approval)])"

definition sign_request :: "digest_env \<Rightarrow> string \<Rightarrow> string \<Rightarrow> string \<Rightarrow> string \<Rightarrow> string \<Rightarrow> string \<Rightarrow> signed_request" where
  "sign_request env key rid run tenant artifact approval =
     (let d = dg_sha env (delivery_body env rid run tenant artifact ''deliver_patch'' approval)
      in \<lparr>sd_request = \<lparr>dr_id = rid, dr_run = run, dr_tenant = tenant, dr_artifact = artifact, dr_action = ''deliver_patch'',
             dr_approval = approval, dr_signature = dg_hmac env key d\<rparr>, sd_digest = d\<rparr>)"

definition compare_digest :: "string \<Rightarrow> string \<Rightarrow> exn + bool" where
  "compare_digest a b = (if ascii a \<and> ascii b then Inr (a = b)
     else Inl (TypeError ''comparing strings with non-ASCII characters is not supported''))"

definition validate_request :: "digest_env \<Rightarrow> string \<Rightarrow> signed_request \<Rightarrow> exn + bool" where
  "validate_request env key s =
     (let r = sd_request s;
          d = dg_sha env (delivery_body env (dr_id r) (dr_run r) (dr_tenant r) (dr_artifact r) (dr_action r) (dr_approval r))
      in case compare_digest d (sd_digest s) of Inl e \<Rightarrow> Inl e
         | Inr ok \<Rightarrow> if ok then compare_digest (dg_hmac env key d) (dr_signature r) else Inr False)"

definition deliver :: "digest_env \<Rightarrow> string \<Rightarrow> signed_request \<Rightarrow> exn + string" where
  "deliver env key s = (case validate_request env key s of Inl e \<Rightarrow> Inl e
     | Inr ok \<Rightarrow> if ok then Inr ''accepted-for-manual-delivery'' else Inl (PermissionError ''invalid signed delivery request''))"

lemma delivery_body_text:
  "delivery_body env rid run tenant artifact action approval = ''{'' @
     json_string ''action'' @ '':'' @ json_string action @ '','' @
     json_string ''approval_token_id'' @ '':'' @ json_string approval @ '','' @
     json_string ''artifact_hash'' @ '':'' @ json_string artifact @ '','' @
     json_string ''request_id'' @ '':'' @ json_string rid @ '','' @
     json_string ''run_id'' @ '':'' @ json_string run @ '','' @
     json_string ''tenant_id'' @ '':'' @ json_string tenant @ ''}''"
proof -
  have "map snd (sort_key fst [(''request_id'', a), (''run_id'', b), (''tenant_id'', c), (''artifact_hash'', d), (''action'', e),
      (''approval_token_id'', f)]) = [e, f, d, a, b, c]" for a b c d e f :: string
    by code_simp
  then show ?thesis by (simp add: delivery_body_def)
qed

text \<open>A JSON string can be told from what follows it.\<close>

definition hex_code :: "nat \<Rightarrow> nat" where
  "hex_code d = (if d < 10 then 48 + d else 87 + d)"

definition json_code :: "nat \<Rightarrow> nat list" where
  "json_code n = (if n = 34 then [92, 34] else if n = 92 then [92, 92] else if n = 10 then [92, 110] else if n = 13 then [92, 114]
     else if n = 9 then [92, 116] else if n = 8 then [92, 98] else if n = 12 then [92, 102]
     else if 32 \<le> n \<and> n \<le> 126 then [n] else [92, 117, 48, 48, hex_code (n div 16), hex_code (n mod 16)])"

lemma below_256: "(of_char c :: nat) < 256"
  by (metis of_char_mod_256 mod_less_divisor zero_less_numeral)

lemma of_char_hex_char: "d < 16 \<Longrightarrow> (of_char (hex_char d) :: nat) = hex_code d"
  by (simp add: hex_char_def hex_code_def)

lemma json_char_code: "map of_char (json_char c) = json_code (of_char c)"
proof -
  have "(of_char c :: nat) div 16 < 16" "(of_char c :: nat) mod 16 < 16"
    using below_256 [of c] by (simp_all add: less_mult_imp_div_less)
  then show ?thesis by (simp add: json_char_def json_code_def Let_def of_char_hex_char del: of_char_eq_iff)
qed

lemma hex_code_inj: "a < 16 \<Longrightarrow> b < 16 \<Longrightarrow> hex_code a = hex_code b \<Longrightarrow> a = b"
  by (simp add: hex_code_def split: if_splits)

lemma json_code_cancel:
  assumes "json_code n @ u = json_code m @ v" and "n < 256" and "m < 256"
  shows "n = m \<and> u = v"
proof -
  have "n div 16 < 16" "n mod 16 < 16" "m div 16 < 16" "m mod 16 < 16" using assms(2,3) by simp_all
  then have hex: "n = m" if "hex_code (n div 16) = hex_code (m div 16)" "hex_code (n mod 16) = hex_code (m mod 16)"
    using that hex_code_inj by (metis div_mult_mod_eq)
  from assms(1) show ?thesis unfolding json_code_def using hex by (simp split: if_splits)
qed

lemma json_char_cancel: "json_char c @ u = json_char d @ v \<Longrightarrow> c = d \<and> u = v"
proof -
  assume e: "json_char c @ u = json_char d @ v"
  then have "map of_char (json_char c @ u) = (map of_char (json_char d @ v) :: nat list)" by simp
  then have "json_code (of_char c) @ map of_char u = json_code (of_char d) @ map of_char v"
    by (simp only: map_append json_char_code)
  then have "(of_char c :: nat) = of_char d" using json_code_cancel below_256 by blast
  then have "c = d" by simp
  with e show ?thesis by simp
qed

lemma json_char_no_quote: "json_char c @ u \<noteq> CHR 0x22 # v"
proof
  assume "json_char c @ u = CHR 0x22 # v"
  then have "map of_char (json_char c @ u) = (map of_char (CHR 0x22 # v) :: nat list)" by simp
  then show False by (simp only: map_append json_char_code) (simp add: json_code_def split: if_splits)
qed

lemma json_body_cancel:
  "concat (map json_char s) @ CHR 0x22 # x = concat (map json_char t) @ CHR 0x22 # y \<Longrightarrow> s = t \<and> x = y"
proof (induction s arbitrary: t)
  case Nil
  show ?case
  proof (cases t)
    case (Cons d t')
    with Nil have "json_char d @ (concat (map json_char t') @ CHR 0x22 # y) = CHR 0x22 # x" by simp
    then show ?thesis using json_char_no_quote by blast
  qed (use Nil in simp)
next
  case (Cons c s)
  show ?case
  proof (cases t)
    case Nil
    with Cons.prems have "json_char c @ (concat (map json_char s) @ CHR 0x22 # x) = CHR 0x22 # y" by simp
    then show ?thesis using json_char_no_quote by blast
  next
    case (Cons d t')
    with Cons.prems have "json_char c @ concat (map json_char s) @ CHR 0x22 # x = json_char d @ concat (map json_char t') @ CHR 0x22 # y"
      by simp
    from json_char_cancel [OF this] Cons.IH [of t'] Cons show ?thesis by simp
  qed
qed

lemma json_string_cancel: "json_string s @ x = json_string t @ y \<longleftrightarrow> s = t \<and> x = y"
  using json_body_cancel [of s x t y] by (auto simp: json_string_def)

lemma json_string_inj: "json_string s = json_string t \<longleftrightarrow> s = t"
  using json_string_cancel [of s "[]" t "[]"] by simp

lemma delivery_body_inj:
  "delivery_body env i r t h a p = delivery_body env i' r' t' h' a' p' \<longleftrightarrow>
     i = i' \<and> r = r' \<and> t = t' \<and> h = h' \<and> a = a' \<and> p = p'"
  by (auto simp: delivery_body_text json_string_cancel json_string_inj)

text \<open>
  C29. What the gateway signs it delivers, and a signature is good for nothing else: an accepted request
  that carries the signature of a signed one is that request, field by field, down to the digest. The
  digests are assumed to be ASCII and free of collisions.
\<close>
theorem signature_binds_request:
  assumes "inj (dg_sha env)" and "inj (dg_hmac env key)" and "\<And>m. ascii (dg_sha env m)" and "\<And>m. ascii (dg_hmac env key m)"
  shows "deliver env key (sign_request env key rid run tenant artifact approval) = Inr ''accepted-for-manual-delivery''
    \<and> (deliver env key s = Inr x \<and>
       dr_signature (sd_request s) = dr_signature (sd_request (sign_request env key rid run tenant artifact approval)) \<longrightarrow>
       s = sign_request env key rid run tenant artifact approval)"
proof (rule conjI, goal_cases)
  case 1
  show ?case using assms(3,4) by (simp add: deliver_def validate_request_def sign_request_def compare_digest_def Let_def)
next
  case 2
  show ?case
  proof (rule impI, elim conjE)
    let ?r = "sd_request s"
    let ?body = "delivery_body env (dr_id ?r) (dr_run ?r) (dr_tenant ?r) (dr_artifact ?r) (dr_action ?r) (dr_approval ?r)"
    assume d: "deliver env key s = Inr x"
      and sig: "dr_signature ?r = dr_signature (sd_request (sign_request env key rid run tenant artifact approval))"
    have v: "sd_digest s = dg_sha env ?body" "dr_signature ?r = dg_hmac env key (dg_sha env ?body)"
      using d by (auto simp: deliver_def validate_request_def compare_digest_def Let_def split: if_splits)
    have "dg_hmac env key (dg_sha env ?body) =
        dg_hmac env key (dg_sha env (delivery_body env rid run tenant artifact ''deliver_patch'' approval))"
      using sig by (simp add: v(2) [symmetric] sign_request_def Let_def)
    then have "?body = delivery_body env rid run tenant artifact ''deliver_patch'' approval"
      by (simp only: inj_eq [OF assms(1)] inj_eq [OF assms(2)])
    then have "dr_id ?r = rid" "dr_run ?r = run" "dr_tenant ?r = tenant" "dr_artifact ?r = artifact"
        "dr_action ?r = ''deliver_patch''" "dr_approval ?r = approval"
      unfolding delivery_body_inj by simp_all
    with v show "s = sign_request env key rid run tenant artifact approval"
      unfolding sign_request_def Let_def
      by (intro signed_request.equality delivery_request.equality) simp_all
  qed
qed

lemma ascii_json_string: "ascii (json_string s)"
proof -
  have "\<forall>x\<in>set (map of_char (json_char c) :: nat list). x < 128" for c
  proof -
    have "(of_char c :: nat) div 16 < 16" "(of_char c :: nat) mod 16 < 16"
      using below_256 [of c] by (simp_all add: less_mult_imp_div_less)
    then show ?thesis unfolding json_char_code by (auto simp: json_code_def hex_code_def)
  qed
  then show ?thesis by (auto simp: ascii_def json_string_def list_all_iff)
qed

definition demo_digests :: digest_env where
  "demo_digests = \<lparr>dg_sha = json_string, dg_hmac = (\<lambda>k. json_string), dg_float = (\<lambda>_. [])\<rparr>"

theorem signature_binds_request_witness:
  "deliver demo_digests ''k'' (sign_request demo_digests ''k'' ''d1'' ''r1'' ''t'' ''h'' ''a'') = Inr ''accepted-for-manual-delivery''"
proof -
  have "inj (dg_sha demo_digests)" "inj (dg_hmac demo_digests ''k'')"
    by (simp_all add: demo_digests_def inj_def json_string_inj)
  from signature_binds_request [OF this] show ?thesis by (simp add: demo_digests_def ascii_json_string)
qed

section \<open>Review artifacts\<close>

text \<open>\<open>json.dumps(value, sort_keys=True, indent=2)\<close>; the number is the depth.\<close>

definition new_line :: "nat \<Rightarrow> string" where
  "new_line n = CHR 0x0A # replicate (2 * n) (CHR '' '')"

fun broken :: "nat \<Rightarrow> string list \<Rightarrow> string" where
  "broken n [] = []"
| "broken n [x] = new_line n @ x"
| "broken n (x # xs) = new_line n @ x @ '','' @ broken n xs"

fun json_indented :: "(rat \<Rightarrow> string) \<Rightarrow> nat \<Rightarrow> json \<Rightarrow> string"
  and indented_list :: "(rat \<Rightarrow> string) \<Rightarrow> nat \<Rightarrow> json list \<Rightarrow> string list"
  and indented_members :: "(rat \<Rightarrow> string) \<Rightarrow> nat \<Rightarrow> dict \<Rightarrow> (string \<times> string) list" where
  "json_indented fr n JNull = ''null''"
| "json_indented fr n (JBool b) = (if b then ''true'' else ''false'')"
| "json_indented fr n (JInt i) = dec_int i"
| "json_indented fr n (JNum r) = fr r"
| "json_indented fr n (JStr s) = json_string s"
| "json_indented fr n (JList vs) = (if vs = [] then ''[]'' else ''['' @ broken (n + 1) (indented_list fr (n + 1) vs) @ new_line n @ '']'')"
| "json_indented fr n (JObj d) = (if d = [] then ''{}''
     else ''{'' @ broken (n + 1) (map snd (sort_key fst (indented_members fr (n + 1) d))) @ new_line n @ ''}'')"
| "indented_list fr n [] = []"
| "indented_list fr n (v # vs) = json_indented fr n v # indented_list fr n vs"
| "indented_members fr n [] = []"
| "indented_members fr n ((k, v) # d) = (k, json_string k @ '': '' @ json_indented fr n v) # indented_members fr n d"

record artifact =
  aw_id :: string
  aw_path :: string
  aw_digest :: string
  aw_bytes :: nat

text \<open>The directory is a map from paths to contents; writing a temporary file and renaming it is one step.\<close>

definition write_artifact :: "digest_env \<Rightarrow> string \<Rightarrow> string \<Rightarrow> dict \<Rightarrow> (string \<times> string) list \<Rightarrow>
    exn + (artifact \<times> (string \<times> string) list)" where
  "write_artifact env folder aid package files =
     (if aid = [] \<or> CHR ''/'' \<in> set aid \<or> CHR 0x5C \<in> set aid \<or> aid \<in> {''.'', ''..''}
      then Inl (ValueError ''artifact_id must be a path-safe identifier'')
      else let encoded = json_indented (dg_float env) 0 (JObj (redact_dict package)); d = dg_sha env encoded;
               target = folder @ ''/'' @ aid @ ''-'' @ take 16 d @ ''.json''
        in Inr (\<lparr>aw_id = aid, aw_path = target, aw_digest = d, aw_bytes = length encoded\<rparr>, AList.update target encoded files))"

text \<open>
  A written package stays inside the store's directory, can be read back under its path with the digest
  that was reported, and every other file is left as it was.
\<close>
lemma written_artifact:
  assumes "write_artifact env folder aid package files = Inr (a, files')" and "\<And>m. CHR ''/'' \<notin> set (dg_sha env m)"
  shows "\<exists>text name. aw_path a = folder @ ''/'' @ name \<and> CHR ''/'' \<notin> set name \<and> map_of files' (aw_path a) = Some text
    \<and> aw_digest a = dg_sha env text \<and> aw_bytes a = length text \<and> (\<forall>p. p \<noteq> aw_path a \<longrightarrow> map_of files' p = map_of files p)"
proof -
  let ?text = "json_indented (dg_float env) 0 (JObj (redact_dict package))"
  let ?name = "aid @ ''-'' @ take 16 (dg_sha env ?text) @ ''.json''"
  have "CHR ''/'' \<notin> set ?name" using assms by (auto simp: write_artifact_def split: if_splits dest: in_set_takeD)
  with assms(1) show ?thesis
    by (intro exI [of _ ?text] exI [of _ ?name]) (auto simp: write_artifact_def Let_def update_conv' split: if_splits)
qed

end
