(* ===== verification/Change_Plan.thy ===== *)
theory Change_Plan
  imports Prelude
begin

text \<open>
  The records of a proposed change that the project pack, the sandbox and the workflow exchange:
  requirements, evidence references, plan steps and plans of \<open>agent_platform/contracts.py\<close>, with
  \<open>dataclasses.asdict\<close> and the checks of their constructors.
\<close>

definition required :: "string \<Rightarrow> string \<Rightarrow> exn + unit" where
  "required v name = (if blank v then Inl (ValueError (name @ '' must be non-empty'')) else Inr ())"

fun all_required :: "(string \<times> string) list \<Rightarrow> exn + unit" where
  "all_required [] = Inr ()"
| "all_required ((v, name) # vs) = (case required v name of Inl e \<Rightarrow> Inl e | Inr _ \<Rightarrow> all_required vs)"

record requirement =
  re_id :: string
  re_title :: string
  re_description :: string
  re_acceptance :: "string list"
  re_source :: string
  re_supported :: bool

definition make_requirement :: "requirement \<Rightarrow> exn + requirement" where
  "make_requirement r = map_sum id (\<lambda>_. r) (all_required [(re_id r, ''requirement_id''), (re_title r, ''title''),
     (re_description r, ''description'')])"

record evidence =
  er_requirement :: string
  er_path :: string
  er_start :: int
  er_end :: int
  er_hash :: string
  er_symbol :: "string option"
  er_authorized :: bool
  er_valid :: bool

definition make_evidence :: "evidence \<Rightarrow> exn + evidence" where
  "make_evidence e = (case all_required [(er_requirement e, ''requirement_id''), (er_path e, ''path'')] of
     Inl x \<Rightarrow> Inl x
   | Inr _ \<Rightarrow> if er_start e < 1 \<or> er_end e < er_start e then Inl (ValueError ''evidence line range is invalid'')
       else map_sum id (\<lambda>_. e) (required (er_hash e) ''content_hash''))"

record plan_step =
  st_id :: string
  st_title :: string
  st_action :: string
  st_evidence :: "evidence list"
  st_impact :: string
  st_commands :: "string list"

record plan =
  pl_id :: string
  pl_requirements :: "requirement list"
  pl_steps :: "plan_step list"
  pl_runtime :: string
  pl_mode :: string
  pl_supported :: bool
  pl_unsupported :: "string option"
  pl_valid :: bool

text \<open>\<open>asdict\<close>\<close>

definition text_json :: "string option \<Rightarrow> json" where
  "text_json s = (case s of None \<Rightarrow> JNull | Some t \<Rightarrow> JStr t)"

definition requirement_dict :: "requirement \<Rightarrow> dict" where
  "requirement_dict r = [(''requirement_id'', JStr (re_id r)), (''title'', JStr (re_title r)), (''description'', JStr (re_description r)),
     (''acceptance'', JList (map JStr (re_acceptance r))), (''source_text'', JStr (re_source r)), (''supported'', JBool (re_supported r))]"

definition evidence_dict :: "evidence \<Rightarrow> dict" where
  "evidence_dict e = [(''requirement_id'', JStr (er_requirement e)), (''path'', JStr (er_path e)), (''start_line'', JInt (er_start e)),
     (''end_line'', JInt (er_end e)), (''content_hash'', JStr (er_hash e)), (''symbol'', text_json (er_symbol e)),
     (''authorized'', JBool (er_authorized e)), (''valid'', JBool (er_valid e))]"

definition step_dict :: "plan_step \<Rightarrow> dict" where
  "step_dict s = [(''step_id'', JStr (st_id s)), (''title'', JStr (st_title s)), (''action'', JStr (st_action s)),
     (''evidence'', JList (map (JObj \<circ> evidence_dict) (st_evidence s))), (''impact'', JStr (st_impact s)),
     (''commands'', JList (map JStr (st_commands s)))]"

definition plan_dict :: "plan \<Rightarrow> dict" where
  "plan_dict p = [(''plan_id'', JStr (pl_id p)), (''requirements'', JList (map (JObj \<circ> requirement_dict) (pl_requirements p))),
     (''steps'', JList (map (JObj \<circ> step_dict) (pl_steps p))), (''runtime'', JStr (pl_runtime p)), (''mode'', JStr (pl_mode p)),
     (''supported_runtime'', JBool (pl_supported p)), (''unsupported_reason'', text_json (pl_unsupported p)),
     (''valid_references'', JBool (pl_valid p))]"

lemma make_evidence_Inr: "make_evidence e = Inr x \<Longrightarrow> x = e \<and> 1 \<le> er_start e \<and> er_start e \<le> er_end e"
  by (auto simp: make_evidence_def map_sum_def split: sum.splits if_splits)

lemma make_requirement_Inr: "make_requirement r = Inr x \<Longrightarrow> x = r \<and> \<not> blank (re_id r)"
  by (auto simp: make_requirement_def map_sum_def required_def split: sum.splits if_splits)

section \<open>Relative paths\<close>

text \<open>
  \<open>Path(p).parts\<close> and \<open>as_posix()\<close> of \<open>pathlib.PurePosixPath\<close>: empty components and
  single dots disappear, an absolute path keeps its root (two slashes exactly keep both).
\<close>

fun path_split :: "string \<Rightarrow> string list" where
  "path_split [] = [[]]"
| "path_split (c # s) = (if c = CHR ''/'' then [] # path_split s
     else case path_split s of [] \<Rightarrow> [[c]] | w # ws \<Rightarrow> (c # w) # ws)"

definition path_parts :: "string \<Rightarrow> string list" where
  "path_parts p = filter (\<lambda>w. w \<noteq> [] \<and> w \<noteq> ''.'') (path_split p)"

definition path_root :: "string \<Rightarrow> string" where
  "path_root p = (if \<not> starts_with p ''/'' then [] else if starts_with p ''//'' \<and> \<not> starts_with p ''///'' then ''//'' else ''/'')"

fun slashed :: "string list \<Rightarrow> string" where
  "slashed [] = []"
| "slashed [w] = w"
| "slashed (w # ws) = w @ ''/'' @ slashed ws"

definition as_posix :: "string \<Rightarrow> string" where
  "as_posix p = (if path_root p = [] \<and> path_parts p = [] then ''.'' else path_root p @ slashed (path_parts p))"

text \<open>\<open>any(path == prefix or path.startswith(prefix + "/") for prefix in prefixes)\<close>\<close>

definition under_prefix :: "string \<Rightarrow> string list \<Rightarrow> bool" where
  "under_prefix p prefixes \<longleftrightarrow> (\<exists>x\<in>set prefixes. p = x \<or> starts_with p (x @ ''/''))"

end
