(* ===== verification/Sandbox.thy ===== *)
theory Sandbox
  imports Kernel_Store Change_Plan
begin

text \<open>
  The execution workers for approved changes, \<open>services/sandbox_worker/sandbox.py\<close>: the disposable
  workspace that is extracted from the approved commit, the deterministic and the process sandbox, and
  the list of commands that may run. The workspace is a map from relative paths to contents. Parameters,
  in \<open>sandbox_env\<close>: git, the tar reader, the processes that are run, the digest and the text of a
  patch; each may change the world outside and a process also the workspace.
\<close>

section \<open>Policy and results\<close>

record sandbox_policy =
  sp_paths :: "string list"
  sp_commands :: "string list"
  sp_network :: bool
  sp_max_seconds :: int
  sp_max_memory :: int
  sp_max_commands :: int
  sp_max_output :: int
  sp_max_files :: int
  sp_max_archive :: int

definition default_sandbox_policy :: sandbox_policy where
  "default_sandbox_policy = \<lparr>sp_paths = [''agent_platform'', ''services'', ''project_packs'', ''tests''],
     sp_commands = [''python3 -m pytest'', ''python3 -m compileall''], sp_network = False,
     sp_max_seconds = 60, sp_max_memory = 512, sp_max_commands = 8,
     sp_max_output = 32768, sp_max_files = 2048, sp_max_archive = 64 * 1024 * 1024\<rparr>"

record changed_file =
  cf_path :: string
  cf_status :: string
  cf_before :: "string option"
  cf_after :: "string option"
  cf_patch :: string

record repository_diff =
  df_commit :: string
  df_files :: "changed_file list"

record command_result =
  cr_command :: string
  cr_exit :: int
  cr_stdout :: string
  cr_stderr :: string
  cr_duration :: rat
  cr_timeout :: bool
  cr_offline :: bool

record simulation =
  sm_success :: bool
  sm_action :: string
  sm_detail :: string
  sm_workspace :: "string option"
  sm_commit :: "string option"
  sm_changed :: "string list"
  sm_diff :: "repository_diff option"
  sm_results :: "command_result list"
  sm_error :: "string option"

type_synonym files = "(string \<times> string) list"

text \<open>A \<open>SandboxFailure\<close>: its code and its text.\<close>

type_synonym failure = "string \<times> string"

definition fails_with :: "string \<Rightarrow> string \<Rightarrow> failure" where
  "fails_with code detail = (code, code @ '': '' @ detail)"

datatype member_kind = Tar_Dir | Tar_File | Tar_Link | Tar_Other

record tar_member =
  tm_name :: string
  tm_kind :: member_kind
  tm_size :: int
  tm_content :: "string option"

datatype process_outcome = Exited int string string | Timed_Out string string | Not_Started string

text \<open>
  \<open>sx_git\<close> gives exit status and output of \<open>git -C root args\<close>, or nothing when it could not be
  run; \<open>sx_archive\<close> the entries of the archive, \<open>None\<close> where the reader raises, or the error text.
\<close>

record 'w sandbox_env =
  sx_root_exists :: "string \<Rightarrow> 'w \<Rightarrow> bool"
  sx_git :: "string \<Rightarrow> string list \<Rightarrow> 'w \<Rightarrow> (int \<times> string \<times> string) option \<times> 'w"
  sx_archive :: "string \<Rightarrow> string \<Rightarrow> 'w \<Rightarrow> (string + int \<times> tar_member option list) option \<times> 'w"
  sx_temp :: "'w \<Rightarrow> string \<times> 'w"
  sx_run :: "int \<Rightarrow> string list \<Rightarrow> files \<Rightarrow> 'w \<Rightarrow> process_outcome \<times> rat \<times> files \<times> 'w"
  sx_sha :: "string \<Rightarrow> string"
  sx_patch_text :: "string \<Rightarrow> string option \<Rightarrow> string option \<Rightarrow> string"

section \<open>Paths\<close>

definition safe_relative :: "string \<Rightarrow> failure + string" where
  "safe_relative p = (let n = as_posix p in
     if starts_with n ''/'' \<or> ''..'' \<in> set (path_parts n) then Inl (fails_with ''unsafe_archive_path'' p) else Inr n)"

definition path_allowed :: "string \<Rightarrow> string list \<Rightarrow> bool" where
  "path_allowed p allowlist = under_prefix p allowlist"

section \<open>The workspace\<close>

record workspace =
  wr_root :: string
  wr_commit :: string
  wr_snapshot :: repository_map
  wr_source :: string
  wr_files :: files
  wr_baseline :: files

definition approved_commit :: "repository_map \<Rightarrow> string option" where
  "approved_commit m = (case rm_commit m of None \<Rightarrow> rm_head m | Some c \<Rightarrow> c)"

text \<open>\<open>str(approved_snapshot.get("commit", approved_snapshot.get("head_commit", "")))\<close>\<close>

definition base_commit :: "repository_map \<Rightarrow> string" where
  "base_commit m = (case rm_commit m of
     None \<Rightarrow> (case rm_head m of None \<Rightarrow> [] | Some c \<Rightarrow> c)
   | Some None \<Rightarrow> ''None''
   | Some (Some c) \<Rightarrow> c)"

definition is_hex :: "char \<Rightarrow> bool" where
  "is_hex c \<longleftrightarrow> c \<in> set ''0123456789abcdefABCDEF''"

definition git_value :: "'w sandbox_env \<Rightarrow> string \<Rightarrow> string list \<Rightarrow> 'w \<Rightarrow> (failure + string) \<times> 'w" where
  "git_value env src args w = (case sx_git env src args w of
     (None, w') \<Rightarrow> (Inl (fails_with ''repository_inspection_failed'' ''bounded Git inspection failed''), w')
   | (Some (code, out, err), w') \<Rightarrow>
       (if code \<noteq> 0 then (Inl (fails_with ''repository_inspection_failed'' (if take 512 err = [] then ''Git inspection failed'' else take 512 err)), w')
        else (Inr (strip out), w')))"

text \<open>Sequencing where a failure skips the rest.\<close>

definition proceed :: "('e + 'a) \<times> 's \<Rightarrow> ('a \<Rightarrow> 's \<Rightarrow> ('e + 'b) \<times> 's) \<Rightarrow> ('e + 'b) \<times> 's" where
  "proceed m k = (case m of (Inl e, s) \<Rightarrow> (Inl e, s) | (Inr x, s) \<Rightarrow> k x s)"

definition source_state :: "'w sandbox_env \<Rightarrow> string \<Rightarrow> 'w \<Rightarrow> (failure + (string \<times> string \<times> bool)) \<times> 'w" where
  "source_state env src w =
     proceed (git_value env src [''rev-parse'', ''--abbrev-ref'', ''HEAD''] w) (\<lambda>branch w1.
     proceed (git_value env src [''rev-parse'', ''HEAD''] w1) (\<lambda>commit w2.
     proceed (git_value env src [''status'', ''--porcelain=v1'', ''--untracked-files=normal''] w2) (\<lambda>status w3.
     (Inr (branch, commit, status \<noteq> []), w3))))"

definition source_unchanged :: "'w sandbox_env \<Rightarrow> string \<Rightarrow> repository_map \<Rightarrow> 'w \<Rightarrow> (failure + bool) \<times> 'w" where
  "source_unchanged env src m w = proceed (source_state env src w) (\<lambda>(branch, commit, dirty) w1.
     (Inr ((given (rm_branch m) \<longrightarrow> rm_branch m = Some branch) \<and> (given (approved_commit m) \<longrightarrow> approved_commit m = Some commit)
        \<and> dirty = rm_dirty m), w1))"

definition validate_source :: "'w sandbox_env \<Rightarrow> string \<Rightarrow> repository_map \<Rightarrow> 'w \<Rightarrow> (failure + unit) \<times> 'w" where
  "validate_source env src m w =
     (if length (base_commit m) \<noteq> 40 \<or> \<not> list_all is_hex (base_commit m)
      then (Inl (fails_with ''approved_commit_invalid'' ''approval must contain a full commit SHA''), w)
      else proceed (source_state env src w) (\<lambda>(branch, commit, dirty) w1.
        if given (rm_branch m) \<and> rm_branch m \<noteq> Some branch
        then (Inl (fails_with ''stale_commit'' ''repository branch changed after approval''), w1)
        else if given (approved_commit m) \<and> approved_commit m \<noteq> Some commit
        then (Inl (fails_with ''stale_commit'' ''repository commit changed after approval''), w1)
        else if dirty \<noteq> rm_dirty m
        then (Inl (fails_with ''stale_commit'' ''repository dirty state changed after approval''), w1)
        else if commit \<noteq> base_commit m
        then (Inl (fails_with ''stale_commit'' ''approved commit is not the current checkout''), w1)
        else proceed (git_value env src [''cat-file'', ''-e'', base_commit m @ ''^{commit}''] w1) (\<lambda>_ w2. (Inr (), w2))))"

text \<open>Writing a file fails where a directory of its path is a file or the path is a directory.\<close>

definition can_write :: "string \<Rightarrow> files \<Rightarrow> bool" where
  "can_write p fs \<longleftrightarrow> \<not> (\<exists>q\<in>set (map fst fs). q \<noteq> p \<and> (starts_with p (q @ ''/'') \<or> starts_with q (p @ ''/''))) \<and> p \<noteq> ''.''"

definition not_extracted :: failure where
  "not_extracted = fails_with ''workspace_create_failed'' ''approved commit could not be safely extracted''"

fun extract_members :: "sandbox_policy \<Rightarrow> int \<Rightarrow> int \<Rightarrow> tar_member option list \<Rightarrow> files \<Rightarrow> failure + files" where
  "extract_members pol n used [] fs = Inr fs"
| "extract_members pol n used (None # ms) fs = Inl not_extracted"
| "extract_members pol n used (Some m # ms) fs =
     (if tm_kind m = Tar_Dir then extract_members pol n used ms fs
      else case safe_relative (tm_name m) of Inl e \<Rightarrow> Inl e | Inr p \<Rightarrow>
        if tm_kind m \<noteq> Tar_File then Inl (fails_with ''unsafe_archive_entry'' p)
        else if 16 < length (path_parts p) then Inl (fails_with ''workspace_limit_exceeded'' ''archive path depth exceeded'')
        else if sp_max_files pol < n + 1 then Inl (fails_with ''workspace_limit_exceeded'' ''archive file count exceeded'')
        else if sp_max_archive pol < used + tm_size m then Inl (fails_with ''workspace_limit_exceeded'' ''archive content exceeded limit'')
        else if \<not> can_write p fs then Inl not_extracted
        else case tm_content m of
          None \<Rightarrow> Inl (fails_with ''workspace_create_failed'' (''archive entry has no content: '' @ p))
        | Some c \<Rightarrow> extract_members pol (n + 1) (used + tm_size m) ms (AList.update p (take (nat (sp_max_archive pol + 1)) c) fs))"

text \<open>\<open>_manifest\<close>: the files in the order of their paths, within the limits.\<close>

fun bounded_files :: "sandbox_policy \<Rightarrow> int \<Rightarrow> int \<Rightarrow> files \<Rightarrow> failure + unit" where
  "bounded_files pol n used [] = Inr ()"
| "bounded_files pol n used ((p, c) # fs) =
     (if sp_max_files pol \<le> n then Inl (fails_with ''workspace_limit_exceeded'' ''workspace file count exceeded'')
      else if sp_max_archive pol < used + int (length c) then Inl (fails_with ''workspace_limit_exceeded'' ''workspace content exceeded limit'')
      else bounded_files pol (n + 1) (used + int (length c)) fs)"

definition manifest :: "sandbox_policy \<Rightarrow> files \<Rightarrow> failure + files" where
  "manifest pol fs = (let sorted = sort_key (path_parts \<circ> fst) fs in
     map_sum id (\<lambda>_. sorted) (bounded_files pol 0 0 sorted))"

text \<open>\<open>IsolatedRepositoryWorkspace(...).create()\<close>; resolving a missing source root raises.\<close>

definition create_workspace :: "'w sandbox_env \<Rightarrow> sandbox_policy \<Rightarrow> string \<Rightarrow> repository_map \<Rightarrow> 'w \<Rightarrow> (failure + workspace) \<times> 'w" where
  "create_workspace env pol src m w =
     proceed (validate_source env src m w) (\<lambda>_ w1.
     case sx_archive env src (base_commit m) w1 of
       (None, w2) \<Rightarrow> (Inl (fails_with ''workspace_create_failed'' ''could not archive the approved commit''), w2)
     | (Some (Inl err), w2) \<Rightarrow> (Inl (fails_with ''workspace_create_failed''
           (if take 512 err = [] then ''could not archive the approved commit'' else take 512 err)), w2)
     | (Some (Inr (bytes, members)), w2) \<Rightarrow>
         (if sp_max_archive pol < bytes then (Inl (fails_with ''workspace_limit_exceeded'' ''approved repository archive is too large''), w2)
          else let (tmp, w3) = sx_temp env w2 in
            case extract_members pol 0 0 members [] of
              Inl e \<Rightarrow> (Inl e, w3)
            | Inr fs \<Rightarrow> (case manifest pol fs of
                Inl e \<Rightarrow> (Inl e, w3)
              | Inr base \<Rightarrow> (Inr \<lparr>wr_root = tmp, wr_commit = base_commit m, wr_snapshot = m, wr_source = src, wr_files = fs, wr_baseline = base\<rparr>, w3))))"

section \<open>The difference to the approved commit\<close>

definition change_of :: "'w sandbox_env \<Rightarrow> string \<Rightarrow> files \<Rightarrow> files \<Rightarrow> changed_file" where
  "change_of env p before after = (let b = map_of before p; a = map_of after p in
     \<lparr>cf_path = p, cf_status = (if b = None then ''added'' else if a = None then ''deleted'' else ''modified''),
      cf_before = map_option (sx_sha env) b, cf_after = map_option (sx_sha env) a, cf_patch = sx_patch_text env p b a\<rparr>)"

fun collect_changes :: "'w sandbox_env \<Rightarrow> sandbox_policy \<Rightarrow> files \<Rightarrow> files \<Rightarrow> string list \<Rightarrow> failure + changed_file list" where
  "collect_changes env pol before after [] = Inr []"
| "collect_changes env pol before after (p # ps) =
     (if map_of before p = map_of after p then collect_changes env pol before after ps
      else if \<not> path_allowed p (sp_paths pol) then Inl (fails_with ''path_not_allowlisted'' p)
      else map_sum id (Cons (change_of env p before after)) (collect_changes env pol before after ps))"

definition diff :: "'w sandbox_env \<Rightarrow> sandbox_policy \<Rightarrow> workspace \<Rightarrow> 'w \<Rightarrow> (failure + repository_diff) \<times> 'w" where
  "diff env pol ws w = proceed (source_unchanged env (wr_source ws) (wr_snapshot ws) w) (\<lambda>same w1.
     if \<not> same then (Inl (fails_with ''source_changed'' ''source checkout changed during isolated execution''), w1)
     else (case manifest pol (wr_files ws) of Inl e \<Rightarrow> Inl e | Inr current \<Rightarrow>
        map_sum id (\<lambda>cs. \<lparr>df_commit = wr_commit ws, df_files = cs\<rparr>)
          (collect_changes env pol (wr_baseline ws) current (sort (remdups (map fst (wr_baseline ws) @ map fst current)))), w1))"

section \<open>Commands\<close>

text \<open>
  \<open>shlex.split\<close> in POSIX mode: between words, in a word, in quotes, or after a backslash (with the
  state to return to). \<open>quoted\<close> marks a word that had quotes, which is kept even when empty.
\<close>

datatype lexer_state = Between | Inside | Quote char | Escape "char option"

definition shell_space :: "char \<Rightarrow> bool" where
  "shell_space c \<longleftrightarrow> c \<in> {CHR '' '', CHR 0x09, CHR 0x0D, CHR 0x0A}"

definition quote_mark :: "char \<Rightarrow> bool" where
  "quote_mark c \<longleftrightarrow> c = CHR 0x27 \<or> c = CHR 0x22"

fun shlex :: "lexer_state \<Rightarrow> bool \<Rightarrow> string \<Rightarrow> string \<Rightarrow> exn + string list" where
  "shlex Between quoted word [] = Inr []"
| "shlex Inside quoted word [] = Inr (if word \<noteq> [] \<or> quoted then [word] else [])"
| "shlex (Quote q) quoted word [] = Inl (ValueError ''No closing quotation'')"
| "shlex (Escape b) quoted word [] = Inl (ValueError ''No escaped character'')"
| "shlex Between quoted word (c # s) =
     (if shell_space c then shlex Between quoted word s
      else if c = CHR 0x5C then shlex (Escape None) quoted word s
      else if quote_mark c then shlex (Quote c) True word s
      else shlex Inside quoted (word @ [c]) s)"
| "shlex Inside quoted word (c # s) =
     (if shell_space c then (if word \<noteq> [] \<or> quoted then map_sum id (Cons word) (shlex Between False [] s) else shlex Between quoted word s)
      else if quote_mark c then shlex (Quote c) True word s
      else if c = CHR 0x5C then shlex (Escape None) quoted word s
      else shlex Inside quoted (word @ [c]) s)"
| "shlex (Quote q) quoted word (c # s) =
     (if c = q then shlex Inside True word s
      else if c = CHR 0x5C \<and> q = CHR 0x22 then shlex (Escape (Some q)) True word s
      else shlex (Quote q) True (word @ [c]) s)"
| "shlex (Escape b) quoted word (c # s) = (case b of
     None \<Rightarrow> shlex Inside quoted (word @ [c]) s
   | Some q \<Rightarrow> shlex (Quote q) quoted (word @ (if c \<noteq> CHR 0x5C \<and> c \<noteq> q then [CHR 0x5C, c] else [c])) s)"

definition shlex_split :: "string \<Rightarrow> exn + string list" where
  "shlex_split s = shlex Between False [] s"

fun words :: "string list \<Rightarrow> string" where
  "words [] = []"
| "words [w] = w"
| "words (w # ws) = w @ '' '' @ words ws"

definition command_allowed :: "string \<Rightarrow> sandbox_policy \<Rightarrow> bool" where
  "command_allowed command pol =
     (if command = [] \<or> 512 < length command \<or> (\<exists>c\<in>set command. c \<in> set '';&|><`$'' \<or> c = CHR 0x00) then False
      else case shlex_split command of Inl _ \<Rightarrow> False
        | Inr ws \<Rightarrow> \<exists>a\<in>set (sp_commands pol). words ws = a \<or> starts_with (words ws) (a @ '' ''))"

section \<open>The sandboxes\<close>

text \<open>A patcher raises a \<open>SandboxFailure\<close> with a code, or another exception.\<close>

type_synonym 'w patcher = "files \<Rightarrow> plan \<Rightarrow> 'w \<Rightarrow> ((string option \<times> string) + unit) \<times> files \<times> 'w"

record 'w sandbox =
  sb_source :: string
  sb_snapshot :: repository_map
  sb_policy :: sandbox_policy
  sb_patcher :: "'w patcher option"
  sb_workspace :: "workspace option"
  sb_patch_calls :: int
  sb_test_calls :: int
  sb_last_diff :: "repository_diff option"

definition rejected :: "string \<Rightarrow> string \<Rightarrow> string \<Rightarrow> simulation" where
  "rejected action detail code = \<lparr>sm_success = False, sm_action = action, sm_detail = detail, sm_workspace = None, sm_commit = None,
     sm_changed = [], sm_diff = None, sm_results = [], sm_error = Some code\<rparr>"

definition changed_paths :: "repository_diff \<Rightarrow> string list" where
  "changed_paths d = map cf_path (df_files d)"

text \<open>A result of the open workspace.\<close>

definition in_workspace :: "bool \<Rightarrow> string \<Rightarrow> string \<Rightarrow> workspace \<Rightarrow> repository_diff \<Rightarrow> command_result list \<Rightarrow> string option \<Rightarrow> simulation" where
  "in_workspace ok action detail ws d results code = \<lparr>sm_success = ok, sm_action = action, sm_detail = detail,
     sm_workspace = Some (wr_root ws), sm_commit = Some (wr_commit ws), sm_changed = changed_paths d, sm_diff = Some d,
     sm_results = results, sm_error = code\<rparr>"

definition may_patch :: "approval_token option \<Rightarrow> bool" where
  "may_patch approval \<longleftrightarrow> (case approval of None \<Rightarrow> False | Some a \<Rightarrow> ''patch'' \<in> set (at_scopes a))"

definition evidence_allowed :: "sandbox_policy \<Rightarrow> plan \<Rightarrow> bool" where
  "evidence_allowed pol p \<longleftrightarrow> (\<forall>s\<in>set (pl_steps p). \<forall>e\<in>set (st_evidence s). path_allowed (er_path e) (sp_paths pol))"

text \<open>Make sure that a workspace exists.\<close>

definition open_workspace :: "'w sandbox_env \<Rightarrow> string option \<Rightarrow> repository_map option \<Rightarrow> bool \<Rightarrow> 'w sandbox \<Rightarrow> 'w \<Rightarrow>
    (exn + (failure + workspace)) \<times> 'w sandbox \<times> 'w" where
  "open_workspace env src snap retry sb w =
     (case (if retry then None else sb_workspace sb) of
        Some ws \<Rightarrow> (Inr (Inr ws), sb, w)
      | None \<Rightarrow>
          (let sb1 = sb\<lparr>sb_workspace := None, sb_source := (case src of None \<Rightarrow> sb_source sb | Some p \<Rightarrow> p),
                 sb_snapshot := (case snap of None \<Rightarrow> sb_snapshot sb | Some m \<Rightarrow> m)\<rparr>
           in if \<not> sx_root_exists env (sb_source sb1) w then (Inl (FileNotFound (sb_source sb1)), sb1, w)
              else case create_workspace env (sb_policy sb1) (sb_source sb1) (sb_snapshot sb1) w of
                (Inl e, w1) \<Rightarrow> (Inr (Inl e), sb1, w1)
              | (Inr ws, w1) \<Rightarrow> (Inr (Inr ws), sb1\<lparr>sb_workspace := Some ws\<rparr>, w1)))"

definition patch_workspace :: "'w sandbox_env \<Rightarrow> plan \<Rightarrow> workspace \<Rightarrow> 'w sandbox \<Rightarrow> 'w \<Rightarrow> simulation \<times> 'w sandbox \<times> 'w" where
  "patch_workspace env p ws sb w =
     (let sb1 = sb\<lparr>sb_patch_calls := sb_patch_calls sb + 1\<rparr>;
          (outcome, fs, w1) = (case sb_patcher sb of None \<Rightarrow> (Inr (), wr_files ws, w) | Some f \<Rightarrow> f (wr_files ws) p w);
          ws1 = ws\<lparr>wr_files := fs\<rparr>; sb2 = sb1\<lparr>sb_workspace := Some ws1\<rparr>;
          broken_off = (\<lambda>detail code. \<lparr>sm_success = False, sm_action = ''patch'', sm_detail = detail, sm_workspace = Some (wr_root ws1),
            sm_commit = Some (wr_commit ws1), sm_changed = [], sm_diff = None, sm_results = [], sm_error = Some code\<rparr>)
      in case outcome of
           Inl (code, detail) \<Rightarrow> (broken_off detail (case code of None \<Rightarrow> ''patch_failed'' | Some c \<Rightarrow> c), sb2, w1)
         | Inr _ \<Rightarrow> (case diff env (sb_policy sb) ws1 w1 of
             (Inl (code, detail), w2) \<Rightarrow> (broken_off detail code, sb2, w2)
           | (Inr d, w2) \<Rightarrow> (in_workspace True ''patch'' ''approved patch applied in disposable workspace'' ws1 d [] None,
               sb2\<lparr>sb_last_diff := Some d\<rparr>, w2)))"

definition apply_plan :: "'w sandbox_env \<Rightarrow> plan \<Rightarrow> approval_token option \<Rightarrow> bool \<Rightarrow> string option \<Rightarrow> repository_map option \<Rightarrow>
    'w sandbox \<Rightarrow> 'w \<Rightarrow> (exn + simulation) \<times> 'w sandbox \<times> 'w" where
  "apply_plan env p approval retry src snap sb w =
     (if \<not> may_patch approval then (Inr (rejected ''patch'' ''valid patch approval is required'' ''approval_required''), sb, w)
      else if \<not> evidence_allowed (sb_policy sb) p then (Inr (rejected ''patch'' ''path is not allowlisted'' ''path_not_allowlisted''), sb, w)
      else case open_workspace env src snap retry sb w of
        (Inl e, sb1, w1) \<Rightarrow> (Inl e, sb1, w1)
      | (Inr (Inl (code, detail)), sb1, w1) \<Rightarrow> (Inr (rejected ''patch'' detail code), sb1, w1)
      | (Inr (Inr ws), sb1, w1) \<Rightarrow> apfst Inr (patch_workspace env p ws sb1 w1))"

text \<open>What both \<open>test\<close> methods check first; \<open>k\<close> continues in the workspace.\<close>

definition plan_commands :: "plan \<Rightarrow> string list" where
  "plan_commands p = concat (map st_commands (pl_steps p))"

definition check_ready :: "'w sandbox_env \<Rightarrow> plan \<Rightarrow> 'w sandbox \<Rightarrow> 'w \<Rightarrow>
    (workspace \<Rightarrow> repository_diff \<Rightarrow> 'w sandbox \<Rightarrow> 'w \<Rightarrow> simulation \<times> 'w sandbox \<times> 'w) \<Rightarrow> simulation \<times> 'w sandbox \<times> 'w" where
  "check_ready env p sb w k =
     (let sb1 = sb\<lparr>sb_test_calls := sb_test_calls sb + 1\<rparr> in case (sb_workspace sb, sb_last_diff sb) of
        (Some ws, Some d) \<Rightarrow>
          (case source_unchanged env (wr_source ws) (wr_snapshot ws) w of
             (Inl (code, detail), w1) \<Rightarrow> (in_workspace False ''test'' detail ws d [] (Some code), sb1, w1)
           | (Inr False, w1) \<Rightarrow> (in_workspace False ''test'' ''source checkout changed during isolated execution'' ws d [] (Some ''source_changed''), sb1, w1)
           | (Inr True, w1) \<Rightarrow>
               (if \<not> pl_valid p \<or> pl_steps p = []
                then (rejected ''test'' ''plan has no valid executable evidence'' ''invalid_evidence'', sb1, w1) else k ws d sb1 w1))
      | _ \<Rightarrow> (rejected ''test'' ''isolated workspace is not ready'' ''workspace_missing'', sb1, w))"

definition validation_result :: "string \<Rightarrow> command_result" where
  "validation_result text = \<lparr>cr_command = ''deterministic:evidence-validation'', cr_exit = 0, cr_stdout = text, cr_stderr = [],
     cr_duration = 0, cr_timeout = False, cr_offline = True\<rparr>"

definition isolated_test :: "'w sandbox_env \<Rightarrow> plan \<Rightarrow> 'w sandbox \<Rightarrow> 'w \<Rightarrow> simulation \<times> 'w sandbox \<times> 'w" where
  "isolated_test env p sb w = check_ready env p sb w (\<lambda>ws d sb1 w1.
     if plan_commands p \<noteq> []
     then (in_workspace False ''test'' ''deterministic mode rejects undeclared process execution'' ws d [] (Some ''deterministic_command_rejected''), sb1, w1)
     else (in_workspace True ''test'' ''deterministic offline verification passed'' ws d
       [validation_result ''evidence and diff validation passed''] None, sb1, w1))"

text \<open>One command: what is recorded of the process, and the workspace it leaves.\<close>

definition run_command :: "'w sandbox_env \<Rightarrow> sandbox_policy \<Rightarrow> string \<Rightarrow> string list \<Rightarrow> files \<Rightarrow> 'w \<Rightarrow> command_result \<times> files \<times> 'w" where
  "run_command env pol command argv fs w =
     (let (outcome, duration, fs1, w1) = sx_run env (sp_max_seconds pol) argv fs w; cut = take (nat (sp_max_output pol));
          res = (\<lambda>code out err late. \<lparr>cr_command = command, cr_exit = code, cr_stdout = cut out, cr_stderr = cut err,
            cr_duration = duration, cr_timeout = late, cr_offline = \<not> sp_network pol\<rparr>)
      in (case outcome of Exited code out err \<Rightarrow> res code out err False | Timed_Out out err \<Rightarrow> res 124 out err True
            | Not_Started err \<Rightarrow> res 127 [] err False, fs1, w1))"

text \<open>The loop over the commands: the outcome, the results so far, the workspace, the world.\<close>

fun run_commands :: "'w sandbox_env \<Rightarrow> sandbox_policy \<Rightarrow> string list \<Rightarrow> command_result list \<Rightarrow> files \<Rightarrow> 'w \<Rightarrow>
    (string \<times> string) option \<times> command_result list \<times> files \<times> 'w" where
  "run_commands env pol [] done_so_far fs w = (None, done_so_far, fs, w)"
| "run_commands env pol (c # cs) done_so_far fs w =
     (if \<not> command_allowed c pol
      then (Some (''verification command is not allowlisted: '' @ c, ''command_not_allowlisted''), done_so_far, fs, w)
      else case shlex_split c of
        Inl _ \<Rightarrow> (Some (''verification command cannot be parsed'', ''command_invalid''), done_so_far, fs, w)
      | Inr argv \<Rightarrow>
          (let (r, fs1, w1) = run_command env pol c argv fs w; so_far = done_so_far @ [r]
           in if cr_exit r \<noteq> 0 then (Some (''verification command failed: '' @ c, ''verification_command_failed''), so_far, fs1, w1)
              else run_commands env pol cs so_far fs1 w1))"

definition process_test :: "'w sandbox_env \<Rightarrow> plan \<Rightarrow> 'w sandbox \<Rightarrow> 'w \<Rightarrow> simulation \<times> 'w sandbox \<times> 'w" where
  "process_test env p sb w = check_ready env p sb w (\<lambda>ws d sb1 w1.
     if plan_commands p = []
     then (in_workspace False ''test'' ''process mode requires declared verification commands'' ws d [] (Some ''verification_commands_missing''), sb1, w1)
     else if sp_max_commands (sb_policy sb) < int (length (plan_commands p))
     then (in_workspace False ''test'' ''verification command budget exceeded'' ws d [] (Some ''verification_budget_exceeded''), sb1, w1)
     else let (stop, results, fs, w2) = run_commands env (sb_policy sb) (plan_commands p) [] (wr_files ws) w1;
              ws1 = ws\<lparr>wr_files := fs\<rparr>; sb2 = sb1\<lparr>sb_workspace := Some ws1\<rparr>
       in case stop of
            Some (detail, code) \<Rightarrow> (in_workspace False ''test'' detail ws1 d results (Some code), sb2, w2)
          | None \<Rightarrow> (in_workspace True ''test'' ''bounded verification commands passed'' ws1 d results None, sb2, w2))"

definition close_sandbox :: "'w sandbox \<Rightarrow> 'w sandbox" where
  "close_sandbox sb = sb\<lparr>sb_workspace := None\<rparr>"

text \<open>\<open>DeterministicSandbox\<close>: policy, the flag to fail the first patch, and the two counters.\<close>

record dry_sandbox =
  dy_policy :: sandbox_policy
  dy_fail_first :: bool
  dy_patch_calls :: int
  dy_test_calls :: int

definition dry_apply :: "plan \<Rightarrow> approval_token option \<Rightarrow> bool \<Rightarrow> dry_sandbox \<Rightarrow> simulation \<times> dry_sandbox" where
  "dry_apply p approval retry sb =
     (if \<not> may_patch approval then (rejected ''patch'' ''valid patch approval is required'' ''approval_required'', sb)
      else if \<not> evidence_allowed (dy_policy sb) p then (rejected ''patch'' ''path is not allowlisted'' ''path_not_allowlisted'', sb)
      else let sb1 = sb\<lparr>dy_patch_calls := dy_patch_calls sb + 1\<rparr>
        in if dy_fail_first sb1 \<and> dy_patch_calls sb1 = 1 \<and> \<not> retry
           then (rejected ''patch'' ''deterministic transient patch failure'' ''patch_failed'', sb1)
           else (\<lparr>sm_success = True, sm_action = ''patch'', sm_detail = ''patch simulation applied; no filesystem mutation'',
             sm_workspace = None, sm_commit = None, sm_changed = [], sm_diff = None, sm_results = [], sm_error = None\<rparr>, sb1))"

definition dry_test :: "plan \<Rightarrow> dry_sandbox \<Rightarrow> simulation \<times> dry_sandbox" where
  "dry_test p sb = (let sb1 = sb\<lparr>dy_test_calls := dy_test_calls sb + 1\<rparr>
     in if \<not> pl_valid p \<or> pl_steps p = [] then (rejected ''test'' ''plan has no valid executable evidence'' ''invalid_evidence'', sb1)
        else (\<lparr>sm_success = True, sm_action = ''test'', sm_detail = ''deterministic test simulation passed'', sm_workspace = None,
          sm_commit = None, sm_changed = [], sm_diff = None, sm_results = [validation_result ''deterministic test simulation passed''],
          sm_error = None\<rparr>, sb1))"

section \<open>What the workspace holds\<close>

lemma proceed_Inr [elim!]:
  assumes "proceed m k = (Inr y, s')" obtains x s where "m = (Inr x, s)" "k x s = (Inr y, s')"
  using assms by (auto simp: proceed_def split: prod.splits sum.splits)

text \<open>A path that stays below the root of the workspace.\<close>

definition contained_path :: "string \<Rightarrow> bool" where
  "contained_path p \<longleftrightarrow> \<not> starts_with p ''/'' \<and> ''..'' \<notin> set (path_parts p) \<and> length (path_parts p) \<le> 16"

lemma safe_relative_Inr: "safe_relative p = Inr q \<Longrightarrow> \<not> starts_with q ''/'' \<and> ''..'' \<notin> set (path_parts q)"
  by (auto simp: safe_relative_def Let_def split: if_splits)

lemma extract_member_file:
  assumes "extract_members pol n used (Some m # ms) fs = Inr gs" "tm_kind m \<noteq> Tar_Dir"
  obtains p c where "contained_path p"
    "extract_members pol (n + 1) (used + tm_size m) ms (AList.update p (take (nat (sp_max_archive pol + 1)) c) fs) = Inr gs"
proof -
  obtain p c where "safe_relative (tm_name m) = Inr p" "\<not> 16 < length (path_parts p)"
    "extract_members pol (n + 1) (used + tm_size m) ms (AList.update p (take (nat (sp_max_archive pol + 1)) c) fs) = Inr gs"
    using assms by (auto split: sum.splits if_splits option.splits)
  then show ?thesis using that safe_relative_Inr unfolding contained_path_def by (metis linorder_not_less)
qed

lemma extract_members_contained:
  "extract_members pol n used ms fs = Inr gs \<Longrightarrow> \<forall>q\<in>fst ` set fs. contained_path q \<Longrightarrow> \<forall>q\<in>fst ` set gs. contained_path q"
proof (induction ms arbitrary: n used fs)
  case (Cons mo ms)
  show ?case
  proof (cases mo)
    case None
    then show ?thesis using Cons.prems by simp
  next
    case m: (Some m)
    show ?thesis
    proof (cases "tm_kind m = Tar_Dir")
      case True
      then have "extract_members pol n used ms fs = Inr gs" using Cons.prems m by simp
      then show ?thesis using Cons.IH Cons.prems by metis
    next
      case False
      obtain p c where p: "contained_path p"
        and r: "extract_members pol (n + 1) (used + tm_size m) ms (AList.update p (take (nat (sp_max_archive pol + 1)) c) fs) = Inr gs"
        using extract_member_file [OF Cons.prems(1) [unfolded m] False] .
      show ?thesis using Cons.IH [OF r] p Cons.prems(2) by (simp add: dom_update)
    qed
  qed
qed simp

lemma bounded_filesD:
  "bounded_files pol n used fs = Inr u \<Longrightarrow>
   fs = [] \<or> n + int (length fs) \<le> sp_max_files pol \<and> used + int (sum_list (map (length \<circ> snd) fs)) \<le> sp_max_archive pol"
proof (induction pol n used fs rule: bounded_files.induct)
  case (2 pol n used p c fs)
  then show ?case by (cases fs) (auto split: if_splits)
qed simp

lemma manifest_Inr: "manifest pol fs = Inr base \<Longrightarrow> base = sort_key (path_parts \<circ> fst) fs \<and> bounded_files pol 0 0 base = Inr ()"
  by (auto simp: manifest_def Let_def map_sum_def split: sum.splits)

lemma create_workspace_Inr:
  assumes "create_workspace env pol src m w = (Inr ws, w')"
  obtains bytes members w1 w2 where "validate_source env src m w = (Inr (), w1)"
    "sx_archive env src (base_commit m) w1 = (Some (Inr (bytes, members)), w2)" "bytes \<le> sp_max_archive pol"
    "extract_members pol 0 0 members [] = Inr (wr_files ws)" "manifest pol (wr_files ws) = Inr (wr_baseline ws)"
    "wr_commit ws = base_commit m" "wr_source ws = src" "wr_snapshot ws = m"
  using assms unfolding create_workspace_def
  by (auto simp: Let_def split: option.splits sum.splits prod.splits if_splits)


section \<open>What a patch may change\<close>

lemma map_of_find: "map_of xs p = map_option snd (find (\<lambda>x. fst x = p) xs)"
  by (induction xs) auto

lemma find_hd_filter: "find P xs = (case filter P xs of [] \<Rightarrow> None | x # _ \<Rightarrow> Some x)"
  by (induction xs) auto

lemma map_of_sorted: "map_of (sort_key (g \<circ> fst) (xs :: ('b \<times> 'c) list)) p = map_of xs p"
proof -
  have "filter (\<lambda>x. fst x = p) ys = filter (\<lambda>x. fst x = p) (filter (\<lambda>x. (g \<circ> fst) x = g p) ys)" for ys :: "('b \<times> 'c) list"
    by (induction ys) auto
  then have "filter (\<lambda>x. fst x = p) (sort_key (g \<circ> fst) xs) = filter (\<lambda>x. fst x = p) xs"
    using sort_key_stable [of "g \<circ> fst" "g p" xs] by metis
  then show ?thesis by (simp add: map_of_find find_hd_filter)
qed

lemma collect_changesD:
  "collect_changes env pol before after ps = Inr cs \<Longrightarrow>
   map cf_path cs = filter (\<lambda>p. map_of before p \<noteq> map_of after p) ps \<and> (\<forall>p\<in>set (map cf_path cs). path_allowed p (sp_paths pol))"
proof (induction ps arbitrary: cs)
  case (Cons p ps)
  then show ?case
    by (fastforce simp: map_sum_def change_of_def Let_def split: if_splits sum.splits)
qed simp

lemma diff_Inr:
  assumes "diff env pol ws w = (Inr d, w')"
  shows "q \<in> set (changed_paths d) \<longleftrightarrow> map_of (wr_baseline ws) q \<noteq> map_of (wr_files ws) q"
    and "q \<in> set (changed_paths d) \<Longrightarrow> path_allowed q (sp_paths pol)"
    and "df_commit d = wr_commit ws"
proof -
  obtain current cs where m: "manifest pol (wr_files ws) = Inr current" and d: "d = \<lparr>df_commit = wr_commit ws, df_files = cs\<rparr>"
    and c: "collect_changes env pol (wr_baseline ws) current (sort (remdups (map fst (wr_baseline ws) @ map fst current))) = Inr cs"
    using assms unfolding diff_def by (auto simp: map_sum_def split: if_splits sum.splits)
  have cur: "map_of current q = map_of (wr_files ws) q" using manifest_Inr [OF m] by (simp add: map_of_sorted)
  have "map_of (wr_baseline ws) q \<noteq> map_of current q \<Longrightarrow> q \<in> fst ` set (wr_baseline ws) \<union> fst ` set current"
    by (metis UnI1 UnI2 map_of_eq_None_iff)
  then show "q \<in> set (changed_paths d) \<longleftrightarrow> map_of (wr_baseline ws) q \<noteq> map_of (wr_files ws) q"
    using collect_changesD [OF c] cur by (auto simp: d changed_paths_def)
  show "q \<in> set (changed_paths d) \<Longrightarrow> path_allowed q (sp_paths pol)"
    using collect_changesD [OF c] by (metis d changed_paths_def repository_diff.select_convs(2))
  show "df_commit d = wr_commit ws" by (simp add: d)
qed

lemma open_workspace_policy:
  "open_workspace env src snap retry sb w = (r, sb1, w1) \<Longrightarrow> sb_policy sb1 = sb_policy sb \<and> sb_patcher sb1 = sb_patcher sb"
  by (auto simp: open_workspace_def Let_def split: option.splits if_splits prod.splits sum.splits)

lemma patch_workspace_success:
  assumes "patch_workspace env p ws sb w = (sm, sb', w')" "sm_success sm"
  obtains ws1 d w1 w2 where "sb_workspace sb' = Some ws1" "sb_last_diff sb' = Some d" "diff env (sb_policy sb) ws1 w1 = (Inr d, w2)"
    "sm_diff sm = Some d" "sm_changed sm = changed_paths d" "sm_commit sm = Some (wr_commit ws1)" "sb_policy sb' = sb_policy sb"
    "wr_baseline ws1 = wr_baseline ws" "wr_commit ws1 = wr_commit ws"
  using assms unfolding patch_workspace_def
  by (auto simp: Let_def in_workspace_def split: prod.splits sum.splits)


section \<open>What a process may run\<close>

lemma run_command_result:
  "run_command env pol c argv fs w = (r, fs', w') \<Longrightarrow>
   cr_command r = c \<and> cr_offline r = (\<not> sp_network pol) \<and> length (cr_stdout r) \<le> nat (sp_max_output pol) \<and> length (cr_stderr r) \<le> nat (sp_max_output pol)"
  by (auto simp: run_command_def Let_def split: prod.splits process_outcome.splits)

definition bounded_result :: "sandbox_policy \<Rightarrow> command_result \<Rightarrow> bool" where
  "bounded_result pol r \<longleftrightarrow> command_allowed (cr_command r) pol \<and> cr_offline r = (\<not> sp_network pol) \<and>
     length (cr_stdout r) \<le> nat (sp_max_output pol) \<and> length (cr_stderr r) \<le> nat (sp_max_output pol)"

lemma run_commandsD:
  "run_commands env pol cs rs fs w = (stop, out, fs', w') \<Longrightarrow>
   \<exists>new. out = rs @ new \<and> map cr_command new = take (length new) cs \<and> list_all (bounded_result pol) new
     \<and> (stop = None \<longrightarrow> length new = length cs \<and> list_all (\<lambda>r. cr_exit r = 0) new)"
proof (induction cs arbitrary: rs fs w)
  case (Cons c cs)
  show ?case
  proof (cases "\<not> command_allowed c pol \<or> (\<exists>e. shlex_split c = Inl e)")
    case True
    then show ?thesis using Cons.prems by (auto split: if_splits sum.splits)
  next
    case False
    then obtain argv where v: "shlex_split c = Inr argv" "command_allowed c pol" by (meson sum.exhaust)
    obtain r fs1 w1 where r: "run_command env pol c argv fs w = (r, fs1, w1)" by (metis prod_cases3)
    have b: "bounded_result pol r" "cr_command r = c"
      using run_command_result [OF r] v(2) by (simp_all add: bounded_result_def)
    show ?thesis
    proof (cases "cr_exit r = 0")
      case True
      then have "run_commands env pol cs (rs @ [r]) fs1 w1 = (stop, out, fs', w')"
        using Cons.prems v r by simp
      from Cons.IH [OF this] obtain new where n: "out = (rs @ [r]) @ new" "map cr_command new = take (length new) cs"
        "list_all (bounded_result pol) new" "stop = None \<longrightarrow> length new = length cs \<and> list_all (\<lambda>r. cr_exit r = 0) new" by blast
      show ?thesis by (rule exI [of _ "r # new"]) (use n b True in simp)
    next
      case False
      then have "out = rs @ [r]" "stop \<noteq> None" using Cons.prems v r by auto
      then show ?thesis using b by (intro exI [of _ "[r]"]) auto
    qed
  qed
qed simp

definition shell_free :: "string \<Rightarrow> bool" where
  "shell_free c \<longleftrightarrow> c \<noteq> [] \<and> length c \<le> 512 \<and> (\<forall>x\<in>set c. x \<notin> set '';&|><`$'')"

lemma command_allowed_shell_free: "command_allowed c pol \<Longrightarrow> shell_free c"
  by (auto simp: command_allowed_def shell_free_def split: if_splits)

lemma process_test_cases:
  assumes "process_test env p sb w = (sm, sb', w')"
  obtains "sm_results sm = []" "\<not> sm_success sm"
  | ws :: workspace and stop fs w1 w2 where "\<not> sp_max_commands (sb_policy sb) < int (length (plan_commands p))" "plan_commands p \<noteq> []"
      "run_commands env (sb_policy sb) (plan_commands p) [] (wr_files ws) w1 = (stop, sm_results sm, fs, w2)"
      "sm_success sm = (stop = None)"
  using assms by (auto simp: process_test_def check_ready_def in_workspace_def rejected_def Let_def
    split: option.splits sum.splits bool.splits if_splits prod.splits)


section \<open>The shape of a result\<close>

text \<open>A result is a success or carries an error code, and the changed paths are those of its difference.\<close>

definition typed_result :: "simulation \<Rightarrow> bool" where
  "typed_result sm \<longleftrightarrow> sm_success sm = (sm_error sm = None) \<and> sm_action sm \<in> {''patch'', ''test''}
     \<and> sm_changed sm = (case sm_diff sm of None \<Rightarrow> [] | Some d \<Rightarrow> changed_paths d)
     \<and> (sm_diff sm \<noteq> None \<longrightarrow> sm_workspace sm \<noteq> None \<and> sm_commit sm \<noteq> None)"

lemma typed_rejected [simp]: "action \<in> {''patch'', ''test''} \<Longrightarrow> typed_result (rejected action detail code)"
  by (auto simp: typed_result_def rejected_def)

lemma typed_in_workspace [simp]:
  "typed_result (in_workspace ok action detail ws d rs code) \<longleftrightarrow> ok = (code = None) \<and> action \<in> {''patch'', ''test''}"
  by (auto simp: typed_result_def in_workspace_def)

lemma check_ready_typed:
  assumes "\<And>ws d s v. typed_result (fst (k ws d s v))"
  shows "typed_result (fst (check_ready env p sb w k))"
  using assms by (simp add: check_ready_def Let_def split: option.split sum.split bool.split prod.split)

lemma typed_isolated_test: "typed_result (fst (isolated_test env p sb w))"
  unfolding isolated_test_def by (rule check_ready_typed) simp

lemma typed_process_test: "typed_result (fst (process_test env p sb w))"
  unfolding process_test_def by (rule check_ready_typed) (simp add: Let_def split: prod.split option.split)

lemma typed_dry: "typed_result (fst (dry_apply p approval retry dy))" "typed_result (fst (dry_test p dy))"
  by (simp_all add: dry_apply_def dry_test_def Let_def) (simp_all add: typed_result_def)

lemma typed_patch_workspace: "typed_result (fst (patch_workspace env p ws sb w))"
  by (simp add: patch_workspace_def Let_def split: prod.split sum.split option.split) (simp add: typed_result_def)

lemma patch_workspace_typed: "patch_workspace env p ws sb w = (sm, sb', w') \<Longrightarrow> typed_result sm"
  using typed_patch_workspace [of env p ws sb w] by simp

lemma typed_apply_plan: "apply_plan env p approval retry src snap sb w = (Inr sm, sb', w') \<Longrightarrow> typed_result sm"
  by (auto simp: apply_plan_def patch_workspace_typed apfst_def map_prod_def split: if_splits prod.splits sum.splits)

text \<open>
  C33. Every result a sandbox returns is well typed, in every mode, for patches and for tests: it is a
  success or has an error code, never both or neither, and the paths it says have changed are those
  of the difference it carries, together with the workspace and the commit the difference is of.
\<close>

theorem results_are_typed:
  "(case fst (apply_plan env p approval retry src snap sb w) of Inl e \<Rightarrow> True | Inr sm \<Rightarrow> typed_result sm)
   \<and> typed_result (fst (isolated_test env p sb w)) \<and> typed_result (fst (process_test env p sb w))
   \<and> typed_result (fst (dry_apply p approval retry dy)) \<and> typed_result (fst (dry_test p dy))"
proof -
  have "typed_result sm" if "fst (apply_plan env p approval retry src snap sb w) = Inr sm" for sm
    using that typed_apply_plan by (metis prod.collapse)
  then show ?thesis by (simp add: typed_isolated_test typed_process_test typed_dry split: sum.split)
qed

section \<open>A small repository\<close>

text \<open>A checkout at one commit with two files, a patcher that edits one of them, and a process that succeeds.\<close>

definition demo_commit :: string where
  "demo_commit = replicate 40 CHR ''a''"

definition demo_policy :: sandbox_policy where
  "demo_policy = \<lparr>sp_paths = [''tests''], sp_commands = [''python3 -m pytest''], sp_network = False,
     sp_max_seconds = 5, sp_max_memory = 64, sp_max_commands = 2,
     sp_max_output = 8, sp_max_files = 3, sp_max_archive = 40\<rparr>"

definition demo_map :: repository_map where
  "demo_map = \<lparr>rm_id = None, rm_root = None, rm_path = None, rm_name = None, rm_branch = Some ''main'', rm_commit = Some (Some demo_commit),
     rm_head = None, rm_dirty = False, rm_capabilities = []\<rparr>"

definition demo_env :: "unit sandbox_env" where
  "demo_env = \<lparr>sx_root_exists = (\<lambda>_ _. True),
     sx_git = (\<lambda>_ args w. (Some (0, if args = [''rev-parse'', ''--abbrev-ref'', ''HEAD''] then ''main''
        else if args = [''rev-parse'', ''HEAD''] then demo_commit else [], []), w)),
     sx_archive = (\<lambda>_ _ w. (Some (Inr (30, [
        Some \<lparr>tm_name = ''tests'', tm_kind = Tar_Dir, tm_size = 0, tm_content = None\<rparr>,
        Some \<lparr>tm_name = ''./tests/t.py'', tm_kind = Tar_File, tm_size = 4, tm_content = Some ''pass''\<rparr>,
        Some \<lparr>tm_name = ''README'', tm_kind = Tar_File, tm_size = 2, tm_content = Some ''hi''\<rparr>])), w)),
     sx_temp = (\<lambda>w. (''/tmp/ws'', w)),
     sx_run = (\<lambda>limit argv fs w. (Exited 0 ''ok'' [], 1, fs, w)),
     sx_sha = (\<lambda>s. s), sx_patch_text = (\<lambda>p b a. p)\<rparr>"

definition demo_workspace :: workspace where
  "demo_workspace = \<lparr>wr_root = ''/tmp/ws'', wr_commit = demo_commit, wr_snapshot = demo_map, wr_source = ''src'',
     wr_files = [(''tests/t.py'', ''pass''), (''README'', ''hi'')], wr_baseline = [(''README'', ''hi''), (''tests/t.py'', ''pass'')]\<rparr>"

definition demo_sandbox :: "unit sandbox" where
  "demo_sandbox = \<lparr>sb_source = ''src'', sb_snapshot = demo_map, sb_policy = demo_policy,
     sb_patcher = Some (\<lambda>fs p w. (Inr (), AList.update ''tests/t.py'' ''x = 1'' fs, w)), sb_workspace = None,
     sb_patch_calls = 0, sb_test_calls = 0, sb_last_diff = None\<rparr>"

definition demo_plan :: plan where
  "demo_plan = \<lparr>pl_id = ''p'', pl_requirements = [], pl_steps = [\<lparr>st_id = ''s'', st_title = ''t'', st_action = ''a'', st_evidence = [],
     st_impact = ''i'', st_commands = [''python3 -m pytest tests'']\<rparr>], pl_runtime = ''python'', pl_mode = ''m'', pl_supported = True,
     pl_unsupported = None, pl_valid = True\<rparr>"

definition demo_approval :: approval_token where
  "demo_approval = \<lparr>at_id = ''a'', at_run = ''r'', at_tenant = ''t'', at_scopes = [''patch''],
     at_issued = [], at_expires = [], at_consumed = False, at_repository = None, at_branch = None, at_commit = None,
     at_plan = None, at_proposal = None\<rparr>"

lemma demo_workspace_made: "create_workspace demo_env demo_policy ''src'' demo_map () = (Inr demo_workspace, ())"
  by code_simp


definition demo_applied :: "simulation \<times> unit sandbox \<times> unit" where
  "demo_applied = (case apply_plan demo_env demo_plan (Some demo_approval) False None None demo_sandbox () of
     (Inr sm, sb, w) \<Rightarrow> (sm, sb, w) | (Inl _, sb, w) \<Rightarrow> (rejected [] [] [], sb, w))"

lemma demo_applies:
  "apply_plan demo_env demo_plan (Some demo_approval) False None None demo_sandbox () = apfst Inr demo_applied"
proof -
  have "\<not> isl (fst (apply_plan demo_env demo_plan (Some demo_approval) False None None demo_sandbox ()))" by code_simp
  then show ?thesis by (auto simp: demo_applied_def split: prod.split sum.split)
qed

lemma demo_applied_success: "sm_success (fst demo_applied)"
  by code_simp



end
