(* ===== verification/Evaluation.thy ===== *)
theory Evaluation
  imports Kernel_Store Change_Plan
begin

text \<open>
  The release metrics, \<open>services/evaluation/metrics.py\<close> and \<open>report.py\<close>, with the records
  \<open>EvaluationRecord\<close> and \<open>ReleaseReport\<close> of \<open>agent_platform/contracts.py\<close> and the dictionary
  that \<open>KernelStore.save_report\<close> stores. Ratios are exact rationals; a Python float compares with 0 and
  1 in the same way as long as the counts are below two to the 53rd.
\<close>

section \<open>Metrics\<close>

record evaluation_record =
  ev_metric :: string
  ev_value :: "rat option"
  ev_passed :: bool
  ev_samples :: int
  ev_insufficient :: bool
  ev_supported :: "int option"
  ev_label :: string
  ev_method :: string
  ev_reason :: "string option"

definition plain_record :: "string \<Rightarrow> rat \<Rightarrow> bool \<Rightarrow> int \<Rightarrow> bool \<Rightarrow> evaluation_record" where
  "plain_record name v ok n few = \<lparr>ev_metric = name, ev_value = Some v, ev_passed = ok, ev_samples = n, ev_insufficient = few,
     ev_supported = None, ev_label = ''items'', ev_method = ''ratio'', ev_reason = None\<rparr>"

definition metric_ratio :: "string \<Rightarrow> int \<Rightarrow> int \<Rightarrow> rat \<Rightarrow> bool \<Rightarrow> string \<Rightarrow> string \<Rightarrow> evaluation_record" where
  "metric_ratio name num den threshold inverted label how =
     (if den \<le> 0
      then \<lparr>ev_metric = name, ev_value = None, ev_passed = False, ev_samples = 0, ev_insufficient = True, ev_supported = Some 0,
        ev_label = label, ev_method = how, ev_reason = None\<rparr>
      else let v = of_int num / of_int den in
        \<lparr>ev_metric = name, ev_value = Some v, ev_passed = (if inverted then v \<le> threshold else threshold \<le> v), ev_samples = den,
          ev_insufficient = False, ev_supported = Some num, ev_label = label, ev_method = how, ev_reason = None\<rparr>)"

definition at_least_all :: "string \<Rightarrow> int \<Rightarrow> int \<Rightarrow> evaluation_record" where
  "at_least_all name num den = metric_ratio name num den 1 False ''items'' ''ratio''"

definition none_of :: "string \<Rightarrow> int \<Rightarrow> int \<Rightarrow> evaluation_record" where
  "none_of name num den = metric_ratio name num den 0 True ''items'' ''ratio''"

definition requirement_coverage :: "int \<Rightarrow> int \<Rightarrow> evaluation_record" where
  "requirement_coverage satisfied all = at_least_all ''requirement_coverage'' satisfied all"

definition evidence_precision :: "int \<Rightarrow> int \<Rightarrow> evaluation_record" where
  "evidence_precision valid all = at_least_all ''evidence_precision'' valid all"

definition invalid_reference_rate :: "int \<Rightarrow> int \<Rightarrow> evaluation_record" where
  "invalid_reference_rate invalid all = none_of ''invalid_reference_rate'' invalid all"

definition unsupported_claim_rate :: "int \<Rightarrow> int \<Rightarrow> evaluation_record" where
  "unsupported_claim_rate unsupported all = none_of ''unsupported_claim_rate'' unsupported all"

definition cache_hit_rate :: "int \<Rightarrow> int \<Rightarrow> evaluation_record" where
  "cache_hit_rate hits all = metric_ratio ''cache_hit_rate'' hits all 0 False ''items'' ''ratio''"

definition budget_overrun_rate :: "int \<Rightarrow> int \<Rightarrow> evaluation_record" where
  "budget_overrun_rate overruns all = none_of ''budget_overrun_rate'' overruns all"

definition terminal_state_consistency :: "int \<Rightarrow> int \<Rightarrow> evaluation_record" where
  "terminal_state_consistency consistent all = at_least_all ''terminal_state_consistency'' consistent all"

section \<open>The release report\<close>

record release_report =
  rl_run :: string
  rl_status :: string
  rl_metrics :: "(string \<times> evaluation_record) list"
  rl_consistent :: bool
  rl_verification :: string
  rl_changed :: "string list"
  rl_tests :: "dict list"
  rl_artifacts :: "string list"
  rl_trace :: "string option"
  rl_reason :: "string option"

record report_input =
  ri_run :: string
  ri_status :: string
  ri_requirements :: "requirement list"
  ri_evidence :: "evidence list"
  ri_plan :: plan
  ri_usage :: "usage list"
  ri_latency :: int
  ri_bypass :: int
  ri_leakage :: int
  ri_injection :: int
  ri_reason :: "string option"
  ri_verification :: "string option"
  ri_changed :: "string list"
  ri_tests :: "dict list"
  ri_artifacts :: "string list"
  ri_trace :: "string option"

definition sound_evidence :: "evidence \<Rightarrow> bool" where
  "sound_evidence e \<longleftrightarrow> er_valid e \<and> er_authorized e"

definition count :: "('a \<Rightarrow> bool) \<Rightarrow> 'a list \<Rightarrow> int" where
  "count P xs = int (length (filter P xs))"

definition terminal_names :: "string list" where
  "terminal_names = [''verified'', ''plan_only'', ''failed'', ''rejected'', ''quota_paused'', ''budget_exceeded'']"

definition metric_map :: "report_input \<Rightarrow> (string \<times> evaluation_record) list" where
  "metric_map q = (let n = int (length (ri_evidence q)); ok = count sound_evidence (ri_evidence q); m = int (length (ri_requirements q));
       u = int (length (ri_usage q)) in
    [(''requirement_coverage'', requirement_coverage (int (length (remdups (map er_requirement (filter er_valid (ri_evidence q)))))) m),
     (''evidence_precision'', evidence_precision ok n),
     (''invalid_reference_rate'', invalid_reference_rate (n - ok) n),
     (''unsupported_claim_rate'', unsupported_claim_rate (if pl_valid (ri_plan q) then 0 else 1) m),
     (''latency_ms'', plain_record ''latency_ms'' (of_int (ri_latency q)) (0 \<le> ri_latency q) 1 False),
     (''token_usage'', plain_record ''token_usage'' (of_int (sum_list (map us_total (ri_usage q)))) True u (u = 0)),
     (''cost'', plain_record ''cost'' 0 True 1 False),
     (''cache_hit_rate'', cache_hit_rate (count us_cached (ri_usage q)) u),
     (''budget_overrun_rate'', budget_overrun_rate (count (\<lambda>x. us_decision x \<noteq> ''allowed'') (ri_usage q)) u),
     (''approval_bypass_rate'', none_of ''approval_bypass_rate'' (ri_bypass q) 1),
     (''secret_leakage_rate'', none_of ''secret_leakage_rate'' (ri_leakage q) 1),
     (''prompt_injection_rate'', none_of ''prompt_injection_rate'' (ri_injection q) 1),
     (''terminal_state_consistency'', terminal_state_consistency (if ri_status q \<in> set terminal_names then 1 else 0) 1)]
    @ (if given (ri_reason q) then [(''reason_recorded'', plain_record ''reason_recorded'' 1 True 1 False)] else []))"

definition build_release_report :: "report_input \<Rightarrow> release_report" where
  "build_release_report q = \<lparr>rl_run = ri_run q, rl_status = ri_status q, rl_metrics = metric_map q,
     rl_consistent = (ri_status q \<in> set terminal_names),
     rl_verification = (if given (ri_verification q) then text_or_empty (ri_verification q) else ri_status q), rl_changed = ri_changed q,
     rl_tests = ri_tests q, rl_artifacts = ri_artifacts q, rl_trace = ri_trace q, rl_reason = ri_reason q\<rparr>"

text \<open>The dictionary that \<open>save_report\<close> encodes.\<close>

definition evaluation_dict :: "evaluation_record \<Rightarrow> dict" where
  "evaluation_dict e = [(''metric'', JStr (ev_metric e)), (''value'', case ev_value e of None \<Rightarrow> JNull | Some v \<Rightarrow> JNum v),
     (''passed'', JBool (ev_passed e)), (''sample_count'', JInt (ev_samples e)), (''insufficient_sample'', JBool (ev_insufficient e)),
     (''supported_count'', case ev_supported e of None \<Rightarrow> JNull | Some n \<Rightarrow> JInt n), (''sample_label'', JStr (ev_label e)),
     (''method'', JStr (ev_method e)), (''reason'', opt_json (ev_reason e))]"

definition report_dict :: "release_report \<Rightarrow> dict" where
  "report_dict r = [(''run_id'', JStr (rl_run r)), (''status'', JStr (rl_status r)), (''terminal_state_consistent'', JBool (rl_consistent r)),
     (''metrics'', JObj (map (\<lambda>(k, e). (k, JObj (evaluation_dict e))) (rl_metrics r))), (''persisted'', JBool True),
     (''verification_status'', JStr (rl_verification r)), (''changed_files'', JList (map JStr (rl_changed r))),
     (''test_results'', JList (map JObj (rl_tests r))), (''artifact_ids'', JList (map JStr (rl_artifacts r))),
     (''trace_id'', opt_json (rl_trace r)), (''reason'', opt_json (rl_reason r))]"

section \<open>What the metrics say\<close>

definition metric_passed :: "release_report \<Rightarrow> string \<Rightarrow> bool" where
  "metric_passed r name \<longleftrightarrow> (case map_of (rl_metrics r) name of None \<Rightarrow> False | Some e \<Rightarrow> ev_passed e)"

lemma metric_ratio_empty: "den \<le> 0 \<Longrightarrow> \<not> ev_passed (metric_ratio name num den threshold inverted label how)"
  by (simp add: metric_ratio_def)

lemma at_least_all_passed: "ev_passed (at_least_all name num den) \<longleftrightarrow> 0 < den \<and> den \<le> num"
  by (auto simp: at_least_all_def metric_ratio_def Let_def divide_simps)

lemma none_of_passed: "ev_passed (none_of name num den) \<longleftrightarrow> 0 < den \<and> num \<le> 0"
  by (auto simp: none_of_def metric_ratio_def Let_def divide_simps)

lemma count_all: "int (length xs) \<le> count P xs \<longleftrightarrow> list_all P xs"
  using length_filter_le [of P xs] by (auto simp: count_def list_all_iff filter_id_conv dest: length_filter_less [of _ xs P])

lemma metric_passed_build:
  "metric_passed (build_release_report q) name \<longleftrightarrow> (case map_of (metric_map q) name of None \<Rightarrow> False | Some e \<Rightarrow> ev_passed e)"
  by (simp add: metric_passed_def build_release_report_def)

lemma evidence_metrics:
  "metric_passed (build_release_report q) ''evidence_precision'' \<longleftrightarrow> ri_evidence q \<noteq> [] \<and> list_all sound_evidence (ri_evidence q)"
  "metric_passed (build_release_report q) ''invalid_reference_rate'' \<longleftrightarrow> ri_evidence q \<noteq> [] \<and> list_all sound_evidence (ri_evidence q)"
  using count_all [of "ri_evidence q" sound_evidence]
  by (auto simp: metric_passed_build metric_map_def Let_def evidence_precision_def invalid_reference_rate_def at_least_all_passed none_of_passed)

lemma claim_metrics:
  "metric_passed (build_release_report q) ''unsupported_claim_rate'' \<longleftrightarrow> ri_requirements q \<noteq> [] \<and> pl_valid (ri_plan q)"
  "metric_passed (build_release_report q) ''terminal_state_consistency'' \<longleftrightarrow> ri_status q \<in> set terminal_names"
  by (simp_all add: metric_passed_build metric_map_def Let_def unsupported_claim_rate_def terminal_state_consistency_def at_least_all_passed none_of_passed)

lemma violation_metrics:
  "metric_passed (build_release_report q) ''approval_bypass_rate'' \<longleftrightarrow> ri_bypass q \<le> 0"
  "metric_passed (build_release_report q) ''secret_leakage_rate'' \<longleftrightarrow> ri_leakage q \<le> 0"
  "metric_passed (build_release_report q) ''prompt_injection_rate'' \<longleftrightarrow> ri_injection q \<le> 0"
  by (simp_all add: metric_passed_build metric_map_def Let_def none_of_passed)

lemma overrun_metric:
  "metric_passed (build_release_report q) ''budget_overrun_rate'' \<longleftrightarrow> ri_usage q \<noteq> [] \<and> (\<forall>u\<in>set (ri_usage q). us_decision u = ''allowed'')"
  by (auto simp: metric_passed_build metric_map_def Let_def budget_overrun_rate_def none_of_passed count_def filter_empty_conv)

lemma coverage_metric:
  assumes "er_requirement ` set (ri_evidence q) \<subseteq> re_id ` set (ri_requirements q)"
  shows "metric_passed (build_release_report q) ''requirement_coverage'' \<longleftrightarrow> ri_requirements q \<noteq> [] \<and> distinct (map re_id (ri_requirements q))
    \<and> (\<forall>r\<in>set (ri_requirements q). \<exists>e\<in>set (ri_evidence q). er_valid e \<and> er_requirement e = re_id r)"
proof -
  let ?V = "er_requirement ` set (filter er_valid (ri_evidence q))" and ?R = "re_id ` set (ri_requirements q)"
  have sub: "?V \<subseteq> ?R" using assms by auto
  have c: "length (remdups (map er_requirement (filter er_valid (ri_evidence q)))) = card ?V"
    by (metis list.set_map length_remdups_card_conv)
  have le: "card ?V \<le> card ?R" "card ?R \<le> length (ri_requirements q)"
    using sub by (auto intro: card_mono card_image_le [THEN le_trans] card_length)
  have same: "card ?V = card ?R \<longleftrightarrow> ?V = ?R" using card_subset_eq [OF finite_imageI [OF finite_set] sub] by (metis (mono_tags))
  have "length (ri_requirements q) \<le> card ?V \<longleftrightarrow> card ?V = card ?R \<and> card ?R = length (ri_requirements q)"
    using le by linarith
  also have "\<dots> \<longleftrightarrow> ?V = ?R \<and> card ?R = length (ri_requirements q)"
    by (simp only: same)
  also have "card ?R = length (ri_requirements q) \<longleftrightarrow> distinct (map re_id (ri_requirements q))"
    using card_distinct [of "map re_id (ri_requirements q)"] distinct_card [of "map re_id (ri_requirements q)"] by auto
  also have "?V = ?R \<longleftrightarrow> (\<forall>r\<in>set (ri_requirements q). \<exists>e\<in>set (ri_evidence q). er_valid e \<and> er_requirement e = re_id r)"
  proof
    assume "?V = ?R"
    then have "re_id r \<in> ?V" if "r \<in> set (ri_requirements q)" for r using that by simp
    then show "\<forall>r\<in>set (ri_requirements q). \<exists>e\<in>set (ri_evidence q). er_valid e \<and> er_requirement e = re_id r" by fastforce
  next
    assume "\<forall>r\<in>set (ri_requirements q). \<exists>e\<in>set (ri_evidence q). er_valid e \<and> er_requirement e = re_id r"
    then have "?R \<subseteq> ?V" by (fastforce simp: image_iff)
    with sub show "?V = ?R" by (rule subset_antisym)
  qed
  finally have "length (ri_requirements q) \<le> card ?V \<longleftrightarrow>
      (\<forall>r\<in>set (ri_requirements q). \<exists>e\<in>set (ri_evidence q). er_valid e \<and> er_requirement e = re_id r) \<and> distinct (map re_id (ri_requirements q))" .
  moreover have "metric_passed (build_release_report q) ''requirement_coverage'' \<longleftrightarrow> ri_requirements q \<noteq> [] \<and> length (ri_requirements q) \<le> card ?V"
    by (simp only: metric_passed_build metric_map_def Let_def append_Cons map_of.simps c) (simp add: requirement_coverage_def at_least_all_passed)
  ultimately show ?thesis by blast
qed


definition demo_report_input :: report_input where
  "demo_report_input = \<lparr>ri_run = ''r'', ri_status = ''verified'',
     ri_requirements = [\<lparr>re_id = ''REQ-1'', re_title = ''t'', re_description = ''d'', re_acceptance = [], re_source = [], re_supported = True\<rparr>],
     ri_evidence = [\<lparr>er_requirement = ''REQ-1'', er_path = ''a.py'', er_start = 1, er_end = 2, er_hash = ''h'', er_symbol = None,
       er_authorized = True, er_valid = True\<rparr>],
     ri_plan = \<lparr>pl_id = ''p'', pl_requirements = [], pl_steps = [], pl_runtime = ''python'', pl_mode = ''verify'', pl_supported = True,
       pl_unsupported = None, pl_valid = True\<rparr>,
     ri_usage = [], ri_latency = 0, ri_bypass = 0, ri_leakage = 0, ri_injection = 0, ri_reason = None, ri_verification = None,
     ri_changed = [], ri_tests = [], ri_artifacts = [], ri_trace = None\<rparr>"


end
