(* ===== verification/Kernel_Views.thy ===== *)
theory Kernel_Views
  imports Kernel_Ledger
begin

text \<open>
  What \<open>agent_platform/storage.py\<close> reads back: the usage of a run, the list of proposals and the view of
  one proposal with its run, evidence, approval, report, artifacts and trace. Reading a view with a
  repository revalidates the proposal first, so it also returns the store.
\<close>

section \<open>Usage\<close>

text \<open>The constructor of \<open>UsageRecord\<close>, with its checks, on a decoded payload.\<close>

definition checked_usage :: "usage \<Rightarrow> exn + usage" where
  "checked_usage u =
     (if us_input u < 0 \<or> us_output u < 0 \<or> us_total u < 0 then Inl (ValueError ''token counts must be non-negative'')
      else if us_total u \<noteq> us_input u + us_output u then Inl (ValueError ''total_tokens must equal input_tokens + output_tokens'')
      else Inr u)"

definition usage_of_dict :: "dict \<Rightarrow> exn + usage" where
  "usage_of_dict d =
     (case (jget d ''run_id'', jget d ''call_id'', jget d ''phase'', jget d ''budget_decision'') of
        (JStr r, JStr c, JStr p, JStr b) \<Rightarrow>
          (case (jget d ''input_tokens'', jget d ''output_tokens'', jget d ''total_tokens'', jget d ''retrieval_expansion'') of
             (JInt i, JInt j, JInt k, JInt e) \<Rightarrow>
               (case (jget d ''estimated'', jget d ''cache_hit'', jget d ''retry'') of
                  (JBool x, JBool y, JBool z) \<Rightarrow> checked_usage \<lparr>us_run = r, us_call = c, us_phase = p, us_input = i, us_output = j,
                    us_total = k, us_estimated = x, us_cached = y, us_expansion = e, us_decision = b, us_retry = z\<rparr>
                | _ \<Rightarrow> Inl (TypeError ''UsageRecord''))
           | _ \<Rightarrow> Inl (TypeError ''UsageRecord''))
      | _ \<Rightarrow> Inl (TypeError ''UsageRecord''))"

fun load_usage :: "usage_row list \<Rightarrow> exn + usage list" where
  "load_usage [] = Inr []"
| "load_usage (x # xs) = (case load_dict (ku_payload x) of Inl e \<Rightarrow> Inl e | Inr d \<Rightarrow>
     case usage_of_dict d of Inl e \<Rightarrow> Inl e | Inr u \<Rightarrow> map_sum id (Cons u) (load_usage xs))"

definition kernel_usage :: "string \<Rightarrow> string \<Rightarrow> kernel_db \<Rightarrow> exn + usage list" where
  "kernel_usage rid t db = (case get_product_run rid t db of Inl e \<Rightarrow> Inl e | Inr _ \<Rightarrow>
     load_usage (sort_key ku_call (filter (\<lambda>x. ku_run x = rid) (k_usage db))))"

section \<open>Rows as dictionaries\<close>

definition lifecycle_dict :: "lifecycle_view \<Rightarrow> dict" where
  "lifecycle_dict v = [(''run_id'', JStr (lv_id v)), (''tenant_id'', JStr (lv_tenant v)), (''idempotency_key'', JStr (lv_key v)),
     (''state'', JStr (kernel_state_name (lv_state v))), (''mode'', JStr (lv_mode v)), (''sequence'', JInt (lv_seq v)),
     (''error'', opt_json (lv_error v)), (''approval_id'', opt_json (lv_approval v)), (''result'', JObj (lv_result v)),
     (''proposal_id'', opt_json (lv_proposal v)), (''repository_id'', opt_json (lv_repository v)), (''branch'', opt_json (lv_branch v)),
     (''commit'', opt_json (lv_commit v)), (''trace_id'', opt_json (lv_trace v))]"

definition proposal_dict :: "proposal_row \<Rightarrow> dict" where
  "proposal_dict p = [(''proposal_id'', JStr (pp_id p)), (''tenant_id'', JStr (pp_tenant p)), (''repository_id'', JStr (pp_repository p)),
     (''branch'', JStr (pp_branch p)), (''commit'', JStr (pp_commit p)), (''repository_dirty'', JBool (pp_dirty p)),
     (''idempotency_key'', JStr (pp_key p)), (''proposal_digest'', JStr (pp_digest p)), (''state'', JStr (pp_state p)),
     (''stale_evidence'', JBool (pp_stale p)), (''stale_reason'', opt_json (pp_stale_reason p)), (''latest_run_id'', opt_json (pp_latest p)),
     (''created_at'', JStr (pp_created p)), (''updated_at'', JStr (pp_updated p))]"

definition evidence_json :: "evidence_row \<Rightarrow> json" where
  "evidence_json e = JObj [(''evidence_id'', JStr (ek_id e)), (''requirement_id'', JStr (ek_requirement e)), (''path'', JStr (ek_path e)),
     (''start_line'', JInt (ek_start e)), (''end_line'', JInt (ek_end e)), (''content_hash'', JStr (ek_hash e)), (''symbol'', opt_json (ek_symbol e)),
     (''authorized'', JBool (ek_authorized e)), (''valid'', JBool (ek_valid e)), (''stale'', JBool (ek_stale e)),
     (''stale_reason'', opt_json (ek_stale_reason e)), (''checked_commit'', JStr (ek_commit e))]"

definition approval_json :: "proposal_approval_row \<Rightarrow> json" where
  "approval_json a = JObj [(''token_id'', JStr (pa_id a)), (''run_id'', JStr (pa_run a)), (''proposal_id'', JStr (pa_proposal a)),
     (''tenant_id'', JStr (pa_tenant a)), (''repository_id'', JStr (pa_repository a)), (''branch'', JStr (pa_branch a)), (''commit'', JStr (pa_commit a)),
     (''plan_digest'', JStr (pa_plan a)), (''scopes'', JList (map JStr (pa_scopes a))), (''consumed'', JBool (pa_status a = ''consumed'')),
     (''status'', JStr (pa_status a)), (''created_at'', JStr (pa_created a)), (''updated_at'', JStr (pa_updated a))]"

definition artifact_json :: "artifact_row \<Rightarrow> exn + json" where
  "artifact_json a = map_sum id (\<lambda>m. JObj [(''artifact_id'', JStr (af_id a)), (''kind'', JStr (af_kind a)), (''path'', opt_json (af_path a)),
     (''digest'', JStr (af_digest a)), (''metadata'', m), (''created_at'', JStr (af_created a))]) (load_json (af_metadata a))"

definition trace_json :: "trace_row \<Rightarrow> json" where
  "trace_json x = JObj [(''trace_id'', opt_json (tr_trace x)), (''provider'', JStr (tr_provider x)), (''project'', opt_json (tr_project x)),
     (''console_url'', opt_json (tr_url x)), (''export_status'', JStr (tr_status x)), (''observational'', JBool True), (''updated_at'', JStr (tr_updated x))]"

text \<open>\<open>ORDER BY updated_at DESC, proposal_id DESC\<close>\<close>

definition list_proposals :: "string \<Rightarrow> string \<Rightarrow> kernel_db \<Rightarrow> dict list" where
  "list_proposals t repo db = map proposal_dict
     (rev (sort_key pp_updated (sort_key pp_id (filter (\<lambda>p. pp_tenant p = t \<and> pp_repository p = repo) (k_proposals db)))))"

section \<open>The view of a proposal\<close>

fun load_artifacts :: "artifact_row list \<Rightarrow> exn + json list" where
  "load_artifacts [] = Inr []"
| "load_artifacts (a # as) = (case artifact_json a of Inl e \<Rightarrow> Inl e | Inr v \<Rightarrow> map_sum id (Cons v) (load_artifacts as))"

definition put :: "string \<Rightarrow> json \<Rightarrow> dict \<Rightarrow> dict" where
  "put k v d = AList.update k v d"

definition no_details :: "proposal_row \<Rightarrow> dict" where
  "no_details p = proposal_dict p @ [(''run'', JNull), (''requirements'', JList []), (''evidence'', JList []), (''plan'', JNull),
     (''approval'', JNull), (''report'', JNull), (''artifacts'', JList []), (''trace'', JNull)]"

definition run_details :: "proposal_row \<Rightarrow> lifecycle_view \<Rightarrow> dict" where
  "run_details p v = (if pp_stale p
     then put ''verification_blocked'' (JBool True) (put ''state'' (JStr ''stale'') (put ''ledger_state'' (JStr (kernel_state_name (lv_state v))) (lifecycle_dict v)))
     else lifecycle_dict v)"

definition requirement_details :: "string \<Rightarrow> string \<Rightarrow> kernel_db \<Rightarrow> exn + (json \<times> json)" where
  "requirement_details rid t db = (case find (\<lambda>x. px_run x = rid \<and> px_tenant x = t) (k_proposal_runs db) of
     None \<Rightarrow> Inr (JList [], JNull)
   | Some x \<Rightarrow> (case load_json (px_requirements x) of Inl e \<Rightarrow> Inl e | Inr r \<Rightarrow>
       case px_plan x of None \<Rightarrow> Inr (r, JNull) | Some c \<Rightarrow> map_sum id (\<lambda>p. (r, p)) (load_json c)))"

definition report_details :: "string \<Rightarrow> string \<Rightarrow> kernel_db \<Rightarrow> exn + json" where
  "report_details rid t db = (case find (\<lambda>v. vr_run v = rid \<and> vr_tenant v = t) (k_verifications db) of
     Some v \<Rightarrow> map_sum id (\<lambda>d. JObj (put ''verification_blocked'' (JBool (vr_stale v)) (put ''status'' (JStr (if vr_stale v then ''stale'' else vr_status v)) d)))
       (load_dict (vr_report v))
   | None \<Rightarrow> map_sum id (\<lambda>r. case r of None \<Rightarrow> JNull | Some j \<Rightarrow> j) (get_report rid t db))"

text \<open>The approval created last; rows are inserted in the order of their creation.\<close>

definition details :: "proposal_row \<Rightarrow> string \<Rightarrow> string \<Rightarrow> kernel_db \<Rightarrow> exn + dict" where
  "details p rid t db =
     (case get_product_run rid t db of Inl e \<Rightarrow> Inl e | Inr v \<Rightarrow>
      case requirement_details rid t db of Inl e \<Rightarrow> Inl e | Inr (reqs, pl) \<Rightarrow>
      case report_details rid t db of Inl e \<Rightarrow> Inl e | Inr report \<Rightarrow>
      case load_artifacts (sort_key af_created (sort_key af_id (filter (\<lambda>a. af_run a = rid \<and> af_tenant a = t) (k_artifacts db)))) of
        Inl e \<Rightarrow> Inl e
      | Inr artifacts \<Rightarrow> Inr (proposal_dict p @ [(''run'', JObj (run_details p v)), (''requirements'', reqs),
          (''evidence'', JList (map evidence_json (sort_key ek_id (filter (\<lambda>e. ek_run e = rid \<and> ek_tenant e = t) (k_evidence db))))),
          (''plan'', pl),
          (''approval'', case find (\<lambda>a. pa_run a = rid \<and> pa_tenant a = t) (rev (k_proposal_approvals db)) of None \<Rightarrow> JNull | Some a \<Rightarrow> approval_json a),
          (''report'', report), (''artifacts'', JList artifacts),
          (''trace'', case find (\<lambda>x. tr_run x = rid \<and> tr_tenant x = t) (k_traces db) of None \<Rightarrow> JNull | Some x \<Rightarrow> trace_json x)]))"

definition plain_view :: "string \<Rightarrow> string \<Rightarrow> kernel_db \<Rightarrow> exn + dict" where
  "plain_view pid t db = (case owned_proposal pid t db of Inl e \<Rightarrow> Inl e | Inr p \<Rightarrow>
     if \<not> given (pp_latest p) then Inr (no_details p) else details p (text_or_empty (pp_latest p)) t db)"

definition proposal_view :: "kernel_env \<Rightarrow> string \<Rightarrow> string \<Rightarrow> repository_map option \<Rightarrow> string \<Rightarrow> kernel_db \<Rightarrow> (exn + dict) \<times> kernel_db" where
  "proposal_view env pid t current now db =
     (case owned_proposal pid t db of Inl e \<Rightarrow> (Inl e, db) | Inr _ \<Rightarrow>
      case current of
        None \<Rightarrow> (plain_view pid t db, db)
      | Some m \<Rightarrow> and_then (revalidate_proposal env pid t m None now db) (\<lambda>_ db1. (plain_view pid t db1, db1)))"

section \<open>What a view shows\<close>

lemma owned_proposal_tenant: "owned_proposal pid t db = Inr p \<Longrightarrow> pp_tenant p = t \<and> pp_id p = pid"
  by (auto simp: owned_proposal_def dest: find_SomeD split: option.splits if_splits)

lemma plain_view_keys: "plain_view pid t db = Inr d \<Longrightarrow> jget d ''tenant_id'' = JStr t \<and> jget d ''proposal_id'' = JStr pid"
  by (auto simp: plain_view_def no_details_def details_def proposal_dict_def jget_def split: sum.splits if_splits dest!: owned_proposal_tenant)

lemma revalidate_changed:
  assumes "revalidate_proposal env pid t m checks now db = (Inr stale, db')" and "owned_proposal pid t db = Inr p"
    and "snapshot_changed (Some (pp_repository p), Some (pp_branch p), Some (pp_commit p)) (snapshot_of (Some m))" and "given (pp_latest p)"
  shows "\<exists>q. owned_proposal pid t db' = Inr q \<and> pp_stale q \<and> pp_latest q = pp_latest p
    \<and> (\<forall>e\<in>set (k_evidence db'). ek_run e = text_or_empty (pp_latest p) \<and> ek_tenant e = t \<longrightarrow> ek_stale e)
    \<and> (\<forall>v\<in>set (k_verifications db'). vr_run v = text_or_empty (pp_latest p) \<and> vr_tenant v = t \<longrightarrow> vr_stale v)"
proof -
  define rid where "rid = text_or_empty (pp_latest p)"
  define f :: "proposal_row \<Rightarrow> proposal_row" where
    "f q = q\<lparr>pp_stale := True, pp_stale_reason := Some changed_reason, pp_state := ''stale'', pp_updated := now\<rparr>" for q
  have db': "k_proposals db' = update_where (\<lambda>q. pp_id q = pid \<and> pp_tenant q = t) f (k_proposals db)"
    "k_evidence db' = update_where (\<lambda>e. ek_run e = rid \<and> ek_tenant e = t) (\<lambda>e. e\<lparr>ek_stale := True, ek_stale_reason := Some changed_reason\<rparr>) (k_evidence db)"
    "k_verifications db' = update_where (\<lambda>v. vr_run v = rid \<and> vr_tenant v = t) (\<lambda>v. v\<lparr>vr_stale := True, vr_updated := now\<rparr>) (k_verifications db)"
    using assms unfolding revalidate_proposal_def Let_def f_def rid_def by (auto split: if_splits sum.splits)
  have "find (\<lambda>q. pp_id q = pid) (k_proposals db) = Some p" "pp_tenant p = t" "pp_id p = pid"
    using assms(2) by (auto simp: owned_proposal_def dest: find_SomeD split: option.splits if_splits)
  then have "owned_proposal pid t db' = Inr (f p)"
    by (simp add: owned_proposal_def db'(1) find_update_where_same f_def)
  then show ?thesis
    by (intro exI [of _ "f p"], simp add: db'(2,3) rid_def [symmetric] ball_update_where f_def, blast)
qed

text \<open>
  C34. Once the branch or the commit of the repository differs from the one a proposal was analysed at,
  viewing the proposal with the current repository shows it as stale: the run it shows has the state
  \<open>stale\<close> and its verification is blocked, and every piece of evidence and the report in the view is
  marked stale, whatever the ledger says.
\<close>

theorem changed_repository_blocks_view:
  assumes "proposal_view env pid t (Some m) now db = (Inr d, db')" and "owned_proposal pid t db = Inr p"
    and "snapshot_changed (Some (pp_repository p), Some (pp_branch p), Some (pp_commit p)) (snapshot_of (Some m))" and "given (pp_latest p)"
  shows "jget d ''stale_evidence'' = JBool True
    \<and> (\<exists>run. jget d ''run'' = JObj run \<and> jget run ''state'' = JStr ''stale'' \<and> jget run ''verification_blocked'' = JBool True)
    \<and> (\<exists>es. jget d ''evidence'' = JList (map evidence_json es) \<and> list_all ek_stale es)
    \<and> (\<forall>r. jget d ''report'' = JObj r \<longrightarrow> (\<exists>v\<in>set (k_verifications db'). vr_run v = text_or_empty (pp_latest p) \<and> vr_tenant v = t)
        \<longrightarrow> jget r ''status'' = JStr ''stale'')"
proof -
  obtain stale where rev: "revalidate_proposal env pid t m None now db = (Inr stale, db')" and v: "plain_view pid t db' = Inr d"
    using assms(1,2) by (auto simp: proposal_view_def and_then_def split: prod.splits sum.splits)
  define rid where "rid = text_or_empty (pp_latest p)"
  obtain q where q: "owned_proposal pid t db' = Inr q" "pp_stale q" "pp_latest q = pp_latest p"
    and e: "\<forall>e\<in>set (k_evidence db'). ek_run e = rid \<and> ek_tenant e = t \<longrightarrow> ek_stale e"
    and vr: "\<forall>v\<in>set (k_verifications db'). vr_run v = rid \<and> vr_tenant v = t \<longrightarrow> vr_stale v"
    using revalidate_changed [OF rev assms(2-4)] unfolding rid_def by blast
  have "details q rid t db' = Inr d" using v q assms(4) by (simp add: plain_view_def rid_def)
  then obtain lv reqs pl report approval rest where r: "report_details rid t db' = Inr report"
    and d: "d = proposal_dict q @ [(''run'', JObj (run_details q lv)), (''requirements'', reqs),
      (''evidence'', JList (map evidence_json (sort_key ek_id (filter (\<lambda>e. ek_run e = rid \<and> ek_tenant e = t) (k_evidence db'))))),
      (''plan'', pl), (''approval'', approval), (''report'', report)] @ rest"
    by (auto simp: details_def split: sum.splits prod.splits)
  have "list_all ek_stale (sort_key ek_id (filter (\<lambda>e. ek_run e = rid \<and> ek_tenant e = t) (k_evidence db')))"
    using e by (simp add: list_all_iff)
  moreover have "jget x ''status'' = JStr ''stale''" if x: "report = JObj x" and y: "\<exists>v\<in>set (k_verifications db'). vr_run v = rid \<and> vr_tenant v = t" for x
  proof -
    obtain v where v: "find (\<lambda>v. vr_run v = rid \<and> vr_tenant v = t) (k_verifications db') = Some v"
      using y find_None_iff_set [of "\<lambda>v. vr_run v = rid \<and> vr_tenant v = t" "k_verifications db'"] by (metis option.exhaust)
    then have "vr_stale v" using vr find_SomeD [OF v] by blast
    then show ?thesis using r x v by (auto simp: report_details_def map_sum_def put_def jget_def update_conv' split: sum.splits)
  qed
  ultimately show ?thesis using q(2) unfolding rid_def [symmetric]
    by (auto simp: d jget_def proposal_dict_def run_details_def put_def update_conv')
qed

definition demo_kernel :: kernel_env where
  "demo_kernel = \<lparr>ke_sha = (\<lambda>s. s), ke_float = (\<lambda>_. ''0.0''), ke_instant = (\<lambda>_. Some 0)\<rparr>"

definition demo_repository :: "string \<Rightarrow> repository_map" where
  "demo_repository commit = \<lparr>rm_id = Some ''repo'', rm_root = None, rm_path = None, rm_name = None, rm_branch = Some ''main'',
     rm_commit = Some (Some commit), rm_head = None, rm_dirty = False, rm_capabilities = []\<rparr>"

definition demo_store :: kernel_db where
  "demo_store = (case create_proposal demo_kernel ''t'' (demo_repository ''c1'') ''add'' ''verify'' ''k'' ''1'' ''now'' empty_kernel of
     (Inl _, db) \<Rightarrow> db
   | (Inr _, db) \<Rightarrow> (case create_product_run demo_kernel \<lparr>rq_run = ''run'', rq_tenant = ''t'', rq_key = ''k'', rq_mode = ''verify'', rq_payload = [],
       rq_proposal = Some ''proposal-1'', rq_repository = Some (demo_repository ''c1''), rq_trace = None\<rparr> ''e'' ''now'' db of
         Inl _ \<Rightarrow> db | Inr (_, db1) \<Rightarrow> db1))"

theorem changed_repository_blocks_view_witness:
  "\<exists>d. fst (proposal_view demo_kernel ''proposal-1'' ''t'' (Some (demo_repository ''c2'')) ''later'' demo_store) = Inr d
     \<and> jget d ''stale_evidence'' = JBool True"
proof -
  let ?v = "proposal_view demo_kernel ''proposal-1'' ''t'' (Some (demo_repository ''c2'')) ''later'' demo_store"
  have "\<not> isl (fst ?v)" by code_simp
  then obtain d db' where v: "?v = (Inr d, db')" by (metis prod.collapse sum.collapse(2))
  have "\<not> isl (owned_proposal ''proposal-1'' ''t'' demo_store)" by code_simp
  then obtain p where p: "owned_proposal ''proposal-1'' ''t'' demo_store = Inr p" by (metis sum.collapse(2))
  have "(case owned_proposal ''proposal-1'' ''t'' demo_store of Inl _ \<Rightarrow> False | Inr p \<Rightarrow>
      snapshot_changed (Some (pp_repository p), Some (pp_branch p), Some (pp_commit p)) (snapshot_of (Some (demo_repository ''c2''))) \<and> given (pp_latest p))"
    by code_simp
  then have "snapshot_changed (Some (pp_repository p), Some (pp_branch p), Some (pp_commit p)) (snapshot_of (Some (demo_repository ''c2'')))"
    "given (pp_latest p)" using p by simp_all
  from changed_repository_blocks_view [OF v p this] v show ?thesis by auto
qed

end
