(* ===== verification/Model_Port.thy ===== *)
theory Model_Port
  imports Kernel_Redaction Token_Budget
begin

text \<open>
  The structured model port of \<open>services/agent_orchestrator/model_port.py\<close>: the prompt, the model
  that answers without a network, and the adapter of a LangChain runnable with the reading of its
  result. The runnable, its input builder and \<open>str\<close> of containers are parameters. Prompts are what
  \<open>json.dumps\<close> writes, hence ASCII.
\<close>

record structured_result =
  mo_data :: dict
  mo_input :: int
  mo_output :: int
  mo_estimated :: bool

definition total_tokens :: "structured_result \<Rightarrow> int" where
  "total_tokens r = mo_input r + mo_output r"

definition tokens_of :: "string \<Rightarrow> int" where
  "tokens_of text = int (estimate_tokens (length text))"

text \<open>\<open>PromptContextAdapter.build\<close>\<close>

definition build_prompt :: "(rat \<Rightarrow> string) \<Rightarrow> string \<Rightarrow> dict \<Rightarrow> string \<times> dict" where
  "build_prompt fr proposal context = (let safe = redact_dict context in
     (json_dump fr (JObj [(''task'', JStr ''analyze proposal''), (''proposal'', JStr proposal), (''context'', JObj safe)]), safe))"

definition json_items :: "json \<Rightarrow> exn + json list" where
  "json_items v = (case v of JList l \<Rightarrow> Inr l | JObj d \<Rightarrow> Inr (map (JStr \<circ> fst) d) | JStr s \<Rightarrow> Inr (map (\<lambda>c. JStr [c]) s)
     | _ \<Rightarrow> Inl (TypeError ''object is not iterable''))"

text \<open>\<open>FakeStructuredModel\<close>: output tokens and flag as configured, and the prompts it was called with.\<close>

record fake_model =
  fm_output :: int
  fm_estimated :: bool
  fm_calls :: "string list"

definition fake_generate :: "(json \<Rightarrow> string) \<Rightarrow> string \<Rightarrow> dict \<Rightarrow> fake_model \<Rightarrow> (exn + structured_result) \<times> fake_model" where
  "fake_generate repr prompt context m = (let m1 = m\<lparr>fm_calls := fm_calls m @ [prompt]\<rparr> in
     (case json_items (jget_default context ''requirement_ids'' (JList [])) of Inl e \<Rightarrow> Inl e | Inr ids \<Rightarrow>
        Inr \<lparr>mo_data = [(''summary'', JStr ''deterministic analysis''), (''requirement_ids'', JList (map (JStr \<circ> py_str repr) ids)),
            (''claims'', JList [JStr ''evidence-backed''])],
          mo_input = tokens_of prompt, mo_output = fm_output m, mo_estimated = fm_estimated m\<rparr>, m1))"

section \<open>The LangChain adapter\<close>

text \<open>What a runnable gives: a mapping, or an object, with the mapping of its \<open>model_dump\<close> where it has one.\<close>

datatype runnable_value = Mapping_Value dict | Object_Value "json option"

definition mapping_from_result :: "runnable_value \<Rightarrow> exn + dict" where
  "mapping_from_result v =
     (case v of
        Mapping_Value d \<Rightarrow> (case jget_default d ''data'' (JObj d) of JObj x \<Rightarrow> Inr x
          | _ \<Rightarrow> Inl (ValueError ''LangChain runnable must return a mapping''))
      | Object_Value (Some (JObj d)) \<Rightarrow> Inr d
      | Object_Value _ \<Rightarrow> Inl (ValueError ''LangChain runnable must return a mapping''))"

fun int_value :: "dict \<Rightarrow> string list \<Rightarrow> int option" where
  "int_value d [] = None"
| "int_value d (k # ks) = (case jget d k of JInt n \<Rightarrow> Some n | _ \<Rightarrow> int_value d ks)"

definition usage_candidates :: "runnable_value \<Rightarrow> dict list" where
  "usage_candidates v = (case v of
     Mapping_Value d \<Rightarrow> d # concat (map (\<lambda>k. case jget d k of JObj x \<Rightarrow> [x] | _ \<Rightarrow> []) [''usage_metadata'', ''response_metadata'', ''usage''])
   | Object_Value _ \<Rightarrow> [])"

fun first_int :: "dict list \<Rightarrow> string list \<Rightarrow> int option" where
  "first_int [] ks = None"
| "first_int (d # ds) ks = (case int_value d ks of Some n \<Rightarrow> Some n | None \<Rightarrow> first_int ds ks)"

definition usage_from_result :: "runnable_value \<Rightarrow> int option \<times> int option" where
  "usage_from_result v = (first_int (usage_candidates v) [''input_tokens'', ''prompt_tokens''],
     first_int (usage_candidates v) [''output_tokens'', ''completion_tokens''])"

definition string_list :: "json \<Rightarrow> bool" where
  "string_list v \<longleftrightarrow> (case v of JList l \<Rightarrow> list_all (\<lambda>x. case x of JStr _ \<Rightarrow> True | _ \<Rightarrow> False) l | _ \<Rightarrow> False)"

definition validate_analysis :: "dict \<Rightarrow> exn + dict" where
  "validate_analysis d =
     (if list_ex (\<lambda>k. map_of d k = None) [''summary'', ''requirement_ids'', ''claims''] \<or> (case jget d ''summary'' of JStr _ \<Rightarrow> False | _ \<Rightarrow> True)
      then Inl (ValueError ''LangChain result does not match proposal analysis schema'')
      else if \<not> string_list (jget d ''requirement_ids'') \<or> \<not> string_list (jget d ''claims'')
      then Inl (ValueError ''LangChain result lists must contain strings'')
      else Inr [(''summary'', jget d ''summary''), (''requirement_ids'', jget d ''requirement_ids''), (''claims'', jget d ''claims'')])"

text \<open>\<open>generate\<close>; \<open>invoke\<close> gets the payload and may raise, the validator is optional.\<close>

definition langchain_generate :: "(rat \<Rightarrow> string) \<Rightarrow> (dict \<Rightarrow> 'w \<Rightarrow> (exn + runnable_value) \<times> 'w) \<Rightarrow> (dict \<Rightarrow> exn + dict) option \<Rightarrow>
    string \<Rightarrow> dict \<Rightarrow> string \<Rightarrow> string \<Rightarrow> 'w \<Rightarrow> (exn + structured_result) \<times> 'w" where
  "langchain_generate fr invoke validator prompt context schema key w =
     and_then (invoke [(''prompt'', JStr prompt), (''context'', JObj context), (''schema'', JStr schema), (''idempotency_key'', JStr key)] w)
       (\<lambda>v w1.
         (case mapping_from_result v of Inl e \<Rightarrow> Inl e | Inr d \<Rightarrow>
          case (case validator of None \<Rightarrow> Inr d | Some f \<Rightarrow> f d) of Inl e \<Rightarrow> Inl e | Inr checked \<Rightarrow>
          let (i, j) = usage_from_result v in
          Inr \<lparr>mo_data = checked, mo_input = (case i of None \<Rightarrow> tokens_of prompt | Some n \<Rightarrow> n),
            mo_output = (case j of None \<Rightarrow> tokens_of (json_dump fr (JObj checked)) | Some n \<Rightarrow> n), mo_estimated = (i = None \<or> j = None)\<rparr>, w1))"

section \<open>What an answer is\<close>

text \<open>A result of the proposal adapter has exactly the three fields, a text and two lists of texts.\<close>

definition analysis_shape :: "dict \<Rightarrow> bool" where
  "analysis_shape d \<longleftrightarrow> map fst d = [''summary'', ''requirement_ids'', ''claims''] \<and> (\<exists>s. jget d ''summary'' = JStr s)
     \<and> string_list (jget d ''requirement_ids'') \<and> string_list (jget d ''claims'')"

lemma validate_analysis_Inr: "validate_analysis d = Inr x \<Longrightarrow> analysis_shape x"
  by (auto simp: validate_analysis_def analysis_shape_def jget_def split: if_splits json.splits)

lemma fake_generate_shape:
  assumes "fake_generate repr prompt context m = (Inr r, m')"
  shows "analysis_shape (mo_data r) \<and> 0 < mo_input r"
  using assms by (auto simp: fake_generate_def Let_def analysis_shape_def jget_def string_list_def list_all_iff tokens_of_def
    estimate_tokens_def split: sum.splits)

lemma langchain_generate_shape:
  assumes "langchain_generate fr invoke (Some validate_analysis) prompt context schema key w = (Inr r, w')"
  shows "analysis_shape (mo_data r)"
  using assms validate_analysis_Inr
  by (auto simp del: json_dump.simps simp: langchain_generate_def and_then_def Let_def split: prod.splits sum.splits)

text \<open>Tokens that the provider reports are taken as they are; without a report they are estimated, and marked so.\<close>

lemma reported_usage:
  "usage_from_result (Mapping_Value [(''data'', JObj d), (''usage_metadata'', JObj [(''input_tokens'', JInt m), (''output_tokens'', JInt n)])])
     = (Some m, Some n)"
  by (simp add: usage_from_result_def usage_candidates_def jget_def)

end
