(* ===== verification/Regex.thy ===== *)
theory Regex
  imports Redaction
begin

text \<open>
  Python's backtracking regular expressions, as far as the project pack uses the module \<open>re\<close>. A
  subject is split at the current position into the text before it, reversed, and the text after it. A
  pattern gives all its matches there in the order of preference in which backtracking tries them; what
  \<open>match\<close>, \<open>search\<close> and \<open>finditer\<close> return is the first of them.
\<close>

datatype rx =
    One "char \<Rightarrow> bool"
  | Then rx rx
  | Either rx rx
  | Maybe rx
  | Run nat "char \<Rightarrow> bool"
  | Run_Lazy nat "char \<Rightarrow> bool"
  | Group nat rx
  | Line_Start
  | End

type_synonym rx_match = "string \<times> string \<times> (nat \<times> string) list"

text \<open>A run of at least \<open>n\<close> characters, the longest or the shortest first.\<close>

fun rx_run :: "(char \<Rightarrow> bool) \<Rightarrow> nat \<Rightarrow> string \<Rightarrow> string \<Rightarrow> rx_match list" where
  "rx_run p n before [] = (if n = 0 then [(before, [], [])] else [])"
| "rx_run p n before (c # s) =
     (if p c then rx_run p (n - 1) (c # before) s else []) @ (if n = 0 then [(before, c # s, [])] else [])"

fun rx_run_lazy :: "(char \<Rightarrow> bool) \<Rightarrow> nat \<Rightarrow> string \<Rightarrow> string \<Rightarrow> rx_match list" where
  "rx_run_lazy p n before [] = (if n = 0 then [(before, [], [])] else [])"
| "rx_run_lazy p n before (c # s) =
     (if n = 0 then [(before, c # s, [])] else []) @ (if p c then rx_run_lazy p (n - 1) (c # before) s else [])"

primrec rx_all :: "rx \<Rightarrow> string \<Rightarrow> string \<Rightarrow> rx_match list" where
  "rx_all (One p) before after = (case after of [] \<Rightarrow> [] | c # s \<Rightarrow> if p c then [(c # before, s, [])] else [])"
| "rx_all (Then a b) before after =
     concat (map (\<lambda>(bf, af, gs). map (\<lambda>(bf', af', gs'). (bf', af', gs @ gs')) (rx_all b bf af)) (rx_all a before after))"
| "rx_all (Either a b) before after = rx_all a before after @ rx_all b before after"
| "rx_all (Maybe a) before after = rx_all a before after @ [(before, after, [])]"
| "rx_all (Run n p) before after = rx_run p n before after"
| "rx_all (Run_Lazy n p) before after = rx_run_lazy p n before after"
| "rx_all (Group k a) before after = map (\<lambda>(bf, af, gs). (bf, af, (k, take (length after - length af) after) # gs)) (rx_all a before after)"
| "rx_all Line_Start before after = (case before of [] \<Rightarrow> [(before, after, [])]
     | c # _ \<Rightarrow> if c = CHR 0x0A then [(before, after, [])] else [])"
| "rx_all End before after = (if after = [] \<or> after = [CHR 0x0A] then [(before, after, [])] else [])"

definition rx_match_at :: "rx \<Rightarrow> string \<Rightarrow> string \<Rightarrow> rx_match option" where
  "rx_match_at r before after = (case rx_all r before after of [] \<Rightarrow> None | m # _ \<Rightarrow> Some m)"

fun rx_search :: "rx \<Rightarrow> string \<Rightarrow> string \<Rightarrow> rx_match option" where
  "rx_search r before [] = rx_match_at r before []"
| "rx_search r before (c # s) = (case rx_match_at r before (c # s) of Some m \<Rightarrow> Some m | None \<Rightarrow> rx_search r (c # before) s)"

text \<open>\<open>finditer\<close>, for patterns that match no empty text; the fuel is the number of characters left.\<close>

fun rx_iter :: "nat \<Rightarrow> rx \<Rightarrow> string \<Rightarrow> string \<Rightarrow> rx_match list" where
  "rx_iter 0 r before after = []"
| "rx_iter (Suc n) r before after = (case rx_search r before after of None \<Rightarrow> []
     | Some (bf, af, gs) \<Rightarrow> (bf, af, gs) # rx_iter n r bf af)"

definition rx_findall :: "rx \<Rightarrow> string \<Rightarrow> rx_match list" where
  "rx_findall r s = rx_iter (length s) r [] s"

definition group_of :: "nat \<Rightarrow> rx_match \<Rightarrow> string option" where
  "group_of k m = map_of (snd (snd m)) k"

section \<open>Building patterns\<close>

definition char_ci :: "char \<Rightarrow> char \<Rightarrow> bool" where
  "char_ci a c \<longleftrightarrow> lower_char c = lower_char a"

text \<open>A literal text, with and without regard to case.\<close>

fun rx_text :: "string \<Rightarrow> rx" where
  "rx_text [] = Run 0 (\<lambda>_. False)"
| "rx_text (c # s) = Then (One (\<lambda>x. x = c)) (rx_text s)"

fun rx_text_ci :: "string \<Rightarrow> rx" where
  "rx_text_ci [] = Run 0 (\<lambda>_. False)"
| "rx_text_ci (c # s) = Then (One (char_ci c)) (rx_text_ci s)"

fun rx_any :: "rx list \<Rightarrow> rx" where
  "rx_any [] = One (\<lambda>_. False)"
| "rx_any [r] = r"
| "rx_any (r # rs) = Either r (rx_any rs)"

fun rx_seq :: "rx list \<Rightarrow> rx" where
  "rx_seq [] = Run 0 (\<lambda>_. False)"
| "rx_seq [r] = r"
| "rx_seq (r # rs) = Then r (rx_seq rs)"

section \<open>What a match consumes\<close>

lemma rx_run_consumes: "(bf, af, gs) \<in> set (rx_run p n before after) \<Longrightarrow>
    gs = [] \<and> (\<exists>m. after = m @ af \<and> bf = rev m @ before \<and> n \<le> length m \<and> list_all p m)"
proof (induction p n before after rule: rx_run.induct)
  case (2 p n before c s)
  show ?case
  proof (cases "p c \<and> (bf, af, gs) \<in> set (rx_run p (n - 1) (c # before) s)")
    case True
    then obtain m where "gs = []" "s = m @ af" "bf = rev m @ c # before" "n - 1 \<le> length m" "list_all p m" using 2 by auto
    then show ?thesis using True by (intro conjI exI [of _ "c # m"]) auto
  next
    case False
    then show ?thesis using 2(2) by (auto split: if_splits)
  qed
qed (auto split: if_splits)

lemma rx_run_lazy_set: "set (rx_run_lazy p n before after) = set (rx_run p n before after)"
  by (induction p n before after rule: rx_run_lazy.induct) auto

lemma rx_all_consumes: "(bf, af, gs) \<in> set (rx_all r before after) \<Longrightarrow> \<exists>m. after = m @ af \<and> bf = rev m @ before"
proof (induction r arbitrary: bf af gs before after)
  case (Then a b)
  from Then.prems obtain bf1 af1 gs1 gs2 where a: "(bf1, af1, gs1) \<in> set (rx_all a before after)"
    and b: "(bf, af, gs2) \<in> set (rx_all b bf1 af1)" by auto
  from Then.IH(1) [OF a] Then.IH(2) [OF b] show ?case by auto
qed (auto split: list.splits if_splits simp: rx_run_lazy_set dest!: rx_run_consumes)

lemma rx_match_at_None: "rx_match_at r before after = None \<longleftrightarrow> rx_all r before after = []"
  by (simp add: rx_match_at_def split: list.split)

lemma rx_match_at_Some: "rx_match_at r before after = Some m \<Longrightarrow> m \<in> set (rx_all r before after)"
  by (auto simp: rx_match_at_def split: list.splits)

lemma rx_search_None: "rx_search r before after = None \<longleftrightarrow> (\<forall>pre post. after = pre @ post \<longrightarrow> rx_all r (rev pre @ before) post = [])"
proof (induction r before after rule: rx_search.induct)
  case (2 r before c s)
  have "(\<forall>pre post. c # s = pre @ post \<longrightarrow> P pre post) \<longleftrightarrow> P [] (c # s) \<and> (\<forall>pre post. s = pre @ post \<longrightarrow> P (c # pre) post)" for P
    by (auto simp: Cons_eq_append_conv)
  then show ?case using 2 by (auto simp: rx_match_at_None [symmetric] split: option.splits)
qed (simp add: rx_match_at_None)

lemma rx_search_Some: "rx_search r before after = Some m \<Longrightarrow> \<exists>pre post. after = pre @ post \<and> m \<in> set (rx_all r (rev pre @ before) post)"
proof (induction r before after rule: rx_search.induct)
  case (2 r before c s)
  show ?case
  proof (cases "rx_match_at r before (c # s)")
    case None
    then obtain pre post where "s = pre @ post" "m \<in> set (rx_all r (rev pre @ c # before) post)" using 2 by auto
    then show ?thesis by (intro exI [of _ "c # pre"] exI [of _ post]) simp
  next
    case (Some x)
    then show ?thesis using 2(2) by (intro exI [of _ "[]"] exI [of _ "c # s"]) (simp add: rx_match_at_Some)
  qed
qed (auto dest: rx_match_at_Some)

lemma rx_text_ci_all: "lower t = lower s \<Longrightarrow> rx_all (rx_text_ci s) before (t @ rest) \<noteq> []"
proof (induction s arbitrary: t before)
  case Nil
  then show ?case by (cases rest) (simp_all add: lower_def)
next
  case (Cons c s)
  then obtain d u where t: "t = d # u" "lower_char d = lower_char c" "lower u = lower s"
    by (cases t) (auto simp: lower_def)
  then show ?case using Cons.IH [OF t(3), of "d # before"] by (simp add: char_ci_def)
qed

lemma rx_all_Either: "rx_all (Either a b) before after \<noteq> [] \<longleftrightarrow> rx_all a before after \<noteq> [] \<or> rx_all b before after \<noteq> []"
  by simp

section \<open>The language of a pattern\<close>

text \<open>The texts a pattern without anchors can match, and that the matcher finds exactly those.\<close>

primrec anchor_free :: "rx \<Rightarrow> bool" where
  "anchor_free (One p) = True"
| "anchor_free (Then a b) = (anchor_free a \<and> anchor_free b)"
| "anchor_free (Either a b) = (anchor_free a \<and> anchor_free b)"
| "anchor_free (Maybe a) = anchor_free a"
| "anchor_free (Run n p) = True"
| "anchor_free (Run_Lazy n p) = True"
| "anchor_free (Group k a) = anchor_free a"
| "anchor_free Line_Start = False"
| "anchor_free End = False"

primrec matches :: "rx \<Rightarrow> string \<Rightarrow> bool" where
  "matches (One p) m = (\<exists>c. m = [c] \<and> p c)"
| "matches (Then a b) m = (\<exists>x y. m = x @ y \<and> matches a x \<and> matches b y)"
| "matches (Either a b) m = (matches a m \<or> matches b m)"
| "matches (Maybe a) m = (matches a m \<or> m = [])"
| "matches (Run n p) m = (n \<le> length m \<and> list_all p m)"
| "matches (Run_Lazy n p) m = (n \<le> length m \<and> list_all p m)"
| "matches (Group k a) m = matches a m"
| "matches Line_Start m = (m = [])"
| "matches End m = (m = [])"

lemma rx_run_complete: "n \<le> length m \<Longrightarrow> list_all p m \<Longrightarrow> (rev m @ before, rest, []) \<in> set (rx_run p n before (m @ rest))"
proof (induction m arbitrary: n before)
  case Nil
  then show ?case by (cases rest) auto
next
  case (Cons c m)
  then have "(rev m @ c # before, rest, []) \<in> set (rx_run p (n - 1) (c # before) (m @ rest))" by simp
  then show ?case using Cons.prems by simp
qed

lemma rx_all_complete: "anchor_free r \<Longrightarrow> matches r m \<Longrightarrow> \<exists>gs. (rev m @ before, rest, gs) \<in> set (rx_all r before (m @ rest))"
proof (induction r arbitrary: m before rest)
  case (Then a b)
  then obtain x y where m: "m = x @ y" "matches a x" "matches b y" by auto
  obtain gs where g: "(rev x @ before, y @ rest, gs) \<in> set (rx_all a before (x @ y @ rest))"
    using Then.IH(1) [of x before "y @ rest"] Then.prems(1) m(2) by auto
  obtain hs where "(rev y @ rev x @ before, rest, hs) \<in> set (rx_all b (rev x @ before) (y @ rest))"
    using Then.IH(2) [of y "rev x @ before" rest] Then.prems(1) m(3) by auto
  with g have "(rev y @ rev x @ before, rest, gs @ hs) \<in> set (rx_all (Then a b) before (x @ y @ rest))"
    by (force simp: image_iff)
  then show ?case unfolding m(1) by (metis append.assoc rev_append)
next
  case (Group k a)
  then show ?case by (fastforce intro: rev_image_eqI)
next
  case (Either a b)
  then show ?case by (auto) blast+
next
  case (Maybe a)
  then show ?case by auto blast
qed (auto simp: rx_run_lazy_set dest: rx_run_complete)

lemma rx_all_sound: "(bf, af, gs) \<in> set (rx_all r before after) \<Longrightarrow> \<exists>m. after = m @ af \<and> bf = rev m @ before \<and> matches r m"
proof (induction r arbitrary: bf af gs before after)
  case (Then a b)
  from Then.prems obtain bf1 af1 gs1 gs2 where a: "(bf1, af1, gs1) \<in> set (rx_all a before after)"
    and b: "(bf, af, gs2) \<in> set (rx_all b bf1 af1)" by auto
  obtain x where x: "after = x @ af1" "bf1 = rev x @ before" "matches a x" using Then.IH(1) [OF a] by auto
  obtain y where y: "af1 = y @ af" "bf = rev y @ bf1" "matches b y" using Then.IH(2) [OF b] by auto
  from x y show ?case by (intro exI [of _ "x @ y"]) auto
next
  case (Either a b)
  then consider "(bf, af, gs) \<in> set (rx_all a before after)" | "(bf, af, gs) \<in> set (rx_all b before after)" by auto
  then show ?case using Either.IH by cases (simp, blast)+
next
  case (Maybe a)
  then consider "(bf, af, gs) \<in> set (rx_all a before after)" | "bf = before" "af = after" by auto
  then show ?case using Maybe.IH by cases (simp, blast | simp)+
qed (auto split: list.splits if_splits simp: rx_run_lazy_set dest!: rx_run_consumes)

lemma rx_search_language:
  assumes "anchor_free r"
  shows "rx_search r before s \<noteq> None \<longleftrightarrow> (\<exists>pre m post. s = pre @ m @ post \<and> matches r m)"
proof
  assume "rx_search r before s \<noteq> None"
  then obtain bf af gs where "rx_search r before s = Some (bf, af, gs)" by auto
  from rx_search_Some [OF this] rx_all_sound show "\<exists>pre m post. s = pre @ m @ post \<and> matches r m" by metis
next
  assume "\<exists>pre m post. s = pre @ m @ post \<and> matches r m"
  then obtain pre m post where s: "s = pre @ m @ post" "matches r m" by auto
  obtain gs where "(rev m @ rev pre @ before, post, gs) \<in> set (rx_all r (rev pre @ before) (m @ post))"
    using rx_all_complete [OF assms s(2)] by metis
  then show "rx_search r before s \<noteq> None" using s(1) rx_search_None [of r before s] by (metis empty_iff empty_set)
qed

lemma list_all_False [simp]: "list_all (\<lambda>_. False) m \<longleftrightarrow> m = []"
  by (cases m) simp_all

lemma matches_text_ci [simp]: "matches (rx_text_ci s) m \<longleftrightarrow> lower m = lower s"
proof (induction s arbitrary: m)
  case (Cons c s)
  have "matches (rx_text_ci (c # s)) m \<longleftrightarrow> (\<exists>x y. m = x @ y \<and> (\<exists>d. x = [d] \<and> char_ci c d) \<and> lower y = lower s)"
    by (simp add: Cons.IH)
  also have "\<dots> \<longleftrightarrow> (\<exists>d y. m = d # y \<and> char_ci c d \<and> lower y = lower s)"
    by (metis append_Cons append_Nil)
  also have "\<dots> \<longleftrightarrow> lower m = lower (c # s)"
    by (cases m) (simp_all add: char_ci_def lower_def)
  finally show ?case .
qed (simp add: lower_def)

lemma anchor_free_text_ci [simp]: "anchor_free (rx_text_ci s)"
  by (induction s) auto

lemma matches_text [simp]: "matches (rx_text s) m \<longleftrightarrow> m = s"
proof (induction s arbitrary: m)
  case (Cons c s)
  have "(\<exists>x y. m = x @ y \<and> (\<exists>d. x = [d] \<and> d = c) \<and> y = s) \<longleftrightarrow> m = c # s" by auto
  then show ?case using Cons by simp
qed simp

lemma anchor_free_text [simp]: "anchor_free (rx_text s)"
  by (induction s) auto

end
