(* ===== verification/Project_Pack.thy ===== *)
theory Project_Pack
  imports Regex Change_Plan Json_Text
begin

text \<open>
  The project pack that turns a proposal into requirements, evidence and a plan:
  \<open>project_packs/proposal_to_verified_change/index.py\<close> and \<open>pack.py\<close>. Parameters, in
  \<open>pack_env\<close>: the file tree and the files as they resolve now, SHA-256 and \<open>str\<close> of a tuple of
  evidence. Text is ASCII where it is encoded.
\<close>

section \<open>The file tree\<close>

text \<open>
  What \<open>rglob\<close> gives for one entry, in the order of the sorted paths: is it a regular file and no
  link, does it resolve below the root (\<open>None\<close> where resolving fails), and its text where it can be
  read. \<open>live_file\<close> is what a path below the root resolves to at the moment.
\<close>

record tree_entry =
  te_path :: string
  te_link :: bool
  te_file :: bool
  te_inside :: "bool option"
  te_text :: "string option"

datatype live_file = No_File | Not_Resolved exn | Outside_Root | Not_Readable | Readable string

record 'w pack_env =
  pe_tree :: "'w \<Rightarrow> tree_entry list"
  pe_live :: "string \<Rightarrow> 'w \<Rightarrow> live_file"
  pe_sha :: "string \<Rightarrow> string"
  pe_str :: "evidence list \<Rightarrow> string"

record indexed_file =
  xf_path :: string
  xf_content :: string
  xf_hash :: string
  xf_lines :: "string list"
  xf_symbols :: "string list"

record repository_index =
  ix_allowlist :: "string list"
  ix_max_files :: int
  ix_max_depth :: int
  ix_files :: "(string \<times> indexed_file) list"

definition strip_slashes :: "string \<Rightarrow> string" where
  "strip_slashes s = rev (dropWhile (\<lambda>c. c = CHR ''/'') (rev (dropWhile (\<lambda>c. c = CHR ''/'') s)))"

definition make_index :: "string list \<Rightarrow> int \<Rightarrow> int \<Rightarrow> repository_index" where
  "make_index allowlist max_files max_depth = \<lparr>ix_allowlist = map strip_slashes allowlist, ix_max_files = max_files, ix_max_depth = max_depth,
     ix_files = []\<rparr>"

definition default_index :: repository_index where
  "default_index = make_index [''agent_platform'', ''services'', ''project_packs'', ''tests''] 2048 8"

section \<open>Text\<close>

text \<open>\<open>str.splitlines\<close>\<close>

definition line_break :: "char \<Rightarrow> bool" where
  "line_break c \<longleftrightarrow> (let n = (of_char c :: nat) in n \<in> {10, 11, 12, 13, 28, 29, 30, 133})"

fun splitlines_from :: "string \<Rightarrow> string \<Rightarrow> string list" where
  "splitlines_from cur [] = (if cur = [] then [] else [cur])"
| "splitlines_from cur (c # s) =
     (if c = CHR 0x0D \<and> (case s of [] \<Rightarrow> False | d # _ \<Rightarrow> d = CHR 0x0A) then cur # splitlines_from [] (tl s)
      else if line_break c then cur # splitlines_from [] s
      else splitlines_from (cur @ [c]) s)"

definition splitlines :: "string \<Rightarrow> string list" where
  "splitlines s = splitlines_from [] s"

fun joined :: "string \<Rightarrow> string list \<Rightarrow> string" where
  "joined sep [] = []"
| "joined sep [w] = w"
| "joined sep (w # ws) = w @ sep @ joined sep ws"

text \<open>\<open>Path.suffix\<close> of a path in posix form.\<close>

definition path_suffix :: "string \<Rightarrow> string" where
  "path_suffix p = (let name = last ([] # path_parts p); tail = takeWhile (\<lambda>c. c \<noteq> CHR ''.'') (rev name) in
     if length tail = length name \<or> tail = [] \<or> length tail + 1 = length name then [] else CHR ''.'' # rev tail)"

definition indexed_suffixes :: "string list" where
  "indexed_suffixes = [''.py'', ''.js'', ''.ts'', ''.tsx'', ''.json'', ''.md'', ''.yaml'', ''.yml'']"

definition name_start :: "char \<Rightarrow> bool" where
  "name_start c \<longleftrightarrow> is_letter c \<or> c = CHR ''_''"

definition name_char :: "char \<Rightarrow> bool" where
  "name_char c \<longleftrightarrow> is_letter c \<or> is_digit c \<or> c = CHR ''_''"

definition symbol_rx :: rx where
  "symbol_rx = rx_seq [rx_any (map rx_text [''def'', ''class'', ''function'', ''const'', ''interface'']), Run 1 is_space,
     Group 1 (Then (One name_start) (Run 0 name_char))]"

definition symbols_of :: "string \<Rightarrow> string list" where
  "symbols_of content = sort (remdups (map (\<lambda>m. case group_of 1 m of None \<Rightarrow> [] | Some g \<Rightarrow> g) (rx_findall symbol_rx content)))"

section \<open>The index\<close>

definition is_authorized :: "repository_index \<Rightarrow> string \<Rightarrow> bool" where
  "is_authorized ix p = (let n = as_posix p in
     if starts_with n ''/'' \<or> ''..'' \<in> set (path_parts n) then False else under_prefix n (ix_allowlist ix))"

definition indexed :: "'w pack_env \<Rightarrow> repository_index \<Rightarrow> tree_entry \<Rightarrow> indexed_file option" where
  "indexed env ix x =
     (if ix_max_depth ix < int (length (path_parts (te_path x))) \<or> te_link x \<or> \<not> te_file x
         \<or> (\<exists>part\<in>set (path_parts (te_path x)). starts_with part ''.'') then None
      else if te_inside x \<noteq> Some True then None
      else if \<not> is_authorized ix (te_path x) \<or> lower (path_suffix (te_path x)) \<notin> set indexed_suffixes then None
      else map_option (\<lambda>t. \<lparr>xf_path = te_path x, xf_content = t, xf_hash = pe_sha env t, xf_lines = splitlines t, xf_symbols = symbols_of t\<rparr>)
        (te_text x))"

fun index_files :: "'w pack_env \<Rightarrow> repository_index \<Rightarrow> tree_entry list \<Rightarrow> (string \<times> indexed_file) list \<Rightarrow> (string \<times> indexed_file) list" where
  "index_files env ix [] files = files"
| "index_files env ix (x # xs) files = (case indexed env ix x of None \<Rightarrow> index_files env ix xs files
     | Some f \<Rightarrow> (let files1 = AList.update (te_path x) f files in
         if ix_max_files ix \<le> int (length files1) then files1 else index_files env ix xs files1))"

definition build_index :: "'w pack_env \<Rightarrow> 'w \<Rightarrow> repository_index \<Rightarrow> repository_index" where
  "build_index env w ix = ix\<lparr>ix_files := index_files env ix (pe_tree env w) []\<rparr>"

definition index_list :: "repository_index \<Rightarrow> indexed_file list" where
  "index_list ix = map snd (sort_key fst (ix_files ix))"

definition index_get :: "repository_index \<Rightarrow> string \<Rightarrow> exn + indexed_file" where
  "index_get ix p =
     (if \<not> is_authorized ix p then Inl (PermissionError p)
      else case map_of (ix_files ix) (as_posix p) of None \<Rightarrow> Inl (FileNotFound (as_posix p)) | Some f \<Rightarrow> Inr f)"

text \<open>The lines \<open>first\<close> to \<open>last\<close> (counted from one) and their digest.\<close>

definition line_range :: "(string \<Rightarrow> string) \<Rightarrow> string list \<Rightarrow> int \<Rightarrow> int option \<Rightarrow> exn + (int \<times> int \<times> string)" where
  "line_range sha ls first to_line = (let stop = (case to_line of None \<Rightarrow> int (length ls) | Some e \<Rightarrow> e) in
     if first < 1 \<or> stop < first \<or> int (length ls) < stop then Inl (ValueError ''line range is outside indexed file'')
     else Inr (first, stop, sha (joined [CHR 0x0A] (take (nat (stop - first + 1)) (drop (nat (first - 1)) ls)))))"

definition index_evidence :: "'w pack_env \<Rightarrow> repository_index \<Rightarrow> string \<Rightarrow> int \<Rightarrow> int option \<Rightarrow> exn + (int \<times> int \<times> string)" where
  "index_evidence env ix p first to_line = (case index_get ix p of Inl e \<Rightarrow> Inl e | Inr f \<Rightarrow> line_range (pe_sha env) (xf_lines f) first to_line)"

definition current_evidence :: "'w pack_env \<Rightarrow> 'w \<Rightarrow> repository_index \<Rightarrow> string \<Rightarrow> int \<Rightarrow> int option \<Rightarrow> exn + (int \<times> int \<times> string)" where
  "current_evidence env w ix p first to_line =
     (if \<not> is_authorized ix p then Inl (PermissionError p)
      else case pe_live env (as_posix p) w of
        No_File \<Rightarrow> Inl (FileNotFound (as_posix p))
      | Not_Resolved e \<Rightarrow> Inl e
      | Outside_Root \<Rightarrow> Inl (PermissionError p)
      | Not_Readable \<Rightarrow> Inl (FileNotFound (as_posix p))
      | Readable t \<Rightarrow> line_range (pe_sha env) (splitlines t) first to_line)"

section \<open>Proposals\<close>

definition digits :: "nat \<Rightarrow> rx" where
  "digits n = Run n is_digit"

definition text_of_group :: "string option \<Rightarrow> string" where
  "text_of_group g = (case g of None \<Rightarrow> [] | Some t \<Rightarrow> t)"

text \<open>\<open>_injection\<close>\<close>

definition injection_rx :: rx where
  "injection_rx = rx_any [
     rx_seq [rx_text_ci ''ignore'', Run 1 is_space, Maybe (Then (rx_text_ci ''all'') (Run 1 is_space)), rx_text_ci ''previous instructions''],
     rx_seq [rx_text_ci ''reveal'', Run 1 is_space, Maybe (Then (rx_text_ci ''the'') (Run 1 is_space)), rx_text_ci ''system prompt''],
     rx_text_ci ''exfiltrat'',
     rx_seq [rx_text_ci ''send'', Run 1 is_space, rx_text_ci ''secrets''],
     rx_seq [rx_text_ci ''disable'', Run 1 is_space, rx_text_ci ''safety'']]"

text \<open>\<open>_reference\<close>: path, first line, last line and symbol are the groups one to four.\<close>

definition path_char :: "char \<Rightarrow> bool" where
  "path_char c \<longleftrightarrow> is_letter c \<or> is_digit c \<or> c \<in> set ''_./-''"

definition reference_rx :: rx where
  "reference_rx = rx_seq [
     Group 1 (rx_seq [Run 1 path_char, rx_text ''.'', rx_any (map rx_text [''py'', ''js'', ''ts'', ''tsx'', ''json'', ''md'', ''yaml'', ''yml''])]),
     Maybe (rx_seq [rx_text '':'', Group 2 (digits 1), Maybe (Then (rx_text ''-'') (Group 3 (digits 1)))]),
     Maybe (rx_seq [Run 1 is_space, rx_text ''symbol'', One (\<lambda>c. c = CHR '':'' \<or> c = CHR ''=''),
       Group 4 (Then (One name_start) (Run 0 name_char))])]"

definition runtime_rx :: rx where
  "runtime_rx = rx_seq [Line_Start, Run 0 is_space, Either (rx_text_ci ''runtime'') (rx_text_ci ''language''), Run 0 is_space,
     One (\<lambda>c. c = CHR '':'' \<or> c = CHR ''=''), Run 0 is_space, Group 1 (Run 1 (\<lambda>c. is_letter c \<or> is_digit c \<or> c \<in> set ''_.-''))]"

definition requirement_rx :: rx where
  "requirement_rx = rx_seq [Run 0 is_space, Group 1 (Then (rx_text_ci ''REQ-'') (digits 1)), Run 0 is_space,
     One (\<lambda>c. c = CHR '':'' \<or> c = CHR ''-''), Run 0 is_space, Group 2 (Run_Lazy 1 (\<lambda>c. c \<noteq> CHR 0x0A)), Run 0 is_space, End]"

text \<open>\<open>int\<close> of decimal digits; Python refuses more than 4300 of them.\<close>

definition int_of_digits :: "string \<Rightarrow> exn + int" where
  "int_of_digits ds = (if 4300 < int (length ds) then Inl (ValueError ''Exceeds the limit for integer string conversion'')
     else Inr (foldl (\<lambda>n c. n * 10 + (int (of_char c) - 48)) 0 ds))"

type_synonym reference = "string \<times> int \<times> int \<times> string option"

definition reference_of :: "rx_match \<Rightarrow> exn + reference" where
  "reference_of m =
     (case (case group_of 2 m of None \<Rightarrow> Inr 1 | Some ds \<Rightarrow> int_of_digits ds) of Inl e \<Rightarrow> Inl e | Inr first \<Rightarrow>
      case (case group_of 3 m of Some ds \<Rightarrow> int_of_digits ds | None \<Rightarrow> Inr first) of Inl e \<Rightarrow> Inl e | Inr stop \<Rightarrow>
      Inr (text_of_group (group_of 1 m), first, stop, group_of 4 m))"

record parsed_proposal =
  ps_requirements :: "requirement list"
  ps_runtime :: string
  ps_references :: "reference list"
  ps_incomplete :: bool

text \<open>The requirements in the lines of a proposal, or the proposal as one requirement.\<close>

fun line_requirements :: "string list \<Rightarrow> exn + requirement list" where
  "line_requirements [] = Inr []"
| "line_requirements (l # ls) = (case rx_match_at requirement_rx [] l of None \<Rightarrow> line_requirements ls
     | Some m \<Rightarrow> (let title = text_of_group (group_of 2 m) in
         case make_requirement \<lparr>re_id = upper (text_of_group (group_of 1 m)), re_title = title, re_description = title, re_acceptance = [],
           re_source = l, re_supported = True\<rparr> of
           Inl e \<Rightarrow> Inl e
         | Inr r \<Rightarrow> map_sum id (Cons r) (line_requirements ls)))"

definition whole_requirement :: "string \<Rightarrow> exn + requirement" where
  "whole_requirement proposal = (let first = (case find (\<lambda>l. \<not> blank l) (splitlines proposal) of None \<Rightarrow> ''proposal'' | Some l \<Rightarrow> strip l) in
     make_requirement \<lparr>re_id = ''REQ-1'', re_title = take 120 first, re_description = take 1000 proposal, re_acceptance = [],
       re_source = first, re_supported = True\<rparr>)"

definition parse_requirements :: "string \<Rightarrow> exn + requirement list" where
  "parse_requirements proposal = (case line_requirements (splitlines proposal) of Inl e \<Rightarrow> Inl e
     | Inr [] \<Rightarrow> map_sum id (\<lambda>r. [r]) (whole_requirement proposal)
     | Inr (r # rs) \<Rightarrow> Inr (r # rs))"

fun all_results :: "('e + 'a) list \<Rightarrow> 'e + 'a list" where
  "all_results [] = Inr []"
| "all_results (r # rs) = (case r of Inl e \<Rightarrow> Inl e | Inr x \<Rightarrow> map_sum id (Cons x) (all_results rs))"

definition has_text :: "string \<Rightarrow> string \<Rightarrow> bool" where
  "has_text s t \<longleftrightarrow> rx_search (rx_text t) [] s \<noteq> None"

definition parse_proposal :: "string \<Rightarrow> exn + parsed_proposal" where
  "parse_proposal proposal =
     (if blank proposal then Inl (ValueError ''proposal must be non-empty'')
      else if rx_search injection_rx [] proposal \<noteq> None then Inl (PromptInjection ''proposal contains an unsafe instruction'')
      else let runtime = (case rx_search runtime_rx [] proposal of None \<Rightarrow> ''python'' | Some m \<Rightarrow> lower (text_of_group (group_of 1 m))) in
        case parse_requirements proposal of Inl e \<Rightarrow> Inl e | Inr reqs \<Rightarrow>
        case all_results (map reference_of (rx_findall reference_rx proposal)) of Inl e \<Rightarrow> Inl e | Inr refs \<Rightarrow>
        Inr \<lparr>ps_requirements = reqs, ps_runtime = runtime, ps_references = refs,
          ps_incomplete = (refs = [] \<or> has_text (lower proposal) ''incomplete'')\<rparr>)"

section \<open>Evidence\<close>

text \<open>The exceptions that turn a reference into invalid evidence.\<close>

definition refused_reference :: "exn \<Rightarrow> bool" where
  "refused_reference e \<longleftrightarrow> (case e of PermissionError _ \<Rightarrow> True | FileNotFound _ \<Rightarrow> True | _ \<Rightarrow> is_value_error e)"

definition evidence_of :: "'w pack_env \<Rightarrow> repository_index \<Rightarrow> string \<Rightarrow> reference \<Rightarrow> exn + evidence" where
  "evidence_of env ix rid ref = (case ref of (p, first, stop, symbol) \<Rightarrow>
     case (case index_evidence env ix p first (Some stop) of Inl e \<Rightarrow> Inl e
       | Inr (a, b, h) \<Rightarrow> make_evidence \<lparr>er_requirement = rid, er_path = p, er_start = a, er_end = b, er_hash = h, er_symbol = symbol,
           er_authorized = True, er_valid = True\<rparr>) of
       Inr e \<Rightarrow> Inr e
     | Inl e \<Rightarrow> (if \<not> refused_reference e then Inl e
         else make_evidence \<lparr>er_requirement = rid, er_path = p, er_start = max 1 first, er_end = max 1 stop, er_hash = pe_sha env p,
           er_symbol = symbol, er_authorized = False, er_valid = False\<rparr>))"

definition used_references :: "repository_index \<Rightarrow> parsed_proposal \<Rightarrow> reference list" where
  "used_references ix parsed = (if ps_references parsed \<noteq> [] then ps_references parsed
     else case index_list ix of [] \<Rightarrow> [] | f # _ \<Rightarrow> [(xf_path f, 1, min 3 (int (length (xf_lines f))), None)])"

text \<open>\<open>evidence\<close> refreshes the index of the pack, which it returns.\<close>

definition pack_evidence :: "'w pack_env \<Rightarrow> 'w \<Rightarrow> string \<Rightarrow> repository_index \<Rightarrow> (exn + evidence list) \<times> repository_index" where
  "pack_evidence env w proposal ix = (let ix1 = build_index env w ix in
     (case parse_proposal proposal of Inl e \<Rightarrow> Inl e | Inr parsed \<Rightarrow>
        all_results (concat (map (\<lambda>r. map (evidence_of env ix1 (re_id r)) (used_references ix1 parsed)) (ps_requirements parsed))), ix1))"

definition revalidated :: "'w pack_env \<Rightarrow> 'w \<Rightarrow> repository_index \<Rightarrow> evidence \<Rightarrow> exn + evidence" where
  "revalidated env w ix e =
     (case (case current_evidence env w ix (er_path e) (er_start e) (Some (er_end e)) of Inl x \<Rightarrow> Inl x
        | Inr (a, b, h) \<Rightarrow> make_evidence (e\<lparr>er_start := a, er_end := b, er_hash := h, er_valid := er_authorized e \<and> h = er_hash e\<rparr>)) of
        Inr f \<Rightarrow> Inr f
      | Inl x \<Rightarrow> (if \<not> refused_reference x then Inl x else make_evidence (e\<lparr>er_authorized := False, er_valid := False\<rparr>)))"

definition revalidate_evidence :: "'w pack_env \<Rightarrow> 'w \<Rightarrow> evidence list \<Rightarrow> repository_index \<Rightarrow> (exn + evidence list) \<times> repository_index" where
  "revalidate_evidence env w es ix = (let ix1 = build_index env w ix in (all_results (map (revalidated env w ix1) es), ix1))"

section \<open>Plans\<close>

definition step_of :: "evidence list \<Rightarrow> nat \<Rightarrow> requirement \<Rightarrow> plan_step" where
  "step_of es i r = \<lparr>st_id = ''step-'' @ dec_nat i, st_title = re_title r, st_action = ''implement '' @ re_id r @ '': '' @ re_description r,
     st_evidence = filter (\<lambda>e. er_requirement e = re_id r) es, st_impact = ''high'', st_commands = []\<rparr>"

definition pack_plan :: "'w pack_env \<Rightarrow> requirement list \<Rightarrow> evidence list \<Rightarrow> string \<Rightarrow> exn + plan" where
  "pack_plan env reqs es mode =
     (if mode \<noteq> ''plan_only'' \<and> mode \<noteq> ''verify'' then Inl (ValueError ''mode must be plan_only or verify'')
      else Inr \<lparr>pl_id = ''plan-'' @ take 16 (pe_sha env (joined ''|'' (map re_id reqs) @ pe_str env es)), pl_requirements = reqs,
        pl_steps = map (\<lambda>(i, r). step_of es i r) (zip [1..<length reqs + 1] reqs), pl_runtime = ''python'', pl_mode = mode, pl_supported = True,
        pl_unsupported = None, pl_valid = (es \<noteq> [] \<and> list_all (\<lambda>e. er_authorized e \<and> er_valid e) es)\<rparr>)"

definition supported_runtimes :: "string list" where
  "supported_runtimes = [''python'', ''python3'', ''javascript'', ''typescript'', ''node'', ''react'', ''nextjs'']"

definition build_plan :: "'w pack_env \<Rightarrow> 'w \<Rightarrow> string \<Rightarrow> string \<Rightarrow> repository_index \<Rightarrow> (exn + plan) \<times> repository_index" where
  "build_plan env w proposal mode ix =
     (case parse_proposal proposal of Inl e \<Rightarrow> (Inl e, ix) | Inr parsed \<Rightarrow>
      case pack_evidence env w proposal ix of
        (Inl e, ix1) \<Rightarrow> (Inl e, ix1)
      | (Inr es, ix1) \<Rightarrow>
          (let ok = (ps_runtime parsed \<in> set supported_runtimes); used = (if ok then mode else ''plan_only'') in
           case pack_plan env (ps_requirements parsed) es used of
             Inl e \<Rightarrow> (Inl e, ix1)
           | Inr base \<Rightarrow> (Inr (base\<lparr>pl_runtime := ps_runtime parsed, pl_mode := used, pl_supported := ok,
               pl_unsupported := (if ok then None else Some (''unsupported runtime: '' @ ps_runtime parsed))\<rparr>), ix1)))"

section \<open>Unsafe instructions\<close>

text \<open>Words in any case, with white space between them.\<close>

fun gapped :: "string list \<Rightarrow> string \<Rightarrow> bool" where
  "gapped [] m \<longleftrightarrow> False"
| "gapped [w] m \<longleftrightarrow> lower m = lower w"
| "gapped (w # ws) m \<longleftrightarrow> (\<exists>a gap b. m = a @ gap @ b \<and> lower a = lower w \<and> gap \<noteq> [] \<and> list_all is_space gap \<and> gapped ws b)"

definition unsafe_instruction :: "string \<Rightarrow> bool" where
  "unsafe_instruction m \<longleftrightarrow> (\<exists>ws\<in>set [[''ignore'', ''previous instructions''], [''ignore'', ''all'', ''previous instructions''],
     [''reveal'', ''system prompt''], [''reveal'', ''the'', ''system prompt''], [''exfiltrat''], [''send'', ''secrets''], [''disable'', ''safety'']].
     gapped ws m)"

lemma matches_gap: "matches (Then (rx_text_ci w) (Then (Run 1 is_space) r)) m \<longleftrightarrow>
    (\<exists>a gap b. m = a @ gap @ b \<and> lower a = lower w \<and> gap \<noteq> [] \<and> list_all is_space gap \<and> matches r b)"
  by (auto simp: Suc_le_eq)

lemma matches_Then_Maybe: "matches (Then (Maybe x) r) m \<longleftrightarrow> matches (Then x r) m \<or> matches r m"
  by auto

lemma matches_Then_assoc: "matches (Then (Then a b) c) m \<longleftrightarrow> matches (Then a (Then b c)) m"
  by (simp, safe) (metis append.assoc)+

lemma gapped_two: "gapped [v, w] m \<longleftrightarrow> matches (Then (rx_text_ci v) (Then (Run 1 is_space) (rx_text_ci w))) m"
  by (simp only: matches_gap gapped.simps matches_text_ci)

lemma gapped_three: "gapped [u, v, w] m \<longleftrightarrow>
    matches (Then (rx_text_ci u) (Then (Run 1 is_space) (Then (rx_text_ci v) (Then (Run 1 is_space) (rx_text_ci w))))) m"
  by (simp only: matches_gap gapped.simps matches_text_ci)

lemma matches_with_optional:
  "matches (Then (rx_text_ci u) (Then (Run 1 is_space) (Then (Maybe (Then (rx_text_ci v) (Run 1 is_space))) (rx_text_ci w)))) m
     \<longleftrightarrow> gapped [u, w] m \<or> gapped [u, v, w] m"
  unfolding gapped_two gapped_three matches_gap [of u] matches_Then_Maybe matches_Then_assoc by blast

lemma matches_injection: "matches injection_rx m \<longleftrightarrow> unsafe_instruction m"
  unfolding injection_rx_def rx_any.simps rx_seq.simps matches.simps(3) matches_with_optional gapped_two [symmetric] matches_text_ci
  by (simp only: unsafe_instruction_def list.set ball_simps bex_simps gapped.simps(2)) blast

lemma anchor_free_injection: "anchor_free injection_rx"
  by (simp add: injection_rx_def)

text \<open>
  C36. The parser refuses a proposal as unsafe exactly when it is not blank and contains one of the
  unsafe instructions, anywhere, in any case and with any white space between its words; the matcher
  that backtracks misses none and finds no others.
\<close>

theorem unsafe_proposals_are_refused:
  "parse_proposal s = Inl (PromptInjection ''proposal contains an unsafe instruction'')
    \<longleftrightarrow> \<not> blank s \<and> (\<exists>pre m post. s = pre @ m @ post \<and> unsafe_instruction m)"
proof -
  have r: "make_requirement q \<noteq> Inl (PromptInjection e)" for q e
    by (auto simp: make_requirement_def required_def map_sum_def split: sum.splits)
  have l: "line_requirements ls \<noteq> Inl (PromptInjection e)" for ls e
    by (induction ls) (auto simp: r Let_def map_sum_def split: option.splits sum.splits)
  have p: "parse_requirements s \<noteq> Inl (PromptInjection e)" for e
    by (auto simp: parse_requirements_def whole_requirement_def l r map_sum_def Let_def split: sum.splits list.splits)
  have d: "reference_of m \<noteq> Inl (PromptInjection e)" for m e
    by (auto simp: reference_of_def int_of_digits_def split: option.splits sum.splits if_splits)
  have a: "all_results (map reference_of ms) \<noteq> Inl (PromptInjection e)" for ms e
    by (induction ms) (auto simp: d map_sum_def split: sum.splits)
  have "parse_proposal s = Inl (PromptInjection ''proposal contains an unsafe instruction'')
      \<longleftrightarrow> \<not> blank s \<and> rx_search injection_rx [] s \<noteq> None"
    by (auto simp: parse_proposal_def Let_def p a split: sum.splits)
  then show ?thesis using rx_search_language [OF anchor_free_injection, of "[]" s] by (simp add: matches_injection)
qed

section \<open>What evidence rests on\<close>

lemma all_results_Inr: "all_results rs = Inr xs \<longleftrightarrow> rs = map Inr xs"
proof (induction rs arbitrary: xs)
  case (Cons r rs)
  then show ?case
    by (cases r; cases xs; cases "all_results rs") (force simp: map_sum_def)+
qed auto

lemma line_range_Inr:
  "line_range sha ls first to_line = Inr (a, b, h) \<Longrightarrow> a = first \<and> 1 \<le> a \<and> a \<le> b \<and> b \<le> int (length ls)
    \<and> (case to_line of None \<Rightarrow> b = int (length ls) | Some e \<Rightarrow> b = e)
    \<and> h = sha (joined [CHR 0x0A] (take (nat (b - a + 1)) (drop (nat (a - 1)) ls)))"
  by (auto simp: line_range_def Let_def split: if_splits option.splits)

lemma is_authorized_contained: "is_authorized ix p \<Longrightarrow> ''..'' \<notin> set (path_parts (as_posix p)) \<and> \<not> starts_with (as_posix p) ''/'' \<and> under_prefix (as_posix p) (ix_allowlist ix)"
  by (auto simp: is_authorized_def Let_def split: if_splits)

lemma index_files_source:
  "(p, f) \<in> set (index_files env ix xs files) \<Longrightarrow> (p, f) \<in> set files \<or> (\<exists>x\<in>set xs. te_path x = p \<and> indexed env ix x = Some f)"
proof (induction xs arbitrary: files)
  case (Cons x xs)
  have u: "set (AList.update k v fs) \<subseteq> insert (k, v) (set fs)" for k v and fs :: "(string \<times> indexed_file) list"
    by (induction fs) auto
  show ?case
  proof (cases "indexed env ix x")
    case None
    then show ?thesis using Cons by auto
  next
    case (Some g)
    then have "(p, f) \<in> set (AList.update (te_path x) g files) \<or> (\<exists>x\<in>set xs. te_path x = p \<and> indexed env ix x = Some f)"
      using Cons by (auto simp: Let_def split: if_splits)
    then show ?thesis using u Some by fastforce
  qed
qed simp

lemma indexed_Some: "indexed env ix x = Some f \<Longrightarrow> \<exists>t. te_text x = Some t \<and> te_file x \<and> \<not> te_link x \<and> te_inside x = Some True
    \<and> is_authorized ix (te_path x) \<and> xf_lines f = splitlines t"
  by (auto simp: indexed_def split: if_splits)

text \<open>The lines a piece of evidence cites, in a text.\<close>

definition cites :: "'w pack_env \<Rightarrow> evidence \<Rightarrow> string \<Rightarrow> bool" where
  "cites env e text \<longleftrightarrow> 1 \<le> er_start e \<and> er_start e \<le> er_end e \<and> er_end e \<le> int (length (splitlines text))
     \<and> er_hash e = pe_sha env (joined [CHR 0x0A] (take (nat (er_end e - er_start e + 1)) (drop (nat (er_start e - 1)) (splitlines text))))"

lemma evidence_of_Inr:
  assumes "evidence_of env ix rid ref = Inr e"
  shows "er_requirement e = rid \<and> er_valid e = er_authorized e
    \<and> (er_valid e \<longrightarrow> is_authorized ix (er_path e) \<and> (\<exists>f. map_of (ix_files ix) (as_posix (er_path e)) = Some f
        \<and> 1 \<le> er_start e \<and> er_start e \<le> er_end e \<and> er_end e \<le> int (length (xf_lines f))
        \<and> er_hash e = pe_sha env (joined [CHR 0x0A] (take (nat (er_end e - er_start e + 1)) (drop (nat (er_start e - 1)) (xf_lines f))))))"
proof -
  obtain p first stop symbol where ref: "ref = (p, first, stop, symbol)" by (metis prod_cases4)
  show ?thesis
  proof (cases "er_valid e")
    case False
    then show ?thesis using assms
      by (auto simp: evidence_of_def ref dest!: make_evidence_Inr split: sum.splits if_splits)
  next
    case True
    obtain a b h where i: "index_evidence env ix p first (Some stop) = Inr (a, b, h)"
      and e: "e = \<lparr>er_requirement = rid, er_path = p, er_start = a, er_end = b, er_hash = h, er_symbol = symbol, er_authorized = True, er_valid = True\<rparr>"
      using assms True by (auto simp: evidence_of_def ref dest!: make_evidence_Inr split: sum.splits if_splits)
    obtain f where f: "index_get ix p = Inr f" "line_range (pe_sha env) (xf_lines f) first (Some stop) = Inr (a, b, h)"
      using i by (auto simp: index_evidence_def split: sum.splits)
    then show ?thesis using line_range_Inr [OF f(2)] by (auto simp: e index_get_def split: if_splits option.splits)
  qed
qed

lemma valid_evidence_shape:
  assumes "pack_evidence env w proposal ix = (Inr es, ix1)" and "e \<in> set es"
  shows "er_valid e = er_authorized e \<and> (\<exists>parsed. parse_proposal proposal = Inr parsed \<and> er_requirement e \<in> re_id ` set (ps_requirements parsed))
    \<and> (\<exists>rid ref. evidence_of env (build_index env w ix) rid ref = Inr e)"
proof -
  let ?ix = "build_index env w ix"
  obtain parsed where p: "parse_proposal proposal = Inr parsed"
    and r: "all_results (concat (map (\<lambda>r. map (evidence_of env ?ix (re_id r)) (used_references ?ix parsed)) (ps_requirements parsed))) = Inr es"
    using assms(1) by (auto simp: pack_evidence_def Let_def split: sum.splits)
  have "Inr e \<in> set (concat (map (\<lambda>r. map (evidence_of env ?ix (re_id r)) (used_references ?ix parsed)) (ps_requirements parsed)))"
    using r assms(2) by (simp add: all_results_Inr)
  then obtain q ref where "q \<in> set (ps_requirements parsed)" "evidence_of env ?ix (re_id q) ref = Inr e" by auto
  then show ?thesis using evidence_of_Inr [of env ?ix "re_id q" ref e] p by blast
qed

text \<open>
  C37. Evidence is marked valid only for text that is really there: the path is allowed and cannot leave
  the repository, a regular file of the tree that is no link has this path, the cited lines exist in its
  text, and the recorded digest is the digest of exactly these lines. A reference to anything else
  becomes evidence that is neither authorized nor valid.
\<close>

theorem valid_evidence_is_in_the_tree:
  assumes "pack_evidence env w proposal ix = (Inr es, ix1)" and "e \<in> set es"
  shows "er_valid e = er_authorized e \<and> (er_valid e \<longrightarrow> is_authorized ix (er_path e) \<and> ''..'' \<notin> set (path_parts (as_posix (er_path e)))
    \<and> (\<exists>x text. x \<in> set (pe_tree env w) \<and> te_path x = as_posix (er_path e) \<and> te_file x \<and> \<not> te_link x \<and> te_inside x = Some True
        \<and> te_text x = Some text \<and> cites env e text))"
proof -
  let ?ix = "build_index env w ix"
  obtain rid ref where "evidence_of env ?ix rid ref = Inr e" using valid_evidence_shape [OF assms] by auto
  note e = evidence_of_Inr [OF this]
  have same: "is_authorized ?ix p = is_authorized ix p" for p by (simp add: is_authorized_def build_index_def)
  show ?thesis
  proof (cases "er_valid e")
    case True
    then obtain f where f: "(as_posix (er_path e), f) \<in> set (index_files env ix (pe_tree env w) [])"
      and c: "1 \<le> er_start e" "er_start e \<le> er_end e" "er_end e \<le> int (length (xf_lines f))"
        "er_hash e = pe_sha env (joined [CHR 0x0A] (take (nat (er_end e - er_start e + 1)) (drop (nat (er_start e - 1)) (xf_lines f))))"
      using e by (auto simp: build_index_def dest: map_of_SomeD)
    obtain x where x: "x \<in> set (pe_tree env w)" "te_path x = as_posix (er_path e)" "indexed env ix x = Some f"
      using index_files_source [OF f] by auto
    obtain t where "te_text x = Some t" "te_file x" "\<not> te_link x" "te_inside x = Some True" "xf_lines f = splitlines t"
      using indexed_Some [OF x(3)] by auto
    then show ?thesis using True e c x is_authorized_contained [of ix "er_path e"] unfolding same cites_def by auto
  qed (use e in auto)
qed

lemma line_range_cites:
  "(\<exists>h. line_range (pe_sha env) (splitlines t) (er_start e) (Some (er_end e)) = Inr (er_start e, er_end e, h) \<and> h = er_hash e) \<longleftrightarrow> cites env e t"
  by (auto simp: line_range_def cites_def Let_def)

lemma revalidated_Inr:
  assumes "revalidated env w ix e = Inr f" "make_evidence e = Inr e"
  shows "er_path f = er_path e \<and> er_requirement f = er_requirement e \<and> (er_valid f \<longleftrightarrow> er_authorized e \<and> is_authorized ix (er_path e)
    \<and> (\<exists>t. pe_live env (as_posix (er_path e)) w = Readable t \<and> cites env e t))"
proof (cases "current_evidence env w ix (er_path e) (er_start e) (Some (er_end e))")
  case (Inl x)
  then have "f = e\<lparr>er_authorized := False, er_valid := False\<rparr>"
    using assms(1) by (auto simp: revalidated_def dest!: make_evidence_Inr split: if_splits)
  moreover have "\<not> (is_authorized ix (er_path e) \<and> (\<exists>t. pe_live env (as_posix (er_path e)) w = Readable t \<and> cites env e t))"
  proof
    assume "is_authorized ix (er_path e) \<and> (\<exists>t. pe_live env (as_posix (er_path e)) w = Readable t \<and> cites env e t)"
    then obtain t where "is_authorized ix (er_path e)" "pe_live env (as_posix (er_path e)) w = Readable t" "cites env e t" by auto
    with Inl line_range_cites [of env t e] show False by (auto simp: current_evidence_def)
  qed
  ultimately show ?thesis by auto
next
  case (Inr r)
  then obtain a b h t where r: "r = (a, b, h)" "is_authorized ix (er_path e)" "pe_live env (as_posix (er_path e)) w = Readable t"
    "line_range (pe_sha env) (splitlines t) (er_start e) (Some (er_end e)) = Inr (a, b, h)"
    by (cases r) (auto simp: current_evidence_def split: if_splits live_file.splits)
  have ab: "a = er_start e" "b = er_end e" using line_range_Inr [OF r(4)] by auto
  have c: "h = er_hash e \<longleftrightarrow> cites env e t" using r(4) line_range_cites [of env t e] unfolding ab by auto
  let ?g = "e\<lparr>er_start := a, er_end := b, er_hash := h, er_valid := er_authorized e \<and> h = er_hash e\<rparr>"
  show ?thesis
  proof (cases "make_evidence ?g")
    case (Inl x)
    then have "h \<noteq> er_hash e" using assms(2) by (auto simp: make_evidence_def ab map_sum_def required_def split: sum.splits if_splits)
    moreover have "\<not> er_valid f" using assms(1) Inr Inl r(1)
      by (auto simp: revalidated_def dest!: make_evidence_Inr split: if_splits)
    moreover have "er_path f = er_path e" "er_requirement f = er_requirement e" using assms(1) Inr Inl r(1)
      by (auto simp: revalidated_def dest!: make_evidence_Inr split: if_splits)
    ultimately show ?thesis using c r(3) by auto
  next
    case (Inr g)
    then have "f = ?g" using assms(1) \<open>current_evidence env w ix (er_path e) (er_start e) (Some (er_end e)) = Inr r\<close> r(1) make_evidence_Inr [OF Inr]
      by (simp add: revalidated_def)
    then show ?thesis using c r(2,3) by auto
  qed
qed

text \<open>
  C38. Revalidation catches evidence that has gone stale: what it returns stands for the same references
  in their order, and a reference is valid exactly when it was authorized, its path is still allowed,
  and the file it names now still has the cited lines with the recorded digest.
\<close>

theorem stale_evidence_is_caught:
  assumes "revalidate_evidence env w es ix = (Inr fs, ix1)" and "list_all (\<lambda>e. make_evidence e = Inr e) es"
  shows "list_all2 (\<lambda>e f. er_path f = er_path e \<and> er_requirement f = er_requirement e \<and> (er_valid f \<longleftrightarrow> er_authorized e
    \<and> is_authorized ix (er_path e) \<and> (\<exists>t. pe_live env (as_posix (er_path e)) w = Readable t \<and> cites env e t))) es fs"
proof -
  let ?ix = "build_index env w ix"
  have same: "is_authorized ?ix p = is_authorized ix p" for p by (simp add: is_authorized_def build_index_def)
  have "map (revalidated env w ?ix) es = map Inr fs"
    using assms(1) by (auto simp: revalidate_evidence_def Let_def all_results_Inr)
  then have "list_all2 (\<lambda>e f. revalidated env w ?ix e = Inr f) es fs"
    by (simp add: list_all2_conv_all_nth list_eq_iff_nth_eq)
  then show ?thesis
    using assms(2) revalidated_Inr [of env w ?ix] unfolding same
    by (auto simp: list_all2_conv_all_nth list_all_length)
qed

lemma step_fields:
  assumes "length is = length rs"
  shows "map st_title (map (\<lambda>(i, r). step_of es i r) (zip is rs)) = map re_title rs"
    and "map st_evidence (map (\<lambda>(i, r). step_of es i r) (zip is rs)) = map (\<lambda>r. filter (\<lambda>e. er_requirement e = re_id r) es) rs"
    and "list_all (\<lambda>s. st_commands s = []) (map (\<lambda>(i, r). step_of es i r) (zip is rs))"
  using assms by (induction "is" rs rule: list_induct2) (simp_all add: step_of_def)

text \<open>
  A plan is what its proposal and its evidence say: its requirements are the parsed ones, step by
  step, each step carries exactly the evidence of its requirement and no command, no evidence is left
  out, its references are valid exactly when there is evidence and all of it is valid, and it asks to
  verify only if that was requested and the runtime is supported.
\<close>

theorem plan_follows_evidence:
  assumes "build_plan env w proposal mode ix = (Inr p, ix1)"
  shows "\<exists>parsed es. parse_proposal proposal = Inr parsed \<and> fst (pack_evidence env w proposal ix) = Inr es
    \<and> pl_requirements p = ps_requirements parsed \<and> map st_title (pl_steps p) = map re_title (pl_requirements p)
    \<and> map st_evidence (pl_steps p) = map (\<lambda>r. filter (\<lambda>e. er_requirement e = re_id r) es) (pl_requirements p)
    \<and> list_all (\<lambda>s. st_commands s = []) (pl_steps p) \<and> set es = (\<Union>s\<in>set (pl_steps p). set (st_evidence s))
    \<and> (pl_valid p \<longleftrightarrow> es \<noteq> [] \<and> list_all er_valid es)
    \<and> pl_supported p = (ps_runtime parsed \<in> set supported_runtimes) \<and> (pl_mode p = ''verify'' \<longleftrightarrow> mode = ''verify'' \<and> pl_supported p)"
proof -
  obtain parsed es base where p: "parse_proposal proposal = Inr parsed" and e: "pack_evidence env w proposal ix = (Inr es, ix1)"
    and b: "pack_plan env (ps_requirements parsed) es (if ps_runtime parsed \<in> set supported_runtimes then mode else ''plan_only'') = Inr base"
    and pl: "p = base\<lparr>pl_runtime := ps_runtime parsed, pl_mode := (if ps_runtime parsed \<in> set supported_runtimes then mode else ''plan_only''),
       pl_supported := (ps_runtime parsed \<in> set supported_runtimes),
       pl_unsupported := (if ps_runtime parsed \<in> set supported_runtimes then None else Some (''unsupported runtime: '' @ ps_runtime parsed))\<rparr>"
    using assms by (auto simp: build_plan_def Let_def split: sum.splits prod.splits)
  let ?rs = "ps_requirements parsed" and ?steps = "map (\<lambda>(i, r). step_of es i r) (zip [1..<length (ps_requirements parsed) + 1] (ps_requirements parsed))"
  have base: "pl_requirements p = ?rs" "pl_steps p = ?steps" "pl_valid p = (es \<noteq> [] \<and> list_all (\<lambda>e. er_authorized e \<and> er_valid e) es)"
    using b by (auto simp: pl pack_plan_def split: if_splits)
  have steps: "map st_title ?steps = map re_title ?rs" "map st_evidence ?steps = map (\<lambda>r. filter (\<lambda>e. er_requirement e = re_id r) es) ?rs"
    "list_all (\<lambda>s. st_commands s = []) ?steps"
    by (rule step_fields, simp del: upt_Suc)+
  have ev: "er_valid x = er_authorized x" if "x \<in> set es" for x
    using valid_evidence_shape [OF e that] by simp
  have "er_requirement x \<in> re_id ` set ?rs" if "x \<in> set es" for x
    using valid_evidence_shape [OF e that] p by auto
  then have "set es = (\<Union>r\<in>set ?rs. set (filter (\<lambda>e. er_requirement e = re_id r) es))" by force
  also have "\<dots> = \<Union> (set ` set (map st_evidence ?steps))" by (simp only: steps list.set_map image_image)
  finally have cover: "set es = (\<Union>s\<in>set ?steps. set (st_evidence s))" by simp
  have v: "list_all (\<lambda>e. er_authorized e \<and> er_valid e) es = list_all er_valid es" using ev by (auto simp: list_all_iff)
  have same: "pl_supported p = (ps_runtime parsed \<in> set supported_runtimes)"
    "pl_mode p = ''verify'' \<longleftrightarrow> mode = ''verify'' \<and> ps_runtime parsed \<in> set supported_runtimes"
    by (simp_all add: pl)
  show ?thesis unfolding same base using p e steps cover v by auto
qed

section \<open>A small repository\<close>

definition demo_entry :: tree_entry where
  "demo_entry = \<lparr>te_path = ''services/a.py'', te_link = False, te_file = True, te_inside = Some True, te_text = Some ''x = 1
y = 2
''\<rparr>"

definition demo_pack :: "unit pack_env" where
  "demo_pack = \<lparr>pe_tree = (\<lambda>_. [demo_entry]), pe_live = (\<lambda>p _. if p = ''services/a.py'' then Readable ''x = 1
y = 3
'' else No_File), pe_sha = (\<lambda>s. CHR ''h'' # s), pe_str = (\<lambda>_. [])\<rparr>"

definition demo_proposal :: string where
  "demo_proposal = ''req-7: go on
services/a.py:1''"

definition demo_evidence :: evidence where
  "demo_evidence = \<lparr>er_requirement = ''REQ-7'', er_path = ''services/a.py'', er_start = 1, er_end = 1, er_hash = ''hx = 1'', er_symbol = None,
     er_authorized = True, er_valid = True\<rparr>"

lemma demo_pack_evidence: "fst (pack_evidence demo_pack () demo_proposal default_index) = Inr [demo_evidence]"
  by code_simp

theorem valid_evidence_is_in_the_tree_witness:
  "\<exists>text. te_text demo_entry = Some text \<and> cites demo_pack demo_evidence text"
proof -
  obtain ix1 where "pack_evidence demo_pack () demo_proposal default_index = (Inr [demo_evidence], ix1)"
    using demo_pack_evidence by (metis prod.collapse)
  from valid_evidence_is_in_the_tree [OF this, of demo_evidence] show ?thesis
    by (auto simp: demo_evidence_def demo_pack_def)
qed

theorem stale_evidence_is_caught_witness:
  "\<exists>f g. fst (revalidate_evidence demo_pack () [demo_evidence, demo_evidence\<lparr>er_start := 2, er_end := 2\<rparr>] default_index) = Inr [f, g] \<and> er_valid f"
proof -
  let ?es = "[demo_evidence, demo_evidence\<lparr>er_start := 2, er_end := 2\<rparr>]"
  have "\<exists>f g. fst (revalidate_evidence demo_pack () ?es default_index) = Inr [f, g]"
    by (rule exI [of _ demo_evidence], rule exI [of _ "demo_evidence\<lparr>er_start := 2, er_end := 2, er_hash := ''hy = 3'', er_valid := False\<rparr>"]) code_simp
  then obtain f g where fg: "fst (revalidate_evidence demo_pack () ?es default_index) = Inr [f, g]" by blast
  then obtain ix1 where r: "revalidate_evidence demo_pack () ?es default_index = (Inr [f, g], ix1)" by (metis prod.collapse)
  have "list_all (\<lambda>e. make_evidence e = Inr e) ?es" by code_simp
  from stale_evidence_is_caught [OF r this] have "er_valid f \<longleftrightarrow> er_authorized demo_evidence \<and> is_authorized default_index (er_path demo_evidence)
      \<and> (\<exists>t. pe_live demo_pack (as_posix (er_path demo_evidence)) () = Readable t \<and> cites demo_pack demo_evidence t)" by simp
  moreover have "er_authorized demo_evidence \<and> is_authorized default_index (er_path demo_evidence)" by code_simp
  moreover have "pe_live demo_pack (as_posix (er_path demo_evidence)) () = Readable ''x = 1
y = 3
''" by code_simp
  moreover have "cites demo_pack demo_evidence ''x = 1
y = 3
''" by code_simp
  ultimately show ?thesis using fg by blast
qed

theorem plan_follows_evidence_witness:
  "\<exists>p ix1. build_plan demo_pack () demo_proposal ''verify'' default_index = (Inr p, ix1) \<and> pl_valid p \<and> pl_mode p = ''verify''"
proof -
  have "\<not> isl (fst (build_plan demo_pack () demo_proposal ''verify'' default_index))" by code_simp
  then obtain p ix1 where b: "build_plan demo_pack () demo_proposal ''verify'' default_index = (Inr p, ix1)"
    by (metis prod.collapse sum.collapse(2))
  have py: "(case parse_proposal demo_proposal of Inl _ \<Rightarrow> False | Inr q \<Rightarrow> ps_runtime q = ''python'')" by code_simp
  from plan_follows_evidence [OF b] obtain parsed es where q: "parse_proposal demo_proposal = Inr parsed"
    and e: "fst (pack_evidence demo_pack () demo_proposal default_index) = Inr es"
    and v: "pl_valid p \<longleftrightarrow> es \<noteq> [] \<and> list_all er_valid es" and s: "pl_supported p = (ps_runtime parsed \<in> set supported_runtimes)"
    and m: "pl_mode p = ''verify'' \<longleftrightarrow> ''verify'' = ''verify'' \<and> pl_supported p" by blast
  have "es = [demo_evidence]" using e demo_pack_evidence by simp
  then have "pl_valid p" using v by (simp add: demo_evidence_def)
  moreover have "ps_runtime parsed = ''python''" using q py by simp
  then have "pl_mode p = ''verify''" using s m by (simp add: supported_runtimes_def)
  ultimately show ?thesis using b by blast
qed

end
