(* ===== verification/Workflow_Data.thy ===== *)
theory Workflow_Data
  imports Kernel_Views Delivery Evaluation Project_Pack Sandbox Model_Port
begin

text \<open>
  The values that the workflow of \<open>services/agent_orchestrator/workflow.py\<close> keeps in its checkpoints and
  reads back: requirements, evidence and plans from JSON, a repository mapping as a dictionary, the
  difference and the test results as the packages it writes. A stored dictionary holds texts, integers,
  booleans and lists of them where the code converts with \<open>str\<close>, \<open>int\<close> and \<open>bool\<close>.
\<close>

section \<open>Reading checkpoints\<close>

definition text_at :: "dict \<Rightarrow> string \<Rightarrow> exn + string" where
  "text_at d k = (case map_of d k of None \<Rightarrow> Inl (KeyError k) | Some v \<Rightarrow> Inr (py_str (\<lambda>_. []) v))"

definition int_at :: "dict \<Rightarrow> string \<Rightarrow> exn + int" where
  "int_at d k = (case map_of d k of None \<Rightarrow> Inl (KeyError k) | Some v \<Rightarrow> py_int v)"

definition bool_or :: "dict \<Rightarrow> string \<Rightarrow> bool \<Rightarrow> bool" where
  "bool_or d k b = truthy (jget_default d k (JBool b))"

definition text_or :: "dict \<Rightarrow> string \<Rightarrow> string \<Rightarrow> string" where
  "text_or d k s = py_str (\<lambda>_. []) (jget_default d k (JStr s))"

definition optional_text :: "dict \<Rightarrow> string \<Rightarrow> string option" where
  "optional_text d k = (case jget d k of JStr s \<Rightarrow> Some s | _ \<Rightarrow> None)"

definition list_at :: "dict \<Rightarrow> string \<Rightarrow> json list" where
  "list_at d k = (case jget_default d k (JList []) of JList l \<Rightarrow> l | _ \<Rightarrow> [])"

definition texts_at :: "dict \<Rightarrow> string \<Rightarrow> string list" where
  "texts_at d k = map (py_str (\<lambda>_. [])) (list_at d k)"

definition object_of :: "json \<Rightarrow> exn + dict" where
  "object_of v = (case v of JObj d \<Rightarrow> Inr d | _ \<Rightarrow> Inl (TypeError ''not a mapping''))"

definition requirement_of_dict :: "dict \<Rightarrow> exn + requirement" where
  "requirement_of_dict d =
     (case text_at d ''requirement_id'' of Inl e \<Rightarrow> Inl e | Inr i \<Rightarrow>
      case text_at d ''title'' of Inl e \<Rightarrow> Inl e | Inr t \<Rightarrow>
      case text_at d ''description'' of Inl e \<Rightarrow> Inl e | Inr x \<Rightarrow>
      make_requirement \<lparr>re_id = i, re_title = t, re_description = x, re_acceptance = texts_at d ''acceptance'',
        re_source = text_or d ''source_text'' [], re_supported = bool_or d ''supported'' True\<rparr>)"

definition evidence_of_dict :: "dict \<Rightarrow> exn + evidence" where
  "evidence_of_dict d =
     (case text_at d ''requirement_id'' of Inl e \<Rightarrow> Inl e | Inr i \<Rightarrow>
      case text_at d ''path'' of Inl e \<Rightarrow> Inl e | Inr p \<Rightarrow>
      case int_at d ''start_line'' of Inl e \<Rightarrow> Inl e | Inr a \<Rightarrow>
      case int_at d ''end_line'' of Inl e \<Rightarrow> Inl e | Inr b \<Rightarrow>
      case text_at d ''content_hash'' of Inl e \<Rightarrow> Inl e | Inr h \<Rightarrow>
      make_evidence \<lparr>er_requirement = i, er_path = p, er_start = a, er_end = b, er_hash = h, er_symbol = optional_text d ''symbol'',
        er_authorized = bool_or d ''authorized'' True, er_valid = bool_or d ''valid'' True\<rparr>)"

definition each_object :: "(dict \<Rightarrow> exn + 'a) \<Rightarrow> json list \<Rightarrow> exn + 'a list" where
  "each_object f vs = all_results (map (\<lambda>v. case object_of v of Inl e \<Rightarrow> Inl e | Inr d \<Rightarrow> f d) vs)"

definition step_of_dict :: "dict \<Rightarrow> exn + plan_step" where
  "step_of_dict d =
     (case text_at d ''step_id'' of Inl e \<Rightarrow> Inl e | Inr i \<Rightarrow>
      case text_at d ''title'' of Inl e \<Rightarrow> Inl e | Inr t \<Rightarrow>
      case text_at d ''action'' of Inl e \<Rightarrow> Inl e | Inr a \<Rightarrow>
      case each_object evidence_of_dict (list_at d ''evidence'') of Inl e \<Rightarrow> Inl e | Inr es \<Rightarrow>
      Inr \<lparr>st_id = i, st_title = t, st_action = a, st_evidence = es, st_impact = text_or d ''impact'' ''high'',
        st_commands = texts_at d ''commands''\<rparr>)"

definition plan_of_dict :: "dict \<Rightarrow> exn + plan" where
  "plan_of_dict d =
     (case each_object requirement_of_dict (list_at d ''requirements'') of Inl e \<Rightarrow> Inl e | Inr rs \<Rightarrow>
      case each_object step_of_dict (list_at d ''steps'') of Inl e \<Rightarrow> Inl e | Inr ss \<Rightarrow>
      case text_at d ''plan_id'' of Inl e \<Rightarrow> Inl e | Inr i \<Rightarrow>
      Inr \<lparr>pl_id = i, pl_requirements = rs, pl_steps = ss, pl_runtime = text_or d ''runtime'' ''python'', pl_mode = text_or d ''mode'' ''plan_only'',
        pl_supported = bool_or d ''supported_runtime'' True, pl_unsupported = optional_text d ''unsupported_reason'',
        pl_valid = bool_or d ''valid_references'' True\<rparr>)"

text \<open>\<open>_plan_from_json\<close>: nothing for a missing or empty value.\<close>

definition plan_of_json :: "json \<Rightarrow> exn + plan option" where
  "plan_of_json v = (if \<not> truthy v then Inr None
     else case object_of v of Inl e \<Rightarrow> Inl e | Inr d \<Rightarrow> map_sum id Some (plan_of_dict d))"

text \<open>A repository mapping as a dictionary, and back.\<close>

definition repository_dict :: "repository_map \<Rightarrow> dict" where
  "repository_dict m = [(''repository_id'', opt_json (rm_id m)), (''root'', opt_json (rm_root m)), (''canonical_path'', opt_json (rm_path m)),
     (''name'', opt_json (rm_name m)), (''branch'', opt_json (rm_branch m)), (''head_commit'', opt_json (rm_head m)),
     (''dirty'', JBool (rm_dirty m)), (''capabilities'', JList (map JStr (rm_capabilities m)))]
     @ (case rm_commit m of None \<Rightarrow> [] | Some c \<Rightarrow> [(''commit'', opt_json c)])"

definition repository_of_dict :: "dict \<Rightarrow> repository_map" where
  "repository_of_dict d = \<lparr>rm_id = optional_text d ''repository_id'', rm_root = optional_text d ''root'', rm_path = optional_text d ''canonical_path'',
     rm_name = optional_text d ''name'', rm_branch = optional_text d ''branch'',
     rm_commit = (if map_of d ''commit'' = None then None else Some (optional_text d ''commit'')), rm_head = optional_text d ''head_commit'',
     rm_dirty = bool_or d ''dirty'' False, rm_capabilities = texts_at d ''capabilities''\<rparr>"

section \<open>Writing packages\<close>

definition changed_file_dict :: "changed_file \<Rightarrow> dict" where
  "changed_file_dict c = [(''path'', JStr (cf_path c)), (''status'', JStr (cf_status c)), (''before_hash'', opt_json (cf_before c)),
     (''after_hash'', opt_json (cf_after c)), (''patch'', JStr (cf_patch c))]"

definition diff_dict :: "repository_diff \<Rightarrow> dict" where
  "diff_dict d = [(''schema_version'', JStr ''1.0''), (''kind'', JStr ''repository_diff''), (''base_commit'', JStr (df_commit d)),
     (''changed_files'', JList (map JStr (changed_paths d))), (''files'', JList (map (JObj \<circ> changed_file_dict) (df_files d))),
     (''source_unchanged'', JBool True)]"

definition result_dict :: "command_result \<Rightarrow> dict" where
  "result_dict r = [(''command'', JStr (cr_command r)), (''exit_code'', JInt (cr_exit r)), (''stdout'', JStr (cr_stdout r)),
     (''stderr'', JStr (cr_stderr r)), (''duration_seconds'', JNum (cr_duration r))]
     @ (if cr_timeout r then [(''timeout'', JBool True)] else []) @ [(''offline'', JBool (cr_offline r))]"

text \<open>\<open>simulation.diff_artifact or {...}\<close>\<close>

definition diff_artifact :: "simulation \<Rightarrow> bool \<Rightarrow> dict" where
  "diff_artifact sm bound = (case sm_diff sm of Some d \<Rightarrow> diff_dict d
     | None \<Rightarrow> [(''schema_version'', JStr ''1.0''), (''kind'', JStr ''repository_diff''), (''base_commit'', opt_json (sm_commit sm)),
         (''changed_files'', JList (map JStr (sm_changed sm))), (''files'', JList []), (''source_unchanged'', JBool bound)])"

section \<open>What is read back is what was written\<close>

lemma all_results_map: "(\<And>x. x \<in> set xs \<Longrightarrow> f x = Inr x) \<Longrightarrow> all_results (map f xs) = Inr xs"
  by (induction xs) auto

lemma each_object_map: "(\<And>x. x \<in> set xs \<Longrightarrow> f (g x) = Inr x) \<Longrightarrow> each_object f (map (JObj \<circ> g) xs) = Inr xs"
  by (induction xs) (auto simp: each_object_def object_of_def)

lemma py_strs [simp]: "map (py_str (\<lambda>_. []) \<circ> JStr) ss = ss"
  by (induction ss) auto

lemmas read_dict = text_at_def int_at_def bool_or_def text_or_def optional_text_def list_at_def texts_at_def jget_def jget_default_def text_json_def

lemma requirement_read_back: "make_requirement r = Inr r \<Longrightarrow> requirement_of_dict (requirement_dict r) = Inr r"
  by (cases r) (simp add: requirement_of_dict_def requirement_dict_def read_dict)

lemma evidence_read_back: "make_evidence e = Inr e \<Longrightarrow> evidence_of_dict (evidence_dict e) = Inr e"
  by (cases e; cases "er_symbol e") (simp_all add: evidence_of_dict_def evidence_dict_def read_dict)

definition well_formed_step :: "plan_step \<Rightarrow> bool" where
  "well_formed_step s \<longleftrightarrow> list_all (\<lambda>e. make_evidence e = Inr e) (st_evidence s)"

definition well_formed_plan :: "plan \<Rightarrow> bool" where
  "well_formed_plan p \<longleftrightarrow> list_all (\<lambda>r. make_requirement r = Inr r) (pl_requirements p) \<and> list_all well_formed_step (pl_steps p)"

lemma step_read_back: "well_formed_step s \<Longrightarrow> step_of_dict (step_dict s) = Inr s"
  using each_object_map [of "st_evidence s" evidence_of_dict evidence_dict]
  by (simp add: step_of_dict_def step_dict_def read_dict well_formed_step_def list_all_iff evidence_read_back)

lemma plan_read_back: "well_formed_plan p \<Longrightarrow> plan_of_json (JObj (plan_dict p)) = Inr (Some p)"
proof -
  assume w: "well_formed_plan p"
  have r: "each_object requirement_of_dict (map (JObj \<circ> requirement_dict) (pl_requirements p)) = Inr (pl_requirements p)"
    and s: "each_object step_of_dict (map (JObj \<circ> step_dict) (pl_steps p)) = Inr (pl_steps p)"
    using w by (auto simp: well_formed_plan_def list_all_iff requirement_read_back step_read_back intro!: each_object_map)
  have "plan_of_dict (plan_dict p) = Inr p"
    using r s by (cases "pl_unsupported p") (simp_all add: plan_of_dict_def plan_dict_def read_dict)
  then show ?thesis by (simp add: plan_of_json_def object_of_def plan_dict_def)
qed

lemma repository_read_back: "repository_of_dict (repository_dict m) = m"
  by (cases "rm_commit m") (auto simp: repository_of_dict_def repository_dict_def read_dict opt_json_def split: option.splits)

end
