(* ===== verification/Workflow.thy ===== *)
theory Workflow
  imports Workflow_Data
begin

text \<open>
  The vertical slice from a proposal to a verified change, \<open>services/agent_orchestrator/workflow.py\<close>: the
  kernel store, the project pack, the context cache, the token budget, the model, the sandboxes and the
  artifact store composed the way the code composes them. Parameters, in \<open>workflow_env\<close>: the model, the
  optional tracer and graph runtime, an injected worker where one is configured, and one new identifier
  and clock reading for each call of the store (\<open>ws_tick\<close> counts them).
\<close>

section \<open>The parts\<close>

text \<open>
  A worker that is injected; its own state is part of the world. It may raise, in particular a
  \<open>TypeError\<close> where it does not take the arguments with the repository.
\<close>

record 'w worker_port =
  wk_apply :: "plan \<Rightarrow> approval_token \<Rightarrow> bool \<Rightarrow> (string \<times> repository_map option) option \<Rightarrow> 'w \<Rightarrow> (exn + simulation) \<times> 'w"
  wk_test :: "plan \<Rightarrow> 'w \<Rightarrow> (exn + simulation) \<times> 'w"
  wk_close :: "'w \<Rightarrow> (exn + unit) \<times> 'w"

datatype 'w worker = Injected "'w worker_port" | Isolated "'w sandbox" | Dry dry_sandbox

record 'w tracer =
  tc_start :: "string \<Rightarrow> dict \<Rightarrow> 'w \<Rightarrow> string option \<times> 'w"
  tc_finish :: "string \<Rightarrow> dict option \<Rightarrow> string option \<Rightarrow> 'w \<Rightarrow> 'w"
  tc_record :: "string \<Rightarrow> dict \<Rightarrow> 'w \<Rightarrow> (exn + unit) \<times> 'w"
  tc_project :: "string option"
  tc_url :: "string option"

record 'w workflow_env =
  wf_kernel :: kernel_env
  wf_digest :: digest_env
  wf_pack :: "'w pack_env"
  wf_boxes :: "'w sandbox_env"
  wf_root :: string
  wf_patcher :: "'w patcher option"
  wf_worker :: "'w worker_port option"
  wf_model :: "string \<Rightarrow> dict \<Rightarrow> string \<Rightarrow> string \<Rightarrow> 'w \<Rightarrow> (exn + structured_result) \<times> 'w"
  wf_provider :: string
  wf_tracer :: "'w tracer option"
  wf_graph :: "(string \<Rightarrow> string \<Rightarrow> dict \<Rightarrow> 'w \<Rightarrow> (exn + unit) \<times> 'w) option"
  wf_folder :: "string option"
  wf_show :: "evaluation_record \<Rightarrow> string"
  wf_uid :: "nat \<Rightarrow> string"
  wf_now :: "nat \<Rightarrow> string"
  wf_expiry :: "nat \<Rightarrow> string"
  wf_instant :: "nat \<Rightarrow> int"

record 'w workflow_state =
  ws_db :: kernel_db
  ws_cache :: context_cache
  ws_index :: repository_index
  ws_artifacts :: files
  ws_values :: dict
  ws_world :: 'w
  ws_tick :: nat

record workflow_request =
  wq_tenant :: string
  wq_proposal :: string
  wq_mode :: string
  wq_key :: string
  wq_approval :: "approval_token option"
  wq_run :: "string option"
  wq_quota :: "int option"
  wq_repository :: "string option"
  wq_snapshot :: "repository_map option"
  wq_proposal_id :: "string option"

record run_outcome =
  oc_run :: lifecycle_view
  oc_requirements :: "requirement list"
  oc_evidence :: "evidence list"
  oc_plan :: "plan option"
  oc_approval :: "approval_token option"
  oc_report :: "json option"
  oc_proposal :: "dict option"

type_synonym ('w, 'a) wf = "'w workflow_state \<Rightarrow> (exn + 'a) \<times> 'w workflow_state"

text \<open>A call of the kernel store, with a new identifier and the time; a call that only reads; a call outside.\<close>

definition on_store :: "'w workflow_env \<Rightarrow> (string \<Rightarrow> string \<Rightarrow> kernel_db \<Rightarrow> (exn + 'a) \<times> kernel_db) \<Rightarrow> ('w, 'a) wf" where
  "on_store env f s = (let (r, db) = f (wf_uid env (ws_tick s)) (wf_now env (ws_tick s)) (ws_db s) in
     (r, s\<lparr>ws_db := db, ws_tick := ws_tick s + 1\<rparr>))"

definition reading :: "(kernel_db \<Rightarrow> exn + 'a) \<Rightarrow> ('w, 'a) wf" where
  "reading f s = (f (ws_db s), s)"

definition outside :: "('w \<Rightarrow> (exn + 'a) \<times> 'w) \<Rightarrow> ('w, 'a) wf" where
  "outside f s = (let (r, w) = f (ws_world s) in (r, s\<lparr>ws_world := w\<rparr>))"

definition with_index :: "('w \<Rightarrow> repository_index \<Rightarrow> (exn + 'a) \<times> repository_index) \<Rightarrow> ('w, 'a) wf" where
  "with_index f s = (let (r, ix) = f (ws_world s) (ws_index s) in (r, s\<lparr>ws_index := ix\<rparr>))"

definition set_values :: "dict \<Rightarrow> ('w, unit) wf" where
  "set_values kvs s = (Inr (), s\<lparr>ws_values := dict_merge (ws_values s) kvs\<rparr>)"

text \<open>An exception that is handled continues with the handler.\<close>

definition catching :: "('w, 'a) wf \<Rightarrow> (exn \<Rightarrow> ('w, 'a) wf option) \<Rightarrow> ('w, 'a) wf" where
  "catching m h s = (case m s of (Inr x, s1) \<Rightarrow> (Inr x, s1)
     | (Inl e, s1) \<Rightarrow> (case h e of None \<Rightarrow> (Inl e, s1) | Some k \<Rightarrow> k s1))"

text \<open>\<open>for_repository\<close>: the allowlist are the entries of the checkout that are not hidden.\<close>

definition index_for_repository :: "string list \<Rightarrow> repository_index" where
  "index_for_repository names = make_index (sort (filter (\<lambda>n. \<not> starts_with n ''.'') names)) 2048 8"

section \<open>Checkpoints, events and traces\<close>

definition wf_checkpoint :: "'w workflow_env \<Rightarrow> string \<Rightarrow> string \<Rightarrow> string \<Rightarrow> ('w, unit) wf" where
  "wf_checkpoint env rid t node s =
     and_then (on_store env (\<lambda>uid now. atomically (save_graph_checkpoint (wf_kernel env) rid t node (ws_values s) now)) s)
       (\<lambda>_ s1. case wf_graph env of None \<Rightarrow> (Inr (), s1) | Some g \<Rightarrow> outside (g rid node (redact_dict (ws_values s1))) s1)"

definition wf_event :: "'w workflow_env \<Rightarrow> string \<Rightarrow> string \<Rightarrow> string \<Rightarrow> dict \<Rightarrow> ('w, unit) wf" where
  "wf_event env rid t event payload s =
     and_then (on_store env (\<lambda>uid now. atomically (append_kernel_event (wf_kernel env) rid t event payload uid now)) s)
       (\<lambda>_ s1. case wf_tracer env of None \<Rightarrow> (Inr (), s1)
         | Some tc \<Rightarrow> outside (tc_record tc event (dict_merge [(''run_id'', JStr rid)] (redact_dict payload))) s1)"

definition start_trace :: "'w workflow_env \<Rightarrow> string \<Rightarrow> dict \<Rightarrow> 'w workflow_state \<Rightarrow> string option \<times> 'w workflow_state" where
  "start_trace env name attributes s = (case wf_tracer env of None \<Rightarrow> (None, s)
     | Some tc \<Rightarrow> (let (i, w) = tc_start tc name attributes (ws_world s) in (i, s\<lparr>ws_world := w\<rparr>)))"

definition finish_trace :: "'w workflow_env \<Rightarrow> string option \<Rightarrow> dict option \<Rightarrow> string option \<Rightarrow> 'w workflow_state \<Rightarrow> 'w workflow_state" where
  "finish_trace env trace outputs error s = (case wf_tracer env of None \<Rightarrow> s
     | Some tc \<Rightarrow> if \<not> given trace then s else s\<lparr>ws_world := tc_finish tc (text_or_empty trace) outputs error (ws_world s)\<rparr>)"

definition wf_transition :: "'w workflow_env \<Rightarrow> string \<Rightarrow> string \<Rightarrow> kernel_state \<Rightarrow> dict \<Rightarrow> string option \<Rightarrow> ('w, lifecycle_view) wf" where
  "wf_transition env rid t st payload err = on_store env (\<lambda>uid now. atomically (kernel_transition (wf_kernel env) rid t st payload err uid now))"

section \<open>Outcomes\<close>

text \<open>\<open>_safe_proposal_view\<close>\<close>

definition safe_proposal_view :: "'w workflow_env \<Rightarrow> string option \<Rightarrow> string \<Rightarrow> ('w, dict option) wf" where
  "safe_proposal_view env pid t s =
     (if \<not> given pid then (Inr None, s)
      else case fst (proposal_view (wf_kernel env) (text_or_empty pid) t None [] (ws_db s)) of
        Inr d \<Rightarrow> (Inr (Some d), s)
      | Inl (TenantScopeError _) \<Rightarrow> (Inr None, s)
      | Inl e \<Rightarrow> (Inl e, s))"

definition json_option :: "json \<Rightarrow> json option" where
  "json_option v = (case v of JNull \<Rightarrow> None | _ \<Rightarrow> Some v)"

definition outcome_report :: "lifecycle_view \<Rightarrow> dict option \<Rightarrow> ('w, json option) wf" where
  "outcome_report v proposal s = (case proposal of
     Some (kv # d) \<Rightarrow> (Inr (json_option (jget (kv # d) ''report'')), s)
   | _ \<Rightarrow> reading (get_report (lv_id v) (lv_tenant v)) s)"

definition outcome_payload :: "'w workflow_env \<Rightarrow> lifecycle_view \<Rightarrow> requirement list \<Rightarrow> evidence list \<Rightarrow> plan option \<Rightarrow> approval_token option \<Rightarrow>
    string option \<Rightarrow> ('w, run_outcome) wf" where
  "outcome_payload env v reqs es pl approval pid s =
     and_then (safe_proposal_view env pid (lv_tenant v) s) (\<lambda>proposal s1.
     and_then (outcome_report v proposal s1) (\<lambda>report s2.
     (Inr \<lparr>oc_run = v, oc_requirements = reqs, oc_evidence = es, oc_plan = pl, oc_approval = approval, oc_report = report,
        oc_proposal = proposal\<rparr>, s2)))"

text \<open>\<open>_outcome\<close>: a finished run, restored from its checkpoint.\<close>

definition lift_result :: "(exn + 'a) \<Rightarrow> ('w, 'a) wf" where
  "lift_result r s = (r, s)"

definition restored_outcome :: "'w workflow_env \<Rightarrow> lifecycle_view \<Rightarrow> (string \<times> json) option \<Rightarrow> string option \<Rightarrow> ('w, run_outcome) wf" where
  "restored_outcome env v checkpoint pid s = (case checkpoint of
     None \<Rightarrow> and_then (safe_proposal_view env pid (lv_tenant v) s) (\<lambda>proposal s1.
       (Inr \<lparr>oc_run = v, oc_requirements = [], oc_evidence = [], oc_plan = None, oc_approval = None, oc_report = None, oc_proposal = proposal\<rparr>, s1))
   | Some (_, st) \<Rightarrow>
       and_then (lift_result (object_of st) s) (\<lambda>d s1.
       and_then (lift_result (each_object requirement_of_dict (list_at d ''requirements'')) s1) (\<lambda>reqs s2.
       and_then (lift_result (each_object evidence_of_dict (list_at d ''evidence'')) s2) (\<lambda>es s3.
       and_then (lift_result (plan_of_json (jget d ''plan'')) s3) (\<lambda>pl s4.
       outcome_payload env v reqs es pl None pid s4)))))"

section \<open>Ends of a run\<close>

text \<open>\<open>_report\<close>, with the usage of the run and, where the code asks for it, its trace.\<close>

definition trace_of :: "bool \<Rightarrow> string \<Rightarrow> string \<Rightarrow> kernel_db \<Rightarrow> exn + string option" where
  "trace_of traced rid t db = (if traced then map_sum id lv_trace (get_product_run rid t db) else Inr None)"

definition report_of :: "string \<Rightarrow> string \<Rightarrow> bool \<Rightarrow> report_input \<Rightarrow> ('w, release_report) wf" where
  "report_of rid t traced q s =
     and_then (reading (kernel_usage rid t) s) (\<lambda>us s1.
     and_then (reading (trace_of traced rid t) s1) (\<lambda>trace s2.
     (Inr (build_release_report (q\<lparr>ri_usage := us, ri_trace := trace\<rparr>)), s2)))"

text \<open>The common input of a report: no latency, no leak, no injection.\<close>

definition report_on :: "string \<Rightarrow> string \<Rightarrow> requirement list \<Rightarrow> evidence list \<Rightarrow> plan \<Rightarrow> string option \<Rightarrow> string option \<Rightarrow> report_input" where
  "report_on rid status reqs es pl reason verification = \<lparr>ri_run = rid, ri_status = status, ri_requirements = reqs, ri_evidence = es, ri_plan = pl,
     ri_usage = [], ri_latency = 0, ri_bypass = 0, ri_leakage = 0, ri_injection = 0, ri_reason = reason, ri_verification = verification,
     ri_changed = [], ri_tests = [], ri_artifacts = [], ri_trace = None\<rparr>"

definition wf_save_report :: "'w workflow_env \<Rightarrow> string \<Rightarrow> release_report \<Rightarrow> ('w, unit) wf" where
  "wf_save_report env t r = on_store env (\<lambda>uid now. save_report (wf_kernel env) (rl_run r) t (rl_status r) (report_dict r) False now)"

definition value_text :: "dict \<Rightarrow> string \<Rightarrow> string option" where
  "value_text d k = (if truthy (jget d k) then Some (py_str (\<lambda>_. []) (jget d k)) else None)"

definition stored_snapshot :: "dict \<Rightarrow> repository_map option" where
  "stored_snapshot d = (case jget d ''repository_snapshot'' of JObj m \<Rightarrow> Some (repository_of_dict m) | _ \<Rightarrow> None)"

definition evidence_item_of :: "evidence \<Rightarrow> evidence_item" where
  "evidence_item_of e = \<lparr>ei_requirement = er_requirement e, ei_path = er_path e, ei_start = er_start e, ei_end = er_end e, ei_hash = er_hash e,
     ei_symbol = er_symbol e, ei_authorized = er_authorized e, ei_valid = er_valid e\<rparr>"

text \<open>The outputs of a run are saved where there are a proposal and a repository; the report is read first.\<close>

definition wf_save_outputs :: "'w workflow_env \<Rightarrow> string option \<Rightarrow> repository_map option \<Rightarrow> string \<Rightarrow> string \<Rightarrow> requirement list \<Rightarrow> evidence list \<Rightarrow>
    plan \<Rightarrow> ('w, unit) wf" where
  "wf_save_outputs env pid snap rid t reqs es pl s = (case snap of
     None \<Rightarrow> (Inr (), s)
   | Some m \<Rightarrow> if \<not> given pid then (Inr (), s) else
       and_then (reading (get_report rid t) s) (\<lambda>report.
         on_store env (\<lambda>uid now. save_proposal_outputs (wf_kernel env) (text_or_empty pid) rid t (map (JObj \<circ> requirement_dict) reqs)
           (map evidence_item_of es) (Some (plan_dict pl)) (case report of Some (JObj d) \<Rightarrow> Some d | _ \<Rightarrow> None) m now)))"

definition wf_record_artifact :: "'w workflow_env \<Rightarrow> string \<Rightarrow> string \<Rightarrow> string \<Rightarrow> string \<Rightarrow> string \<Rightarrow> string option \<Rightarrow> dict \<Rightarrow> ('w, unit) wf" where
  "wf_record_artifact env aid rid t kind digest path meta =
     on_store env (\<lambda>uid now. atomically (record_artifact (wf_kernel env) aid rid t kind digest path meta now))"

definition wf_write :: "'w workflow_env \<Rightarrow> string \<Rightarrow> string \<Rightarrow> dict \<Rightarrow> ('w, artifact) wf" where
  "wf_write env folder aid package s = (case write_artifact (wf_digest env) folder aid package (ws_artifacts s) of
     Inl e \<Rightarrow> (Inl e, s) | Inr (a, files) \<Rightarrow> (Inr a, s\<lparr>ws_artifacts := files\<rparr>))"

definition persisted_event :: "'w workflow_env \<Rightarrow> string \<Rightarrow> string \<Rightarrow> artifact \<Rightarrow> ('w, unit) wf" where
  "persisted_event env rid t a = wf_event env rid t ''artifact.persisted''
     [(''artifact_id'', JStr (aw_id a)), (''path'', JStr (aw_path a)), (''digest'', JStr (aw_digest a))]"

text \<open>\<open>report.__dict__\<close>; a metric is no mapping and becomes the text that \<open>str\<close> gives.\<close>

definition report_fields :: "'w workflow_env \<Rightarrow> release_report \<Rightarrow> dict" where
  "report_fields env r = [(''run_id'', JStr (rl_run r)), (''status'', JStr (rl_status r)),
     (''metrics'', JObj (map (\<lambda>(k, e). (k, JStr (wf_show env e))) (rl_metrics r))), (''terminal_state_consistent'', JBool (rl_consistent r)),
     (''persisted'', JBool False), (''verification_status'', JStr (rl_verification r)), (''changed_files'', JList (map JStr (rl_changed r))),
     (''test_results'', JList (map JObj (rl_tests r))), (''artifact_ids'', JList (map JStr (rl_artifacts r))),
     (''trace_id'', opt_json (rl_trace r)), (''reason'', opt_json (rl_reason r))]"

definition review_artifact :: "'w workflow_env \<Rightarrow> string \<Rightarrow> string \<Rightarrow> plan \<Rightarrow> release_report \<Rightarrow> ('w, unit) wf" where
  "review_artifact env rid t pl report s = (case wf_folder env of None \<Rightarrow> (Inr (), s) | Some folder \<Rightarrow>
     and_then (wf_write env folder rid [(''run_id'', JStr rid), (''status'', JStr ''plan_only''), (''plan'', JObj (plan_dict pl)),
       (''report'', JObj (report_fields env report))] s) (\<lambda>a s1.
     and_then (persisted_event env rid t a s1) (\<lambda>_ s2.
     wf_record_artifact env (aw_id a) rid t ''review'' (aw_digest a) (Some (aw_path a)) [(''bytes_written'', JInt (int (aw_bytes a)))] s2)))"

definition finish_plan_only :: "'w workflow_env \<Rightarrow> string \<Rightarrow> string \<Rightarrow> requirement list \<Rightarrow> evidence list \<Rightarrow> plan \<Rightarrow> string option \<Rightarrow>
    ('w, run_outcome) wf" where
  "finish_plan_only env rid t reqs es pl reason s =
     and_then (report_of rid t False (report_on rid ''plan_only'' reqs es pl reason None) s) (\<lambda>report s1.
     and_then (wf_save_report env t report s1) (\<lambda>_ s2.
     and_then (wf_checkpoint env rid t ''report'' s2) (\<lambda>_ s3.
     and_then (review_artifact env rid t pl report s3) (\<lambda>_ s4.
     and_then (wf_transition env rid t Plan_Only [(''plan_id'', JStr (pl_id pl)), (''report_persisted'', JBool True),
       (''reason'', JStr (if given reason then text_or_empty reason else ''plan-only requested''))] None s4) (\<lambda>v s5.
     let pid = value_text (ws_values s5) ''proposal_id'' in
     and_then (wf_save_outputs env pid (stored_snapshot (ws_values s5)) rid t reqs es pl s5) (\<lambda>_ s6.
     outcome_payload env v reqs es (Some pl) None pid s6))))))"

definition final_report :: "'w workflow_env \<Rightarrow> string \<Rightarrow> string \<Rightarrow> string \<Rightarrow> bool \<Rightarrow> requirement list \<Rightarrow> evidence list \<Rightarrow> plan option \<Rightarrow> string \<Rightarrow>
    ('w, unit) wf" where
  "final_report env rid t status bypass reqs es pl reason s = (case pl of None \<Rightarrow> (Inr (), s) | Some p \<Rightarrow>
     and_then (report_of rid t True ((report_on rid status reqs es p (Some reason) (Some status))\<lparr>ri_bypass := (if bypass then 1 else 0)\<rparr>) s)
       (wf_save_report env t))"

definition finish_failed :: "'w workflow_env \<Rightarrow> string \<Rightarrow> string \<Rightarrow> requirement list \<Rightarrow> evidence list \<Rightarrow> plan option \<Rightarrow> string \<Rightarrow> string option \<Rightarrow>
    ('w, run_outcome) wf" where
  "finish_failed env rid t reqs es pl reason pid s =
     and_then (final_report env rid t ''failed'' False reqs es pl reason s) (\<lambda>_ s1.
     and_then (wf_transition env rid t Failed [(''reason'', JStr reason)] (Some reason) s1) (\<lambda>v s2.
     let current = (\<lambda>x. if given pid then pid else value_text (ws_values x) ''proposal_id'') in
     and_then (case pl of None \<Rightarrow> (Inr (), s2) | Some p \<Rightarrow>
       and_then (wf_checkpoint env rid t ''report'' s2) (\<lambda>_ s3.
       wf_save_outputs env (current s3) (stored_snapshot (ws_values s3)) rid t reqs es p s3)) (\<lambda>_ s4.
     outcome_payload env v reqs es pl None (current s4) s4)))"

definition finish_rejected :: "'w workflow_env \<Rightarrow> string \<Rightarrow> string \<Rightarrow> string \<Rightarrow> requirement list \<Rightarrow> evidence list \<Rightarrow> plan option \<Rightarrow>
    ('w, run_outcome) wf" where
  "finish_rejected env rid t reason reqs es pl s =
     and_then (final_report env rid t ''rejected'' True reqs es pl reason s) (\<lambda>_ s1.
     and_then (wf_transition env rid t Kernel_Store.Rejected [(''reason'', JStr reason)] (Some reason) s1) (\<lambda>v s2.
     and_then (wf_checkpoint env rid t ''report'' s2) (\<lambda>_ s3.
     let pid = value_text (ws_values s3) ''proposal_id'' in
     and_then (case pl of None \<Rightarrow> (Inr (), s3)
       | Some p \<Rightarrow> wf_save_outputs env pid (stored_snapshot (ws_values s3)) rid t reqs es p s3) (\<lambda>_ s4.
     outcome_payload env v reqs es pl None pid s4))))"

fun status_name :: "budget_status \<Rightarrow> string" where
  "status_name Token_Budget.Allowed = ''allowed''"
| "status_name Token_Budget.Quota_Paused = ''quota_paused''"
| "status_name Token_Budget.Budget_Exceeded = ''budget_exceeded''"

definition budget_stop :: "'w workflow_env \<Rightarrow> string \<Rightarrow> string \<Rightarrow> budget_decision \<Rightarrow> requirement list \<Rightarrow> evidence list \<Rightarrow> ('w, run_outcome) wf" where
  "budget_stop env rid t d reqs es s =
     and_then (wf_transition env rid t (if bd_status d = Token_Budget.Quota_Paused then Kernel_Store.Quota_Paused else Kernel_Store.Budget_Exceeded)
       [(''reason'', JStr (bd_reason d))] (Some (bd_reason d)) s) (\<lambda>v s1.
     and_then (wf_checkpoint env rid t ''report'' s1) (\<lambda>_ s2.
     outcome_payload env v reqs es None None (value_text (ws_values s2) ''proposal_id'') s2))"

section \<open>Analysis\<close>

text \<open>The result of an analysis: an outcome where the budget stopped it, or what verification needs.\<close>

type_synonym analysis = "run_outcome + (requirement list \<times> evidence list \<times> plan)"

definition node_event :: "'w workflow_env \<Rightarrow> string \<Rightarrow> string \<Rightarrow> string \<Rightarrow> dict \<Rightarrow> ('w, unit) wf" where
  "node_event env rid t node extra = wf_event env rid t ''graph.node'' ((''node'', JStr node) # extra)"

definition usage_of_call :: "string \<Rightarrow> int \<Rightarrow> int \<Rightarrow> bool \<Rightarrow> bool \<Rightarrow> nat \<Rightarrow> budget_decision \<Rightarrow> exn + usage" where
  "usage_of_call rid i j estimated hit n d = checked_usage \<lparr>us_run = rid, us_call = rid @ '':analyze'', us_phase = ''analyze'', us_input = i,
     us_output = j, us_total = i + j, us_estimated = estimated, us_cached = hit, us_expansion = int n, us_decision = status_name (bd_status d),
     us_retry = False\<rparr>"

definition wf_reserve :: "token_ledger \<Rightarrow> int \<Rightarrow> int \<Rightarrow> ('w, budget_decision) wf" where
  "wf_reserve ledger i j = lift_result (map_sum id fst (budget_reserve \<lparr>tr_phase = 1, tr_input = i, tr_output = j, tr_retry = False\<rparr> ledger))"

definition wf_record_usage :: "'w workflow_env \<Rightarrow> string \<Rightarrow> usage \<Rightarrow> ('w, unit) wf" where
  "wf_record_usage env t u = on_store env (\<lambda>uid now. atomically (record_usage (wf_kernel env) u (Some t)))"

text \<open>The prompt does not fit into one call: the reservation is refused, recorded, and the run stops.\<close>

definition refuse_prompt :: "'w workflow_env \<Rightarrow> string \<Rightarrow> string \<Rightarrow> token_ledger \<Rightarrow> int \<Rightarrow> cache_lookup \<Rightarrow> requirement list \<Rightarrow> evidence list \<Rightarrow>
    ('w, analysis) wf" where
  "refuse_prompt env rid t ledger estimated l reqs es s =
     and_then (wf_reserve ledger estimated 0 s) (\<lambda>d s1.
     and_then (lift_result (usage_of_call rid estimated 0 True (cl_hit l) (length es) d) s1) (\<lambda>u s2.
     and_then (wf_record_usage env t u s2) (\<lambda>_ s3.
     and_then (budget_stop env rid t d reqs es s3) (\<lambda>oc s4. (Inr (Inl oc), s4)))))"

text \<open>The call of the model, what it cost, and the plan.\<close>

definition ask_model :: "'w workflow_env \<Rightarrow> string \<Rightarrow> string \<Rightarrow> string \<Rightarrow> string \<Rightarrow> token_ledger \<Rightarrow> string \<Rightarrow> dict \<Rightarrow> cache_lookup \<Rightarrow>
    requirement list \<Rightarrow> evidence list \<Rightarrow> ('w, analysis) wf" where
  "ask_model env rid t proposal mode ledger prompt context l reqs es s =
     and_then (outside (wf_model env prompt context ''proposal-analysis-v1'' (rid @ '':analyze'')) s) (\<lambda>r s1.
     and_then (wf_reserve ledger (mo_input r) (mo_output r) s1) (\<lambda>d s2.
     and_then (lift_result (usage_of_call rid (mo_input r) (mo_output r) (mo_estimated r) (cl_hit l) (length es) d) s2) (\<lambda>u s3.
     and_then (wf_record_usage env t u s3) (\<lambda>_ s4.
     and_then (wf_event env rid t ''model.usage'' (usage_dict u) s4) (\<lambda>_ s5.
     if \<not> bd_allowed d then and_then (budget_stop env rid t d reqs es s5) (\<lambda>oc s6. (Inr (Inl oc), s6))
     else
     and_then (wf_checkpoint env rid t ''plan'' s5) (\<lambda>_ s6.
     and_then (with_index (\<lambda>w. build_plan (wf_pack env) w proposal mode) s6) (\<lambda>pl s7.
     and_then (set_values [(''plan'', JObj (plan_dict pl))] s7) (\<lambda>_ s8.
     and_then (wf_event env rid t ''plan.created'' [(''plan_id'', JStr (pl_id pl)), (''valid_references'', JBool (pl_valid pl)),
       (''runtime'', JStr (pl_runtime pl))] s8) (\<lambda>_ s9.
     (Inr (Inr (reqs, es, pl)), s9))))))))))"

definition requirements_json :: "requirement list \<Rightarrow> json" where
  "requirements_json reqs = JList (map (JObj \<circ> requirement_dict) reqs)"

definition evidence_list_json :: "evidence list \<Rightarrow> json" where
  "evidence_list_json es = JList (map (JObj \<circ> evidence_dict) es)"

definition cached_context :: "'w workflow_env \<Rightarrow> dict \<Rightarrow> ('w, cache_lookup) wf" where
  "cached_context env ctx s = (let (l, c) = get_or_put (wf_digest env) ctx (ws_cache s) in (Inr l, s\<lparr>ws_cache := c\<rparr>))"

text \<open>The first visit of a run: from intake to the plan.\<close>

definition analyse :: "'w workflow_env \<Rightarrow> string \<Rightarrow> string \<Rightarrow> string \<Rightarrow> string \<Rightarrow> token_ledger \<Rightarrow> ('w, analysis) wf" where
  "analyse env rid t proposal mode ledger s =
     and_then (wf_checkpoint env rid t ''intake'' s) (\<lambda>_ s1.
     and_then (node_event env rid t ''intake'' [] s1) (\<lambda>_ s2.
     and_then (wf_checkpoint env rid t ''profile_validate'' s2) (\<lambda>_ s3.
     and_then (node_event env rid t ''profile_validate'' [(''provider'', JStr (wf_provider env))] s3) (\<lambda>_ s4.
     and_then (lift_result (parse_proposal proposal) s4) (\<lambda>parsed s5.
     let reqs = ps_requirements parsed in
     and_then (set_values [(''requirements'', requirements_json reqs), (''runtime'', JStr (ps_runtime parsed))] s5) (\<lambda>_ s6.
     and_then (wf_checkpoint env rid t ''inventory'' s6) (\<lambda>_ s7.
     and_then (node_event env rid t ''inventory'' [] s7) (\<lambda>_ s8.
     and_then (with_index (\<lambda>w. pack_evidence (wf_pack env) w proposal) s8) (\<lambda>es s9.
     and_then (set_values [(''evidence'', evidence_list_json es)] s9) (\<lambda>_ s10.
     and_then (wf_checkpoint env rid t ''retrieve'' s10) (\<lambda>_ s11.
     and_then (cached_context env [(''requirement_ids'', JList (map (JStr \<circ> re_id) reqs)), (''evidence'', evidence_list_json es)] s11) (\<lambda>l s12.
     and_then (set_values [(''cache_key'', JStr (cl_key l))] s12) (\<lambda>_ s13.
     and_then (wf_event env rid t ''context.cache'' [(''key'', JStr (cl_key l)), (''hit'', JBool (cl_hit l)),
       (''retrieval_expansion'', JInt (int (length es)))] s13) (\<lambda>_ s14.
     and_then (wf_checkpoint env rid t ''analyze'' s14) (\<lambda>_ s15.
     let (prompt, context) = build_prompt (ke_float (wf_kernel env)) proposal (cl_value l); estimated = tokens_of prompt in
     if bp_per_call_input (tl_policy ledger) < estimated then refuse_prompt env rid t ledger estimated l reqs es s15
     else ask_model env rid t proposal mode ledger prompt context l reqs es s15)))))))))))))))"

text \<open>A run that has a checkpoint is analysed again, without the model.\<close>

definition analyse_again :: "'w workflow_env \<Rightarrow> string \<Rightarrow> string \<Rightarrow> ('w, analysis) wf" where
  "analyse_again env proposal mode s =
     and_then (lift_result (parse_proposal proposal) s) (\<lambda>parsed s1.
     and_then (with_index (\<lambda>w. pack_evidence (wf_pack env) w proposal) s1) (\<lambda>es s2.
     and_then (with_index (\<lambda>w. build_plan (wf_pack env) w proposal mode) s2) (\<lambda>pl s3.
     and_then (set_values [(''requirements'', requirements_json (ps_requirements parsed)), (''evidence'', evidence_list_json es),
       (''plan'', JObj (plan_dict pl))] s3) (\<lambda>_ s4.
     (Inr (Inr (ps_requirements parsed, es, pl)), s4)))))"

section \<open>Workers\<close>

text \<open>
  \<open>sandbox.apply\<close> with the repository, and without it where the worker raises a \<open>TypeError\<close>;
  \<open>test\<close> and \<open>close\<close>. The worker with its state is returned. The deterministic one has no
  \<open>close\<close>; closing the isolated one removes its own temporary tree, which nothing reads after it.
\<close>

definition apply_once :: "'w workflow_env \<Rightarrow> plan \<Rightarrow> approval_token \<Rightarrow> bool \<Rightarrow> (string \<times> repository_map option) option \<Rightarrow> 'w worker \<Rightarrow> 'w \<Rightarrow>
    (exn + simulation) \<times> 'w worker \<times> 'w" where
  "apply_once env pl a retry place wk w = (case wk of
     Injected p \<Rightarrow> (let (r, w1) = wk_apply p pl a retry place w in (r, Injected p, w1))
   | Isolated sb \<Rightarrow> (let (r, sb1, w1) = apply_plan (wf_boxes env) pl (Some a) retry (map_option fst place) (case place of None \<Rightarrow> None | Some (_, m) \<Rightarrow> m) sb w
       in (r, Isolated sb1, w1))
   | Dry dy \<Rightarrow> (let (r, dy1) = dry_apply pl (Some a) retry dy in (Inr r, Dry dy1, w)))"

definition worker_apply :: "'w workflow_env \<Rightarrow> plan \<Rightarrow> approval_token \<Rightarrow> bool \<Rightarrow> repository_map option \<Rightarrow> 'w worker \<Rightarrow> 'w \<Rightarrow>
    (exn + simulation) \<times> 'w worker \<times> 'w" where
  "worker_apply env pl a retry snap wk w = (case apply_once env pl a retry (Some (wf_root env, snap)) wk w of
     (Inl (TypeError _), wk1, w1) \<Rightarrow> apply_once env pl a retry None wk1 w1
   | r \<Rightarrow> r)"

definition worker_test :: "'w workflow_env \<Rightarrow> plan \<Rightarrow> 'w worker \<Rightarrow> 'w \<Rightarrow> (exn + simulation) \<times> 'w worker \<times> 'w" where
  "worker_test env pl wk w = (case wk of
     Injected p \<Rightarrow> (let (r, w1) = wk_test p pl w in (r, Injected p, w1))
   | Isolated sb \<Rightarrow> (let (r, sb1, w1) = isolated_test (wf_boxes env) pl sb w in (Inr r, Isolated sb1, w1))
   | Dry dy \<Rightarrow> (let (r, dy1) = dry_test pl dy in (Inr r, Dry dy1, w)))"

definition worker_close :: "'w worker \<Rightarrow> ('w, unit) wf" where
  "worker_close wk s = (case wk of Injected p \<Rightarrow> outside (wk_close p) s | _ \<Rightarrow> (Inr (), s))"

text \<open>The first components of the authorized evidence are the paths a patch may change.\<close>

definition evidence_roots :: "evidence list \<Rightarrow> string list" where
  "evidence_roots es = sort (remdups (map (\<lambda>e. takeWhile (\<lambda>c. c \<noteq> CHR ''/'') (er_path e)) (filter (\<lambda>e. er_authorized e \<and> er_path e \<noteq> []) es)))"

definition new_worker :: "'w workflow_env \<Rightarrow> repository_map option \<Rightarrow> evidence list \<Rightarrow> 'w worker" where
  "new_worker env snap es = (case wf_worker env of Some p \<Rightarrow> Injected p | None \<Rightarrow>
     let pol = (if evidence_roots es = [] then default_sandbox_policy else default_sandbox_policy\<lparr>sp_paths := evidence_roots es\<rparr>) in
     case snap of
       Some m \<Rightarrow> Isolated \<lparr>sb_source = wf_root env, sb_snapshot = m, sb_policy = pol, sb_patcher = wf_patcher env, sb_workspace = None,
         sb_patch_calls = 0, sb_test_calls = 0, sb_last_diff = None\<rparr>
     | None \<Rightarrow> Dry \<lparr>dy_policy = pol, dy_fail_first = False, dy_patch_calls = 0, dy_test_calls = 0\<rparr>)"

definition use_worker :: "('w worker \<Rightarrow> 'w \<Rightarrow> (exn + 'a) \<times> 'w worker \<times> 'w) \<Rightarrow> 'w worker \<Rightarrow> ('w, 'a \<times> 'w worker) wf" where
  "use_worker f wk s = (case f wk (ws_world s) of (Inl e, _, w) \<Rightarrow> (Inl e, s\<lparr>ws_world := w\<rparr>) | (Inr x, wk1, w) \<Rightarrow> (Inr (x, wk1), s\<lparr>ws_world := w\<rparr>))"

text \<open>The patch, once more where the first attempt fails.\<close>

definition patch_twice :: "'w workflow_env \<Rightarrow> plan \<Rightarrow> approval_token \<Rightarrow> repository_map option \<Rightarrow> 'w worker \<Rightarrow> ('w, simulation \<times> 'w worker) wf" where
  "patch_twice env pl a snap wk s =
     and_then (use_worker (worker_apply env pl a False snap) wk s) (\<lambda>(sm, wk1) s1.
       if sm_success sm then (Inr (sm, wk1), s1) else use_worker (worker_apply env pl a True snap) wk1 s1)"

section \<open>Verification\<close>

definition json_digest :: "'w workflow_env \<Rightarrow> json \<Rightarrow> string" where
  "json_digest env v = ke_sha (wf_kernel env) (json_dump (ke_float (wf_kernel env)) v)"

definition plan_digest :: "'w workflow_env \<Rightarrow> plan \<Rightarrow> string" where
  "plan_digest env pl = json_digest env (JObj (plan_dict pl))"

text \<open>No approval yet: the run that waits is returned, else a token is issued and the run waits.\<close>

definition request_approval :: "'w workflow_env \<Rightarrow> string \<Rightarrow> string \<Rightarrow> requirement list \<Rightarrow> evidence list \<Rightarrow> plan \<Rightarrow> string option \<Rightarrow> repository_map option \<Rightarrow>
    ('w, run_outcome) wf" where
  "request_approval env rid t reqs es pl pid snap s =
     and_then (wf_save_outputs env pid snap rid t reqs es pl s) (\<lambda>_ s1.
     and_then (on_store env (\<lambda>uid now. issue_approval rid t [''patch'', ''deliver''] (wf_expiry env (ws_tick s1)) (Some (plan_digest env pl)) uid now) s1) (\<lambda>a s2.
     and_then (set_values [(''approval_id'', JStr (at_id a))] s2) (\<lambda>_ s3.
     and_then (wf_checkpoint env rid t ''human_approval'' s3) (\<lambda>_ s4.
     and_then (wf_transition env rid t Waiting_Approval ([(''node'', JStr ''human_approval''), (''approval_id'', JStr (at_id a))]
       @ (if truthy (jget (ws_values s4) ''repository_id'') then [(''repository_id'', jget (ws_values s4) ''repository_id'')] else [])) None s4) (\<lambda>v s5.
     and_then (wf_save_outputs env pid snap rid t reqs es pl s5) (\<lambda>_ s6.
     outcome_payload env v reqs es (Some pl) (Some a) pid s6))))))"

definition await_approval :: "'w workflow_env \<Rightarrow> string \<Rightarrow> string \<Rightarrow> requirement list \<Rightarrow> evidence list \<Rightarrow> plan \<Rightarrow> string option \<Rightarrow> repository_map option \<Rightarrow>
    ('w, run_outcome) wf" where
  "await_approval env rid t reqs es pl pid snap s =
     and_then (reading (approval_for_run rid t) s) (\<lambda>existing s1. case existing of
       None \<Rightarrow> request_approval env rid t reqs es pl pid snap s1
     | Some a \<Rightarrow> and_then (reading (get_product_run rid t) s1) (\<lambda>v s2.
         if lv_state v = Waiting_Approval then outcome_payload env v reqs es (Some pl) (Some a) pid s2
         else request_approval env rid t reqs es pl pid snap s2))"

text \<open>The difference, the test results and the package, as files where there is an artifact store.\<close>

definition verification_package :: "string \<Rightarrow> simulation \<Rightarrow> dict \<Rightarrow> json \<Rightarrow> dict" where
  "verification_package rid sm chg tests = [(''schema_version'', JStr ''1.0''), (''kind'', JStr ''verification_package''), (''run_id'', JStr rid),
     (''status'', JStr ''verified''), (''base_commit'', opt_json (sm_commit sm)), (''changed_files'', JList (map JStr (sm_changed sm))),
     (''diff'', JObj chg), (''tests'', tests),
     (''verification'', JObj [(''status'', JStr ''verified''), (''source_unchanged'', JBool (bool_or chg ''source_unchanged'' False))])]"

definition test_results :: "simulation \<Rightarrow> json" where
  "test_results tested = JList (map (JObj \<circ> result_dict) (sm_results tested))"

definition changed_json :: "simulation \<Rightarrow> json" where
  "changed_json sm = JList (map JStr (sm_changed sm))"

definition write_packages :: "'w workflow_env \<Rightarrow> string \<Rightarrow> string \<Rightarrow> simulation \<Rightarrow> dict \<Rightarrow> json \<Rightarrow> string \<Rightarrow>
    ('w, string list \<times> string option \<times> string option) wf" where
  "write_packages env rid t sm chg tests folder s =
     and_then (wf_write env folder (rid @ ''-diff'') [(''schema_version'', JStr ''1.0''), (''kind'', JStr ''repository_diff''), (''diff'', JObj chg),
       (''changed_files'', changed_json sm)] s) (\<lambda>df s1.
     and_then (wf_write env folder (rid @ ''-tests'') [(''schema_version'', JStr ''1.0''), (''kind'', JStr ''test_results''),
       (''base_commit'', opt_json (sm_commit sm)), (''results'', tests)] s1) (\<lambda>tf s2.
     and_then (persisted_event env rid t df s2) (\<lambda>_ s3.
     and_then (persisted_event env rid t tf s3) (\<lambda>_ s4.
     and_then (wf_write env folder (rid @ ''-verification'') (verification_package rid sm chg tests) s4) (\<lambda>a s5.
     and_then (persisted_event env rid t a s5) (\<lambda>_ s6.
     and_then (wf_record_artifact env (aw_id a) rid t ''verification'' (aw_digest a) (Some (aw_path a)) [(''schema_version'', JStr ''1.0''),
       (''changed_files'', changed_json sm), (''bytes_written'', JInt (int (aw_bytes a)))] s6) (\<lambda>_ s7.
     (Inr ([aw_id a], Some (aw_path df), Some (aw_path tf)), s7))))))))"

definition package_change :: "'w workflow_env \<Rightarrow> string \<Rightarrow> string \<Rightarrow> simulation \<Rightarrow> dict \<Rightarrow> json \<Rightarrow>
    ('w, string list \<times> string option \<times> string option) wf" where
  "package_change env rid t sm chg tests s =
     and_then (case wf_folder env of None \<Rightarrow> (Inr ([], None, None), s) | Some folder \<Rightarrow> write_packages env rid t sm chg tests folder s)
       (\<lambda>(ids, dp, tp) s1.
     and_then (wf_record_artifact env (rid @ ''-diff'') rid t ''diff'' (json_digest env (JObj chg)) None [(''schema_version'', JStr ''1.0''),
       (''changed_files'', changed_json sm), (''diff'', JObj chg), (''source_unchanged'', JBool (bool_or chg ''source_unchanged'' False))] s1) (\<lambda>_ s2.
     and_then (wf_record_artifact env (rid @ ''-tests'') rid t ''test'' (json_digest env tests) None [(''schema_version'', JStr ''1.0''),
       (''results'', tests), (''status'', JStr ''passed'')] s2) (\<lambda>_ s3.
     (Inr (ids @ [rid @ ''-diff'', rid @ ''-tests''], dp, tp), s3))))"

definition package_error :: "exn \<Rightarrow> bool" where
  "package_error e \<longleftrightarrow> (case e of PermissionError _ \<Rightarrow> True | TenantScopeError _ \<Rightarrow> True | InvalidApproval _ \<Rightarrow> True | FileNotFound _ \<Rightarrow> True
     | TypeError _ \<Rightarrow> True | _ \<Rightarrow> is_value_error e)"

text \<open>The class and the text of an exception; a \<open>KeyError\<close> shows its key as \<open>repr\<close> does.\<close>

fun exn_parts :: "exn \<Rightarrow> string \<times> string" where
  "exn_parts (ValueError m) = (''ValueError'', m)"
| "exn_parts (KeyError m) = (''KeyError'', CHR 0x27 # m @ [CHR 0x27])"
| "exn_parts (TypeError m) = (''TypeError'', m)"
| "exn_parts (RuntimeError m) = (''RuntimeError'', m)"
| "exn_parts (IntegrityError m) = (''IntegrityError'', m)"
| "exn_parts (PermissionError m) = (''PermissionError'', m)"
| "exn_parts (RunNotFound m) = (''RunNotFound'', m)"
| "exn_parts (TenantMismatch m) = (''TenantMismatch'', m)"
| "exn_parts (IdempotencyConflict m) = (''IdempotencyConflict'', m)"
| "exn_parts (InvalidTransition m) = (''InvalidTransition'', m)"
| "exn_parts (ReservationConflict m) = (''ReservationConflict'', m)"
| "exn_parts (InsufficientCredits m) = (''InsufficientCredits'', m)"
| "exn_parts (QuotaExceeded m _) = (''QuotaExceeded'', m)"
| "exn_parts (OrderConflict m) = (''OrderConflict'', m)"
| "exn_parts (UnknownOrder m) = (''UnknownOrder'', m)"
| "exn_parts (UnknownProvider m) = (''UnknownProvider'', m)"
| "exn_parts (ProviderConfigurationError m) = (''ProviderConfigurationError'', m)"
| "exn_parts (InvalidWebhook m) = (''InvalidWebhook'', m)"
| "exn_parts (AuthorizationDenied m) = (''AuthorizationDenied'', m)"
| "exn_parts (AuthenticationRequired m) = (''AuthenticationRequired'', m)"
| "exn_parts (OAuthCallbackError m) = (''OAuthCallbackError'', m)"
| "exn_parts (AccountCollision m) = (''AccountCollision'', m)"
| "exn_parts (ReasonRequired m) = (''ReasonRequired'', m)"
| "exn_parts (TenantScopeError m) = (''TenantScopeError'', m)"
| "exn_parts (InvalidApproval m) = (''InvalidApproval'', m)"
| "exn_parts (AgentProviderError m) = (''AgentProviderError'', m)"
| "exn_parts (WorkerInterrupted m) = (''WorkerInterrupted'', m)"
| "exn_parts (FileNotFound m) = (''FileNotFoundError'', m)"
| "exn_parts (PromptInjection m) = (''PromptInjectionDetected'', m)"

definition exn_text :: "exn \<Rightarrow> string" where
  "exn_text e = snd (exn_parts e)"

definition exn_full :: "exn \<Rightarrow> string" where
  "exn_full e = fst (exn_parts e) @ '': '' @ exn_text e"

text \<open>After the package: the report, the artifacts again with their paths, and the run is verified.\<close>

definition finish_verified :: "'w workflow_env \<Rightarrow> string \<Rightarrow> string \<Rightarrow> requirement list \<Rightarrow> evidence list \<Rightarrow> plan \<Rightarrow> approval_token \<Rightarrow> string option \<Rightarrow>
    repository_map option \<Rightarrow> 'w worker \<Rightarrow> simulation \<Rightarrow> simulation \<Rightarrow> dict \<Rightarrow> string list \<times> string option \<times> string option \<Rightarrow> ('w, run_outcome) wf" where
  "finish_verified env rid t reqs es pl a pid snap wk sm tested chg packages s =
     (let (ids, dp, tp) = packages; tests = test_results tested in
     and_then (report_of rid t True ((report_on rid ''verified'' reqs es pl None (Some ''verified''))
       \<lparr>ri_changed := sm_changed sm, ri_tests := map result_dict (sm_results tested), ri_artifacts := ids\<rparr>) s) (\<lambda>report s1.
     and_then (wf_save_report env t report s1) (\<lambda>_ s2.
     and_then (wf_checkpoint env rid t ''report'' s2) (\<lambda>_ s3.
     and_then (wf_record_artifact env (rid @ ''-diff'') rid t ''diff'' (json_digest env (JObj chg)) dp [(''status'', JStr ''prepared''),
       (''schema_version'', JStr ''1.0''), (''changed_files'', changed_json sm), (''source_unchanged'', JBool (bool_or chg ''source_unchanged'' False)),
       (''detail'', JStr (sm_detail sm))] s3) (\<lambda>_ s4.
     and_then (wf_record_artifact env (rid @ ''-tests'') rid t ''test'' (json_digest env tests) tp [(''status'', JStr ''passed''),
       (''schema_version'', JStr ''1.0''), (''results'', tests), (''detail'', JStr (sm_detail tested))] s4) (\<lambda>_ s5.
     and_then (wf_event env rid t ''delivery.prepared'' [(''approval_token_id'', JStr (at_id a)), (''artifact_hash'', JStr (plan_digest env pl))] s5) (\<lambda>_ s6.
     and_then (wf_transition env rid t Verified [(''plan_id'', JStr (pl_id pl)), (''report_persisted'', JBool True)] None s6) (\<lambda>v s7.
     and_then (wf_save_outputs env pid snap rid t reqs es pl s7) (\<lambda>_ s8.
     and_then (worker_close wk s8) (\<lambda>_ s9.
     outcome_payload env v reqs es (Some pl) (Some a) pid s9))))))))))"

definition close_and_fail :: "'w workflow_env \<Rightarrow> string \<Rightarrow> string \<Rightarrow> requirement list \<Rightarrow> evidence list \<Rightarrow> plan \<Rightarrow> string option \<Rightarrow> 'w worker \<Rightarrow> string \<Rightarrow>
    ('w, run_outcome) wf" where
  "close_and_fail env rid t reqs es pl pid wk reason s =
     and_then (worker_close wk s) (\<lambda>_ s1. finish_failed env rid t reqs es (Some pl) reason pid s1)"

text \<open>With the consumed approval: patch, test, package.\<close>

definition run_checks :: "'w workflow_env \<Rightarrow> string \<Rightarrow> string \<Rightarrow> requirement list \<Rightarrow> evidence list \<Rightarrow> plan \<Rightarrow> approval_token \<Rightarrow> string option \<Rightarrow>
    repository_map option \<Rightarrow> ('w, run_outcome) wf" where
  "run_checks env rid t reqs es pl a pid snap s =
     and_then (patch_twice env pl a snap (new_worker env snap es) s) (\<lambda>(sm, wk) s1.
     if \<not> sm_success sm then close_and_fail env rid t reqs es pl pid wk (''sandbox patch failed: '' @ sm_detail sm) s1
     else
     and_then (wf_checkpoint env rid t ''test'' s1) (\<lambda>_ s2.
     and_then (use_worker (worker_test env pl) wk s2) (\<lambda>(tested, wk1) s3.
     if \<not> sm_success tested then close_and_fail env rid t reqs es pl pid wk1 (''verification failed: '' @ sm_detail tested) s3
     else
     and_then (wf_checkpoint env rid t ''evaluate'' s3) (\<lambda>_ s4.
     let chg = diff_artifact sm (snap \<noteq> None) in
     case package_change env rid t sm chg (test_results tested) s4 of
       (Inr packages, s5) \<Rightarrow> finish_verified env rid t reqs es pl a pid snap wk1 sm tested chg packages s5
     | (Inl e, s5) \<Rightarrow> (if package_error e
         then close_and_fail env rid t reqs es pl pid wk1 (''verification package creation failed: '' @ exn_text e) s5
         else (Inl e, s5))))))"

definition consume_and_run :: "'w workflow_env \<Rightarrow> string \<Rightarrow> string \<Rightarrow> requirement list \<Rightarrow> evidence list \<Rightarrow> plan \<Rightarrow> approval_token \<Rightarrow> string option \<Rightarrow>
    repository_map option \<Rightarrow> ('w, run_outcome) wf" where
  "consume_and_run env rid t reqs es pl a pid snap s =
     (case on_store env (\<lambda>uid now. atomically (consume_approval (wf_kernel env) (at_id a) rid t ''patch'' snap (Some (plan_digest env pl))
         (wf_instant env (ws_tick s)) now)) s of
        (Inl (InvalidApproval why), s1) \<Rightarrow> finish_rejected env rid t why reqs es (Some pl) s1
      | (Inl e, s1) \<Rightarrow> (Inl e, s1)
      | (Inr consumed, s1) \<Rightarrow>
          and_then (wf_event env rid t ''approval.consumed'' [(''token_id'', JStr (at_id consumed)), (''scope'', JStr ''patch'')] s1) (\<lambda>_ s2.
          and_then (wf_transition env rid t Running [(''node'', JStr ''patch''), (''approval_id'', JStr (at_id consumed))] None s2) (\<lambda>_ s3.
          and_then (wf_checkpoint env rid t ''patch'' s3) (\<lambda>_ s4.
          run_checks env rid t reqs es pl consumed pid snap s4))))"

definition stale_reason :: string where
  "stale_reason = ''evidence is stale; re-analysis is required''"

definition wf_verify :: "'w workflow_env \<Rightarrow> string \<Rightarrow> string \<Rightarrow> requirement list \<Rightarrow> evidence list \<Rightarrow> plan \<Rightarrow> approval_token option \<Rightarrow> string option \<Rightarrow>
    repository_map option \<Rightarrow> ('w, run_outcome) wf" where
  "wf_verify env rid t reqs es pl approval pid snap s =
     and_then (reading (graph_checkpoint_of rid t) s) (\<lambda>_ s1.
     and_then (case snap of
         Some m \<Rightarrow> if given pid then on_store env (\<lambda>uid now. revalidate_proposal (wf_kernel env) (text_or_empty pid) t m None now) s1 else (Inr False, s1)
       | None \<Rightarrow> (Inr False, s1)) (\<lambda>stale s2.
     if stale then finish_failed env rid t reqs es (Some pl) stale_reason pid s2
     else case approval of
       None \<Rightarrow> await_approval env rid t reqs es pl pid snap s2
     | Some a \<Rightarrow> consume_and_run env rid t reqs es pl a pid snap s2))"

section \<open>A run\<close>

definition after_analysis :: "'w workflow_env \<Rightarrow> string \<Rightarrow> string \<Rightarrow> string \<Rightarrow> approval_token option \<Rightarrow> string option \<Rightarrow> repository_map option \<Rightarrow>
    analysis \<Rightarrow> ('w, run_outcome) wf" where
  "after_analysis env rid t mode approval pid snap res s = (case res of
     Inl oc \<Rightarrow> (Inr oc, s)
   | Inr (reqs, es, pl) \<Rightarrow>
       if \<not> pl_supported pl then finish_plan_only env rid t reqs es pl (Some ''unknown runtime'') s
       else if \<not> pl_valid pl then
         (if mode = ''verify'' then finish_failed env rid t reqs es (Some pl) ''invalid evidence reference'' None s
          else finish_plan_only env rid t reqs es pl (Some ''invalid evidence reference'') s)
       else if mode = ''plan_only'' \<or> pl_mode pl = ''plan_only'' then finish_plan_only env rid t reqs es pl None s
       else wf_verify env rid t reqs es pl approval pid snap s)"

text \<open>The exceptions that end a run instead of the call.\<close>

definition run_handler :: "'w workflow_env \<Rightarrow> string \<Rightarrow> string \<Rightarrow> exn \<Rightarrow> ('w, run_outcome) wf option" where
  "run_handler env rid t e = (case e of
     PromptInjection m \<Rightarrow> Some (finish_rejected env rid t m [] [] None)
   | TenantScopeError m \<Rightarrow> Some (finish_rejected env rid t m [] [] None)
   | FileNotFound m \<Rightarrow> Some (finish_failed env rid t [] [] None m None)
   | _ \<Rightarrow> if is_value_error e then Some (finish_failed env rid t [] [] None (exn_text e) None) else None)"

definition initial_values :: "workflow_request \<Rightarrow> string option \<Rightarrow> dict" where
  "initial_values q pid = [(''proposal'', JStr (wq_proposal q)), (''mode'', JStr (wq_mode q))]
     @ (if given (wq_repository q) then [(''repository_id'', opt_json (wq_repository q))] else [])
     @ (if given pid then [(''proposal_id'', opt_json pid)] else [])
     @ (case wq_snapshot q of None \<Rightarrow> []
        | Some m \<Rightarrow> [(''repository_snapshot'', JObj (repository_dict m)), (''branch'', opt_json (rm_branch m)), (''commit'', opt_json (approved_commit m))])"

definition restored_values :: "(string \<times> json) option \<Rightarrow> exn + dict" where
  "restored_values cp = (case cp of None \<Rightarrow> Inr [] | Some (_, st) \<Rightarrow> object_of st)"

definition advance :: "'w workflow_env \<Rightarrow> string \<Rightarrow> workflow_request \<Rightarrow> string option \<Rightarrow> lifecycle_view \<Rightarrow> (string \<times> json) option \<Rightarrow> ('w, run_outcome) wf" where
  "advance env rid q pid v cp s =
     (let t = wq_tenant q in
     and_then (lift_result (local_lite (wq_mode q)) s) (\<lambda>pol s1.
     and_then (if lv_state v = Queued
       then wf_transition env rid t Running ((''node'', JStr ''intake'') # (if given (wq_repository q) then [(''repository_id'', opt_json (wq_repository q))] else []))
         None s1
       else (Inr v, s1)) (\<lambda>_ s2.
     and_then (lift_result (restored_values cp) s2) (\<lambda>old s3.
     let s4 = s3\<lparr>ws_values := dict_merge (initial_values q pid) old\<rparr> in
     catching (\<lambda>s5. and_then (case cp of None \<Rightarrow> analyse env rid t (wq_proposal q) (wq_mode q) (new_token_ledger pol (wq_quota q)) s5
         | Some _ \<Rightarrow> analyse_again env (wq_proposal q) (wq_mode q) s5)
       (after_analysis env rid t (wq_mode q) (wq_approval q) pid (wq_snapshot q))) (run_handler env rid t) s4))))"

text \<open>\<open>refresh_proposal\<close>: the stored evidence is hashed again in the current checkout.\<close>

definition check_of :: "json \<Rightarrow> evidence \<Rightarrow> evidence_check" where
  "check_of old new = \<lparr>ec_id = (case old of JObj d \<Rightarrow> optional_text d ''evidence_id'' | _ \<Rightarrow> None), ec_path = Some (er_path new), ec_hash = Some (er_hash new),
     ec_valid = er_valid new, ec_authorized = er_authorized new\<rparr>"

definition refresh_proposal :: "'w workflow_env \<Rightarrow> string \<Rightarrow> string \<Rightarrow> repository_map \<Rightarrow> ('w, dict) wf" where
  "refresh_proposal env pid t m s =
     and_then (on_store env (\<lambda>uid now. proposal_view (wf_kernel env) pid t (Some m) now) s) (\<lambda>d s1.
     and_then (lift_result (each_object evidence_of_dict (list_at d ''evidence'')) s1) (\<lambda>es s2.
     and_then (with_index (\<lambda>w. revalidate_evidence (wf_pack env) w es) s2) (\<lambda>current s3.
     and_then (on_store env (\<lambda>uid now. revalidate_proposal (wf_kernel env) pid t m
       (Some (map (\<lambda>(old, new). check_of old new) (zip (list_at d ''evidence'') current))) now) s3) (\<lambda>_ s4.
     on_store env (\<lambda>uid now. proposal_view (wf_kernel env) pid t None now) s4))))"

definition finished_states :: "kernel_state list" where
  "finished_states = [Plan_Only, Verified, Kernel_Store.Quota_Paused, Kernel_Store.Budget_Exceeded, Failed, Kernel_Store.Rejected]"

definition request_dict :: "workflow_request \<Rightarrow> dict" where
  "request_dict q = [(''proposal'', JStr (wq_proposal q)), (''mode'', JStr (wq_mode q))]
     @ (if given (wq_repository q) then [(''repository_id'', opt_json (wq_repository q))] else [])
     @ (case wq_snapshot q of None \<Rightarrow> [] | Some m \<Rightarrow> [(''repository_snapshot'', JObj (repository_dict m))])"

definition ensure_proposal :: "'w workflow_env \<Rightarrow> workflow_request \<Rightarrow> ('w, string option) wf" where
  "ensure_proposal env q s = (case wq_snapshot q of
     Some m \<Rightarrow> (if given (wq_repository q) \<and> wq_proposal_id q = None
       then and_then (on_store env (\<lambda>uid now. create_proposal (wf_kernel env) (wq_tenant q) m (wq_proposal q) (wq_mode q) (wq_key q) uid now) s)
         (\<lambda>p s1. (Inr (Some (pp_id p)), s1))
       else (Inr (wq_proposal_id q), s))
   | None \<Rightarrow> (Inr (wq_proposal_id q), s))"

definition note_trace :: "'w workflow_env \<Rightarrow> string \<Rightarrow> string \<Rightarrow> string option \<Rightarrow> string option \<Rightarrow> ('w, unit) wf" where
  "note_trace env rid t pid trace s = (if \<not> given pid then (Inr (), s)
     else on_store env (\<lambda>uid now. atomically (save_trace rid t trace (if given trace then ''langsmith'' else ''local'')
       (case wf_tracer env of None \<Rightarrow> None | Some tc \<Rightarrow> tc_project tc) (case wf_tracer env of None \<Rightarrow> None | Some tc \<Rightarrow> tc_url tc)
       ''observational'' now)) s)"

definition refreshed_run :: "'w workflow_env \<Rightarrow> string \<Rightarrow> string \<Rightarrow> string option \<Rightarrow> repository_map option \<Rightarrow> lifecycle_view \<Rightarrow> ('w, lifecycle_view) wf" where
  "refreshed_run env rid t pid snap v s = (case snap of
     Some m \<Rightarrow> (if given pid then and_then (refresh_proposal env (text_or_empty pid) t m s) (\<lambda>_ s1. reading (get_product_run rid t) s1)
       else (Inr v, s))
   | None \<Rightarrow> (Inr v, s))"

definition run_inner :: "'w workflow_env \<Rightarrow> workflow_request \<Rightarrow> string \<Rightarrow> string option \<Rightarrow> ('w, run_outcome) wf" where
  "run_inner env q new_id trace s =
     (if wq_mode q \<noteq> ''plan_only'' \<and> wq_mode q \<noteq> ''verify'' then (Inl (ValueError ''mode must be plan_only or verify''), s)
      else
      and_then (ensure_proposal env q s) (\<lambda>pid s1.
      and_then (on_store env (\<lambda>uid now. atomically (create_product_run (wf_kernel env) \<lparr>rq_run = new_id, rq_tenant = wq_tenant q, rq_key = wq_key q,
        rq_mode = wq_mode q, rq_payload = request_dict q, rq_proposal = pid, rq_repository = wq_snapshot q, rq_trace = trace\<rparr> uid now)) s1) (\<lambda>v0 s2.
      let rid = lv_id v0; t = wq_tenant q in
      and_then (note_trace env rid t pid trace s2) (\<lambda>_ s3.
      and_then (refreshed_run env rid t pid (wq_snapshot q) v0 s3) (\<lambda>v s4.
      and_then (reading (graph_checkpoint_of rid t) s4) (\<lambda>cp s5.
      if lv_state v \<in> set finished_states then restored_outcome env v cp pid s5
      else advance env rid q pid v cp s5))))))"

text \<open>\<open>run\<close>: the whole call inside a trace, which decides nothing.\<close>

definition run_workflow :: "'w workflow_env \<Rightarrow> workflow_request \<Rightarrow> ('w, run_outcome) wf" where
  "run_workflow env q s =
     (let new_id = (if given (wq_run q) then text_or_empty (wq_run q) else ''run-'' @ wf_uid env (ws_tick s));
          (trace, s1) = start_trace env ''proposal.workflow'' [(''run_id'', JStr new_id), (''tenant_id'', JStr (wq_tenant q)), (''mode'', JStr (wq_mode q))]
            (s\<lparr>ws_tick := ws_tick s + 1\<rparr>)
      in case run_inner env q new_id trace s1 of
           (Inl e, s2) \<Rightarrow> (Inl e, finish_trace env trace None (Some (exn_full e)) s2)
         | (Inr oc, s2) \<Rightarrow> (Inr oc, finish_trace env trace (Some [(''run_id'', JStr (lv_id (oc_run oc))),
             (''state'', JStr (kernel_state_name (lv_state (oc_run oc)))), (''error'', opt_json (lv_error (oc_run oc))),
             (''report'', case oc_report oc of None \<Rightarrow> JNull | Some r \<Rightarrow> r)]) (lv_error (oc_run oc)) s2))"

end
