(* ===== verification/Workflow_Safety.thy ===== *)
theory Workflow_Safety
  imports Workflow
begin

text \<open>
  What a run of the workflow does to the kernel store. The locale \<open>store_client\<close> is the interface: the
  client calls the methods of the store only, so whatever every such call keeps the whole run keeps.
\<close>

named_theorems keeps

section \<open>Calls that verify no run\<close>

definition calm :: "kernel_env \<Rightarrow> kernel_db \<Rightarrow> kernel_db \<Rightarrow> bool" where
  "calm ke db db' \<longleftrightarrow> kernel_step ke db db' \<and> (\<forall>rid. product_state db' rid = Some Verified \<longrightarrow> product_state db rid = Some Verified)"

lemma same_ledger_state: "same_ledger db db' \<Longrightarrow> product_state db' rid = product_state db rid"
  by (simp add: by_core same_ledger_find)

lemma calm_same: "kernel_step ke db db' \<Longrightarrow> same_ledger db db' \<Longrightarrow> calm ke db db'"
  by (simp add: calm_def same_ledger_state)

lemma state_of_created:
  assumes "k_runs db' = k_runs db @ [row]"
  shows "product_state db' rid = (case product_state db rid of Some s \<Rightarrow> Some s | None \<Rightarrow> if kr_id row = rid then Some (kr_state row) else None)"
  using assms by (simp add: product_state_def find_product_run_def find_append split: option.split)

lemma calm_create: "create_product_run ke q uid now db = Inr (v, db') \<Longrightarrow> calm ke db db'"
proof -
  assume c: "create_product_run ke q uid now db = Inr (v, db')"
  from create_product_run_Inr [OF this] have "product_state db' rid = Some Verified \<Longrightarrow> product_state db rid = Some Verified" for rid
    by (auto simp: state_of_created split: option.splits if_splits)
  with c show ?thesis by (auto simp: calm_def intro: k_create)
qed

lemma state_of_updated:
  assumes "k_runs db' = update_where (\<lambda>r. kr_id r = rid) f (k_runs db)" and "\<And>r. core (f r) = (kr_id r, st r, n)"
  shows "product_state db' q = (if q = rid then map_option st (find_product_run q db) else product_state db q)"
proof -
  have "kr_id (f r) = kr_id r" "kr_state (f r) = st r" for r using assms(2) [of r] by (simp_all add: core_def)
  with find_updated [OF assms(1), of q] show ?thesis by (simp add: product_state_def option.map_comp comp_def)
qed

lemma calm_append: "append_kernel_event ke rid t event payload uid now db = Inr (u, db') \<Longrightarrow> calm ke db db'"
proof -
  assume c: "append_kernel_event ke rid t event payload uid now db = Inr (u, db')"
  from append_kernel_event_Inr [OF this] obtain row e f where h: "find_product_run rid db = Some row"
    "k_runs db' = update_where (\<lambda>r. kr_id r = rid) f (k_runs db)" "\<And>r. core (f r) = (kr_id r, kr_state r, kr_seq row + 1)" by blast
  from state_of_updated [OF h(2,3)] have "product_state db' q = product_state db q" for q by (simp add: product_state_def)
  with c show ?thesis by (auto simp: calm_def intro: k_append)
qed

lemma moved_state:
  assumes "kernel_transition ke rid t st payload err uid now db = Inr (v, db')"
  shows "product_state db' q = (if q = rid then Some st else product_state db q)"
proof -
  from kernel_transition_Inr [OF assms] obtain row f where h: "find_product_run rid db = Some row"
    "k_runs db' = update_where (\<lambda>r. kr_id r = rid) f (k_runs db)" "\<And>r. core (f r) = (kr_id r, st, kr_seq row + 1)" by blast
  from state_of_updated [OF h(2,3)] h(1) show ?thesis by simp
qed

lemma calm_move: "kernel_transition ke rid t st payload err uid now db = Inr (v, db') \<Longrightarrow> st \<noteq> Verified \<Longrightarrow> calm ke db db'"
  by (auto simp: calm_def moved_state split: if_splits intro: k_move)

lemmas calm_frames = calm_same [OF k_checkpoint save_graph_checkpoint_frame] calm_same [OF k_use record_usage_frame]
  calm_same [OF k_issue issue_approval_frame] calm_same [OF k_consume consume_approval_frame]
  calm_same [OF k_propose create_proposal_frame] calm_same [OF k_revalidate revalidate_frame] calm_same [OF k_report save_report_frame]
  calm_same [OF k_artifact record_artifact_frame] calm_same [OF k_trace save_trace_frame] calm_same [OF k_outputs save_outputs_frame]

section \<open>The client\<close>

lemma outside_db [simp]: "ws_db (snd (outside f s)) = ws_db s"
  by (simp add: outside_def split: prod.split)

lemma with_index_db [simp]: "ws_db (snd (with_index f s)) = ws_db s"
  by (simp add: with_index_def split: prod.split)

lemma quiet_parts_db [simp]: "ws_db (snd (reading g s)) = ws_db s" "ws_db (snd (set_values kvs s)) = ws_db s"
  "ws_db (snd (lift_result r s)) = ws_db s" "ws_db (snd (safe_proposal_view env pid t s)) = ws_db s"
  "ws_db (snd (wf_write env folder aid package s)) = ws_db s" "ws_db (snd (cached_context env ctx s)) = ws_db s"
  "ws_db (snd (worker_close wk s)) = ws_db s" "ws_db (snd (use_worker f wk s)) = ws_db s"
  by (simp_all add: reading_def set_values_def lift_result_def safe_proposal_view_def wf_write_def cached_context_def worker_close_def use_worker_def
      split: sum.split exn.split prod.split worker.split)

lemma trace_db [simp]: "ws_db (snd (start_trace env name attrs s)) = ws_db s" "ws_db (finish_trace env tr outs err s) = ws_db s"
  by (simp_all add: start_trace_def finish_trace_def Let_def split: option.split prod.split)

lemma run_workflow_inner:
  obtains new_id trace s1 where "ws_db s1 = ws_db s" "fst (run_workflow env q s) = fst (run_inner env q new_id trace s1)"
    "ws_db (snd (run_workflow env q s)) = ws_db (snd (run_inner env q new_id trace s1))"
proof -
  define new_id where "new_id = (if given (wq_run q) then text_or_empty (wq_run q) else ''run-'' @ wf_uid env (ws_tick s))"
  define m where "m = start_trace env ''proposal.workflow'' [(''run_id'', JStr new_id), (''tenant_id'', JStr (wq_tenant q)), (''mode'', JStr (wq_mode q))]
    (s\<lparr>ws_tick := ws_tick s + 1\<rparr>)"
  have db: "ws_db (snd m) = ws_db s" by (simp add: m_def)
  obtain trace s1 where m: "m = (trace, s1)" by fastforce
  obtain r s2 where r: "run_inner env q new_id trace s1 = (r, s2)" by fastforce
  have w: "run_workflow env q s = (case run_inner env q new_id trace s1 of
           (Inl e, s2) \<Rightarrow> (Inl e, finish_trace env trace None (Some (exn_full e)) s2)
         | (Inr oc, s2) \<Rightarrow> (Inr oc, finish_trace env trace (Some [(''run_id'', JStr (lv_id (oc_run oc))),
             (''state'', JStr (kernel_state_name (lv_state (oc_run oc)))), (''error'', opt_json (lv_error (oc_run oc))),
             (''report'', case oc_report oc of None \<Rightarrow> JNull | Some r \<Rightarrow> r)]) (lv_error (oc_run oc)) s2))"
    using m unfolding run_workflow_def Let_def new_id_def [symmetric] m_def by simp
  show thesis
    by (rule that [of s1 new_id trace]) (use db m r w in \<open>cases r; simp\<close>)+
qed

lemma on_store_db: "ws_db (snd (on_store env f s)) = snd (f (wf_uid env (ws_tick s)) (wf_now env (ws_tick s)) (ws_db s))"
  by (simp add: on_store_def split: prod.split)

locale store_client =
  fixes env :: "'w workflow_env" and J :: "kernel_db \<Rightarrow> bool"
  assumes calm_keeps: "calm (wf_kernel env) db db' \<Longrightarrow> J db \<Longrightarrow> J db'"
begin

lemma seq_keeps [keeps]:
  assumes "J (ws_db (snd m))" and "\<And>x s1. J (ws_db s1) \<Longrightarrow> J (ws_db (snd (k x s1)))"
  shows "J (ws_db (snd (and_then m k)))"
proof (cases m)
  case (Pair r s1)
  with assms show ?thesis by (cases r) auto
qed

lemma on_store_keeps:
  assumes "\<And>uid now db. J db \<Longrightarrow> J (snd (f uid now db))" and "J (ws_db s)"
  shows "J (ws_db (snd (on_store env f s)))"
  using assms by (simp add: on_store_db)

lemma atomic_keeps: "(\<And>x db'. body db = Inr (x, db') \<Longrightarrow> calm (wf_kernel env) db db') \<Longrightarrow> J db \<Longrightarrow> J (snd (atomically body db))"
  by (rule atomically_preserves) (auto intro: calm_keeps)

lemma checkpoint_keeps [keeps]: "J (ws_db s) \<Longrightarrow> J (ws_db (snd (wf_checkpoint env rid t node s)))"
  by (auto simp: wf_checkpoint_def split: option.split intro!: keeps on_store_keeps atomic_keeps intro: calm_frames)

lemma event_keeps [keeps]: "J (ws_db s) \<Longrightarrow> J (ws_db (snd (wf_event env rid t event payload s)))"
  by (auto simp: wf_event_def split: option.split intro!: keeps on_store_keeps atomic_keeps calm_append)

lemma transition_keeps [keeps]: "J (ws_db s) \<Longrightarrow> st \<noteq> Verified \<Longrightarrow> J (ws_db (snd (wf_transition env rid t st payload err s)))"
  by (auto simp: wf_transition_def intro!: on_store_keeps atomic_keeps calm_move)

lemma revalidate_keeps [keeps]: "J db \<Longrightarrow> J (snd (revalidate_proposal (wf_kernel env) pid t m checks now db))"
  "J db \<Longrightarrow> J (snd (save_report (wf_kernel env) rid t status payload stale now db))"
  "J db \<Longrightarrow> J (snd (save_proposal_outputs (wf_kernel env) pid rid t reqs ev planned reported m now db))"
  "J db \<Longrightarrow> J (snd (issue_approval rid t scopes expires plan uid now db))"
  "J db \<Longrightarrow> J (snd (create_proposal (wf_kernel env) t m text mode key uid now db))"
  by (blast intro: calm_keeps calm_frames)+

lemma view_keeps [keeps]: "J db \<Longrightarrow> J (snd (proposal_view (wf_kernel env) pid t m now db))"
proof -
  assume J: "J db"
  have "J (snd (revalidate_proposal (wf_kernel env) pid t m' None now db))" for m' by (rule revalidate_keeps(1) [OF J])
  with J show ?thesis by (auto simp: proposal_view_def and_then_def split: sum.split option.split prod.split) (metis snd_conv)+
qed

lemma save_outputs_keeps [keeps]: "J (ws_db s) \<Longrightarrow> J (ws_db (snd (wf_save_outputs env pid snap rid t reqs es pl s)))"
  by (auto simp: wf_save_outputs_def split: option.split intro!: keeps on_store_keeps)

lemma save_report_keeps [keeps]: "J (ws_db s) \<Longrightarrow> J (ws_db (snd (wf_save_report env t r s)))"
  by (auto simp: wf_save_report_def intro!: keeps on_store_keeps)

lemma record_artifact_keeps [keeps]: "J (ws_db s) \<Longrightarrow> J (ws_db (snd (wf_record_artifact env aid rid t kind digest path meta s)))"
  by (auto simp: wf_record_artifact_def intro!: keeps on_store_keeps atomic_keeps intro: calm_frames)

lemma record_usage_keeps [keeps]: "J (ws_db s) \<Longrightarrow> J (ws_db (snd (wf_record_usage env t u s)))"
  by (auto simp: wf_record_usage_def intro!: keeps on_store_keeps atomic_keeps intro: calm_frames)

lemma report_of_keeps [keeps]: "J (ws_db s) \<Longrightarrow> J (ws_db (snd (report_of rid t traced q s)))"
  by (auto simp: report_of_def intro!: keeps)

lemma outcome_keeps [keeps]: "J (ws_db s) \<Longrightarrow> J (ws_db (snd (outcome_payload env v reqs es pl a pid s)))"
  by (auto simp: outcome_payload_def outcome_report_def split: option.split list.split intro!: keeps)

lemma persisted_keeps [keeps]: "J (ws_db s) \<Longrightarrow> J (ws_db (snd (persisted_event env rid t a s)))"
  by (auto simp: persisted_event_def intro!: keeps)

lemma review_keeps [keeps]: "J (ws_db s) \<Longrightarrow> J (ws_db (snd (review_artifact env rid t pl r s)))"
  by (auto simp: review_artifact_def split: option.split intro!: keeps)

lemma plan_only_keeps [keeps]: "J (ws_db s) \<Longrightarrow> J (ws_db (snd (finish_plan_only env rid t reqs es pl reason s)))"
  by (auto simp: finish_plan_only_def Let_def intro!: keeps)

lemma final_report_keeps [keeps]: "J (ws_db s) \<Longrightarrow> J (ws_db (snd (final_report env rid t status bypass reqs es pl reason s)))"
  by (auto simp: final_report_def split: option.split intro!: keeps)

lemma failed_keeps [keeps]: "J (ws_db s) \<Longrightarrow> J (ws_db (snd (finish_failed env rid t reqs es pl reason pid s)))"
  by (auto simp: finish_failed_def Let_def split: option.split intro!: keeps)

lemma rejected_keeps [keeps]: "J (ws_db s) \<Longrightarrow> J (ws_db (snd (finish_rejected env rid t reason reqs es pl s)))"
  by (auto simp: finish_rejected_def Let_def split: option.split intro!: keeps)

lemma budget_stop_keeps [keeps]: "J (ws_db s) \<Longrightarrow> J (ws_db (snd (budget_stop env rid t d reqs es s)))"
  by (auto simp: budget_stop_def intro!: keeps)

lemma node_event_keeps [keeps]: "J (ws_db s) \<Longrightarrow> J (ws_db (snd (node_event env rid t node extra s)))"
  by (auto simp: node_event_def intro!: keeps)

lemma reserve_db [simp]: "ws_db (snd (wf_reserve ledger i j s)) = ws_db s"
  by (simp add: wf_reserve_def)

lemma refuse_prompt_keeps [keeps]: "J (ws_db s) \<Longrightarrow> J (ws_db (snd (refuse_prompt env rid t ledger n l reqs es s)))"
  by (auto simp: refuse_prompt_def intro!: keeps)

lemma ask_model_keeps [keeps]: "J (ws_db s) \<Longrightarrow> J (ws_db (snd (ask_model env rid t proposal mode ledger prompt context l reqs es s)))"
  unfolding ask_model_def by (auto intro!: keeps)

lemma analyse_keeps [keeps]: "J (ws_db s) \<Longrightarrow> J (ws_db (snd (analyse env rid t proposal mode ledger s)))"
  unfolding analyse_def Let_def by (auto split: prod.split intro!: keeps)

lemma analyse_again_keeps [keeps]: "J (ws_db s) \<Longrightarrow> J (ws_db (snd (analyse_again env proposal mode s)))"
  by (auto simp: analyse_again_def intro!: keeps)

lemma patch_twice_keeps [keeps]: "J (ws_db s) \<Longrightarrow> J (ws_db (snd (patch_twice env pl a snap wk s)))"
  by (auto simp: patch_twice_def split: prod.split intro!: keeps)

lemma request_approval_keeps [keeps]: "J (ws_db s) \<Longrightarrow> J (ws_db (snd (request_approval env rid t reqs es pl pid snap s)))"
  by (auto simp: request_approval_def intro!: keeps on_store_keeps)

lemma await_approval_keeps [keeps]: "J (ws_db s) \<Longrightarrow> J (ws_db (snd (await_approval env rid t reqs es pl pid snap s)))"
  by (auto simp: await_approval_def split: option.split intro!: keeps)

lemma write_packages_keeps [keeps]: "J (ws_db s) \<Longrightarrow> J (ws_db (snd (write_packages env rid t sm chg tests folder s)))"
  by (auto simp: write_packages_def intro!: keeps)

lemma package_change_keeps [keeps]: "J (ws_db s) \<Longrightarrow> J (ws_db (snd (package_change env rid t sm chg tests s)))"
  by (auto simp: package_change_def split: option.split prod.split intro!: keeps)

lemma close_and_fail_keeps [keeps]: "J (ws_db s) \<Longrightarrow> J (ws_db (snd (close_and_fail env rid t reqs es pl pid wk reason s)))"
  by (auto simp: close_and_fail_def intro!: keeps)

lemma catching_keeps:
  assumes "J (ws_db (snd (m s)))" and "\<And>e k s1. h e = Some k \<Longrightarrow> J (ws_db s1) \<Longrightarrow> J (ws_db (snd (k s1)))"
  shows "J (ws_db (snd (catching m h s)))"
proof (cases "m s")
  case (Pair r s1)
  with assms show ?thesis by (auto simp: catching_def split: sum.split option.split)
qed

lemma handler_keeps: "run_handler env rid t e = Some k \<Longrightarrow> J (ws_db s) \<Longrightarrow> J (ws_db (snd (k s)))"
  by (auto simp: run_handler_def split: exn.splits if_splits intro!: keeps)

lemma handled_keeps [keeps]: "J (ws_db (snd (m s))) \<Longrightarrow> J (ws_db (snd (catching m (run_handler env rid t) s)))"
  by (rule catching_keeps) (auto dest: handler_keeps)

lemma refresh_keeps [keeps]: "J (ws_db s) \<Longrightarrow> J (ws_db (snd (refresh_proposal env pid t m s)))"
  by (auto simp: refresh_proposal_def intro!: keeps on_store_keeps)

lemma ensure_keeps [keeps]: "J (ws_db s) \<Longrightarrow> J (ws_db (snd (ensure_proposal env q s)))"
  by (auto simp: ensure_proposal_def split: option.split intro!: keeps on_store_keeps)

lemma note_trace_keeps [keeps]: "J (ws_db s) \<Longrightarrow> J (ws_db (snd (note_trace env rid t pid trace s)))"
  by (auto simp: note_trace_def intro!: keeps on_store_keeps atomic_keeps intro: calm_frames)

lemma refreshed_keeps [keeps]: "J (ws_db s) \<Longrightarrow> J (ws_db (snd (refreshed_run env rid t pid snap v s)))"
  by (auto simp: refreshed_run_def split: option.split intro!: keeps)

lemma restored_keeps [keeps]: "J (ws_db s) \<Longrightarrow> J (ws_db (snd (restored_outcome env v cp pid s)))"
  by (auto simp: restored_outcome_def split: option.split prod.split intro!: keeps)

end

section \<open>The client with an approval\<close>

text \<open>
  Only the end of a verification marks a run as verified. \<open>granted tid rid db\<close> is what the consumed token
  grants; it holds as soon as the token is consumed and keeps holding.
\<close>

definition both :: "(kernel_db \<Rightarrow> bool) \<Rightarrow> (kernel_db \<Rightarrow> bool) \<Rightarrow> kernel_db \<Rightarrow> bool" where
  "both I G db \<longleftrightarrow> I db \<and> G db"

locale approving_client = store_client env I for env :: "'w workflow_env" and I :: "kernel_db \<Rightarrow> bool" +
  fixes t :: string and snap :: "repository_map option" and client :: "string \<Rightarrow> bool" and granted :: "string \<Rightarrow> string \<Rightarrow> kernel_db \<Rightarrow> bool"
  assumes consumed: "I db \<Longrightarrow> client tid \<Longrightarrow> consume_approval (wf_kernel env) tid rid t ''patch'' snap plan i now db = Inr (x, db') \<Longrightarrow> granted tid rid db'"
    and granted_stays: "granted tid rid db \<Longrightarrow> kernel_step (wf_kernel env) db db' \<Longrightarrow> granted tid rid db'"
    and verified_keeps: "I db \<Longrightarrow> granted tid rid db \<Longrightarrow>
      kernel_transition (wf_kernel env) rid t Verified payload err uid now db = Inr (v, db') \<Longrightarrow> I db'"
begin

sublocale open_for: store_client env "both I (granted tid rid)" for tid rid
  by unfold_locales (auto intro: calm_keeps granted_stays simp: both_def calm_def)

lemma open_seq:
  assumes "both I (granted tid rid) (ws_db (snd m))" and "\<And>x s1. both I (granted tid rid) (ws_db s1) \<Longrightarrow> I (ws_db (snd (k x s1)))"
  shows "I (ws_db (snd (and_then m k)))"
proof (cases m)
  case (Pair r s1)
  with assms show ?thesis by (cases r) (auto simp: both_def)
qed

lemma verified_step_keeps: "both I (granted tid rid) (ws_db s) \<Longrightarrow> I (ws_db (snd (wf_transition env rid t Verified payload err s)))"
proof -
  assume h: "both I (granted tid rid) (ws_db s)"
  have "I (snd (atomically (kernel_transition (wf_kernel env) rid t Verified payload err uid now) (ws_db s)))" for uid now
    by (rule atomically_preserves) (use h in \<open>auto simp: both_def intro: verified_keeps\<close>)
  then show ?thesis by (simp add: wf_transition_def on_store_db)
qed

lemma finish_verified_keeps:
  assumes "both I (granted tid rid) (ws_db s)"
  shows "I (ws_db (snd (finish_verified env rid t reqs es pl a pid sn wk sm tested chg packages s)))"
  using assms unfolding finish_verified_def Let_def
  apply (cases packages)
  apply simp
  apply (rule open_seq, erule open_for.report_of_keeps)
  apply (rule open_seq, erule open_for.save_report_keeps)
  apply (rule open_seq, erule open_for.checkpoint_keeps)
  apply (rule open_seq, erule open_for.record_artifact_keeps)
  apply (rule open_seq, erule open_for.record_artifact_keeps)
  apply (rule open_seq, erule open_for.event_keeps)
  apply (rule seq_keeps, erule verified_step_keeps)
  apply (auto intro!: keeps)
  done

lemma open_closed: "both I (granted tid rid) db \<Longrightarrow> I db"
  by (simp add: both_def)

lemmas open_keeps = open_for.patch_twice_keeps open_for.checkpoint_keeps open_for.event_keeps open_for.transition_keeps

lemma packaged_keeps:
  assumes "both I (granted tid rid) (ws_db s)"
  shows "I (ws_db (snd (case package_change env rid t sm chg tests s of
       (Inr packages, s5) \<Rightarrow> finish_verified env rid t reqs es pl a pid sn wk sm tested chg' packages s5
     | (Inl e, s5) \<Rightarrow> (if package_error e then close_and_fail env rid t reqs es pl pid wk (why e) s5 else (Inl e, s5)))))"
proof (cases "package_change env rid t sm chg tests s")
  case (Pair r s5)
  with open_for.package_change_keeps [OF assms, of rid t sm chg tests] have "both I (granted tid rid) (ws_db s5)" by simp
  then show ?thesis using Pair open_closed [of tid rid "ws_db s5"]
    by (cases r) (auto intro: finish_verified_keeps close_and_fail_keeps)
qed

lemma open_fail: "both I (granted tid rid) (ws_db s) \<Longrightarrow> I (ws_db (snd (close_and_fail env rid t reqs es pl pid wk reason s)))"
  by (rule close_and_fail_keeps) (rule open_closed)

lemma run_checks_keeps:
  assumes "both I (granted tid rid) (ws_db s)"
  shows "I (ws_db (snd (run_checks env rid t reqs es pl a pid sn s)))"
  using assms unfolding run_checks_def Let_def
  by (auto intro!: open_seq [where tid = tid and rid = rid] open_keeps open_fail [of tid rid]
      packaged_keeps [of tid rid])

lemma consume_and_run_keeps:
  assumes "I (ws_db s)" and "client (at_id a)"
  shows "I (ws_db (snd (consume_and_run env rid t reqs es pl a pid snap s)))"
proof -
  let ?call = "\<lambda>uid now. atomically (consume_approval (wf_kernel env) (at_id a) rid t ''patch'' snap (Some (plan_digest env pl))
    (wf_instant env (ws_tick s)) now)"
  obtain r s1 where c: "on_store env ?call s = (r, s1)" by fastforce
  have I1: "I (ws_db s1)"
    using on_store_keeps [of ?call s] assms(1) c by (auto intro: atomic_keeps calm_frames)
  show ?thesis
  proof (cases r)
    case (Inl e)
    with c I1 show ?thesis by (auto simp: consume_and_run_def split: exn.split intro!: keeps)
  next
    case (Inr x)
    from c Inr have "consume_approval (wf_kernel env) (at_id a) rid t ''patch'' snap (Some (plan_digest env pl)) (wf_instant env (ws_tick s))
        (wf_now env (ws_tick s)) (ws_db s) = Inr (x, ws_db s1)"
      by (auto simp: on_store_def atomically_def split: sum.splits)
    from consumed [OF assms this] I1 have "both I (granted (at_id a) rid) (ws_db s1)" by (simp add: both_def)
    then show ?thesis using c Inr
      by (auto simp: consume_and_run_def intro!: open_seq [where tid = "at_id a" and rid = rid] open_keeps run_checks_keeps)
  qed
qed

lemma verify_keeps:
  assumes "I (ws_db s)" and "\<And>a. approval = Some a \<Longrightarrow> client (at_id a)"
  shows "I (ws_db (snd (wf_verify env rid t reqs es pl approval pid snap s)))"
  using assms unfolding wf_verify_def
  by (auto split: option.split intro!: keeps on_store_keeps consume_and_run_keeps)

lemma after_analysis_keeps:
  assumes "I (ws_db s)" and "\<And>a. mode \<noteq> ''plan_only'' \<Longrightarrow> approval = Some a \<Longrightarrow> client (at_id a)"
  shows "I (ws_db (snd (after_analysis env rid t mode approval pid snap res s)))"
  using assms by (auto simp: after_analysis_def split: sum.split prod.split intro!: keeps verify_keeps)

lemma advance_keeps:
  assumes "I (ws_db s)" and "wq_tenant q = t" and "wq_snapshot q = snap"
    and "\<And>a. wq_mode q \<noteq> ''plan_only'' \<Longrightarrow> wq_approval q = Some a \<Longrightarrow> client (at_id a)"
  shows "I (ws_db (snd (advance env rid q pid v cp s)))"
  using assms(1,4) unfolding advance_def Let_def assms(2,3)
  by (auto split: option.split intro!: keeps after_analysis_keeps)

lemma inner_keeps:
  assumes "I (ws_db s)" and "wq_tenant q = t" and "wq_snapshot q = snap"
    and "\<And>a. wq_mode q = ''verify'' \<Longrightarrow> wq_approval q = Some a \<Longrightarrow> client (at_id a)"
  shows "I (ws_db (snd (run_inner env q new_id trace s)))"
  using assms(1,4) advance_keeps [OF _ assms(2,3)] unfolding run_inner_def Let_def
  by (auto intro!: keeps on_store_keeps atomic_keeps calm_create)

lemma run_keeps:
  assumes "I (ws_db s)" and "wq_tenant q = t" and "wq_snapshot q = snap"
    and "\<And>a. wq_mode q = ''verify'' \<Longrightarrow> wq_approval q = Some a \<Longrightarrow> client (at_id a)"
  shows "I (ws_db (snd (run_workflow env q s)))"
proof -
  obtain new_id trace s1 where "ws_db s1 = ws_db s" "ws_db (snd (run_workflow env q s)) = ws_db (snd (run_inner env q new_id trace s1))"
    by (rule run_workflow_inner)
  with inner_keeps [of s1 q new_id trace] assms show ?thesis by simp
qed

end

section \<open>The run as calls of the store\<close>

text \<open>Between two states of the store: the approval of the request was consumed, for this run, its tenant and repository.\<close>

definition approved_between :: "kernel_env \<Rightarrow> workflow_request \<Rightarrow> string \<Rightarrow> kernel_db \<Rightarrow> kernel_db \<Rightarrow> bool" where
  "approved_between ke q rid db db' \<longleftrightarrow> wq_mode q = ''verify'' \<and> (\<exists>a d1 x d2 plan i now. wq_approval q = Some a
     \<and> (kernel_step ke)\<^sup>*\<^sup>* db d1 \<and> consume_approval ke (at_id a) rid (wq_tenant q) ''patch'' (wq_snapshot q) plan i now d1 = Inr (x, d2)
     \<and> (kernel_step ke)\<^sup>*\<^sup>* d2 db')"

definition approved_flow :: "kernel_env \<Rightarrow> workflow_request \<Rightarrow> kernel_db \<Rightarrow> kernel_db \<Rightarrow> bool" where
  "approved_flow ke q db db' \<longleftrightarrow> (kernel_step ke)\<^sup>*\<^sup>* db db' \<and>
     (\<forall>rid. product_state db' rid = Some Verified \<longrightarrow> product_state db rid = Some Verified \<or> approved_between ke q rid db db')"

lemma approved_between_step: "approved_between ke q rid db d \<Longrightarrow> kernel_step ke d d' \<Longrightarrow> approved_between ke q rid db d'"
  unfolding approved_between_def by (blast intro: rtranclp.rtrancl_into_rtrancl)

interpretation flow: approving_client env "approved_flow (wf_kernel env) q db" "wq_tenant q" "wq_snapshot q"
  "\<lambda>tid. wq_mode q = ''verify'' \<and> (\<exists>a. wq_approval q = Some a \<and> at_id a = tid)"
  "\<lambda>tid rid. approved_between (wf_kernel env) q rid db" for env :: "'w workflow_env" and q db
proof (unfold_locales, goal_cases)
  case (1 d d')
  then show ?case
    by (auto simp: approved_flow_def calm_def intro: approved_between_step rtranclp.rtrancl_into_rtrancl)
next
  case (2 d tid rid plan i now x d')
  then show ?case unfolding approved_flow_def approved_between_def by blast
next
  case (3 tid rid d d')
  then show ?case by (blast intro: approved_between_step)
next
  case (4 d tid rid payload err uid now v d')
  have step: "kernel_step (wf_kernel env) d d'" using 4(3) by (rule k_move)
  with 4 show ?case
    by (auto simp: approved_flow_def moved_state split: if_splits intro: approved_between_step rtranclp.rtrancl_into_rtrancl)
qed

lemma run_flow: "approved_flow (wf_kernel env) q (ws_db s) (ws_db (snd (run_workflow env q s)))"
  by (rule flow.run_keeps) (auto simp: approved_flow_def)

end
