(* ===== verification/Workflow_Progress.thy ===== *)
theory Workflow_Progress
  imports Workflow_Safety
begin

text \<open>
  Every call of \<open>run\<close> that returns leaves its run at rest: at one of the final states or waiting for an
  approval, in the answer and in the store alike.
\<close>

section \<open>Runs at rest\<close>

definition at_rest :: "lifecycle_view \<Rightarrow> 'w workflow_state \<Rightarrow> bool" where
  "at_rest v s \<longleftrightarrow> lv_state v \<in> set (Waiting_Approval # finished_states) \<and> product_state (ws_db s) (lv_id v) = Some (lv_state v)"

definition settles :: "(exn + run_outcome) \<times> 'w workflow_state \<Rightarrow> bool" where
  "settles m \<longleftrightarrow> (\<forall>oc s'. m = (Inr oc, s') \<longrightarrow> at_rest (oc_run oc) s')"

definition same_states :: "'w workflow_state \<Rightarrow> 'w workflow_state \<Rightarrow> bool" where
  "same_states s s' \<longleftrightarrow> (\<forall>rid. product_state (ws_db s') rid = product_state (ws_db s) rid)"

lemma settles_seq: "(\<And>x s1. settles (k x s1)) \<Longrightarrow> settles (and_then m k)"
  by (auto simp: settles_def and_then_def split: prod.splits sum.splits)

lemma rest_seq:
  assumes "at_rest v s" and "same_states s (snd m)" and "\<And>x s1. at_rest v s1 \<Longrightarrow> settles (k x s1)"
  shows "settles (and_then m k)"
proof (cases m)
  case (Pair r s1)
  with assms have "at_rest v s1" by (simp add: at_rest_def same_states_def)
  with assms(3) Pair show ?thesis by (cases r) (auto simp: settles_def)
qed

lemma settles_raise [simp]: "settles (Inl e, s)"
  by (simp add: settles_def)

lemma settles_outcome: "at_rest v s \<Longrightarrow> settles (outcome_payload env v reqs es pl a pid s)"
proof -
  assume h: "at_rest v s"
  obtain p s1 where p: "safe_proposal_view env pid (lv_tenant v) s = (p, s1)" by fastforce
  have "s1 = s" using p by (auto simp: safe_proposal_view_def split: if_splits sum.splits exn.splits)
  moreover have "snd (outcome_report v x s) = s" for x by (simp add: outcome_report_def reading_def split: option.split list.split)
  ultimately show ?thesis using h p
    by (auto simp: settles_def outcome_payload_def and_then_def split: sum.splits prod.splits) (metis snd_conv)
qed

subsection \<open>Calls that keep every state\<close>

lemma ledger_states: "same_ledger (ws_db s) (ws_db s') \<Longrightarrow> same_states s s'"
  by (simp add: same_states_def same_ledger_state)

lemma same_ledger_trans: "same_ledger a b \<Longrightarrow> same_ledger b c \<Longrightarrow> same_ledger a c"
  by (simp add: same_ledger_def)

lemma atomic_ledger: "(\<And>x db'. body db = Inr (x, db') \<Longrightarrow> same_ledger db db') \<Longrightarrow> same_ledger db (snd (atomically body db))"
  by (auto simp: atomically_def split: sum.split)

lemma checkpoint_states: "same_states s (snd (wf_checkpoint env rid t node s))"
proof -
  let ?call = "on_store env (\<lambda>uid now. atomically (save_graph_checkpoint (wf_kernel env) rid t node (ws_values s) now)) s"
  have a: "same_ledger (ws_db s) (ws_db (snd ?call))"
    unfolding on_store_db by (rule atomic_ledger) (erule save_graph_checkpoint_frame)
  obtain r s1 where c: "?call = (r, s1)" by fastforce
  have "ws_db (snd (wf_checkpoint env rid t node s)) = ws_db s1"
    using c by (cases r) (auto simp: wf_checkpoint_def split: option.split)
  with a c show ?thesis by (intro ledger_states) simp
qed

lemma outputs_states: "same_states s (snd (wf_save_outputs env pid snap rid t reqs es pl s))"
proof (cases "snap = None \<or> \<not> given pid")
  case True
  then show ?thesis by (auto simp: wf_save_outputs_def same_states_def split: option.split)
next
  case False
  then obtain m where m: "snap = Some m" "given pid" by auto
  obtain r where r: "reading (get_report rid t) s = (r, s)" by (simp add: reading_def)
  show ?thesis using m r
    by (cases r) (auto simp: wf_save_outputs_def same_states_def on_store_db intro!: same_ledger_state save_outputs_frame)
qed

lemma close_states: "same_states s (snd (worker_close wk s))"
  by (simp add: same_states_def)

lemma lifecycle_parts: "to_lifecycle r = Inr v \<Longrightarrow> lv_id v = kr_id r \<and> lv_state v = kr_state r"
  by (auto simp: to_lifecycle_def split: sum.splits)

lemma found_view: "find_product_run rid db = Some r \<Longrightarrow> to_lifecycle r = Inr v \<Longrightarrow> lv_id v = rid \<and> product_state db rid = Some (lv_state v)"
  using lifecycle_parts find_run_id by (fastforce simp: product_state_def)

lemma transition_view:
  assumes "kernel_transition ke rid t st payload err uid now db = Inr (v, db')"
  shows "lv_id v = rid \<and> lv_state v = st \<and> product_state db' rid = Some st"
proof -
  have "\<exists>r. find_product_run rid db' = Some r \<and> to_lifecycle r = Inr v"
    using assms by (auto simp: kernel_transition_def Let_def map_sum_def split: sum.splits option.splits if_splits)
  with found_view moved_state [OF assms, of rid] show ?thesis by fastforce
qed

lemma get_view: "get_product_run rid t db = Inr v \<Longrightarrow> lv_id v = rid \<and> product_state db rid = Some (lv_state v)"
  by (auto simp: get_product_run_def owned_row_def split: sum.splits option.splits if_splits dest: found_view)

lemma move_settles:
  assumes "st \<in> set (Waiting_Approval # finished_states)" and "\<And>v s1. at_rest v s1 \<Longrightarrow> settles (k v s1)"
  shows "settles (and_then (wf_transition env rid t st payload err s) k)"
proof -
  obtain r s1 where m: "wf_transition env rid t st payload err s = (r, s1)" by fastforce
  show ?thesis
  proof (cases r)
    case (Inr v)
    with m have "kernel_transition (wf_kernel env) rid t st payload err (wf_uid env (ws_tick s)) (wf_now env (ws_tick s)) (ws_db s) = Inr (v, ws_db s1)"
      by (auto simp: wf_transition_def on_store_def atomically_def split: sum.splits)
    from transition_view [OF this] assms(1) have "at_rest v s1" by (simp add: at_rest_def)
    with assms(2) m Inr show ?thesis by simp
  qed (simp add: m)
qed

section \<open>The ends of a run\<close>

lemmas rest_calls = rest_seq [OF _ checkpoint_states] rest_seq [OF _ outputs_states] rest_seq [OF _ close_states]

lemma states_seq: "same_states s (snd m) \<Longrightarrow> (\<And>x s1. same_states s1 (snd (k x s1))) \<Longrightarrow> same_states s (snd (and_then m k))"
  by (fastforce simp: same_states_def and_then_def split: prod.splits sum.splits)

lemma plan_only_settles: "settles (finish_plan_only env rid t reqs es pl reason s)"
  unfolding finish_plan_only_def Let_def
  by ((rule move_settles, simp add: finished_states_def) | (rule rest_calls, assumption) | erule settles_outcome | rule settles_seq)+

lemma failed_settles: "settles (finish_failed env rid t reqs es pl reason pid s)"
proof -
  have tail: "same_states s2 (snd (case pl of None \<Rightarrow> (Inr (), s2) | Some p \<Rightarrow> and_then (wf_checkpoint env rid t ''report'' s2)
      (\<lambda>_ s3. wf_save_outputs env (g s3) (h s3) rid t reqs es p s3)))" for s2 :: "'a workflow_state" and g h
    by (cases pl) (auto simp: same_states_def [of s2 s2] intro: states_seq checkpoint_states outputs_states)
  show ?thesis
    unfolding finish_failed_def Let_def
    by ((rule move_settles, simp add: finished_states_def) | (rule rest_seq, assumption, rule tail) | erule settles_outcome | rule settles_seq)+
qed

lemma rejected_settles: "settles (finish_rejected env rid t reason reqs es pl s)"
proof -
  have tail: "same_states s3 (snd (case pl of None \<Rightarrow> (Inr (), s3) | Some p \<Rightarrow> wf_save_outputs env pid sn rid t reqs es p s3))"
    for s3 :: "'a workflow_state" and pid sn
    by (cases pl) (auto simp: same_states_def [of s3 s3] intro: outputs_states)
  show ?thesis
    unfolding finish_rejected_def Let_def
    by ((rule move_settles, simp add: finished_states_def) | (rule rest_calls, assumption) | (rule rest_seq, assumption, rule tail)
      | erule settles_outcome | rule settles_seq)+
qed

lemma budget_stop_settles: "settles (budget_stop env rid t d reqs es s)"
  unfolding budget_stop_def
  by ((rule move_settles, simp add: finished_states_def) | (rule rest_calls, assumption) | erule settles_outcome)+

lemma verified_settles: "settles (finish_verified env rid t reqs es pl a pid snap wk sm tested chg packages s)"
  unfolding finish_verified_def Let_def
  by (cases packages, simp)
    ((rule move_settles, simp add: finished_states_def) | (rule rest_calls, assumption) | erule settles_outcome | rule settles_seq)+

lemma request_settles: "settles (request_approval env rid t reqs es pl pid snap s)"
  unfolding request_approval_def
  by ((rule move_settles, simp add: finished_states_def) | (rule rest_calls, assumption) | erule settles_outcome | rule settles_seq)+

section \<open>The whole run\<close>

lemmas ends = plan_only_settles failed_settles rejected_settles verified_settles request_settles

lemma await_settles: "settles (await_approval env rid t reqs es pl pid snap s)"
proof -
  have waiting: "settles (and_then (reading (get_product_run rid t) s1) (\<lambda>v s2.
      if lv_state v = Waiting_Approval then outcome_payload env v reqs es (Some pl) (Some a) pid s2
      else request_approval env rid t reqs es pl pid snap s2))" for a and s1 :: "'a workflow_state"
    by (cases "get_product_run rid t (ws_db s1)")
      (auto simp: reading_def at_rest_def dest!: get_view intro!: settles_outcome request_settles)
  show ?thesis unfolding await_approval_def
    by (rule settles_seq) (auto split: option.split intro: waiting request_settles)
qed

lemma close_and_fail_settles: "settles (close_and_fail env rid t reqs es pl pid wk reason s)"
  by (auto simp: close_and_fail_def intro!: settles_seq failed_settles)

lemma run_checks_settles: "settles (run_checks env rid t reqs es pl a pid snap s)"
  unfolding run_checks_def Let_def
  by (auto split: sum.split prod.split intro!: settles_seq close_and_fail_settles verified_settles)

lemma consume_and_run_settles: "settles (consume_and_run env rid t reqs es pl a pid snap s)"
  unfolding consume_and_run_def
  by (auto split: sum.split prod.split exn.split intro!: settles_seq rejected_settles run_checks_settles)

lemma verify_settles: "settles (wf_verify env rid t reqs es pl approval pid snap s)"
  unfolding wf_verify_def
  by (auto split: option.split intro!: settles_seq failed_settles await_settles consume_and_run_settles)

definition settles_analysis :: "(exn + analysis) \<times> 'w workflow_state \<Rightarrow> bool" where
  "settles_analysis m \<longleftrightarrow> (\<forall>oc s'. m = (Inr (Inl oc), s') \<longrightarrow> at_rest (oc_run oc) s')"

lemma analysis_seq: "(\<And>x s1. settles_analysis (k x s1)) \<Longrightarrow> settles_analysis (and_then m k)"
  by (auto simp: settles_analysis_def and_then_def split: prod.splits sum.splits)

lemma stopped_analysis: "settles m \<Longrightarrow> settles_analysis (and_then m (\<lambda>oc s1. (Inr (Inl oc), s1)))"
  by (auto simp: settles_analysis_def settles_def and_then_def split: prod.splits sum.splits)

lemma finished_analysis [simp]: "settles_analysis (Inr (Inr x), s)" "settles_analysis (Inl e, s)"
  by (simp_all add: settles_analysis_def)

lemma refuse_settles: "settles_analysis (refuse_prompt env rid t ledger n l reqs es s)"
  unfolding refuse_prompt_def by (rule analysis_seq stopped_analysis budget_stop_settles)+

lemma ask_settles: "settles_analysis (ask_model env rid t proposal mode ledger prompt context l reqs es s)"
proof -
  have stop: "settles_analysis (and_then (budget_stop env rid t d reqs es s5) (\<lambda>oc s6. (Inr (Inl oc), s6)))" for d and s5 :: "'a workflow_state"
    by (rule stopped_analysis budget_stop_settles)+
  show ?thesis unfolding ask_model_def
    by ((rule stop) | (rule finished_analysis) | (rule analysis_seq) | (subst if_splits, intro conjI impI))+
qed

lemma analyse_settles: "settles_analysis (analyse env rid t proposal mode ledger s)"
  unfolding analyse_def Let_def
  by (intro analysis_seq) (auto split: prod.split intro: refuse_settles ask_settles)

lemma again_settles: "settles_analysis (analyse_again env proposal mode s)"
  unfolding analyse_again_def by (rule analysis_seq finished_analysis)+

lemma after_analysis_settles: "(\<And>oc. res = Inl oc \<Longrightarrow> at_rest (oc_run oc) s) \<Longrightarrow>
    settles (after_analysis env rid t mode approval pid snap res s)"
  unfolding after_analysis_def
  by (auto simp: settles_def [of "(Inr x, y)" for x y] split: sum.split prod.split intro!: plan_only_settles failed_settles verify_settles)

lemma analysed_settles: "settles_analysis m \<Longrightarrow> settles (and_then m (after_analysis env rid t mode approval pid snap))"
proof -
  assume h: "settles_analysis m"
  obtain r s1 where m: "m = (r, s1)" by fastforce
  with h show ?thesis by (cases r) (auto simp: settles_analysis_def intro: after_analysis_settles)
qed

lemma handler_settles: "run_handler env rid t e = Some k \<Longrightarrow> settles (k s)"
  by (auto simp: run_handler_def split: exn.splits if_splits intro!: rejected_settles failed_settles)

lemma catching_settles: "settles (m s) \<Longrightarrow> settles (catching m (run_handler env rid t) s)"
proof -
  assume h: "settles (m s)"
  obtain r s1 where m: "m s = (r, s1)" by fastforce
  with h show ?thesis by (cases r) (auto simp: catching_def split: option.split intro: handler_settles)
qed

lemma advance_settles: "settles (advance env rid q pid v cp s)"
  unfolding advance_def Let_def
  by (intro settles_seq catching_settles analysed_settles) (auto split: option.split intro: analyse_settles again_settles)

lemma lift_seq:
  assumes "at_rest v s" and "\<And>x. settles (k x s)"
  shows "settles (and_then (lift_result r s) k)"
  using assms(2) by (cases r) (simp_all add: lift_result_def)

lemma restored_settles: "at_rest v s \<Longrightarrow> settles (restored_outcome env v cp pid s)"
proof -
  assume h: "at_rest v s"
  show ?thesis
  proof (cases cp)
    case None
    obtain p s1 where p: "safe_proposal_view env pid (lv_tenant v) s = (p, s1)" by fastforce
    then have "ws_db s1 = ws_db s" using quiet_parts_db(4) [of env pid "lv_tenant v" s] by simp
    with None p h show ?thesis by (cases p) (auto simp: restored_outcome_def settles_def at_rest_def)
  next
    case (Some c)
    with h show ?thesis
      by (auto simp: restored_outcome_def split: prod.split intro!: lift_seq [where v = v] settles_outcome)
  qed
qed

interpretation ok_client: store_client env kernel_ok for env :: "'w workflow_env"
  by unfold_locales (auto simp: calm_def intro: kernel_step_ok)

definition tracks :: "lifecycle_view \<Rightarrow> 'w workflow_state \<Rightarrow> bool" where
  "tracks v s \<longleftrightarrow> product_state (ws_db s) (lv_id v) = Some (lv_state v)"

lemma created_view:
  assumes "create_product_run ke q uid now db = Inr (v, db')" and "kernel_ok db"
  shows "product_state db' (lv_id v) = Some (lv_state v)"
proof (cases "find (\<lambda>r. kr_tenant r = rq_tenant q \<and> kr_key r = rq_key q) (k_runs db)")
  case (Some r)
  then have "db' = db" "to_lifecycle r = Inr v"
    using assms(1) by (auto simp: create_product_run_def Let_def map_sum_def split: sum.splits if_splits)
  moreover have "find_product_run (kr_id r) db = Some r"
    using find_SomeD [OF Some] assms(2) by (auto simp: kernel_ok_def find_product_run_def intro: find_key_unique)
  ultimately show ?thesis using found_view by fastforce
next
  case None
  then have "\<exists>r. find_product_run (rq_run q) db' = Some r \<and> to_lifecycle r = Inr v"
    using assms(1) by (auto simp: create_product_run_def Let_def map_sum_def split: sum.splits option.splits if_splits)
  with found_view show ?thesis by fastforce
qed

lemma tracks_same: "tracks v s \<Longrightarrow> same_states s s' \<Longrightarrow> tracks v s'"
  by (simp add: tracks_def same_states_def)

lemma note_trace_states: "same_states s (snd (note_trace env rid t pid trace s))"
proof (cases "given pid")
  case True
  let ?body = "\<lambda>uid now. atomically (save_trace rid t trace (if given trace then ''langsmith'' else ''local'')
       (case wf_tracer env of None \<Rightarrow> None | Some tc \<Rightarrow> tc_project tc) (case wf_tracer env of None \<Rightarrow> None | Some tc \<Rightarrow> tc_url tc)
       ''observational'' now)"
  have "same_ledger (ws_db s) (ws_db (snd (on_store env ?body s)))"
    unfolding on_store_db by (rule atomic_ledger) (erule save_trace_frame)
  then show ?thesis using True by (simp add: note_trace_def ledger_states)
qed (simp add: note_trace_def same_states_def)

lemma refreshed_tracks:
  assumes "refreshed_run env (lv_id v0) t pid snap v0 s = (Inr v, s1)" and "tracks v0 s"
  shows "tracks v s1"
proof (cases "snap = None \<or> \<not> given pid")
  case True
  with assms show ?thesis by (auto simp: refreshed_run_def split: option.splits)
next
  case False
  then obtain d s0 where "get_product_run (lv_id v0) t (ws_db s0) = Inr v" "s1 = s0"
    using assms(1) by (auto simp: refreshed_run_def reading_def elim!: and_then_E)
  with get_view show ?thesis by (fastforce simp: tracks_def)
qed

lemma run_inner_settles:
  assumes "kernel_ok (ws_db s)"
  shows "settles (run_inner env q new_id trace s)"
proof (cases "wq_mode q \<noteq> ''plan_only'' \<and> wq_mode q \<noteq> ''verify''")
  case False
  obtain p s1 where p: "ensure_proposal env q s = (p, s1)" by fastforce
  then have ok: "kernel_ok (ws_db s1)" using ok_client.ensure_keeps [OF assms, of env q] by simp
  show ?thesis
  proof (cases p)
    case (Inr pid)
    let ?new = "\<lambda>uid now. atomically (create_product_run (wf_kernel env) \<lparr>rq_run = new_id, rq_tenant = wq_tenant q, rq_key = wq_key q,
        rq_mode = wq_mode q, rq_payload = request_dict q, rq_proposal = pid, rq_repository = wq_snapshot q, rq_trace = trace\<rparr> uid now)"
    obtain c s2 where c: "on_store env ?new s1 = (c, s2)" by fastforce
    show ?thesis
    proof (cases c)
      case (Inr v0)
      have "tracks v0 s2" using c Inr ok
        by (auto simp: on_store_def atomically_def tracks_def split: sum.splits dest: created_view)
      then have v0: "tracks v0 (snd (note_trace env (lv_id v0) (wq_tenant q) pid trace s2))" by (rule tracks_same) (rule note_trace_states)
      have rest: "settles (and_then (reading (graph_checkpoint_of (lv_id v0) (wq_tenant q)) s4) (\<lambda>cp s5.
          if lv_state v \<in> set finished_states then restored_outcome env v cp pid s5 else advance env (lv_id v0) q pid v cp s5))"
        if "tracks v s4" for v s4
        using that by (cases "graph_checkpoint_of (lv_id v0) (wq_tenant q) (ws_db s4)")
          (auto simp: reading_def tracks_def at_rest_def intro!: restored_settles advance_settles)
      have "settles (and_then (note_trace env (lv_id v0) (wq_tenant q) pid trace s2) (\<lambda>_ s3.
          and_then (refreshed_run env (lv_id v0) (wq_tenant q) pid (wq_snapshot q) v0 s3) (\<lambda>v s4.
          and_then (reading (graph_checkpoint_of (lv_id v0) (wq_tenant q)) s4) (\<lambda>cp s5.
          if lv_state v \<in> set finished_states then restored_outcome env v cp pid s5 else advance env (lv_id v0) q pid v cp s5))))"
        using v0 by (auto simp: and_then_def [of "note_trace _ _ _ _ _ _"] and_then_def [of "refreshed_run _ _ _ _ _ _ _"]
          split: prod.split sum.split intro!: rest dest: refreshed_tracks)
      then show ?thesis using False p Inr c \<open>p = Inr pid\<close> by (simp add: run_inner_def Let_def)
    qed (use False p c Inr in \<open>simp add: run_inner_def\<close>)
  qed (use False p in \<open>simp add: run_inner_def\<close>)
qed (simp add: run_inner_def)

lemma run_workflow_settles:
  assumes "kernel_ok (ws_db s)" and "run_workflow env q s = (Inr oc, s')"
  shows "at_rest (oc_run oc) s'"
proof -
  obtain new_id trace s1 where s1: "ws_db s1 = ws_db s" "fst (run_workflow env q s) = fst (run_inner env q new_id trace s1)"
    "ws_db (snd (run_workflow env q s)) = ws_db (snd (run_inner env q new_id trace s1))"
    by (rule run_workflow_inner)
  then have "settles (run_inner env q new_id trace s1)" using assms(1) by (intro run_inner_settles) simp
  moreover obtain s2 where "run_inner env q new_id trace s1 = (Inr oc, s2)" "ws_db s2 = ws_db s'"
    using s1(2,3) assms(2) by (metis fst_conv prod.collapse snd_conv)
  ultimately show ?thesis by (simp add: settles_def at_rest_def)
qed

end
