(* ===== verification/Workflow_Success.thy ===== *)
theory Workflow_Success
  imports Workflow_Progress
begin

text \<open>
  The way to a verified run: where the approval is good, the worker patches and tests with success and the
  documents fit into their columns, the call that brings the approval ends with the run verified.
\<close>

section \<open>Calls that succeed\<close>

definition runs :: "(exn + 'a) \<times> 's \<Rightarrow> ('a \<Rightarrow> 's \<Rightarrow> bool) \<Rightarrow> bool" where
  "runs m Q \<longleftrightarrow> (\<exists>x s. m = (Inr x, s) \<and> Q x s)"

lemma runs_return [simp]: "runs (Inr x, s) Q = Q x s" "runs (Inl e, s) Q = False"
  by (simp_all add: runs_def)

lemma runs_seq: "runs m Q \<Longrightarrow> (\<And>x s1. Q x s1 \<Longrightarrow> runs (k x s1) P) \<Longrightarrow> runs (and_then m k) P"
  by (auto simp: runs_def)

lemma runs_mono: "runs m Q \<Longrightarrow> (\<And>x s. Q x s \<Longrightarrow> P x s) \<Longrightarrow> runs m P"
  by (auto simp: runs_def)

text \<open>
  A run in state \<open>st\<close> with result \<open>old\<close> that has no proposal: the next identifiers are new, its last number is
  the largest of its events, what is stored of it can be read.
\<close>

definition steady :: "'w workflow_env \<Rightarrow> string \<Rightarrow> string \<Rightarrow> kernel_state \<Rightarrow> dict \<Rightarrow> usage list \<Rightarrow> string option \<Rightarrow> 'w workflow_state \<Rightarrow> bool" where
  "steady env rid t st old us tr s \<longleftrightarrow> (\<exists>row. find_product_run rid (ws_db s) = Some row \<and> kr_tenant row = t \<and> kr_state row = st
     \<and> \<not> given (kr_proposal row) \<and> load_dict (kr_result row) = Inr old \<and> kr_trace row = tr
     \<and> (\<forall>e\<in>set (k_events (ws_db s)). (\<forall>n\<ge>ws_tick s. kv_id e \<noteq> ''event-'' @ wf_uid env n) \<and> (kv_run e = rid \<longrightarrow> kv_seq e \<le> kr_seq row))
     \<and> load_usage (sort_key ku_call (filter (\<lambda>x. ku_run x = rid) (k_usage (ws_db s)))) = Inr us
     \<and> (\<forall>r. find (\<lambda>r. rr_run r = rid) (k_reports (ws_db s)) = Some r \<longrightarrow> (\<exists>v. load_json (rr_report r) = Inr v)))"

definition plain_env :: "'w workflow_env \<Rightarrow> bool" where
  "plain_env env \<longleftrightarrow> wf_graph env = None \<and> wf_tracer env = None \<and> wf_folder env = None \<and> inj (wf_uid env)"

definition fits :: "'w workflow_env \<Rightarrow> json \<Rightarrow> bool" where
  "fits env v \<longleftrightarrow> load_json (safe_json (ke_float (wf_kernel env)) v) = Inr v"

lemma steady_owned:
  "steady env rid t st old us tr s \<Longrightarrow> \<exists>row. owned_row rid t (ws_db s) = Inr row \<and> find_product_run rid (ws_db s) = Some row \<and> kr_id row = rid
     \<and> kr_tenant row = t \<and> kr_state row = st \<and> \<not> given (kr_proposal row) \<and> load_dict (kr_result row) = Inr old \<and> kr_trace row = tr"
  by (auto simp: steady_def owned_row_def dest: find_run_id)

lemma checkpoint_runs:
  assumes "plain_env env" and "steady env rid t st old us tr s"
  shows "runs (wf_checkpoint env rid t node s) (\<lambda>_. steady env rid t st old us tr)"
proof -
  from steady_owned [OF assms(2)] obtain row where "owned_row rid t (ws_db s) = Inr row" by blast
  with assms show ?thesis
    by (auto simp: wf_checkpoint_def on_store_def atomically_def save_graph_checkpoint_def plain_env_def steady_def Let_def find_product_run_def)
qed

lemma fresh_event:
  assumes "\<forall>e\<in>set (k_events db). (\<forall>n\<ge>i. kv_id e \<noteq> ''event-'' @ wf_uid env n) \<and> (kv_run e = rid \<longrightarrow> kv_seq e \<le> k)" and "i \<le> n" and "k < m"
  shows "append_product_event ke (wf_uid env n) rid t m event payload now db = Inr (db\<lparr>k_events := k_events db @ [\<lparr>kv_id = ''event-'' @ wf_uid env n,
     kv_run = rid, kv_tenant = t, kv_seq = m, kv_event = event, kv_payload = safe_json (ke_float ke) (JObj payload), kv_created = now\<rparr>]\<rparr>)"
  using assms by (fastforce simp: append_product_event_def)

lemma event_runs:
  assumes "plain_env env" and "steady env rid t st old us tr s"
  shows "runs (wf_event env rid t event payload s) (\<lambda>_. steady env rid t st old us tr)"
proof -
  from steady_owned [OF assms(2)] obtain row where row: "owned_row rid t (ws_db s) = Inr row" "find_product_run rid (ws_db s) = Some row"
    "kr_id row = rid" by blast
  have fresh: "\<forall>e\<in>set (k_events (ws_db s)). (\<forall>n\<ge>ws_tick s. kv_id e \<noteq> ''event-'' @ wf_uid env n) \<and> (kv_run e = rid \<longrightarrow> kv_seq e \<le> kr_seq row)"
    using assms(2) row by (auto simp: steady_def)
  from fresh_event [OF this, of "ws_tick s" "kr_seq row + 1"] row assms show ?thesis
    by (auto simp: wf_event_def on_store_def atomically_def append_kernel_event_def plain_env_def steady_def find_row_update [simplified]
      find_product_run_def find_update_where_same dest: injD)
qed

lemma transition_runs:
  assumes "plain_env env" and "steady env rid t st old us tr s" and "to \<in> set (kernel_allowed st)"
    and "fits env (JObj (dict_merge old (redact_dict payload)))"
  shows "runs (wf_transition env rid t to payload err s) (\<lambda>v s1. lv_id v = rid \<and> lv_tenant v = t \<and> lv_state v = to
    \<and> steady env rid t to (dict_merge old (redact_dict payload)) us tr s1)"
proof -
  from steady_owned [OF assms(2)] obtain row where row: "owned_row rid t (ws_db s) = Inr row" "find_product_run rid (ws_db s) = Some row"
    "kr_id row = rid" "kr_state row = st" "\<not> given (kr_proposal row)" "load_dict (kr_result row) = Inr old" by blast
  have fresh: "\<forall>e\<in>set (k_events (ws_db s)). (\<forall>n\<ge>ws_tick s. kv_id e \<noteq> ''event-'' @ wf_uid env n) \<and> (kv_run e = rid \<longrightarrow> kv_seq e \<le> kr_seq row)"
    using assms(2) row by (auto simp: steady_def)
  have new: "load_dict (safe_json (ke_float (wf_kernel env)) (JObj (dict_merge old (redact_dict payload)))) = Inr (dict_merge old (redact_dict payload))"
    using assms(4) by (simp add: fits_def load_dict_def object_of_def)
  from fresh_event [OF fresh, of "ws_tick s" "kr_seq row + 1"] row assms(1-3) new show ?thesis
    by (auto simp: wf_transition_def on_store_def atomically_def kernel_transition_def plain_env_def steady_def Let_def
      find_product_run_def find_update_where_same to_lifecycle_def dest: injD)
qed

lemma find_both: "find P xs = Some r \<Longrightarrow> Q r \<Longrightarrow> find (\<lambda>x. P x \<and> Q x) xs = Some r"
  by (induction xs) (auto split: if_splits)

lemma save_report_runs:
  assumes "steady env rid t st old us tr s" and "rl_run r = rid" and "fits env (JObj (report_dict r))"
  shows "runs (wf_save_report env t r s) (\<lambda>_. steady env rid t st old us tr)"
proof -
  from steady_owned [OF assms(1)] obtain row where row: "owned_row rid t (ws_db s) = Inr row" "find_product_run rid (ws_db s) = Some row"
    "kr_id row = rid" "kr_state row = st" "kr_tenant row = t" "\<not> given (kr_proposal row)" "load_dict (kr_result row) = Inr old" by blast
  obtain v where v: "get_product_run rid t (ws_db s) = Inr v" using row by (auto simp: get_product_run_def to_lifecycle_def)
  have found: "find (\<lambda>x. kr_id x = rid \<and> kr_tenant x = t) (k_runs (ws_db s)) = Some row"
    using row(2,5) unfolding find_product_run_def by (rule find_both)
  from row v assms found show ?thesis
    by (auto simp: wf_save_report_def on_store_def save_report_def steady_def Let_def find_product_run_def find_replace_row fits_def)
qed

lemma record_artifact_runs:
  assumes "steady env rid t st old us tr s"
  shows "runs (wf_record_artifact env aid rid t kind digest path meta s) (\<lambda>_. steady env rid t st old us tr)"
proof -
  from steady_owned [OF assms] obtain row where "owned_row rid t (ws_db s) = Inr row" "\<not> given (kr_proposal row)" by blast
  with assms show ?thesis
    by (auto simp: wf_record_artifact_def on_store_def atomically_def record_artifact_def steady_def)
qed

lemma report_of_runs:
  assumes "steady env rid t st old us tr s"
  shows "runs (report_of rid t True q s) (\<lambda>r s1. r = build_release_report (q\<lparr>ri_usage := us, ri_trace := tr\<rparr>) \<and> s1 = s)"
proof -
  from steady_owned [OF assms] obtain row where row: "owned_row rid t (ws_db s) = Inr row" "kr_trace row = tr" "load_dict (kr_result row) = Inr old" by blast
  with assms show ?thesis
    by (auto simp: report_of_def reading_def kernel_usage_def trace_of_def get_product_run_def to_lifecycle_def steady_def)
qed

lemma outcome_runs:
  assumes "steady env rid t st old us tr s" and "lv_id v = rid" and "lv_tenant v = t"
  shows "runs (outcome_payload env v reqs es pl a None s) (\<lambda>oc s1. oc_run oc = v \<and> s1 = s)"
proof -
  from steady_owned [OF assms(1)] obtain row where row: "owned_row rid t (ws_db s) = Inr row" "load_dict (kr_result row) = Inr old" by blast
  have "\<exists>x. get_report rid t (ws_db s) = Inr x"
    using assms(1) row by (auto simp: get_report_def get_product_run_def to_lifecycle_def steady_def split: option.split)
  with assms(2,3) show ?thesis
    by (auto simp: outcome_payload_def safe_proposal_view_def given_def outcome_report_def reading_def)
qed

section \<open>The approved call\<close>

definition verified_report :: "string \<Rightarrow> requirement list \<Rightarrow> evidence list \<Rightarrow> plan \<Rightarrow> simulation \<Rightarrow> simulation \<Rightarrow> usage list \<Rightarrow> string option \<Rightarrow> release_report" where
  "verified_report rid reqs es pl sm tested us tr = build_release_report ((report_on rid ''verified'' reqs es pl None (Some ''verified''))
     \<lparr>ri_changed := sm_changed sm, ri_tests := map result_dict (sm_results tested), ri_artifacts := [rid @ ''-diff'', rid @ ''-tests''],
      ri_usage := us, ri_trace := tr\<rparr>)"

definition patch_payload :: "string \<Rightarrow> dict" where
  "patch_payload tid = redact_dict [(''node'', JStr ''patch''), (''approval_id'', JStr tid)]"

definition verified_payload :: "plan \<Rightarrow> dict" where
  "verified_payload pl = redact_dict [(''plan_id'', JStr (pl_id pl)), (''report_persisted'', JBool True)]"

lemma verified_runs:
  assumes "plain_env env" and "steady env rid t Running old us tr s" and "fits env (JObj (dict_merge old (verified_payload pl)))"
    and "fits env (JObj (report_dict (verified_report rid reqs es pl sm tested us tr)))" and "\<And>w. fst (wk_close p w) = Inr ()"
  shows "runs (finish_verified env rid t reqs es pl a None None (Injected p) sm tested chg ([rid @ ''-diff'', rid @ ''-tests''], dp, tp) s)
    (\<lambda>oc _. lv_state (oc_run oc) = Verified \<and> lv_id (oc_run oc) = rid)"
proof -
  have close: "runs (worker_close (Injected p) s') (\<lambda>_ s1. steady env rid t st o2 us tr s1)" if "steady env rid t st o2 us tr s'" for s' st o2
  proof -
    obtain r w where c: "wk_close p (ws_world s') = (r, w)" by fastforce
    with assms(5) [of "ws_world s'"] that show ?thesis by (simp add: worker_close_def outside_def steady_def)
  qed
  have outputs: "wf_save_outputs env None None rid t reqs es pl s' = (Inr (), s')" for s' :: "'a workflow_state"
    by (simp add: wf_save_outputs_def)
  show ?thesis
    unfolding finish_verified_def Let_def prod.case
    apply (rule runs_seq, rule report_of_runs, rule assms(2))
    apply (rule runs_seq, rule save_report_runs, use assms(2) in simp, simp add: verified_report_def [symmetric] build_release_report_def report_on_def)
    subgoal using assms(4) by (simp add: verified_report_def)
    apply (rule runs_seq, erule checkpoint_runs [OF assms(1)])
    apply (rule runs_seq, erule record_artifact_runs)
    apply (rule runs_seq, erule record_artifact_runs)
    apply (rule runs_seq, erule event_runs [OF assms(1)])
    apply (rule runs_seq, erule transition_runs [OF assms(1)], simp)
    subgoal using assms(3) by (simp add: verified_payload_def)
    apply (elim conjE)
    apply (simp only: outputs and_then_simps)
    apply (rule runs_seq, erule close)
    apply (rule runs_mono, erule outcome_runs, assumption, assumption, simp)
    done
qed

lemma package_runs:
  assumes "plain_env env" and "steady env rid t st old us tr s"
  shows "runs (package_change env rid t sm chg tests s) (\<lambda>r s1. r = ([rid @ ''-diff'', rid @ ''-tests''], None, None) \<and> steady env rid t st old us tr s1)"
  using assms(1) unfolding package_change_def plain_env_def
  apply (simp only: option.case and_then_simps prod.case append_Nil)
  apply (rule runs_seq, rule record_artifact_runs, rule assms(2))
  apply (rule runs_seq, erule record_artifact_runs)
  apply simp
  done

lemma worker_runs:
  assumes "steady env rid t st old us tr s" and "\<And>w. fst (f w) = Inr x" and "\<And>w. g (Injected p) w = (let (r, w1) = f w in (r, Injected p, w1))"
  shows "runs (use_worker g (Injected p) s) (\<lambda>y s1. y = (x, Injected p) \<and> steady env rid t st old us tr s1)"
proof -
  obtain w1 where "f (ws_world s) = (Inr x, w1)" using assms(2) [of "ws_world s"] by (metis prod.collapse)
  with assms(1,3) show ?thesis by (simp add: use_worker_def steady_def)
qed

lemma run_checks_runs:
  assumes "plain_env env" and "steady env rid t Running old us tr s" and "fits env (JObj (dict_merge old (verified_payload pl)))"
    and "fits env (JObj (report_dict (verified_report rid reqs es pl sm tested us tr)))"
    and "wf_worker env = Some p" and "\<And>w. fst (wk_close p w) = Inr ()"
    and "\<And>w. fst (wk_apply p pl a False (Some (wf_root env, None)) w) = Inr sm" and "sm_success sm"
    and "\<And>w. fst (wk_test p pl w) = Inr tested" and "sm_success tested"
  shows "runs (run_checks env rid t reqs es pl a None None s) (\<lambda>oc _. lv_state (oc_run oc) = Verified \<and> lv_id (oc_run oc) = rid)"
proof -
  have new: "new_worker env None es = Injected p" using assms(5) by (simp add: new_worker_def)
  have wa: "worker_apply env pl a False None (Injected p) w = (let (r, w1) = wk_apply p pl a False (Some (wf_root env, None)) w in (r, Injected p, w1))" for w
    using assms(7) [of w] by (cases "wk_apply p pl a False (Some (wf_root env, None)) w") (simp add: worker_apply_def apply_once_def)
  have patch: "runs (patch_twice env pl a None (Injected p) s) (\<lambda>y s1. y = (sm, Injected p) \<and> steady env rid t Running old us tr s1)"
    unfolding patch_twice_def
    by (rule runs_seq, rule worker_runs [OF assms(2), of "wk_apply p pl a False (Some (wf_root env, None))" sm])
      (use assms(7,8) wa in auto)
  show ?thesis
    unfolding run_checks_def Let_def new
    apply (rule runs_seq, rule patch)
    apply (elim conjE, simp only: prod.case assms(8) not_True_eq_False if_False)
    apply (rule runs_seq, erule checkpoint_runs [OF assms(1)])
    apply (rule runs_seq, erule worker_runs [where f = "wk_test p pl", OF _ assms(9)], simp add: worker_test_def)
    apply (elim conjE, simp only: prod.case assms(10) not_True_eq_False if_False)
    apply (rule runs_seq, erule checkpoint_runs [OF assms(1)])
    subgoal premises prems for x s1 x1 s2 x2 s3 x3 s4
    proof -
      obtain s5 where s5: "package_change env rid t sm (diff_artifact sm ((None :: repository_map option) \<noteq> None)) (test_results tested) s4
          = (Inr ([rid @ ''-diff'', rid @ ''-tests''], None, None), s5)" "steady env rid t Running old us tr s5"
        using package_runs [OF assms(1) prems(6), of sm "diff_artifact sm ((None :: repository_map option) \<noteq> None)" "test_results tested"] by (auto simp: runs_def)
      show ?thesis unfolding s5(1) prod.case sum.case
        by (rule verified_runs [OF assms(1) s5(2) assms(3,4,6)])
    qed
    done
qed

lemma steady_moves:
  assumes "steady env rid t st old us tr s" and "ws_db s' = (ws_db s)\<lparr>k_approvals := x, k_proposal_approvals := y\<rparr>" and "ws_tick s \<le> ws_tick s'"
  shows "steady env rid t st old us tr s'"
  using assms by (auto simp: steady_def find_product_run_def)

lemma steady_later: "steady env rid t st old us tr s \<Longrightarrow> ws_db s' = ws_db s \<Longrightarrow> ws_tick s \<le> ws_tick s' \<Longrightarrow> steady env rid t st old us tr s'"
  by (auto simp: steady_def)

lemma consume_runs:
  assumes "plain_env env" and "steady env rid t Waiting_Approval old us tr s" and "wf_worker env = Some p"
    and "find (\<lambda>x. ka_id x = tid) (k_approvals (ws_db s)) = Some x" and "at_id a = tid"
    and "\<And>n. approval_error (wf_kernel env) rid t ''patch'' None (Some (plan_digest env pl)) (wf_instant env n) x = None"
    and "fits env (JObj (dict_merge old (patch_payload tid)))"
    and "fits env (JObj (dict_merge (dict_merge old (patch_payload tid)) (verified_payload pl)))"
    and "fits env (JObj (report_dict (verified_report rid reqs es pl sm tested us tr)))"
    and "\<And>w. fst (wk_close p w) = Inr ()"
    and "\<And>w c. fst (wk_apply p pl c False (Some (wf_root env, None)) w) = Inr sm" and "sm_success sm"
    and "\<And>w. fst (wk_test p pl w) = Inr tested" and "sm_success tested"
  shows "runs (consume_and_run env rid t reqs es pl a None None s) (\<lambda>oc _. lv_state (oc_run oc) = Verified \<and> lv_id (oc_run oc) = rid)"
proof -
  have "ka_id x = tid" using find_SomeD [OF assms(4)] by simp
  then obtain y s1 u v where c: "on_store env (\<lambda>uid now. atomically (consume_approval (wf_kernel env) (at_id a) rid t ''patch'' None (Some (plan_digest env pl))
         (wf_instant env (ws_tick s)) now)) s = (Inr y, s1)" "at_id y = tid" "ws_db s1 = (ws_db s)\<lparr>k_approvals := u, k_proposal_approvals := v\<rparr>"
      "ws_tick s \<le> ws_tick s1"
    using assms(4-6) by (auto simp: on_store_def atomically_def consume_approval_def to_token_def)
  note started = steady_moves [OF assms(2) c(3,4)]
  show ?thesis
    unfolding consume_and_run_def c(1) prod.case sum.case c(2)
    apply (rule runs_seq, rule event_runs [OF assms(1) started])
    apply (rule runs_seq, erule transition_runs [OF assms(1)], simp)
    subgoal using assms(7) by (simp add: patch_payload_def)
    apply (rule runs_seq, elim conjE, erule checkpoint_runs [OF assms(1)])
    apply (fold patch_payload_def)
    apply (erule run_checks_runs [OF assms(1) _ assms(8,9,3,10,11,12,13,14)])
    done
qed

lemma approved_call_runs:
  assumes "plain_env env" and "steady env rid t Waiting_Approval old us tr s"
    and "find_product_run rid (ws_db s) = Some row" and "find (\<lambda>r. kr_tenant r = t \<and> kr_key r = wq_key q) (k_runs (ws_db s)) = Some row"
    and "wq_tenant q = t" and "wq_mode q = ''verify''" and "wq_snapshot q = None" and "wq_proposal_id q = None" and "wq_approval q = Some a"
    and "kr_hash row = request_hash (wf_kernel env) (AList.update ''repository_snapshot'' (JObj (snapshot_dict (snapshot_of None))) (request_dict q))"
    and "graph_checkpoint_of rid t (ws_db s) = Inr (Some (node, JObj st))"
    and "parse_proposal (wq_proposal q) = Inr parsed"
    and "pack_evidence (wf_pack env) (ws_world s) (wq_proposal q) (ws_index s) = (Inr es, ix)"
    and "build_plan (wf_pack env) (ws_world s) (wq_proposal q) ''verify'' ix = (Inr pl, ix')"
    and "pl_supported pl" and "pl_valid pl" and "pl_mode pl = ''verify''"
    and "\<And>s'. steady env rid t Waiting_Approval old us tr s' \<Longrightarrow> k_approvals (ws_db s') = k_approvals (ws_db s) \<Longrightarrow>
      runs (consume_and_run env rid t (ps_requirements parsed) es pl a None None s') Q"
  shows "runs (run_workflow env q s) (\<lambda>oc _. \<exists>s'. Q oc s')"
proof -
  let ?k = "\<lambda>s'. consume_and_run env rid t (ps_requirements parsed) es pl a None None s'"
  from steady_owned [OF assms(2)] assms(3) have row: "kr_id row = rid" "kr_tenant row = t" "kr_state row = Waiting_Approval" "load_dict (kr_result row) = Inr old"
    by auto
  then obtain v where v: "to_lifecycle row = Inr v" "lv_id v = rid" "lv_state v = Waiting_Approval" by (auto simp: to_lifecycle_def)
  define s1 where "s1 = s\<lparr>ws_tick := ws_tick s + 1\<rparr>"
  define s2 where "s2 = s\<lparr>ws_tick := ws_tick s + 2\<rparr>"
  define s4 where "s4 = s2\<lparr>ws_values := dict_merge (initial_values q None) st\<rparr>"
  have hash: "run_request_hash (wf_kernel env) \<lparr>rq_run = i, rq_tenant = t, rq_key = wq_key q, rq_mode = ''verify'', rq_payload = request_dict q,
      rq_proposal = None, rq_repository = None, rq_trace = None\<rparr> = kr_hash row" for i
    by (simp add: run_request_hash_def assms(10))
  have new: "create_product_run (wf_kernel env) \<lparr>rq_run = i, rq_tenant = t, rq_key = wq_key q, rq_mode = ''verify'', rq_payload = request_dict q,
      rq_proposal = None, rq_repository = None, rq_trace = None\<rparr> uid now (ws_db s) = Inr (v, ws_db s)" for i uid now
    using assms(4) v(1) by (simp add: create_product_run_def check_proposal_def given_def hash)
  have inner: "run_inner env q i None s1 = advance env rid q None v (Some (node, JObj st)) s2" for i
    using assms(5-8,11) v(2,3)
    by (simp add: run_inner_def ensure_proposal_def on_store_def atomically_def new note_trace_def given_def refreshed_run_def reading_def
      s1_def s2_def finished_states_def)
  have adv: "advance env rid q None v (Some (node, JObj st)) s2 = catching (\<lambda>s5. and_then (analyse_again env (wq_proposal q) ''verify'' s5)
      (after_analysis env rid t ''verify'' (Some a) None None)) (run_handler env rid t) s4"
    using assms(5-9) v(3) by (simp add: advance_def lift_result_def local_lite_def restored_values_def object_of_def s4_def)
  obtain s5 where s5: "analyse_again env (wq_proposal q) ''verify'' s4 = (Inr (Inr (ps_requirements parsed, es, pl)), s5)"
    "ws_db s5 = ws_db s" "ws_tick s5 = ws_tick s + 2"
    using assms(12-14) by (auto simp: analyse_again_def lift_result_def with_index_def set_values_def s4_def s2_def)
  have next': "after_analysis env rid t ''verify'' (Some a) None None (Inr (ps_requirements parsed, es, pl)) s5 = ?k s5"
    using assms(11,15-17) s5(2) by (simp add: after_analysis_def wf_verify_def reading_def)
  have "steady env rid t Waiting_Approval old us tr s5" using s5(2,3) by (intro steady_later [OF assms(2)]) auto
  then have "runs (?k s5) Q" using s5(2) by (intro assms(18)) auto
  then obtain oc s6 where k: "?k s5 = (Inr oc, s6)" "Q oc s6" by (auto simp: runs_def)
  have run: "run_inner env q i None s1 = (Inr oc, s6)" for i
    by (simp add: inner adv catching_def s5(1) next' k(1))
  show ?thesis
    using k(2) assms(1) run by (auto simp: run_workflow_def Let_def start_trace_def plain_env_def s1_def)
qed

lemma approved_call_verifies:
  assumes "plain_env env" and "steady env rid t Waiting_Approval old us tr s"
    and "find_product_run rid (ws_db s) = Some row" and "find (\<lambda>r. kr_tenant r = t \<and> kr_key r = wq_key q) (k_runs (ws_db s)) = Some row"
    and "wq_tenant q = t" and "wq_mode q = ''verify''" and "wq_snapshot q = None" and "wq_proposal_id q = None" and "wq_approval q = Some a"
    and "kr_hash row = request_hash (wf_kernel env) (AList.update ''repository_snapshot'' (JObj (snapshot_dict (snapshot_of None))) (request_dict q))"
    and "graph_checkpoint_of rid t (ws_db s) = Inr (Some (node, JObj st))"
    and "parse_proposal (wq_proposal q) = Inr parsed"
    and "pack_evidence (wf_pack env) (ws_world s) (wq_proposal q) (ws_index s) = (Inr es, ix)"
    and "build_plan (wf_pack env) (ws_world s) (wq_proposal q) ''verify'' ix = (Inr pl, ix')"
    and "pl_supported pl" and "pl_valid pl" and "pl_mode pl = ''verify''"
    and "find (\<lambda>x. ka_id x = at_id a) (k_approvals (ws_db s)) = Some x"
    and "\<And>n. approval_error (wf_kernel env) rid t ''patch'' None (Some (plan_digest env pl)) (wf_instant env n) x = None"
    and "wf_worker env = Some p" and "\<And>w. fst (wk_close p w) = Inr ()"
    and "\<And>w c. fst (wk_apply p pl c False (Some (wf_root env, None)) w) = Inr sm" and "sm_success sm"
    and "\<And>w. fst (wk_test p pl w) = Inr tested" and "sm_success tested"
    and "fits env (JObj (dict_merge old (patch_payload (at_id a))))"
    and "fits env (JObj (dict_merge (dict_merge old (patch_payload (at_id a))) (verified_payload pl)))"
    and "fits env (JObj (report_dict (verified_report rid (ps_requirements parsed) es pl sm tested us tr)))"
  shows "\<exists>oc s'. run_workflow env q s = (Inr oc, s') \<and> lv_id (oc_run oc) = rid \<and> lv_state (oc_run oc) = Verified"
proof -
  have "runs (run_workflow env q s) (\<lambda>oc _. \<exists>s'::'a workflow_state. lv_state (oc_run oc) = Verified \<and> lv_id (oc_run oc) = rid)"
    using assms(18) by (intro approved_call_runs [OF assms(1-17)] consume_runs [OF assms(1) _ assms(20) _ refl assms(19,26-28,21-25)]) simp_all
  then show ?thesis by (auto simp: runs_def)
qed

end
