(* ===== verification/Workflow_Properties.thy ===== *)
theory Workflow_Properties
  imports Workflow_Success
begin

text \<open>
  The properties of a run of \<open>services/agent_orchestrator/workflow.py\<close>, with an example that waits for its approval and
  is verified by the second call.
\<close>

section \<open>Evaluation of plain text\<close>

text \<open>Printable characters that no pattern of the redaction and no escape of JSON looks at.\<close>

fun plain_char :: "char \<Rightarrow> bool" where
  "plain_char (Char b0 b1 b2 b3 b4 b5 b6 b7) \<longleftrightarrow> \<not> b7 \<and> (if b6 then Char b0 b1 b2 b3 b4 b5 b6 b7 \<noteq> CHR 0x5C \<and> Char b0 b1 b2 b3 b4 b5 b6 b7 \<noteq> CHR 0x7F
     else b5 \<and> Char b0 b1 b2 b3 b4 b5 b6 b7 \<notin> {CHR 0x22, CHR ''-'', CHR '':'', CHR ''=''})"

lemma plain_json_char: "plain_char c \<Longrightarrow> json_char c = [c]"
proof (cases c)
  case (Char b0 b1 b2 b3 b4 b5 b6 b7)
  then show "plain_char c \<Longrightarrow> json_char c = [c]"
    by (cases b0; cases b1; cases b2; cases b3; cases b4; cases b5; cases b6; cases b7) (simp_all add: json_char_def)
qed

lemma json_char_fast [code]: "json_char c = (if plain_char c then [c] else
    let n = (of_char c :: nat) in
     if n = 34 then [CHR 0x5C, CHR 0x22]
     else if n = 92 then [CHR 0x5C, CHR 0x5C]
     else if n = 10 then [CHR 0x5C, CHR ''n'']
     else if n = 13 then [CHR 0x5C, CHR ''r'']
     else if n = 9 then [CHR 0x5C, CHR ''t'']
     else if n = 8 then [CHR 0x5C, CHR ''b'']
     else if n = 12 then [CHR 0x5C, CHR ''f'']
     else if 32 \<le> n \<and> n \<le> 126 then [c]
     else [CHR 0x5C, CHR ''u'', CHR ''0'', CHR ''0'', hex_char (n div 16), hex_char (n mod 16)])"
proof (cases "plain_char c")
  case False
  then show ?thesis by (simp add: json_char_def)
qed (simp add: plain_json_char)

lemma sub_bounded_none: "(\<And>t u. s = t @ u \<Longrightarrow> u \<noteq> [] \<Longrightarrow> m u = None) \<Longrightarrow> sub_bounded m inside s = s"
proof (induction s arbitrary: inside)
  case (Cons c s)
  have "m (c # s) = None" by (rule Cons.prems [of "[]"]) simp_all
  moreover have "sub_bounded m (word_char c) s = s"
    by (rule Cons.IH) (rule Cons.prems, auto)
  ultimately show ?case by simp
qed simp

lemma plain_not: "list_all plain_char s \<Longrightarrow> CHR ''-'' \<notin> set s \<and> CHR '':'' \<notin> set s \<and> CHR ''='' \<notin> set s"
proof -
  assume p: "list_all plain_char s"
  have "c \<noteq> CHR ''-'' \<and> c \<noteq> CHR '':'' \<and> c \<noteq> CHR ''=''" if "c \<in> set s" for c
    using p that by (auto simp: list_all_iff)
  then show ?thesis by blast
qed

lemma lower_dash: "lower_char c = CHR ''-'' \<Longrightarrow> c = CHR ''-''"
proof -
  assume l: "lower_char c = CHR ''-''"
  show "c = CHR ''-''"
  proof (cases "65 \<le> (of_char c :: nat) \<and> (of_char c :: nat) \<le> 90")
    case True
    with l have "char_of ((of_char c :: nat) + 32) = CHR ''-''" by (simp add: lower_char_def Let_def)
    then have "(of_char (char_of ((of_char c :: nat) + 32) :: char) :: nat) = 45" by simp
    with True show ?thesis by (simp add: of_char_of)
  next
    case False
    with l show ?thesis by (simp add: lower_char_def Let_def split: if_splits)
  qed
qed

lemma separator_sign: "separator s = Some v \<Longrightarrow> CHR '':'' \<in> set s \<or> CHR ''='' \<in> set s"
  by (auto simp: separator_def split: list.splits if_splits dest!: arg_cong [where f = set] intro: ccontr)
    (metis (no_types, lifting) insertCI list.set(2) set_dropWhileD)+

lemma plain_redacted: "list_all plain_char s \<Longrightarrow> kernel_redact_text s = s"
proof -
  assume p: "list_all plain_char s"
  have none: "match_key u = None" "match_credential w u = None" "match_sensitive w u = None" if "s = t @ u" for t u w
  proof -
    have u: "CHR ''-'' \<notin> set u" "CHR '':'' \<notin> set u" "CHR ''='' \<notin> set u" using plain_not [OF p] that by auto
    have "prefix_ci [x, y, CHR ''-''] u \<Longrightarrow> CHR ''-'' \<in> set u" for x y
      by (cases u rule: list.exhaust; cases "tl u"; cases "tl (tl u)") (auto simp: prefix_ci_def lower_def dest: lower_dash)
    with u show "match_key u = None" by (auto simp: match_key_def)
    have "separator (drop n u) = None" for n
      using separator_sign [of "drop n u"] u by (cases "separator (drop n u)") (auto dest: in_set_dropD)
    then show "match_credential w u = None" "match_sensitive w u = None" by (simp_all add: match_credential_def match_sensitive_def)
  qed
  have f: "first_match ms u = None" if "\<forall>m\<in>set ms. m u = None" for ms u
    using that by (induction ms) simp_all
  show ?thesis unfolding kernel_redact_text_def
    by (simp add: sub_bounded_none none f)
qed

lemma kernel_redact_text_fast [code]: "kernel_redact_text s = (if list_all plain_char s then s else
     sub_bounded (first_match (map match_sensitive [''card_number'', ''card'', ''ssn''])) False
       (sub_bounded (first_match (map match_credential [''authorization'', ''password'', ''passwd'', ''secret'', ''token'',
           ''api_key'', ''api-key'', ''apikey''])) False
         (sub_bounded match_key False s)))"
proof (cases "list_all plain_char s")
  case False
  then show ?thesis by (simp add: kernel_redact_text_def)
qed (simp add: plain_redacted)

definition demo_simulation :: simulation where
  "demo_simulation = \<lparr>sm_success = True, sm_action = ''patch'', sm_detail = ''ok'', sm_workspace = None, sm_commit = None, sm_changed = [''services/a.py''],
     sm_diff = None, sm_results = [], sm_error = None\<rparr>"

section \<open>An example\<close>

text \<open>A run that waits with its approval issued, and the second call, which brings the token.\<close>

definition demo_flow :: "unit workflow_env" where
  "demo_flow = \<lparr>wf_kernel = \<lparr>ke_sha = (\<lambda>_. ''h''), ke_float = (\<lambda>_. []), ke_instant = (\<lambda>_. Some 100)\<rparr>,
     wf_digest = \<lparr>dg_sha = (\<lambda>_. ''h''), dg_hmac = (\<lambda>_ _. ''h''), dg_float = (\<lambda>_. [])\<rparr>, wf_pack = demo_pack, wf_boxes = demo_env, wf_root = ''src'',
     wf_patcher = None,
     wf_worker = Some \<lparr>wk_apply = (\<lambda>_ _ _ _ w. (Inr demo_simulation, w)), wk_test = (\<lambda>_ w. (Inr demo_simulation, w)), wk_close = (\<lambda>w. (Inr (), w))\<rparr>,
     wf_model = (\<lambda>_ _ _ _ w. (Inr \<lparr>mo_data = [], mo_input = 1, mo_output = 1, mo_estimated = False\<rparr>, w)), wf_provider = ''fake'', wf_tracer = None,
     wf_graph = None, wf_folder = None, wf_show = (\<lambda>_. []), wf_uid = (\<lambda>n. replicate n CHR ''i''), wf_now = (\<lambda>_. ''now''), wf_expiry = (\<lambda>_. ''later''),
     wf_instant = (\<lambda>_. 5)\<rparr>"

definition demo_db :: kernel_db where
  "demo_db = empty_kernel\<lparr>k_runs := [\<lparr>kr_id = ''r'', kr_tenant = ''t'', kr_key = ''k'', kr_hash = ''h'', kr_mode = ''verify'', kr_state = Waiting_Approval,
       kr_seq = 1, kr_error = None, kr_approval = Some ''a'', kr_result = \<lparr>cell_text = ''{}'', cell_value = Some (JObj [])\<rparr>, kr_created = ''now'',
       kr_updated = ''now'', kr_proposal = None, kr_repository = None, kr_branch = None, kr_commit = None, kr_dirty = False, kr_trace = None\<rparr>],
     k_checkpoints := [\<lparr>gk_run = ''r'', gk_tenant = ''t'', gk_node = ''human_approval'', gk_state = \<lparr>cell_text = ''{}'', cell_value = Some (JObj [])\<rparr>,
       gk_updated = ''now''\<rparr>],
     k_approvals := [\<lparr>ka_id = ''a'', ka_run = ''r'', ka_tenant = ''t'', ka_scopes = [''patch'', ''deliver''], ka_issued = ''now'', ka_expires = ''later'',
       ka_consumed = False, ka_proposal = None, ka_repository = None, ka_branch = None, ka_commit = None, ka_plan = Some ''h''\<rparr>]\<rparr>"

definition demo_waiting :: "unit workflow_state" where
  "demo_waiting = \<lparr>ws_db = demo_db, ws_cache = [], ws_index = default_index, ws_artifacts = [], ws_values = [], ws_world = (), ws_tick = 0\<rparr>"

definition demo_token :: approval_token where
  "demo_token = to_token (hd (k_approvals demo_db))"

definition demo_call :: workflow_request where
  "demo_call = \<lparr>wq_tenant = ''t'', wq_proposal = demo_proposal, wq_mode = ''verify'', wq_key = ''k'', wq_approval = Some demo_token, wq_run = None,
     wq_quota = None, wq_repository = None, wq_snapshot = None, wq_proposal_id = None\<rparr>"

lemma demo_plain: "plain_env demo_flow"
  by (auto simp: plain_env_def demo_flow_def inj_on_def dest: arg_cong [where f = length])

lemma demo_steady: "steady demo_flow ''r'' ''t'' Waiting_Approval [] [] None demo_waiting"
  by (simp add: steady_def demo_waiting_def demo_db_def empty_kernel_def find_product_run_def given_def load_dict_def load_json_def)

lemma demo_ok: "kernel_ok (ws_db demo_waiting)"
  by (simp add: kernel_ok_def demo_waiting_def demo_db_def empty_kernel_def unique_by_def)

lemma demo_not_verified: "product_state (ws_db demo_waiting) ''r'' = Some Waiting_Approval"
  by (simp add: product_state_def find_product_run_def demo_waiting_def demo_db_def empty_kernel_def)

lemma demo_parses: "\<not> isl (parse_proposal demo_proposal)"
  by code_simp

lemma demo_packs: "\<exists>ix. pack_evidence demo_pack () demo_proposal default_index = (Inr [demo_evidence], ix)"
  using demo_pack_evidence by (metis prod.collapse)

definition demo_change :: plan where
  "demo_change = (case fst (build_plan demo_pack () demo_proposal ''verify'' default_index) of Inr p \<Rightarrow> p | Inl _ \<Rightarrow> undefined)"

definition demo_requirements :: "requirement list" where
  "demo_requirements = (case parse_proposal demo_proposal of Inr p \<Rightarrow> ps_requirements p | Inl _ \<Rightarrow> [])"

lemma demo_plans: "case build_plan demo_pack () demo_proposal ''verify'' (snd (pack_evidence demo_pack () demo_proposal default_index)) of
    (Inr p, _) \<Rightarrow> p = demo_change \<and> pl_supported p \<and> pl_valid p \<and> pl_mode p = ''verify'' | (Inl _, _) \<Rightarrow> False"
  by code_simp

lemma demo_fits: "fits demo_flow (JObj (dict_merge [] (patch_payload ''a'')))"
  "fits demo_flow (JObj (dict_merge (dict_merge [] (patch_payload ''a'')) (verified_payload demo_change)))"
  by code_simp+

lemma demo_report_fits: "fits demo_flow (JObj (report_dict (verified_report ''r'' demo_requirements [demo_evidence] demo_change
    demo_simulation demo_simulation [] None)))"
  by code_simp

definition demo_worker :: "unit worker_port" where
  "demo_worker = \<lparr>wk_apply = (\<lambda>_ _ _ _ w. (Inr demo_simulation, w)), wk_test = (\<lambda>_ w. (Inr demo_simulation, w)), wk_close = (\<lambda>w. (Inr (), w))\<rparr>"

lemma demo_row: "find_product_run ''r'' (ws_db demo_waiting) = Some (hd (k_runs demo_db))"
    "find (\<lambda>r. kr_tenant r = ''t'' \<and> kr_key r = wq_key demo_call) (k_runs (ws_db demo_waiting)) = Some (hd (k_runs demo_db))"
  and demo_approval: "find (\<lambda>x. ka_id x = at_id demo_token) (k_approvals (ws_db demo_waiting)) = Some (hd (k_approvals demo_db))"
  by (simp_all add: find_product_run_def demo_waiting_def demo_db_def empty_kernel_def demo_call_def demo_token_def to_token_def)

lemma demo_hash: "kr_hash (hd (k_runs demo_db)) = request_hash (wf_kernel demo_flow) d"
  by (simp add: demo_db_def request_hash_def demo_flow_def)

lemma demo_good: "approval_error (wf_kernel demo_flow) ''r'' ''t'' ''patch'' None (Some (plan_digest demo_flow pl)) (wf_instant demo_flow n)
    (hd (k_approvals demo_db)) = None"
  by (simp add: approval_error_def demo_db_def demo_flow_def plan_digest_def json_digest_def given_def)

lemma demo_checkpoint: "graph_checkpoint_of ''r'' ''t'' (ws_db demo_waiting) = Inr (Some (''human_approval'', JObj []))"
  by (simp add: graph_checkpoint_of_def get_product_run_def owned_row_def find_product_run_def to_lifecycle_def demo_waiting_def demo_db_def
      load_dict_def load_json_def)

lemma demo_request: "wq_tenant demo_call = ''t''" "wq_mode demo_call = ''verify''" "wq_snapshot demo_call = None" "wq_proposal_id demo_call = None"
    "wq_approval demo_call = Some demo_token"
  by (simp_all add: demo_call_def)

lemma demo_works: "wf_worker demo_flow = Some demo_worker" "fst (wk_close demo_worker w) = Inr ()"
    "fst (wk_apply demo_worker pl c False (Some (wf_root demo_flow, None)) w) = Inr demo_simulation" "sm_success demo_simulation"
    "fst (wk_test demo_worker pl w) = Inr demo_simulation"
  by (simp_all add: demo_simulation_def demo_worker_def demo_flow_def)

lemma demo_analysis:
  obtains parsed ix pl ix' where "parse_proposal (wq_proposal demo_call) = Inr parsed"
    "pack_evidence (wf_pack demo_flow) (ws_world demo_waiting) (wq_proposal demo_call) (ws_index demo_waiting) = (Inr [demo_evidence], ix)"
    "build_plan (wf_pack demo_flow) (ws_world demo_waiting) (wq_proposal demo_call) ''verify'' ix = (Inr pl, ix')"
    "pl_supported pl" "pl_valid pl" "pl_mode pl = ''verify''"
    "fits demo_flow (JObj (dict_merge [] (patch_payload (at_id demo_token))))"
    "fits demo_flow (JObj (dict_merge (dict_merge [] (patch_payload (at_id demo_token))) (verified_payload pl)))"
    "fits demo_flow (JObj (report_dict (verified_report ''r'' (ps_requirements parsed) [demo_evidence] pl demo_simulation demo_simulation [] None)))"
proof -
  have q: "wq_proposal demo_call = demo_proposal" "wf_pack demo_flow = demo_pack" "ws_world demo_waiting = ()" "ws_index demo_waiting = default_index"
    "at_id demo_token = ''a''"
    by (simp_all add: demo_call_def demo_flow_def demo_waiting_def demo_token_def to_token_def demo_db_def)
  obtain ix where ix: "pack_evidence demo_pack () demo_proposal default_index = (Inr [demo_evidence], ix)" using demo_packs by blast
  obtain pl ix' where pl: "build_plan demo_pack () demo_proposal ''verify'' ix = (Inr pl, ix')" "pl = demo_change" "pl_supported pl" "pl_valid pl"
    "pl_mode pl = ''verify''" using demo_plans ix by (auto split: prod.splits sum.splits)
  obtain parsed where parsed: "parse_proposal demo_proposal = Inr parsed" using demo_parses by (cases "parse_proposal demo_proposal") auto
  then have "ps_requirements parsed = demo_requirements" by (simp add: demo_requirements_def)
  with ix pl parsed demo_fits demo_report_fits that show thesis unfolding q by auto
qed

lemma demo_run: "\<exists>oc s'. run_workflow demo_flow demo_call demo_waiting = (Inr oc, s') \<and> lv_id (oc_run oc) = ''r'' \<and> lv_state (oc_run oc) = Verified"
proof -
  obtain parsed ix pl ix' where h: "parse_proposal (wq_proposal demo_call) = Inr parsed"
    "pack_evidence (wf_pack demo_flow) (ws_world demo_waiting) (wq_proposal demo_call) (ws_index demo_waiting) = (Inr [demo_evidence], ix)"
    "build_plan (wf_pack demo_flow) (ws_world demo_waiting) (wq_proposal demo_call) ''verify'' ix = (Inr pl, ix')"
    "pl_supported pl" "pl_valid pl" "pl_mode pl = ''verify''"
    "fits demo_flow (JObj (dict_merge [] (patch_payload (at_id demo_token))))"
    "fits demo_flow (JObj (dict_merge (dict_merge [] (patch_payload (at_id demo_token))) (verified_payload pl)))"
    "fits demo_flow (JObj (report_dict (verified_report ''r'' (ps_requirements parsed) [demo_evidence] pl demo_simulation demo_simulation [] None)))"
    by (rule demo_analysis)
  show ?thesis
    by (rule approved_call_verifies [OF demo_plain demo_steady demo_row demo_request demo_hash demo_checkpoint h(1-6) demo_approval demo_good
      demo_works(1-5,4) h(7-9)])
qed

section \<open>Properties\<close>

text \<open>
  C1. A run is verified only with its approval: if a call of \<open>run\<close> leaves a run verified that was not before,
  then it was called in mode \<open>verify\<close> with an approval that was unspent, between the two states of the store
  that approval was consumed for this run, the tenant and the repository of the request and the scope \<open>patch\<close>,
  and it is spent now.
\<close>
theorem verified_run_was_approved:
  assumes "run_workflow env q s = (r, s')" and "product_state (ws_db s') rid = Some Verified" and "product_state (ws_db s) rid \<noteq> Some Verified"
  shows "wq_mode q = ''verify'' \<and> (\<exists>a d1 x d2 plan i now. wq_approval q = Some a \<and> \<not> spent (at_id a) (ws_db s)
     \<and> (kernel_step (wf_kernel env))\<^sup>*\<^sup>* (ws_db s) d1
     \<and> consume_approval (wf_kernel env) (at_id a) rid (wq_tenant q) ''patch'' (wq_snapshot q) plan i now d1 = Inr (x, d2)
     \<and> (kernel_step (wf_kernel env))\<^sup>*\<^sup>* d2 (ws_db s') \<and> spent (at_id a) (ws_db s'))"
proof -
  have "approved_flow (wf_kernel env) q (ws_db s) (ws_db s')" using run_flow [of env q s] assms(1) by simp
  then have "approved_between (wf_kernel env) q rid (ws_db s) (ws_db s')" using assms(2,3) by (auto simp: approved_flow_def)
  then obtain a d1 x d2 plan i now where h: "wq_mode q = ''verify''" "wq_approval q = Some a" "(kernel_step (wf_kernel env))\<^sup>*\<^sup>* (ws_db s) d1"
    "consume_approval (wf_kernel env) (at_id a) rid (wq_tenant q) ''patch'' (wq_snapshot q) plan i now d1 = Inr (x, d2)"
    "(kernel_step (wf_kernel env))\<^sup>*\<^sup>* d2 (ws_db s')"
    by (auto simp: approved_between_def)
  have "\<not> spent (at_id a) (ws_db s)"
  proof
    assume "spent (at_id a) (ws_db s)"
    then have "spent (at_id a) d1" by (rule spent_steps [OF h(3)])
    then obtain m where "consume_approval (wf_kernel env) (at_id a) rid (wq_tenant q) ''patch'' (wq_snapshot q) plan i now d1 = Inl (InvalidApproval m)"
      using spent_refused by blast
    with h(4) show False by simp
  qed
  moreover have "spent (at_id a) (ws_db s')" by (rule spent_steps [OF h(5) consume_spends [OF h(4)]])
  ultimately show ?thesis using h by blast
qed

theorem verified_run_was_approved_witness:
  "\<not> spent (at_id demo_token) (ws_db demo_waiting) \<and> spent (at_id demo_token) (ws_db (snd (run_workflow demo_flow demo_call demo_waiting)))"
proof -
  obtain oc s' where run: "run_workflow demo_flow demo_call demo_waiting = (Inr oc, s')" "lv_id (oc_run oc) = ''r''" "lv_state (oc_run oc) = Verified"
    using demo_run by blast
  have "product_state (ws_db s') ''r'' = Some Verified" using run_workflow_settles [OF demo_ok run(1)] run(2,3) by (simp add: at_rest_def)
  from verified_run_was_approved [OF run(1) this] demo_not_verified have "\<exists>a. wq_approval demo_call = Some a \<and> \<not> spent (at_id a) (ws_db demo_waiting)
      \<and> spent (at_id a) (ws_db s')" by auto
  then show ?thesis using run(1) by (simp add: demo_call_def)
qed



text \<open>
  C39. A run that returns is at rest: the run it answers with is finished (planned, verified, paused, over budget, failed or
  rejected) or waits for an approval, and the store says the same.
\<close>
theorem returned_run_is_at_rest:
  assumes "kernel_ok (ws_db s)" and "run_workflow env q s = (Inr oc, s')"
  shows "lv_state (oc_run oc) \<in> set [Waiting_Approval, Plan_Only, Verified, Kernel_Store.Quota_Paused, Kernel_Store.Budget_Exceeded, Failed,
      Kernel_Store.Rejected] \<and> product_state (ws_db s') (lv_id (oc_run oc)) = Some (lv_state (oc_run oc))"
  using run_workflow_settles [OF assms] by (simp add: at_rest_def finished_states_def)

theorem returned_run_is_at_rest_witness:
  "\<exists>oc s'. run_workflow demo_flow demo_call demo_waiting = (Inr oc, s') \<and> product_state (ws_db s') ''r'' = Some Verified"
proof -
  obtain oc s' where run: "run_workflow demo_flow demo_call demo_waiting = (Inr oc, s')" "lv_id (oc_run oc) = ''r''" "lv_state (oc_run oc) = Verified"
    using demo_run by blast
  with returned_run_is_at_rest [OF demo_ok run(1)] show ?thesis by auto
qed

text \<open>
  C40. The workflow writes the kernel store through its methods only: what a call does to the store is a sequence of the
  store's steps, so a run that was finished before keeps its state and the events of every run stay as they were.
\<close>
theorem run_is_a_sequence_of_store_calls:
  assumes "kernel_ok (ws_db s)" and "run_workflow env q s = (r, s')" and "product_state (ws_db s) rid = Some st" and "st \<in> set finished_states"
  shows "(kernel_step (wf_kernel env))\<^sup>*\<^sup>* (ws_db s) (ws_db s') \<and> product_state (ws_db s') rid = Some st
    \<and> (\<exists>more. events_of (ws_db s') rid = events_of (ws_db s) rid @ more)"
proof -
  have steps: "(kernel_step (wf_kernel env))\<^sup>*\<^sup>* (ws_db s) (ws_db s')" using run_flow [of env q s] assms(2) by (simp add: approved_flow_def)
  have "product_state (ws_db s') rid = Some st"
    by (rule kernel_life.final_stays [OF steps assms(1,3)]) (use assms(4) in \<open>auto simp: finished_states_def\<close>)
  with steps kernel_log.append_only [OF steps assms(1)] show ?thesis by blast
qed

definition demo_failed :: "unit workflow_state" where
  "demo_failed = demo_waiting\<lparr>ws_db := demo_db\<lparr>k_runs := map (kr_state_update (\<lambda>_. Failed)) (k_runs demo_db)\<rparr>\<rparr>"

theorem run_is_a_sequence_of_store_calls_witness:
  "product_state (ws_db (snd (run_workflow demo_flow demo_call demo_failed))) ''r'' = Some Failed"
proof -
  obtain r s' where run: "run_workflow demo_flow demo_call demo_failed = (r, s')" by fastforce
  have "kernel_ok (ws_db demo_failed)" "product_state (ws_db demo_failed) ''r'' = Some Failed" "Failed \<in> set finished_states"
    by (simp_all add: demo_failed_def demo_waiting_def demo_db_def empty_kernel_def kernel_ok_def unique_by_def product_state_def
      find_product_run_def finished_states_def)
  from run_is_a_sequence_of_store_calls [OF this(1) run this(2,3)] run show ?thesis by simp
qed

end
