(* ===== verification/Spec2Isabelle.thy ===== *)
theory Spec2Isabelle
  imports Prelude Ports Credit_Ledger Quota Token_Budget Lifecycle Redaction Json_Text Run_Store Run_Service
    Agent_Worker Billing_Store Py_Value Base64 Billing_Adapters Billing_Service Identity Admin_Operations
    Kernel_Redaction Kernel_Store Kernel_Ledger Maintenance_Gate Control_Auth Delivery Change_Plan Sandbox
    Evaluation Kernel_Views Model_Port Project_Pack Regex Workflow Workflow_Data Workflow_Progress
    Workflow_Properties Workflow_Safety Workflow_Success
begin

text \<open>
  Live Docs: the core of the services, verified.

  Live Docs is a modular monolith in Python: a control plane that accepts runs, a durable run
  ledger, a bounded worker that calls a model, credits, quotas and billing in SQLite, Google sign-in
  with tenants and roles, and a second kernel for repository proposals with approvals, redaction
  and evidence. This development models the parts that hold state or decide something. The TypeScript
  front end, the shell hooks and the deployment files are outside it.

  \<^bold>\<open>How the parts interact.\<close> A request enters the run service, which creates the row of the run
  (run store), admits it (quota counter), holds credits for it (credit ledger) and hands it to the
  workflow engine. The engine calls the agent worker, which claims the run, calls the model within its
  limits, writes checkpoints and events to the run store and finally charges or releases the
  reservation. Credits come from paid orders: the billing service creates orders, verifies provider
  webhooks through the payment adapters and applies their events to the billing store, whose account
  table the credit ledger shares. Administrators change plans and credits through the admin operations,
  which rest on the identity boundary. The kernel store keeps proposal runs, approvals and evidence of
  the second product. The maintenance gate decides whether a change may be merged.

  \<^bold>\<open>Theories and sources.\<close>
  \<^item> \<open>Prelude\<close>: exceptions, JSON values, tables, transactions, sequencing of calls, text.
  \<^item> \<open>Ports\<close>: \<open>services/metering_billing/ports.py\<close> and \<open>quota.py\<close> (the two
    protocols), as records of operations with the locales of their laws.
  \<^item> \<open>Lifecycle\<close>: the contracts of a state column and of an event log, interpreted by
    \<open>Run_Store\<close>, \<open>Billing_Store\<close> and \<open>Kernel_Ledger\<close>.
  \<^item> \<open>Credit_Ledger\<close>: \<open>services/metering_billing/runtime.py\<close>; the four tables are the
    fields of \<open>credit_db\<close>, one function per method, each inside \<open>_Transaction\<close>.
  \<^item> \<open>Quota\<close>: \<open>services/metering_billing/quota.py\<close>.
  \<^item> \<open>Token_Budget\<close>: \<open>agent_platform/budgets.py\<close>.
  \<^item> \<open>Redaction\<close>, \<open>Json_Text\<close>, \<open>Run_Store\<close>: \<open>services/run_service/models.py\<close>
    and \<open>store.py\<close>.
  \<^item> \<open>Run_Service\<close>: \<open>services/run_service/service.py\<close> and \<open>workflow.py\<close>.
  \<^item> \<open>Agent_Worker\<close>: \<open>services/agent_worker/runtime.py\<close> and \<open>workflow.py\<close>.
  \<^item> \<open>Billing_Store\<close>, \<open>Billing_Adapters\<close> (with \<open>Py_Value\<close> and \<open>Base64\<close>),
    \<open>Billing_Service\<close>: \<open>services/billing\<close>.
  \<^item> \<open>Identity\<close>: \<open>services/identity_tenant\<close>.
  \<^item> \<open>Admin_Operations\<close>: \<open>services/admin_operations/service.py\<close> and the durable ledger of
    \<open>foundation/local_runtime.py\<close>.
  \<^item> \<open>Kernel_Redaction\<close>, \<open>Kernel_Store\<close>, \<open>Kernel_Ledger\<close>:
    \<open>agent_platform/redaction.py\<close>, \<open>storage.py\<close>, \<open>contracts.py\<close>.
  \<^item> \<open>Maintenance_Gate\<close>: \<open>lib/maintenance_gate.py\<close>.
  \<^item> \<open>Control_Auth\<close>: \<open>services/control_api/auth.py\<close>.
  \<^item> \<open>Delivery\<close>: \<open>agent_platform/cache.py\<close>, \<open>services/delivery_gateway\<close>.
  \<^item> \<open>Change_Plan\<close>: the plan records of \<open>agent_platform/contracts.py\<close>.
  \<^item> \<open>Sandbox\<close>: \<open>services/sandbox_worker/sandbox.py\<close>.
  \<^item> \<open>Kernel_Views\<close>: the read side of \<open>agent_platform/storage.py\<close>.
  \<^item> \<open>Evaluation\<close>: \<open>services/evaluation/metrics.py\<close>, \<open>report.py\<close>.
  \<^item> \<open>Regex\<close>, \<open>Project_Pack\<close>: \<open>project_packs/proposal_to_verified_change\<close> and the module \<open>re\<close> it uses.
  \<^item> \<open>Model_Port\<close>: \<open>services/agent_orchestrator/model_port.py\<close>.
  \<^item> \<open>Workflow_Data\<close>, \<open>Workflow\<close>: \<open>services/agent_orchestrator/workflow.py\<close>, the run from a proposal to a
    verified change over the theories above.
  \<^item> \<open>Workflow_Safety\<close>, \<open>Workflow_Progress\<close>, \<open>Workflow_Success\<close>, \<open>Workflow_Properties\<close>: what a run keeps (locales
    \<open>store_client\<close> and \<open>approving_client\<close>), where it ends, when it gets verified, and the properties.

  \<^bold>\<open>State and operations.\<close> A database is a record with one list of rows per table, in insertion
  order; a query is \<open>find\<close> or \<open>filter\<close>, an update \<open>update_where\<close>, a violated key an
  \<open>IntegrityError\<close>. A method becomes a function that returns an exception or a result with the new
  database; what it raises inside a transaction leaves the database as it was. A call that crosses
  components returns the outcome paired with the whole world, because an exception there does not undo
  what was committed before. Fresh identifiers and clock readings are arguments.

  \<^bold>\<open>What the lemmas show.\<close> Each store has an invariant kept by every operation (\<open>credit_inv\<close>,
  \<open>quota_inv\<close>, \<open>run_ok\<close>, \<open>bill_ok\<close>, \<open>kernel_ok\<close>), lifted to all reachable states by
  rule induction on its step relation. Above it stand the properties: money (a reservation is charged at
  most once, balances are what was paid, nothing is left held), limits (quotas and token budgets are never
  exceeded, the model is asked boundedly), logs (gap-free, append-only, replayable), finality of states,
  idempotence of retries, authentication and authorization, and the refinement of the billing
  store to the state machine of one order.

  \<^bold>\<open>Bounds.\<close> Integers of Python and SQLite are unbounded \<open>int\<close>; no theorem needs a bound on
  them. Loops are structural or carry a measure: the worker's loop ends because the step grows towards
  \<open>max_steps\<close>. There is no fuel. Text is a list of characters with code points below 256; what the
  code does on other characters is not covered.

  \<^bold>\<open>Parameters and hypotheses.\<close> SHA-256 and HMAC, the JSON decoder, \<open>datetime.fromisoformat\<close>,
  the rendering of floats, network requests, the model and the workflow engine are arguments of the
  definitions that use them. Theorems assume of them at most what their documentation states, and that fresh
  identifiers are fresh; every theorem with a hypothesis has a witness.

  \<^bold>\<open>Not modelled.\<close> HTTP serving and routing (\<open>services/control_api/http.py\<close>,
  \<open>foundation/server.py\<close>) and configuration files: input and output around the modelled services.
  \<open>tools/\<close>, \<open>scripts/\<close> and \<open>evaluators/\<close>: operator tooling that talks to Linear, GitHub and the
  file system. \<open>services/evaluation/ragas_metrics.py\<close>, \<open>services/proposal_review\<close>,
  \<open>services/repository_context\<close> and \<open>services/control_api/repository_catalog.py\<close>: document
  parsing, git subprocesses and external metrics libraries, left for later.
  \<open>services/observability\<close>: exporters that never decide anything. Threads and locks are not
  modelled: every operation is atomic, as \<open>BEGIN IMMEDIATE\<close> under a lock makes it.
\<close>

end
